(* ===== verification/Prelude.thy ===== *)
theory Prelude
  imports Complex_Main "HOL-Library.Word" "HOL-Library.State_Monad" "HOL-Library.Sublist"
begin

text \<open>
  What every component of the development shares: Go errors as values, the state-passing
  reading of effectful Go code with a small weakest-precondition calculus (\<open>wp\<close>), and the
  part of Go's \<^verbatim>\<open>strings\<close>, \<^verbatim>\<open>strconv\<close> and \<^verbatim>\<open>fmt\<close> packages the sources use.

  A Go \<^verbatim>\<open>string\<close> is a sequence of bytes and becomes a HOL \<open>string\<close> (a list of 8-bit
  characters). An \<^verbatim>\<open>int64\<close> is a \<open>64 word\<close> read with \<open>sint\<close>; \<open>+\<close> and \<open>-\<close> wrap as in Go.
\<close>

named_theorems wp "rewrite rules of the weakest-precondition calculus"
named_theorems go_defs "definitions of small Go helpers that component proofs unfold"

type_synonym i64 = "64 word"

section \<open>Errors\<close>

text \<open>
  A Go \<^verbatim>\<open>error\<close> is an error of the Kubernetes API (with the reason that
  \<^verbatim>\<open>errors.IsNotFound\<close> and its siblings inspect), a plain text, or a wrapped error
  (\<^verbatim>\<open>fmt.Errorf("prefix: %w", err)\<close>). The reason functions of apimachinery use
  \<^verbatim>\<open>errors.As\<close>, so they see through wrapping. A run-time panic that nothing recovers ends the
  function; it is the value \<open>Panic\<close>, which no branch of the sources inspects.
\<close>

datatype reason = ReasonNotFound | ReasonAlreadyExists | ReasonConflict | ReasonInvalid
  | ReasonForbidden | ReasonUnknown

datatype error = ApiError reason string | ErrorString string | WrapError string error | Panic string

fun Error :: "error \<Rightarrow> string" where
  "Error (ApiError r s) = s"
| "Error (ErrorString s) = s"
| "Error (WrapError p e) = p @ '': '' @ Error e"
| "Error (Panic s) = s"

fun ReasonForError :: "error \<Rightarrow> reason" where
  "ReasonForError (ApiError r s) = r"
| "ReasonForError (ErrorString s) = ReasonUnknown"
| "ReasonForError (WrapError p e) = ReasonForError e"
| "ReasonForError (Panic s) = ReasonUnknown"

definition IsNotFound :: "error \<Rightarrow> bool" where
  "IsNotFound e \<longleftrightarrow> ReasonForError e = ReasonNotFound"

definition IsInvalid :: "error \<Rightarrow> bool" where
  "IsInvalid e \<longleftrightarrow> ReasonForError e = ReasonInvalid"

definition IsForbidden :: "error \<Rightarrow> bool" where
  "IsForbidden e \<longleftrightarrow> ReasonForError e = ReasonForbidden"

section \<open>Effectful code: state passing and weakest preconditions\<close>

text \<open>
  A Go function with effects is a value of the state monad over the type \<open>'w\<close> of worlds. A
  pair \<^verbatim>\<open>(T, error)\<close> is \<open>error + T\<close>, a lone \<^verbatim>\<open>error\<close> is \<open>error option\<close> (\<open>None\<close> is nil).
  \<open>wp m Q w\<close> says that running \<open>m\<close> in \<open>w\<close> ends with a result and a world that satisfy \<open>Q\<close>.
\<close>

definition wp :: "('w, 'a) state \<Rightarrow> ('a \<Rightarrow> 'w \<Rightarrow> bool) \<Rightarrow> 'w \<Rightarrow> bool" where
  "wp m Q w = (case run_state m w of (a, w') \<Rightarrow> Q a w')"

lemma wp_return [wp]: "wp (State_Monad.return x) Q w = Q x w"
  by (simp add: wp_def State_Monad.return_def)

lemma wp_return_fun: "wp (State_Monad.return x) Q = Q x"
  by (rule ext) (rule wp_return)

lemma wp_bind [wp]: "wp (State_Monad.bind m f) Q w = wp m (\<lambda>a. wp (f a) Q) w"
  by (simp add: wp_def State_Monad.bind_def split: prod.split)

lemma wp_if [wp]: "wp (if b then m else n) Q w = (if b then wp m Q w else wp n Q w)"
  by simp

lemma wp_case_sum [wp]:
  "wp (case r of Inl e \<Rightarrow> f e | Inr x \<Rightarrow> g x) Q w =
   (case r of Inl e \<Rightarrow> wp (f e) Q w | Inr x \<Rightarrow> wp (g x) Q w)"
  by (cases r) simp_all

lemma wp_case_option [wp]:
  "wp (case r of None \<Rightarrow> f | Some x \<Rightarrow> g x) Q w =
   (case r of None \<Rightarrow> wp f Q w | Some x \<Rightarrow> wp (g x) Q w)"
  by (cases r) simp_all

lemma wp_case_prod [wp]:
  "wp (case r of (x, y) \<Rightarrow> f x y) Q w = (case r of (x, y) \<Rightarrow> wp (f x y) Q w)"
  by (cases r) simp

lemma wp_Let [wp]: "wp (Let t f) Q w = Let t (\<lambda>x. wp (f x) Q w)"
  by (simp add: Let_def)

lemma wp_mono: "wp m Q w \<Longrightarrow> (\<And>a w'. Q a w' \<Longrightarrow> R a w') \<Longrightarrow> wp m R w"
  by (auto simp: wp_def split: prod.splits)

lemma wp_run: "wp m Q w \<Longrightarrow> run_state m w = (a, w') \<Longrightarrow> Q a w'"
  by (simp add: wp_def)

lemma run_wp: "(\<And>a w'. run_state m w = (a, w') \<Longrightarrow> Q a w') \<Longrightarrow> wp m Q w"
  by (simp add: wp_def split: prod.splits)

lemma wp_iff_run: "wp m Q w \<longleftrightarrow> (\<forall>a w'. run_state m w = (a, w') \<longrightarrow> Q a w')"
  by (auto simp: wp_def split: prod.splits)

lemma wp_conj: "wp m Q w \<Longrightarrow> wp m R w \<Longrightarrow> wp m (\<lambda>r w'. Q r w' \<and> R r w') w"
  by (simp add: wp_iff_run)

lemma run_bind: "run_state (State_Monad.bind m f) w = (case run_state m w of (a, w') \<Rightarrow> run_state (f a) w')"
  by (simp add: State_Monad.bind_def)

lemma run_return: "run_state (State_Monad.return x) w = (x, w)"
  by (simp add: State_Monad.return_def)

lemmas run_simps = run_bind run_return

text \<open>A work queue: one call per request, in order; what every call keeps, the whole run keeps.\<close>

fun run_queue :: "('k \<Rightarrow> ('w, 'r) state) \<Rightarrow> 'k list \<Rightarrow> ('w, 'r list) state" where
  "run_queue f [] = State_Monad.return []"
| "run_queue f (n # ns) = do { r \<leftarrow> f n; rs \<leftarrow> run_queue f ns; State_Monad.return (r # rs) }"

lemma wp_run_queue:
  assumes "\<And>n w. I w \<Longrightarrow> wp (f n) (\<lambda>_ w'. I w') w" and "I w"
  shows "wp (run_queue f ns) (\<lambda>_ w'. I w') w"
  using assms(2)
proof (induction ns arbitrary: w)
  case Nil
  then show ?case by (simp add: wp)
next
  case (Cons n ns)
  show ?case
    unfolding run_queue.simps wp_bind
    by (rule wp_mono[OF assms(1)[OF Cons.prems]]) (simp add: wp_return_fun Cons.IH)
qed

section \<open>Strings\<close>

abbreviation newline :: string where "newline \<equiv> [CHR 0x0A]"
abbreviation tab :: string where "tab \<equiv> [CHR 0x09]"

definition HasPrefix :: "string \<Rightarrow> string \<Rightarrow> bool" where
  "HasPrefix s p \<longleftrightarrow> take (length p) s = p"

definition TrimPrefix :: "string \<Rightarrow> string \<Rightarrow> string" where
  "TrimPrefix s p = (if HasPrefix s p then drop (length p) s else s)"

text \<open>\<^verbatim>\<open>strings.ReplaceAll(s, c, r)\<close> for a one-byte \<open>c\<close>, the only form the sources use.\<close>

definition ReplaceAll :: "string \<Rightarrow> char \<Rightarrow> string \<Rightarrow> string" where
  "ReplaceAll s c r = concat (map (\<lambda>x. if x = c then r else [x]) s)"

fun Join :: "string list \<Rightarrow> string \<Rightarrow> string" where
  "Join [] sep = []"
| "Join [x] sep = x"
| "Join (x # y # ys) sep = x @ sep @ Join (y # ys) sep"

fun Contains :: "string \<Rightarrow> string \<Rightarrow> bool" where
  "Contains [] p = (p = [])"
| "Contains (c # s) p = (HasPrefix (c # s) p \<or> Contains s p)"

text \<open>\<^verbatim>\<open>strings.Split(s, c)\<close> for a one-byte separator: always at least one piece.\<close>

fun Split :: "string \<Rightarrow> char \<Rightarrow> string list" where
  "Split [] c = [[]]"
| "Split (x # s) c =
     (if x = c then [] # Split s c
      else (case Split s c of [] \<Rightarrow> [[x]] | p # ps \<Rightarrow> (x # p) # ps))"

definition is_space :: "char \<Rightarrow> bool" where
  "is_space c \<longleftrightarrow> c \<in> {CHR 0x09, CHR 0x0A, CHR 0x0B, CHR 0x0C, CHR 0x0D, CHR 0x20}"

definition TrimSpace :: "string \<Rightarrow> string" where
  "TrimSpace s = rev (dropWhile is_space (rev (dropWhile is_space s)))"

text \<open>\<^verbatim>\<open>strings.Fields\<close>: the maximal runs of characters that are not white space.\<close>

function Fields :: "string \<Rightarrow> string list" where
  "Fields s =
     (case dropWhile is_space s of
        [] \<Rightarrow> []
      | c # r \<Rightarrow> (c # takeWhile (\<lambda>x. \<not> is_space x) r)
                  # Fields (dropWhile (\<lambda>x. \<not> is_space x) r))"
  by pat_completeness auto
termination
proof (relation "measure length", goal_cases)
  case 1
  show ?case by simp
next
  case (2 s c r)
  have "length (dropWhile (\<lambda>x. \<not> is_space x) r) \<le> length r" by (rule length_dropWhile_le)
  moreover have "length (c # r) \<le> length s" using length_dropWhile_le[of is_space s] 2 by simp
  ultimately show ?case by simp
qed

declare Fields.simps [simp del]

definition to_lower :: "char \<Rightarrow> char" where
  "to_lower c = (let n = (of_char c :: nat) in if 65 \<le> n \<and> n \<le> 90 then char_of (n + 32) else c)"

definition ToLower :: "string \<Rightarrow> string" where
  "ToLower s = map to_lower s"

text \<open>
  \<^verbatim>\<open>%q\<close>: the text between double quotes with Go's escapes. Bytes from 0x80 on are passed through;
  Go does the same for printable UTF-8, and Kubernetes names are ASCII.
\<close>

definition hex_digit :: "nat \<Rightarrow> char" where
  "hex_digit n = (if n < 10 then char_of (48 + n) else char_of (87 + n))"

definition quote_char :: "char \<Rightarrow> string" where
  "quote_char c =
     (if c = CHR 0x22 then [CHR 0x5C, CHR 0x22]
      else if c = CHR 0x5C then [CHR 0x5C, CHR 0x5C]
      else if c = CHR 0x07 then [CHR 0x5C, CHR ''a'']
      else if c = CHR 0x08 then [CHR 0x5C, CHR ''b'']
      else if c = CHR 0x0C then [CHR 0x5C, CHR ''f'']
      else if c = CHR 0x0A then [CHR 0x5C, CHR ''n'']
      else if c = CHR 0x0D then [CHR 0x5C, CHR ''r'']
      else if c = CHR 0x09 then [CHR 0x5C, CHR ''t'']
      else if c = CHR 0x0B then [CHR 0x5C, CHR ''v'']
      else (let n = (of_char c :: nat) in
            if n < 32 \<or> n = 127 then [CHR 0x5C, CHR ''x'', hex_digit (n div 16), hex_digit (n mod 16)]
            else [c]))"

definition Quote :: "string \<Rightarrow> string" where
  "Quote s = [CHR 0x22] @ concat (map quote_char s) @ [CHR 0x22]"

section \<open>Decimal numbers\<close>

fun show_nat :: "nat \<Rightarrow> string" where
  "show_nat n = (if n < 10 then [char_of (48 + n)] else show_nat (n div 10) @ [char_of (48 + n mod 10)])"

declare show_nat.simps [simp del]

definition show_int :: "int \<Rightarrow> string" where
  "show_int i = (if i < 0 then ''-'' @ show_nat (nat (- i)) else show_nat (nat i))"

text \<open>\<^verbatim>\<open>%d\<close> of an \<^verbatim>\<open>int64\<close>.\<close>

definition show_i64 :: "i64 \<Rightarrow> string" where
  "show_i64 w = show_int (sint w)"

definition is_digit :: "char \<Rightarrow> bool" where
  "is_digit c \<longleftrightarrow> 48 \<le> (of_char c :: nat) \<and> (of_char c :: nat) \<le> 57"

definition read_nat :: "string \<Rightarrow> nat" where
  "read_nat s = foldl (\<lambda>n c. 10 * n + (of_char c - 48)) 0 s"

text \<open>
  \<^verbatim>\<open>n, _ := strconv.ParseInt(s, 10, 64)\<close> with the error discarded: a syntax error gives 0, a
  value out of range gives the nearest bound.
\<close>

definition ParseInt :: "string \<Rightarrow> i64" where
  "ParseInt s =
     (let neg = (case s of [] \<Rightarrow> False | c # _ \<Rightarrow> c = CHR ''-'');
          ds = (case s of [] \<Rightarrow> [] | c # r \<Rightarrow> if c = CHR ''-'' \<or> c = CHR ''+'' then r else s);
          v = (if neg then - int (read_nat ds) else int (read_nat ds))
      in if ds = [] \<or> \<not> list_all is_digit ds then 0
         else if v < - (2 ^ 63) then word_of_int (- (2 ^ 63))
         else if 2 ^ 63 \<le> v then word_of_int (2 ^ 63 - 1)
         else word_of_int v)"

lemma of_char_digit: "n < 10 \<Longrightarrow> of_char (char_of (48 + n :: nat)) = (48 + n :: nat)"
  by (simp add: of_char_of)

lemma read_nat_snoc: "read_nat (s @ [c]) = 10 * read_nat s + (of_char c - 48)"
  by (simp add: read_nat_def)

lemma read_show_nat [simp]: "read_nat (show_nat n) = n"
proof (induction n rule: show_nat.induct)
  case (1 n)
  show ?case
  proof (cases "n < 10")
    case True
    then show ?thesis by (subst show_nat.simps) (simp add: read_nat_def of_char_digit)
  next
    case False
    have "n mod 10 < 10" by simp
    then have "of_char (char_of (48 + n mod 10 :: nat)) - 48 = (n mod 10 :: nat)"
      by (simp add: of_char_digit)
    with False "1.IH" show ?thesis by (subst show_nat.simps) (simp add: read_nat_snoc)
  qed
qed

lemma show_nat_inject [simp]: "show_nat m = show_nat n \<longleftrightarrow> m = n"
  using read_show_nat by metis

lemma show_nat_not_Nil [simp]: "show_nat n \<noteq> []"
  by (subst show_nat.simps) simp

lemma is_digit_char_of: "n < 10 \<Longrightarrow> is_digit (char_of (48 + n :: nat))"
  by (simp add: is_digit_def of_char_digit)

lemma show_nat_digits: "list_all is_digit (show_nat n)"
proof (induction n rule: show_nat.induct)
  case (1 n)
  show ?case
  proof (cases "n < 10")
    case True
    then show ?thesis by (subst show_nat.simps) (simp add: is_digit_char_of)
  next
    case False
    have "is_digit (char_of (48 + n mod 10 :: nat))" by (rule is_digit_char_of) simp
    with False "1.IH" show ?thesis by (subst show_nat.simps) simp
  qed
qed

lemma hd_show_nat: "c \<in> set (show_nat n) \<Longrightarrow> is_digit c"
  using show_nat_digits[of n] by (simp add: list_all_iff)

lemma not_digit_minus [simp]: "\<not> is_digit (CHR ''-'')" "\<not> is_digit (CHR ''+'')"
  by (simp_all add: is_digit_def)

lemma show_int_inject [simp]: "show_int i = show_int j \<longleftrightarrow> i = j"
proof -
  have neg: "CHR ''-'' # s \<noteq> show_nat n" for s n
    using hd_show_nat[of "CHR ''-''" n] by (metis list.set_intros(1) not_digit_minus(1))
  show ?thesis
    by (auto simp: show_int_def neg neg[symmetric] eq_nat_nat_iff)
qed

text \<open>\<^verbatim>\<open>strconv.ParseInt\<close> reads back what \<^verbatim>\<open>%d\<close> printed.\<close>

lemma ParseInt_show_i64: "ParseInt (show_i64 w) = w"
proof -
  have lo: "- (2 ^ 63) \<le> sint w" and hi: "sint w < 2 ^ 63"
    using sint_ge[of w] sint_lt[of w] by simp_all
  show ?thesis
  proof (cases "sint w < 0")
    case True
    then have s: "show_i64 w = CHR ''-'' # show_nat (nat (- sint w))"
      by (simp add: show_i64_def show_int_def)
    show ?thesis using True lo hi
      by (simp add: s ParseInt_def Let_def show_nat_digits)
  next
    case False
    then have s: "show_i64 w = show_nat (nat (sint w))"
      by (simp add: show_i64_def show_int_def)
    obtain c r where cr: "show_nat (nat (sint w)) = c # r"
      using show_nat_not_Nil by (metis list.exhaust)
    then have "is_digit c" using hd_show_nat[of c "nat (sint w)"] by simp
    then have c: "c \<noteq> CHR ''-''" "c \<noteq> CHR ''+''" using not_digit_minus by metis+
    have v: "read_nat (c # r) = nat (sint w)" and d: "list_all is_digit (c # r)"
      using read_show_nat[of "nat (sint w)"] show_nat_digits[of "nat (sint w)"] by (simp_all only: cr)
    have "ParseInt (c # r) = word_of_int (sint w)"
      using False lo hi c v d by (simp add: ParseInt_def Let_def)
    then show ?thesis by (simp add: s cr)
  qed
qed

section \<open>Lemmas on lists\<close>

lemma HasPrefix_append [simp]: "HasPrefix (p @ s) p"
  by (simp add: HasPrefix_def)

lemma HasPrefix_iff: "HasPrefix s p \<longleftrightarrow> (\<exists>t. s = p @ t)"
  by (metis HasPrefix_append HasPrefix_def append_take_drop_id)

lemma TrimPrefix_append [simp]: "TrimPrefix (p @ s) p = s"
  by (simp add: TrimPrefix_def)

lemma Contains_iff: "Contains s p \<longleftrightarrow> (\<exists>u v. s = u @ p @ v)"
proof (induction s)
  case Nil
  then show ?case by auto
next
  case (Cons c s)
  have "(\<exists>u v. c # s = u @ p @ v) \<longleftrightarrow> (\<exists>v. c # s = p @ v) \<or> (\<exists>u v. s = u @ p @ v)"
    by (metis Cons_eq_append_conv append_Cons append_Nil)
  with Cons show ?case by (simp add: HasPrefix_iff)
qed

lemma ReplaceAll_Nil [simp]: "ReplaceAll [] c r = []"
  by (simp add: ReplaceAll_def)

lemma ReplaceAll_Cons [simp]:
  "ReplaceAll (x # s) c r = (if x = c then r else [x]) @ ReplaceAll s c r"
  by (simp add: ReplaceAll_def)

lemma Join_append:
  "xs \<noteq> [] \<Longrightarrow> ys \<noteq> [] \<Longrightarrow> Join (xs @ ys) sep = Join xs sep @ sep @ Join ys sep"
proof (induction xs rule: induct_list012)
  case 1
  then show ?case by simp
next
  case (2 x)
  then show ?case by (cases ys) simp_all
next
  case (3 x y zs)
  then show ?case by simp
qed

lemma Split_not_Nil [simp]: "Split s c \<noteq> []"
  by (induction s) (auto split: list.splits)

text \<open>Joining and splitting on a separator that no piece contains are inverse.\<close>

lemma Split_no_sep: "c \<notin> set s \<Longrightarrow> Split s c = [s]"
  by (induction s) auto

lemma Split_append_sep: "c \<notin> set s \<Longrightarrow> Split (s @ c # t) c = s # Split t c"
  by (induction s) auto

lemma Split_Join:
  "xs \<noteq> [] \<Longrightarrow> (\<And>x. x \<in> set xs \<Longrightarrow> c \<notin> set x) \<Longrightarrow> Split (Join xs [c]) c = xs"
proof (induction xs rule: induct_list012)
  case 1
  then show ?case by simp
next
  case (2 x)
  then show ?case by (simp add: Split_no_sep)
next
  case (3 x y zs)
  then show ?case by (simp add: Split_append_sep)
qed

lemma Join_Split: "Join (Split s c) [c] = s"
proof (induction s)
  case Nil
  then show ?case by simp
next
  case (Cons x s)
  obtain p ps where "Split s c = p # ps" using Split_not_Nil by (metis list.exhaust)
  with Cons show ?case by (cases ps) auto
qed

end
