(* ===== verification/Float64.thy ===== *)
theory Float64
  imports Prelude "HOL-Library.Log_Nat"
begin

text \<open>
  Go's \<^verbatim>\<open>float64\<close>: IEEE 754 binary64 with rounding to nearest, ties to even. A finite value is the
  rational number it denotes, so the two zeros are one value (the sources never divide by a
  zero that could be negative and never print a float). Every operation computes exactly and rounds
  once; \<open>rnd\<close> is executable. The lemmas show that rounding is monotone, exact on the
  53-bit grid, and idempotent, which is what the score and threshold arguments rest on.
\<close>

section \<open>Rounding a rational number\<close>

definition pow2 :: "int \<Rightarrow> rat" where
  "pow2 e = (if 0 \<le> e then 2 ^ nat e else 1 / 2 ^ nat (- e))"

definition ilog2 :: "rat \<Rightarrow> int" where
  "ilog2 x = (let (p, q) = quotient_of x; k = bitlen p - bitlen q
              in if pow2 k \<le> x then k else k - 1)"

definition rne :: "rat \<Rightarrow> int" where
  "rne y = (let n = \<lfloor>y\<rfloor>; d = y - of_int n
            in if d < 1 / 2 then n else if 1 / 2 < d then n + 1
               else if even n then n else n + 1)"

definition fexp :: "rat \<Rightarrow> int" where
  "fexp x = max (- 1074) (ilog2 \<bar>x\<bar> - 52)"

definition rnd :: "rat \<Rightarrow> rat" where
  "rnd x = (if x = 0 then 0 else of_int (rne (x / pow2 (fexp x))) * pow2 (fexp x))"

subsection \<open>Powers of two\<close>

lemma pow2_powi: "pow2 e = 2 powi e"
  by (simp add: pow2_def power_int_def field_simps)

lemma pow2_pos [simp]: "0 < pow2 e"
  by (simp add: pow2_def)

lemma pow2_nonneg [simp]: "0 \<le> pow2 e" and pow2_neq0 [simp]: "pow2 e \<noteq> 0"
  using pow2_pos[of e] by linarith+

lemma pow2_add: "pow2 (a + b) = pow2 a * pow2 b"
  by (simp add: pow2_powi power_int_add)

lemma pow2_diff: "pow2 (a - b) = pow2 a / pow2 b"
  by (simp add: pow2_powi power_int_diff)

lemma pow2_mono: "a \<le> b \<Longrightarrow> pow2 a \<le> pow2 b"
  by (simp add: pow2_powi power_int_increasing)

lemma pow2_less_iff [simp]: "pow2 a < pow2 b \<longleftrightarrow> a < b"
  by (metis linorder_not_less order_le_less pow2_mono pow2_powi power_int_strict_increasing
      one_less_numeral_iff semiring_norm(76))

lemma pow2_nat: "0 \<le> e \<Longrightarrow> pow2 e = of_int (2 ^ nat e)"
  by (simp add: pow2_def)

lemma pow2_0 [simp]: "pow2 0 = 1"
  by (simp add: pow2_def)

subsection \<open>The binary exponent\<close>

lemma bitlen_pow2_bounds:
  assumes "0 < n" shows "pow2 (bitlen n - 1) \<le> of_int n" and "of_int n < pow2 (bitlen n)"
proof -
  have b: "2 ^ nat (bitlen n - 1) \<le> n \<and> n < 2 ^ nat (bitlen n)"
    by (rule bitlen_bounds[OF assms])
  have "1 \<le> bitlen n" using bitlen_nonneg[of n] bitlen_eq_zero_iff[of n] assms by linarith
  then have p: "pow2 (bitlen n - 1) = of_int (2 ^ nat (bitlen n - 1))"
    "pow2 (bitlen n) = of_int (2 ^ nat (bitlen n))" by (simp_all add: pow2_def)
  show "pow2 (bitlen n - 1) \<le> of_int n" unfolding p of_int_le_iff using b by blast
  show "of_int n < pow2 (bitlen n)" unfolding p of_int_less_iff using b by blast
qed

lemma ilog2_bounds:
  assumes "0 < x" shows "pow2 (ilog2 x) \<le> x" and "x < pow2 (ilog2 x + 1)"
proof -
  obtain p q where pq: "quotient_of x = (p, q)" by fastforce
  have q: "0 < q" and x: "x = of_int p / of_int q"
    using quotient_of_denom_pos[OF pq] quotient_of_div[OF pq] by auto
  then have p: "0 < p" using assms by (simp add: zero_less_divide_iff)
  let ?a = "bitlen p" and ?b = "bitlen q"
  have q0: "(0::rat) < of_int q" using q by simp
  have "pow2 (?a - ?b - 1) = pow2 (?a - 1) / pow2 ?b"
    using pow2_diff[of "?a - 1" ?b] by (simp add: algebra_simps)
  also have "\<dots> \<le> of_int p / of_int q"
    using bitlen_pow2_bounds[OF p] bitlen_pow2_bounds[OF q] q0 p by (intro frac_le) auto
  finally have lo: "pow2 (?a - ?b - 1) \<le> x" by (simp add: x)
  have "of_int p / of_int q < pow2 ?a / pow2 (?b - 1)"
    using bitlen_pow2_bounds[OF p] bitlen_pow2_bounds[OF q] p by (intro frac_less) auto
  also have "\<dots> = pow2 (?a - ?b + 1)"
    using pow2_diff[of ?a "?b - 1"] by (simp add: algebra_simps)
  finally have hi: "x < pow2 (?a - ?b + 1)" by (simp add: x)
  show "pow2 (ilog2 x) \<le> x" using lo by (simp add: ilog2_def pq Let_def)
  show "x < pow2 (ilog2 x + 1)" using hi by (auto simp: ilog2_def pq Let_def)
qed

lemma ilog2_mono: assumes "0 < x" "x \<le> y" shows "ilog2 x \<le> ilog2 y"
proof -
  have "pow2 (ilog2 x) < pow2 (ilog2 y + 1)"
    using ilog2_bounds(1)[of x] ilog2_bounds(2)[of y] assms by linarith
  then show ?thesis by simp
qed

subsection \<open>Rounding to an integer\<close>

lemma rne_of_int [simp]: "rne (of_int k) = k"
  by (simp add: rne_def)

lemma rne_floor: "\<lfloor>y\<rfloor> \<le> rne y" "rne y \<le> \<lfloor>y\<rfloor> + 1"
  by (auto simp: rne_def Let_def)

lemma rne_mono: assumes "x \<le> y" shows "rne x \<le> rne y"
proof (cases "\<lfloor>x\<rfloor> = \<lfloor>y\<rfloor>")
  case True
  then show ?thesis using assms by (auto simp: rne_def Let_def)
next
  case False
  then have "\<lfloor>x\<rfloor> + 1 \<le> \<lfloor>y\<rfloor>" using floor_mono[OF assms] by linarith
  then show ?thesis using rne_floor(2)[of x] rne_floor(1)[of y] by linarith
qed

lemma rne_uminus: "rne (- y) = - rne y"
proof (cases "y = of_int \<lfloor>y\<rfloor>")
  case True
  then obtain k where "y = of_int k" by blast
  then show ?thesis using rne_of_int[of "- k"] by simp
next
  case False
  have "of_int \<lfloor>y\<rfloor> < y" using False of_int_floor_le[of y] by (metis order_le_less)
  moreover have "y < of_int \<lfloor>y\<rfloor> + 1" by linarith
  ultimately have "of_int (- \<lfloor>y\<rfloor> - 1) \<le> - y" "- y < of_int (- \<lfloor>y\<rfloor> - 1) + 1" by auto
  then have f: "\<lfloor>- y\<rfloor> = - \<lfloor>y\<rfloor> - 1" by (rule floor_unique)
  show ?thesis by (auto simp: rne_def f Let_def)
qed

subsection \<open>Rounding is odd, monotone and exact on the grid\<close>

lemma rnd_0 [simp]: "rnd 0 = 0"
  by (simp add: rnd_def)

lemma rnd_uminus: "rnd (- x) = - rnd x"
  by (simp add: rnd_def fexp_def rne_uminus minus_divide_left[symmetric])

lemma rnd_nonneg: "0 \<le> x \<Longrightarrow> 0 \<le> rnd x"
proof -
  assume "0 \<le> x"
  then have "rne 0 \<le> rne (x / pow2 (fexp x))" by (intro rne_mono) simp
  then have "0 \<le> rne (x / pow2 (fexp x))" using rne_of_int[of 0] by simp
  then show ?thesis by (simp add: rnd_def)
qed

lemma pow2_scaled: "d \<le> e \<Longrightarrow> pow2 e / pow2 d = of_int (2 ^ nat (e - d))"
  using pow2_nat[of "e - d"] by (simp add: pow2_diff)

lemma pow2_split: "d \<le> e \<Longrightarrow> of_int (2 ^ nat (e - d)) * pow2 d = pow2 e"
  using pow2_scaled[of d e] by (simp add: field_simps)

lemma rnd_pos_mono: assumes "0 < x" "x \<le> y" shows "rnd x \<le> rnd y"
proof -
  define ex ey L where "ex = fexp x" and "ey = fexp y" and "L = ilog2 y"
  have y: "0 < y" using assms by simp
  have rx: "rnd x = of_int (rne (x / pow2 ex)) * pow2 ex"
    and ry: "rnd y = of_int (rne (y / pow2 ey)) * pow2 ey"
    using assms y by (auto simp: rnd_def ex_def ey_def)
  have le: "ex \<le> ey" using ilog2_mono[OF assms] assms by (simp add: ex_def ey_def fexp_def)
  show ?thesis
  proof (cases "ex = ey")
    case True
    have "rne (x / pow2 ey) \<le> rne (y / pow2 ey)" using assms by (intro rne_mono divide_right_mono) auto
    then show ?thesis using True by (simp add: rx ry mult_right_mono)
  next
    case False
    with le have eL: "ey = L - 52" and lt: "ilog2 x < L"
      using assms y by (auto simp: ex_def ey_def fexp_def L_def)
    have "x < pow2 (ilog2 x + 1)" using ilog2_bounds(2)[OF assms(1)] .
    also have "\<dots> \<le> pow2 L" using lt by (intro pow2_mono) simp
    finally have "x / pow2 ex \<le> pow2 L / pow2 ex" by (intro divide_right_mono) auto
    also have "\<dots> = of_int (2 ^ nat (L - ex))" using le eL by (intro pow2_scaled) simp
    finally have "rne (x / pow2 ex) \<le> 2 ^ nat (L - ex)" using rne_mono rne_of_int by metis
    then have "rnd x \<le> of_int (2 ^ nat (L - ex)) * pow2 ex"
      unfolding rx by (intro mult_right_mono) (auto simp only: of_int_le_iff pow2_nonneg)
    also have "\<dots> = pow2 L" using le eL by (intro pow2_split) simp
    finally have up: "rnd x \<le> pow2 L" .
    have "pow2 L \<le> y" using ilog2_bounds(1)[OF y] by (simp add: L_def)
    then have "pow2 L / pow2 ey \<le> y / pow2 ey" by (intro divide_right_mono) auto
    then have "of_int (2 ^ nat (L - ey)) \<le> y / pow2 ey" using pow2_scaled[of ey L] eL by simp
    then have "2 ^ nat (L - ey) \<le> rne (y / pow2 ey)" using rne_mono rne_of_int by metis
    then have "of_int (2 ^ nat (L - ey)) * pow2 ey \<le> rnd y"
      unfolding ry by (intro mult_right_mono) (auto simp only: of_int_le_iff pow2_nonneg)
    moreover have "of_int (2 ^ nat (L - ey)) * pow2 ey = pow2 L"
      using eL by (intro pow2_split) simp
    ultimately show ?thesis using up by linarith
  qed
qed

lemma rnd_mono: assumes "x \<le> y" shows "rnd x \<le> rnd y"
proof -
  consider "0 < x" | "x \<le> 0" "0 \<le> y" | "y < 0" by linarith
  then show ?thesis
  proof cases
    case 1
    then show ?thesis using assms by (rule rnd_pos_mono)
  next
    case 2
    then have "0 \<le> rnd (- x)" "0 \<le> rnd y" by (simp_all add: rnd_nonneg)
    then show ?thesis by (simp add: rnd_uminus)
  next
    case 3
    then have "rnd (- y) \<le> rnd (- x)" using assms by (intro rnd_pos_mono) auto
    then show ?thesis by (simp add: rnd_uminus)
  qed
qed

text \<open>A number with at most 53 significant bits on the exponent range is left alone.\<close>

lemma rnd_exact_pos:
  assumes x: "x = of_int n * pow2 e" and n: "0 < n" "n \<le> 2 ^ 53" and e: "- 1074 \<le> e"
  shows "rnd x = x"
proof -
  have pos: "0 < x" using n x by simp
  have "ilog2 x - 52 \<le> e \<or> (n = 2 ^ 53 \<and> ilog2 x = 53 + e)"
  proof (cases "n = 2 ^ 53")
    case True
    then have "x = pow2 (53 + e)" using pow2_nat[of 53] by (simp add: x pow2_add)
    then have "pow2 (ilog2 x) \<le> pow2 (53 + e)" "pow2 (53 + e) < pow2 (ilog2 x + 1)"
      using ilog2_bounds[OF pos] by simp_all
    then have "ilog2 x = 53 + e"
      using pow2_less_iff[of "53 + e" "ilog2 x"] pow2_less_iff by (metis add.commute
        linorder_not_less order_antisym zle_add1_eq_le)
    with True show ?thesis by simp
  next
    case False
    then have "of_int n < (of_int (2 ^ 53) :: rat)" using n by (simp only: of_int_less_iff)
    also have "\<dots> = pow2 53" by (simp add: pow2_def)
    finally have "x < pow2 53 * pow2 e" by (simp add: x)
    then have "pow2 (ilog2 x) < pow2 (53 + e)" using ilog2_bounds(1)[OF pos] by (simp add: pow2_add)
    then show ?thesis by simp
  qed
  then obtain m where m: "x / pow2 (fexp x) = of_int m"
  proof
    assume "ilog2 x - 52 \<le> e"
    then have "fexp x \<le> e" using e pos by (simp add: fexp_def)
    then have "x / pow2 (fexp x) = of_int (n * 2 ^ nat (e - fexp x))"
      using pow2_scaled[of "fexp x" e] unfolding x times_divide_eq_right[symmetric] by simp
    then show thesis using that by blast
  next
    assume b: "n = 2 ^ 53 \<and> ilog2 x = 53 + e"
    then have "fexp x = e + 1" using e pos by (simp add: fexp_def)
    then have "x / pow2 (fexp x) = of_int (2 ^ 52)"
      using b by (simp add: x pow2_add) (simp add: pow2_def)
    then show thesis using that by blast
  qed
  then have "x = of_int m * pow2 (fexp x)" by (simp add: field_simps)
  then show ?thesis using m pos by (simp add: rnd_def)
qed

lemma rnd_exact:
  assumes "x = of_int n * pow2 e" and "\<bar>n\<bar> \<le> 2 ^ 53" and "- 1074 \<le> e" shows "rnd x = x"
proof -
  consider "n = 0" | "0 < n" | "n < 0" by linarith
  then show ?thesis
  proof cases
    case 1
    then show ?thesis by (simp add: assms(1))
  next
    case 2
    then show ?thesis using assms by (intro rnd_exact_pos[of x n e]) auto
  next
    case 3
    then have "rnd (- x) = - x" using assms by (intro rnd_exact_pos[of "- x" "- n" e]) auto
    then show ?thesis by (simp add: rnd_uminus)
  qed
qed

lemma rnd_of_int: "\<bar>n\<bar> \<le> 2 ^ 53 \<Longrightarrow> rnd (of_int n) = of_int n"
  by (rule rnd_exact[of _ n 0]) simp_all

lemma rnd_1 [simp]: "rnd 1 = 1"
  using rnd_of_int[of 1] by simp

lemma rnd_form:
  obtains n e where "rnd x = of_int n * pow2 e" "\<bar>n\<bar> \<le> 2 ^ 53" "- 1074 \<le> e"
proof (cases "x = 0")
  case True
  then show ?thesis using that[of 0 0] by simp
next
  case False
  define e where "e = fexp x"
  have le: "ilog2 \<bar>x\<bar> + 1 \<le> 53 + e" and e: "- 1074 \<le> e" by (simp_all add: e_def fexp_def)
  have "\<bar>x\<bar> < pow2 (ilog2 \<bar>x\<bar> + 1)" using False by (intro ilog2_bounds) simp
  also have "\<dots> \<le> pow2 (53 + e)" using le by (rule pow2_mono)
  also have "\<dots> = of_int (2 ^ 53) * pow2 e" unfolding pow2_add by (simp add: pow2_def)
  finally have "\<bar>x\<bar> / pow2 e \<le> of_int (2 ^ 53)" by (simp add: field_simps)
  then have "x / pow2 e \<le> of_int (2 ^ 53)" "- (x / pow2 e) \<le> of_int (2 ^ 53)"
    by (auto simp: field_simps abs_le_iff)
  then have "rne (x / pow2 e) \<le> 2 ^ 53" "rne (- (x / pow2 e)) \<le> 2 ^ 53"
    using rne_mono rne_of_int by metis+
  then have "\<bar>rne (x / pow2 e)\<bar> \<le> 2 ^ 53" by (simp add: rne_uminus)
  moreover have "rnd x = of_int (rne (x / pow2 e)) * pow2 e" using False by (simp add: rnd_def e_def)
  ultimately show ?thesis using that e by blast
qed

lemma rnd_rnd [simp]: "rnd (rnd x) = rnd x"
  by (rule rnd_form[of x]) (metis rnd_exact)

section \<open>Values and operations\<close>

datatype f64 = NaN | PInf | NInf | Fin rat

definition max_float :: rat where
  "max_float = of_int (2 ^ 53 - 1) * pow2 971"

definition fround :: "rat \<Rightarrow> f64" where
  "fround x = (let r = rnd x in
     if max_float < r then PInf else if r < - max_float then NInf else Fin r)"

fun fneg :: "f64 \<Rightarrow> f64" where
  "fneg NaN = NaN"
| "fneg PInf = NInf"
| "fneg NInf = PInf"
| "fneg (Fin x) = Fin (- x)"

fun fadd :: "f64 \<Rightarrow> f64 \<Rightarrow> f64" where
  "fadd NaN y = NaN"
| "fadd x NaN = NaN"
| "fadd (Fin x) (Fin y) = fround (x + y)"
| "fadd PInf NInf = NaN"
| "fadd NInf PInf = NaN"
| "fadd PInf y = PInf"
| "fadd x PInf = PInf"
| "fadd NInf y = NInf"
| "fadd x NInf = NInf"

definition fsub :: "f64 \<Rightarrow> f64 \<Rightarrow> f64" where
  "fsub x y = fadd x (fneg y)"

definition signed_inf :: "bool \<Rightarrow> f64" where
  "signed_inf pos = (if pos then PInf else NInf)"

fun fmul :: "f64 \<Rightarrow> f64 \<Rightarrow> f64" where
  "fmul NaN y = NaN"
| "fmul x NaN = NaN"
| "fmul (Fin x) (Fin y) = fround (x * y)"
| "fmul (Fin x) PInf = (if x = 0 then NaN else signed_inf (0 < x))"
| "fmul (Fin x) NInf = (if x = 0 then NaN else signed_inf (x < 0))"
| "fmul PInf (Fin y) = (if y = 0 then NaN else signed_inf (0 < y))"
| "fmul NInf (Fin y) = (if y = 0 then NaN else signed_inf (y < 0))"
| "fmul PInf PInf = PInf"
| "fmul NInf NInf = PInf"
| "fmul x y = NInf"

text \<open>Division by the zero of this model is division by \<^verbatim>\<open>+0\<close>.\<close>

fun fdiv :: "f64 \<Rightarrow> f64 \<Rightarrow> f64" where
  "fdiv NaN y = NaN"
| "fdiv x NaN = NaN"
| "fdiv (Fin x) (Fin y) =
     (if y = 0 then (if x = 0 then NaN else signed_inf (0 < x)) else fround (x / y))"
| "fdiv (Fin x) y = Fin 0"
| "fdiv PInf (Fin y) = signed_inf (0 \<le> y)"
| "fdiv NInf (Fin y) = signed_inf (y < 0)"
| "fdiv x y = NaN"

fun flt :: "f64 \<Rightarrow> f64 \<Rightarrow> bool" where
  "flt NaN y = False"
| "flt x NaN = False"
| "flt (Fin x) (Fin y) = (x < y)"
| "flt PInf y = False"
| "flt x NInf = False"
| "flt x y = True"

text \<open>\<^verbatim>\<open>math.Min\<close>, \<^verbatim>\<open>math.Max\<close> and \<^verbatim>\<open>math.Abs\<close> with their special cases.\<close>

definition fmin :: "f64 \<Rightarrow> f64 \<Rightarrow> f64" where
  "fmin x y = (if x = NInf \<or> y = NInf then NInf else if x = NaN \<or> y = NaN then NaN
               else if flt x y then x else y)"

definition fmax :: "f64 \<Rightarrow> f64 \<Rightarrow> f64" where
  "fmax x y = (if x = PInf \<or> y = PInf then PInf else if x = NaN \<or> y = NaN then NaN
               else if flt y x then x else y)"

fun fabs :: "f64 \<Rightarrow> f64" where
  "fabs NaN = NaN"
| "fabs (Fin x) = Fin \<bar>x\<bar>"
| "fabs x = PInf"

text \<open>\<^verbatim>\<open>float64(n)\<close> for an \<^verbatim>\<open>int64\<close> or \<^verbatim>\<open>int\<close>, and a decimal constant of the source.\<close>

definition of_i64 :: "i64 \<Rightarrow> f64" where
  "of_i64 n = fround (of_int (sint n))"

definition lit :: "rat \<Rightarrow> f64" where
  "lit x = fround x"

definition is_f64 :: "f64 \<Rightarrow> bool" where
  "is_f64 x = (case x of Fin r \<Rightarrow> rnd r = r \<and> \<bar>r\<bar> \<le> max_float | _ \<Rightarrow> True)"

text \<open>Order on the values that are not NaN, for stating monotonicity.\<close>

definition fle :: "f64 \<Rightarrow> f64 \<Rightarrow> bool" where
  "fle x y \<longleftrightarrow> x \<noteq> NaN \<and> y \<noteq> NaN \<and> \<not> flt y x"

lemma flt_irrefl [simp]: "\<not> flt x x"
  by (cases x) simp_all

lemma flt_trans: "flt x y \<Longrightarrow> flt y z \<Longrightarrow> flt x z"
  by (cases x; cases y; cases z) simp_all

lemma fle_Fin [simp]: "fle (Fin x) (Fin y) \<longleftrightarrow> x \<le> y"
  by (auto simp: fle_def)

lemma fle_trans: "fle x y \<Longrightarrow> fle y z \<Longrightarrow> fle x z"
  by (cases x; cases y; cases z) (auto simp: fle_def)

lemma fle_refl: "x \<noteq> NaN \<Longrightarrow> fle x x"
  by (simp add: fle_def)

lemma flt_fle_trans: "flt x y \<Longrightarrow> fle y z \<Longrightarrow> flt x z"
  by (cases x; cases y; cases z) (auto simp: fle_def)

lemma fle_flt_trans: "fle x y \<Longrightarrow> flt y z \<Longrightarrow> flt x z"
  by (cases x; cases y; cases z) (auto simp: fle_def)

lemma fround_not_NaN [simp]: "fround x \<noteq> NaN"
  by (simp add: fround_def Let_def)

lemma max_float_pos: "0 < max_float"
  by (simp add: max_float_def)

lemma fround_mono: "x \<le> y \<Longrightarrow> fle (fround x) (fround y)"
  using rnd_mono[of x y] max_float_pos by (auto simp: fle_def fround_def Let_def)

lemma fround_Fin: "- max_float \<le> rnd x \<Longrightarrow> rnd x \<le> max_float \<Longrightarrow> fround x = Fin (rnd x)"
  by (simp add: fround_def Let_def)

lemma rnd_max_float: "rnd max_float = max_float"
  by (rule rnd_exact[of _ "2 ^ 53 - 1" 971]) (simp_all add: max_float_def)

lemma fround_small: "\<bar>x\<bar> \<le> max_float \<Longrightarrow> fround x = Fin (rnd x)"
  using rnd_mono[of x max_float] rnd_mono[of "- max_float" x]
  by (intro fround_Fin) (auto simp: rnd_max_float rnd_uminus abs_le_iff)

lemma is_f64_fround: "is_f64 (fround x)"
  by (auto simp: is_f64_def fround_def Let_def abs_le_iff)

lemma max_float_big: "2 ^ 64 \<le> max_float"
proof -
  have "(2::rat) ^ 64 \<le> 2 ^ 971" by (rule power_increasing) simp_all
  also have "\<dots> \<le> of_int (2 ^ 53 - 1) * 2 ^ 971" by simp
  finally show ?thesis by (simp add: max_float_def pow2_def)
qed

lemma of_i64_Fin: "of_i64 n = Fin (rnd (of_int (sint n)))"
proof -
  have "- (2 ^ 63) \<le> sint n" "sint n < 2 ^ 63" using sint_ge[of n] sint_lt[of n] by simp_all
  then have "\<bar>sint n\<bar> \<le> 2 ^ 64" by simp
  then have "\<bar>of_int (sint n)\<bar> \<le> (of_int (2 ^ 64) :: rat)" by (simp only: of_int_abs[symmetric] of_int_le_iff)
  then show ?thesis using max_float_big by (simp add: of_i64_def fround_small)
qed

lemma of_i64_exact: "\<bar>sint n\<bar> \<le> 2 ^ 53 \<Longrightarrow> of_i64 n = Fin (of_int (sint n))"
  using rnd_of_int[of "sint n"] by (simp add: of_i64_Fin)

lemma of_i64_mono: "sint m \<le> sint n \<Longrightarrow> fle (of_i64 m) (of_i64 n)"
  unfolding of_i64_Fin fle_Fin by (intro rnd_mono) (simp only: of_int_le_iff)

text \<open>Clamping to an interval: the shape of every score in the sources.\<close>

lemma fmax_fmin_bounds:
  "x \<noteq> NaN \<Longrightarrow> a \<le> b \<Longrightarrow> \<exists>r. fmax (Fin a) (fmin (Fin b) x) = Fin r \<and> a \<le> r \<and> r \<le> b"
  by (cases x) (auto simp: fmax_def fmin_def)

section \<open>Non-negative values and ratios of integers\<close>

definition nonneg_f :: "f64 \<Rightarrow> bool" where
  "nonneg_f x = (case x of Fin r \<Rightarrow> 0 \<le> r | PInf \<Rightarrow> True | _ \<Rightarrow> False)"

lemma nonneg_f_Fin [simp]: "nonneg_f (Fin r) \<longleftrightarrow> 0 \<le> r"
  by (simp add: nonneg_f_def)

lemma nonneg_f_not_NaN: "nonneg_f x \<Longrightarrow> x \<noteq> NaN"
  by (auto simp: nonneg_f_def)

lemma fround_nonneg: "0 \<le> x \<Longrightarrow> nonneg_f (fround x)"
  using rnd_nonneg[of x] max_float_pos by (auto simp: fround_def Let_def nonneg_f_def)

lemma fadd_nonneg: "nonneg_f a \<Longrightarrow> nonneg_f b \<Longrightarrow> nonneg_f (fadd a b)"
  by (cases a; cases b) (simp_all add: fround_nonneg, simp_all add: nonneg_f_def)

lemma fround_le_PInf: "fle (fround x) PInf"
  using fround_not_NaN[of x] by (cases "fround x") (auto simp: fle_def simp del: fround_not_NaN)

lemma fadd_mono:
  assumes "fle a a'" "fle b b'" "nonneg_f a" "nonneg_f b" shows "fle (fadd a b) (fadd a' b')"
  using assms
  by (cases a; cases a'; cases b; cases b')
    (auto simp: nonneg_f_def fround_le_PInf intro!: fround_mono, auto simp: fle_def)

lemma fmul_nonneg: "nonneg_f (Fin a) \<Longrightarrow> nonneg_f (Fin c) \<Longrightarrow> nonneg_f (fmul (Fin a) (Fin c))"
  by (simp add: fround_nonneg)

lemma fmul_mono_left: "a \<le> b \<Longrightarrow> 0 \<le> c \<Longrightarrow> fle (fmul (Fin a) (Fin c)) (fmul (Fin b) (Fin c))"
  by (simp add: fround_mono mult_right_mono)

lemma rnd_int_bound: "\<bar>rnd (of_int (sint (n :: i64)))\<bar> \<le> 2 ^ 63"
proof -
  have b: "- (2 ^ 63) \<le> sint n" "sint n \<le> 2 ^ 63" using sint_ge[of n] sint_lt[of n] by simp_all
  have p: "rnd (of_int (2 ^ 63)) = of_int (2 ^ 63)"
    by (rule rnd_exact[of _ 1 63]) (simp_all add: pow2_def)
  have "rnd (of_int (sint n)) \<le> rnd (of_int (2 ^ 63))"
    by (rule rnd_mono) (use b in \<open>simp only: of_int_le_iff\<close>)
  moreover have "rnd (of_int (- (2 ^ 63))) \<le> rnd (of_int (sint n))"
    by (rule rnd_mono) (use b in \<open>simp only: of_int_le_iff\<close>)
  ultimately show ?thesis unfolding p using p by (simp add: rnd_uminus abs_le_iff)
qed

lemma rnd_int_ge1: assumes "0 < n" shows "1 \<le> rnd (of_int n)"
proof -
  have "of_int 1 \<le> (of_int n :: rat)" using assms by (simp only: of_int_le_iff)
  then show ?thesis using rnd_mono[of 1 "of_int n"] by simp
qed

lemma rnd_int_abs_ge1: assumes "n \<noteq> 0" shows "1 \<le> \<bar>rnd (of_int n)\<bar>"
  using rnd_int_ge1[of n] rnd_int_ge1[of "- n"] assms by (cases "0 < n") (auto simp: rnd_uminus)

text \<open>The quotient of two \<^verbatim>\<open>int64\<close> as floats is finite when the divisor is not zero.\<close>

lemma fdiv_of_i64:
  assumes "sint c \<noteq> 0"
  shows "fdiv (of_i64 a) (of_i64 c) = Fin (rnd (rnd (of_int (sint a)) / rnd (of_int (sint c))))"
proof -
  define x y where "x = rnd (of_int (sint a))" and "y = rnd (of_int (sint c))"
  have y: "1 \<le> \<bar>y\<bar>" using rnd_int_abs_ge1[OF assms] by (simp add: y_def)
  have "\<bar>x / y\<bar> = \<bar>x\<bar> / \<bar>y\<bar>" by (simp add: abs_divide)
  also have "\<dots> \<le> \<bar>x\<bar> / 1" using y by (intro divide_left_mono) auto
  also have "\<dots> \<le> 2 ^ 63" using rnd_int_bound[of a] by (simp add: x_def)
  also have "\<dots> \<le> max_float" using max_float_big by (rule order_trans[rotated]) simp
  finally have "fround (x / y) = Fin (rnd (x / y))" by (rule fround_small)
  then show ?thesis using y unfolding of_i64_Fin x_def[symmetric] y_def[symmetric] by auto
qed

end
