(* ===== verification/Api_Types.thy ===== *)
theory Api_Types
  imports Float64
begin

text \<open>
  The API group \<^verbatim>\<open>storage.kubenas.io/v1alpha1\<close> (\<^verbatim>\<open>api/v1alpha1/*_types.go\<close>): one record per
  Go struct, fields in the order of the source, and the admission checks of the three webhooks.
  Field \<^verbatim>\<open>F\<close> of the spec or status of kind \<^verbatim>\<open>K\<close> is \<open>k_F\<close>. A string enumeration that the CRD
  schema closes is a datatype with one more constructor for the empty string of a fresh object; a
  pointer is an option; a nil or empty slice is \<open>[]\<close>; a time is its number of nanoseconds since
  1970.
\<close>

type_synonym time = int

section \<open>Object metadata and conditions (apimachinery)\<close>

record OwnerReference =
  owner_APIVersion :: string
  owner_Kind :: string
  owner_Name :: string
  owner_UID :: string
  owner_Controller :: "bool option"
  owner_BlockOwnerDeletion :: "bool option"

record ObjectMeta =
  meta_Name :: string
  meta_Namespace :: string
  meta_UID :: string
  meta_ResourceVersion :: string
  meta_Labels :: "string \<rightharpoonup> string"
  meta_Annotations :: "(string \<rightharpoonup> string) option"
  meta_Finalizers :: "string list"
  meta_DeletionTimestamp :: "time option"
  meta_OwnerReferences :: "OwnerReference list"

definition ObjectMeta_zero :: ObjectMeta where
  "ObjectMeta_zero = \<lparr>meta_Name = '''', meta_Namespace = '''', meta_UID = '''',
     meta_ResourceVersion = '''', meta_Labels = Map.empty, meta_Annotations = None,
     meta_Finalizers = [], meta_DeletionTimestamp = None, meta_OwnerReferences = []\<rparr>"

datatype ConditionStatus = ConditionTrue | ConditionFalse | ConditionUnknown

record Condition =
  cond_Type :: string
  cond_Status :: ConditionStatus
  cond_Reason :: string
  cond_Message :: string
  cond_LastTransitionTime :: time

section \<open>Disk\<close>

datatype DiskRole = DiskRoleUnset | DiskRoleData | DiskRoleParity | DiskRoleCache

datatype DiskPhase = DiskPhaseUnset | DiskPhasePending | DiskPhaseReady | DiskPhaseDegraded
  | DiskPhaseFailed

fun DiskPhase_text :: "DiskPhase \<Rightarrow> string" where
  "DiskPhase_text DiskPhaseUnset = ''''"
| "DiskPhase_text DiskPhasePending = ''Pending''"
| "DiskPhase_text DiskPhaseReady = ''Ready''"
| "DiskPhase_text DiskPhaseDegraded = ''Degraded''"
| "DiskPhase_text DiskPhaseFailed = ''Failed''"

record SpinDownConfig =
  spin_Enabled :: bool
  spin_IdleMinutes :: int

record DiskSpec =
  disk_NodeName :: string
  disk_DevicePath :: string
  disk_Filesystem :: string
  disk_MountPoint :: string
  disk_Role :: DiskRole
  disk_SpinDown :: "SpinDownConfig option"

record DiskStatus =
  disk_Phase :: DiskPhase
  disk_CapacityBytes :: i64
  disk_AvailableBytes :: i64
  disk_HealthScore :: f64
  disk_SmartSummary :: string
  disk_SerialNumber :: string
  disk_Model :: string
  disk_Rotational :: bool
  disk_Mounted :: bool
  disk_LastSmartCheckTime :: "time option"
  disk_Conditions :: "Condition list"

record Disk =
  disk_Meta :: ObjectMeta
  disk_Spec :: DiskSpec
  disk_Status :: DiskStatus

section \<open>Array\<close>

datatype ArrayPhase = ArrayPhaseUnset | ArrayPhasePending | ArrayPhaseReady | ArrayPhaseDegraded
  | ArrayPhaseRebuilding | ArrayPhaseFailed

fun ArrayPhase_text :: "ArrayPhase \<Rightarrow> string" where
  "ArrayPhase_text ArrayPhaseUnset = ''''"
| "ArrayPhase_text ArrayPhasePending = ''Pending''"
| "ArrayPhase_text ArrayPhaseReady = ''Ready''"
| "ArrayPhase_text ArrayPhaseDegraded = ''Degraded''"
| "ArrayPhase_text ArrayPhaseRebuilding = ''Rebuilding''"
| "ArrayPhase_text ArrayPhaseFailed = ''Failed''"

record ArraySnapraidConfig =
  asc_ContentFiles :: "string list"
  asc_ExcludePatterns :: "string list"
  asc_AutoSyncOnChange :: bool

record ArraySpec =
  array_DataDisks :: "string list"
  array_ParityDisks :: "string list"
  array_SnapraidConfig :: "ArraySnapraidConfig option"

record ArrayStatus =
  array_Phase :: ArrayPhase
  array_ParityHealthy :: bool
  array_ParityDriftPercent :: f64
  array_DegradedDisks :: "string list"
  array_LastSyncTime :: "time option"
  array_LastCheckTime :: "time option"
  array_Conditions :: "Condition list"

record Array =
  array_Meta :: ObjectMeta
  array_Spec :: ArraySpec
  array_Status :: ArrayStatus

section \<open>Pool\<close>

record MergerfsConfig =
  mfs_CategoryCreate :: string
  mfs_MinFreeSpace :: string
  mfs_ExtraOptions :: string

record PoolSpec =
  pool_ArrayRef :: string
  pool_MountPoint :: string
  pool_Mergerfs :: "MergerfsConfig option"

record PoolStatus =
  pool_Phase :: string
  pool_Mounted :: bool
  pool_TotalBytes :: i64
  pool_AvailableBytes :: i64
  pool_MemberDisks :: "string list"
  pool_Conditions :: "Condition list"

record Pool =
  pool_Meta :: ObjectMeta
  pool_Spec :: PoolSpec
  pool_Status :: PoolStatus

section \<open>Share\<close>

datatype ShareProtocol = ShareProtocolUnset | ShareProtocolSMB | ShareProtocolNFS

fun ShareProtocol_text :: "ShareProtocol \<Rightarrow> string" where
  "ShareProtocol_text ShareProtocolUnset = ''''"
| "ShareProtocol_text ShareProtocolSMB = ''SMB''"
| "ShareProtocol_text ShareProtocolNFS = ''NFS''"

datatype SharePermission = SharePermissionRead | SharePermissionWrite | SharePermissionAdmin

datatype ShareSubjectKind = ShareSubjectKindUser | ShareSubjectKindGroup

record ShareSubject =
  subject_Kind :: ShareSubjectKind
  subject_Name :: string
  subject_Permissions :: "SharePermission list"

record ShareAuthz =
  authz_Mode :: string
  authz_Subjects :: "ShareSubject list"

record SMBConfig =
  smb_Browseable :: bool
  smb_ReadOnly :: bool
  smb_GuestOk :: bool

record NFSConfig =
  nfs_AllowedCIDRs :: "string list"
  nfs_ReadOnly :: bool
  nfs_SquashMode :: string
  nfs_AnonUID :: int
  nfs_AnonGID :: int

record ShareSpec =
  share_PoolRef :: string
  share_Path :: string
  share_Protocol :: ShareProtocol
  share_Authz :: "ShareAuthz option"
  share_SMB :: "SMBConfig option"
  share_NFS :: "NFSConfig option"

record ShareStatus =
  share_Phase :: string
  share_Published :: bool
  share_EffectiveSubjects :: "string list"
  share_PodName :: string
  share_ServiceName :: string
  share_Conditions :: "Condition list"

record Share =
  share_Meta :: ObjectMeta
  share_Spec :: ShareSpec
  share_Status :: ShareStatus

section \<open>ParitySchedule\<close>

record ParityScheduleSpec =
  parity_ArrayRef :: string
  parity_SyncCron :: string
  parity_CheckCron :: string
  parity_ScrubCron :: string
  parity_ScrubPercentage :: int

record ParityScheduleStatus =
  parity_LastSyncTime :: "time option"
  parity_LastCheckTime :: "time option"
  parity_LastScrubTime :: "time option"
  parity_LastSyncResult :: string

record ParitySchedule =
  parity_Meta :: ObjectMeta
  parity_Spec :: ParityScheduleSpec
  parity_Status :: ParityScheduleStatus

section \<open>PlacementPolicy\<close>

text \<open>The strategy decides a Go \<^verbatim>\<open>switch\<close> with a default branch, so any other string is kept.\<close>

datatype PlacementStrategy = PlacementStrategyBalanced | PlacementStrategyLeastUsed
  | PlacementStrategyFillFirst | PlacementStrategyTiered | PlacementStrategyOther string

record PlacementWeights =
  weight_FreeSpace :: f64
  weight_Load :: f64
  weight_Health :: f64

record PlacementPolicySpec =
  policy_Strategy :: PlacementStrategy
  policy_Weights :: "PlacementWeights option"
  policy_MinFreeSpace :: string

record PlacementPolicy =
  policy_Meta :: ObjectMeta
  policy_Spec :: PlacementPolicySpec

section \<open>RebalanceJob\<close>

datatype RebalanceJobPhase = RebalanceJobPhaseUnset | RebalanceJobPhasePending
  | RebalanceJobPhasePlanning | RebalanceJobPhaseRunning | RebalanceJobPhaseCompleted
  | RebalanceJobPhaseFailed

record RebalanceJobSpec =
  job_PoolRef :: string
  job_PlacementPolicyRef :: string
  job_MaxConcurrentMoves :: int
  job_DryRun :: bool
  job_ImbalanceThresholdPercent :: i64

record RebalanceJobStatus =
  job_Phase :: RebalanceJobPhase
  job_PlannedMoves :: int
  job_CompletedMoves :: int
  job_BytesMoved :: i64
  job_StartTime :: "time option"
  job_CompletionTime :: "time option"

record RebalanceJob =
  job_Meta :: ObjectMeta
  job_Spec :: RebalanceJobSpec
  job_Status :: RebalanceJobStatus

section \<open>DiskFailure\<close>

datatype DiskFailureSeverity = DiskFailureSeverityWarning | DiskFailureSeverityCritical

datatype DiskFailurePhase = DiskFailurePhaseUnset | DiskFailurePhaseDetected
  | DiskFailurePhaseAcknowledged | DiskFailurePhaseRebuilding | DiskFailurePhaseResolved

record DiskFailureSpec =
  failure_DiskRef :: string
  failure_Severity :: DiskFailureSeverity
  failure_Reason :: string
  failure_RecommendedAction :: string
  failure_ReplacementDiskRef :: string

record DiskFailureStatus =
  failure_Phase :: DiskFailurePhase
  failure_ResolvedAt :: "time option"
  failure_Message :: string

record DiskFailure =
  failure_Meta :: ObjectMeta
  failure_Spec :: DiskFailureSpec
  failure_Status :: DiskFailureStatus

section \<open>CachePool\<close>

datatype CacheMode = CacheModeUnset | CacheModeWriteBack | CacheModeWriteThrough

record FlushPolicy =
  flush_MaxDirtyAge :: string
  flush_HighWatermarkPercent :: int

record CachePoolSpec =
  cache_PoolRef :: string
  cache_CacheDisks :: "string list"
  cache_Mode :: CacheMode
  cache_FlushPolicy :: "FlushPolicy option"

record CachePoolStatus =
  cache_Phase :: string
  cache_CacheUsedBytes :: i64
  cache_CacheCapacityBytes :: i64
  cache_DirtyPercent :: f64

record CachePool =
  cache_Meta :: ObjectMeta
  cache_Spec :: CachePoolSpec
  cache_Status :: CachePoolStatus

section \<open>Admission webhooks\<close>

text \<open>
  \<^verbatim>\<open>validate\<close> of the three webhooks; create and update both call it, delete accepts everything.
  The error of the first disk check is \<^verbatim>\<open>apierrors.NewInvalid\<close>, whose text is built by
  apimachinery; only its reason matters here and the text names kind and object.
\<close>

definition Disk_validate :: "Disk \<Rightarrow> error option" where
  "Disk_validate d =
     (let s = disk_Spec d in
      if disk_DevicePath s = '''' \<or> disk_MountPoint s = '''' \<or> disk_NodeName s = ''''
      then Some (ApiError ReasonInvalid
             (''Disk.storage.kubenas.io '' @ Quote (meta_Name (disk_Meta d)) @ '' is invalid''))
      else if disk_DevicePath s = disk_MountPoint s
      then Some (ErrorString ''devicePath and mountPoint must differ'')
      else None)"

definition Array_validate :: "Array \<Rightarrow> error option" where
  "Array_validate a =
     (if length (array_ParityDisks (array_Spec a)) = 0 \<or> length (array_DataDisks (array_Spec a)) = 0
      then Some (ErrorString ''array must include data and parity disks'')
      else None)"

definition Share_validate :: "Share \<Rightarrow> error option" where
  "Share_validate s =
     (if \<not> HasPrefix (share_Path (share_Spec s)) ''/''
      then Some (ErrorString ''share path must be absolute'')
      else None)"

end
