(* ===== verification/Kube.thy ===== *)
theory Kube
  imports Api_Types
begin

text \<open>
  The Kubernetes API as the operator sees it. The API server and the controller-runtime client are
  not part of the repository: every definition that calls them takes an \<open>env\<close>, a record of the
  client's operations over an unspecified type of worlds. The locale \<open>kube_api\<close> states what their
  documentation promises; an in-memory API server with optimistic concurrency, finalizers and status
  subresources satisfies it.
\<close>

section \<open>Core objects the operator writes\<close>

record ConfigMap =
  cm_Meta :: ObjectMeta
  cm_Data :: "(string \<rightharpoonup> string) option"

datatype VolumeSource = HostPath string | ConfigMapVolume string

record Volume =
  vol_Name :: string
  vol_Source :: VolumeSource

record VolumeMount =
  vm_Name :: string
  vm_MountPath :: string
  vm_SubPath :: string

record Probe =
  probe_TCPPort :: int
  probe_InitialDelaySeconds :: int

record Container =
  ctr_Name :: string
  ctr_Image :: string
  ctr_Command :: "string list"
  ctr_Ports :: "int list"
  ctr_LivenessProbe :: "Probe option"
  ctr_ReadinessProbe :: "Probe option"
  ctr_Privileged :: "bool option"
  ctr_VolumeMounts :: "VolumeMount list"

record PodSpec =
  podspec_RestartPolicy :: string
  podspec_Containers :: "Container list"
  podspec_Volumes :: "Volume list"

record Pod =
  pod_Meta :: ObjectMeta
  pod_Spec :: PodSpec

record ServicePort =
  port_Name :: string
  port_Port :: int
  port_TargetPort :: int

record Service =
  svc_Meta :: ObjectMeta
  svc_Selector :: "string \<rightharpoonup> string"
  svc_Ports :: "ServicePort list"

record JobTemplate =
  job_BackoffLimit :: "int option"
  job_Template :: PodSpec

record CronJobSpec =
  cron_Schedule :: string
  cron_ConcurrencyPolicy :: string
  cron_SuccessfulJobsHistoryLimit :: "int option"
  cron_FailedJobsHistoryLimit :: "int option"
  cron_JobTemplate :: JobTemplate

record CronJob =
  cron_Meta :: ObjectMeta
  cron_Spec :: CronJobSpec

section \<open>Typed objects and keys\<close>

type_synonym nskey = "string \<times> string" \<comment> \<open>namespace and name\<close>

datatype kind = KDisk | KArray | KPool | KShare | KParitySchedule | KPlacementPolicy
  | KRebalanceJob | KDiskFailure | KCachePool | KConfigMap | KPod | KService | KCronJob

datatype kobject = ODisk Disk | OArray Array | OPool Pool | OShare Share
  | OParitySchedule ParitySchedule | OPlacementPolicy PlacementPolicy | ORebalanceJob RebalanceJob
  | ODiskFailure DiskFailure | OCachePool CachePool | OConfigMap ConfigMap | OPod Pod
  | OService Service | OCronJob CronJob

fun kind_of :: "kobject \<Rightarrow> kind" where
  "kind_of (ODisk x) = KDisk"
| "kind_of (OArray x) = KArray"
| "kind_of (OPool x) = KPool"
| "kind_of (OShare x) = KShare"
| "kind_of (OParitySchedule x) = KParitySchedule"
| "kind_of (OPlacementPolicy x) = KPlacementPolicy"
| "kind_of (ORebalanceJob x) = KRebalanceJob"
| "kind_of (ODiskFailure x) = KDiskFailure"
| "kind_of (OCachePool x) = KCachePool"
| "kind_of (OConfigMap x) = KConfigMap"
| "kind_of (OPod x) = KPod"
| "kind_of (OService x) = KService"
| "kind_of (OCronJob x) = KCronJob"

fun meta_of :: "kobject \<Rightarrow> ObjectMeta" where
  "meta_of (ODisk x) = disk_Meta x"
| "meta_of (OArray x) = array_Meta x"
| "meta_of (OPool x) = pool_Meta x"
| "meta_of (OShare x) = share_Meta x"
| "meta_of (OParitySchedule x) = parity_Meta x"
| "meta_of (OPlacementPolicy x) = policy_Meta x"
| "meta_of (ORebalanceJob x) = job_Meta x"
| "meta_of (ODiskFailure x) = failure_Meta x"
| "meta_of (OCachePool x) = cache_Meta x"
| "meta_of (OConfigMap x) = cm_Meta x"
| "meta_of (OPod x) = pod_Meta x"
| "meta_of (OService x) = svc_Meta x"
| "meta_of (OCronJob x) = cron_Meta x"

fun map_meta :: "(ObjectMeta \<Rightarrow> ObjectMeta) \<Rightarrow> kobject \<Rightarrow> kobject" where
  "map_meta f (ODisk x) = ODisk (disk_Meta_update f x)"
| "map_meta f (OArray x) = OArray (array_Meta_update f x)"
| "map_meta f (OPool x) = OPool (pool_Meta_update f x)"
| "map_meta f (OShare x) = OShare (share_Meta_update f x)"
| "map_meta f (OParitySchedule x) = OParitySchedule (parity_Meta_update f x)"
| "map_meta f (OPlacementPolicy x) = OPlacementPolicy (policy_Meta_update f x)"
| "map_meta f (ORebalanceJob x) = ORebalanceJob (job_Meta_update f x)"
| "map_meta f (ODiskFailure x) = ODiskFailure (failure_Meta_update f x)"
| "map_meta f (OCachePool x) = OCachePool (cache_Meta_update f x)"
| "map_meta f (OConfigMap x) = OConfigMap (cm_Meta_update f x)"
| "map_meta f (OPod x) = OPod (pod_Meta_update f x)"
| "map_meta f (OService x) = OService (svc_Meta_update f x)"
| "map_meta f (OCronJob x) = OCronJob (cron_Meta_update f x)"

definition key_of :: "kobject \<Rightarrow> nskey" where
  "key_of ob = (meta_Namespace (meta_of ob), meta_Name (meta_of ob))"

definition with_rv :: "string \<Rightarrow> kobject \<Rightarrow> kobject" where
  "with_rv rv = map_meta (meta_ResourceVersion_update (\<lambda>_. rv))"

definition with_uid :: "string \<Rightarrow> kobject \<Rightarrow> kobject" where
  "with_uid u = map_meta (meta_UID_update (\<lambda>_. u))"

text \<open>
  What the server stores on \<^verbatim>\<open>Update\<close> (everything but the status of kinds with a status
  subresource) and on \<^verbatim>\<open>Status().Update\<close> (the status only).
\<close>

definition put_main :: "kobject \<Rightarrow> kobject \<Rightarrow> kobject" where
  "put_main old new =
     (case old of
        ODisk x \<Rightarrow> (case new of ODisk y \<Rightarrow> ODisk (y\<lparr>disk_Status := disk_Status x\<rparr>) | _ \<Rightarrow> new)
      | OArray x \<Rightarrow> (case new of OArray y \<Rightarrow> OArray (y\<lparr>array_Status := array_Status x\<rparr>) | _ \<Rightarrow> new)
      | OPool x \<Rightarrow> (case new of OPool y \<Rightarrow> OPool (y\<lparr>pool_Status := pool_Status x\<rparr>) | _ \<Rightarrow> new)
      | OShare x \<Rightarrow> (case new of OShare y \<Rightarrow> OShare (y\<lparr>share_Status := share_Status x\<rparr>) | _ \<Rightarrow> new)
      | OParitySchedule x \<Rightarrow> (case new of OParitySchedule y \<Rightarrow> OParitySchedule (y\<lparr>parity_Status := parity_Status x\<rparr>) | _ \<Rightarrow> new)
      | ORebalanceJob x \<Rightarrow> (case new of ORebalanceJob y \<Rightarrow> ORebalanceJob (y\<lparr>job_Status := job_Status x\<rparr>) | _ \<Rightarrow> new)
      | ODiskFailure x \<Rightarrow> (case new of ODiskFailure y \<Rightarrow> ODiskFailure (y\<lparr>failure_Status := failure_Status x\<rparr>) | _ \<Rightarrow> new)
      | OCachePool x \<Rightarrow> (case new of OCachePool y \<Rightarrow> OCachePool (y\<lparr>cache_Status := cache_Status x\<rparr>) | _ \<Rightarrow> new)
      | _ \<Rightarrow> new)"

definition put_status :: "kobject \<Rightarrow> kobject \<Rightarrow> kobject" where
  "put_status old new =
     (case old of
        ODisk x \<Rightarrow> (case new of ODisk y \<Rightarrow> ODisk (x\<lparr>disk_Status := disk_Status y\<rparr>) | _ \<Rightarrow> old)
      | OArray x \<Rightarrow> (case new of OArray y \<Rightarrow> OArray (x\<lparr>array_Status := array_Status y\<rparr>) | _ \<Rightarrow> old)
      | OPool x \<Rightarrow> (case new of OPool y \<Rightarrow> OPool (x\<lparr>pool_Status := pool_Status y\<rparr>) | _ \<Rightarrow> old)
      | OShare x \<Rightarrow> (case new of OShare y \<Rightarrow> OShare (x\<lparr>share_Status := share_Status y\<rparr>) | _ \<Rightarrow> old)
      | OParitySchedule x \<Rightarrow> (case new of OParitySchedule y \<Rightarrow> OParitySchedule (x\<lparr>parity_Status := parity_Status y\<rparr>) | _ \<Rightarrow> old)
      | ORebalanceJob x \<Rightarrow> (case new of ORebalanceJob y \<Rightarrow> ORebalanceJob (x\<lparr>job_Status := job_Status y\<rparr>) | _ \<Rightarrow> old)
      | ODiskFailure x \<Rightarrow> (case new of ODiskFailure y \<Rightarrow> ODiskFailure (x\<lparr>failure_Status := failure_Status y\<rparr>) | _ \<Rightarrow> old)
      | OCachePool x \<Rightarrow> (case new of OCachePool y \<Rightarrow> OCachePool (x\<lparr>cache_Status := cache_Status y\<rparr>) | _ \<Rightarrow> old)
      | _ \<Rightarrow> old)"

lemma put_main_simps [simp]:
  "put_main (ODisk xdisk) (ODisk ydisk) = ODisk (ydisk\<lparr>disk_Status := disk_Status xdisk\<rparr>)"
  "put_main (OArray xarray) (OArray yarray) = OArray (yarray\<lparr>array_Status := array_Status xarray\<rparr>)"
  "put_main (OPool xpool) (OPool ypool) = OPool (ypool\<lparr>pool_Status := pool_Status xpool\<rparr>)"
  "put_main (OShare xshare) (OShare yshare) = OShare (yshare\<lparr>share_Status := share_Status xshare\<rparr>)"
  "put_main (OParitySchedule xparity) (OParitySchedule yparity) = OParitySchedule (yparity\<lparr>parity_Status := parity_Status xparity\<rparr>)"
  "put_main (ORebalanceJob xjob) (ORebalanceJob yjob) = ORebalanceJob (yjob\<lparr>job_Status := job_Status xjob\<rparr>)"
  "put_main (ODiskFailure xfailure) (ODiskFailure yfailure) = ODiskFailure (yfailure\<lparr>failure_Status := failure_Status xfailure\<rparr>)"
  "put_main (OCachePool xcache) (OCachePool ycache) = OCachePool (ycache\<lparr>cache_Status := cache_Status xcache\<rparr>)"
  "put_main (OPlacementPolicy xPlacementPolicy) ob = ob"
  "put_main (OConfigMap xConfigMap) ob = ob"
  "put_main (OPod xPod) ob = ob"
  "put_main (OService xService) ob = ob"
  "put_main (OCronJob xCronJob) ob = ob"
  by (simp_all add: put_main_def)

lemma put_status_simps [simp]:
  "put_status (ODisk xdisk) (ODisk ydisk) = ODisk (xdisk\<lparr>disk_Status := disk_Status ydisk\<rparr>)"
  "put_status (OArray xarray) (OArray yarray) = OArray (xarray\<lparr>array_Status := array_Status yarray\<rparr>)"
  "put_status (OPool xpool) (OPool ypool) = OPool (xpool\<lparr>pool_Status := pool_Status ypool\<rparr>)"
  "put_status (OShare xshare) (OShare yshare) = OShare (xshare\<lparr>share_Status := share_Status yshare\<rparr>)"
  "put_status (OParitySchedule xparity) (OParitySchedule yparity) = OParitySchedule (xparity\<lparr>parity_Status := parity_Status yparity\<rparr>)"
  "put_status (ORebalanceJob xjob) (ORebalanceJob yjob) = ORebalanceJob (xjob\<lparr>job_Status := job_Status yjob\<rparr>)"
  "put_status (ODiskFailure xfailure) (ODiskFailure yfailure) = ODiskFailure (xfailure\<lparr>failure_Status := failure_Status yfailure\<rparr>)"
  "put_status (OCachePool xcache) (OCachePool ycache) = OCachePool (xcache\<lparr>cache_Status := cache_Status ycache\<rparr>)"
  by (simp_all add: put_status_def)

text \<open>An update that leaves an object marked for deletion without finalizers removes it.\<close>

definition deletion_done :: "kobject \<Rightarrow> bool" where
  "deletion_done ob \<longleftrightarrow> meta_DeletionTimestamp (meta_of ob) \<noteq> None \<and> meta_Finalizers (meta_of ob) = []"

type_synonym store = "kind \<Rightarrow> nskey \<Rightarrow> kobject option"

definition store_set :: "store \<Rightarrow> kind \<Rightarrow> nskey \<Rightarrow> kobject option \<Rightarrow> store" where
  "store_set v k n x = v(k := (v k)(n := x))"

lemma store_set_apply [simp]:
  "store_set v k n x k' n' = (if k' = k \<and> n' = n then x else v k' n')"
  by (simp add: store_set_def)

lemma store_set_same [simp]: "store_set (store_set v k n x) k n y = store_set v k n y"
  by (simp add: store_set_def)

lemma kind_map_meta [simp]: "kind_of (map_meta f ob) = kind_of ob"
  by (cases ob) simp_all

lemma meta_map_meta [simp]: "meta_of (map_meta f ob) = f (meta_of ob)"
  by (cases ob) simp_all

lemma kind_with_rv [simp]: "kind_of (with_rv rv ob) = kind_of ob"
  and kind_with_uid [simp]: "kind_of (with_uid u ob) = kind_of ob"
  by (simp_all add: with_rv_def with_uid_def)

lemma key_with_rv [simp]: "key_of (with_rv rv ob) = key_of ob"
  and key_with_uid [simp]: "key_of (with_uid u ob) = key_of ob"
  by (simp_all add: with_rv_def with_uid_def key_of_def)

lemma kind_put_main [simp]: "kind_of (put_main old new) = kind_of new"
  by (auto simp: put_main_def split: kobject.split)

lemma meta_put_main [simp]: "meta_of (put_main old new) = meta_of new"
  by (auto simp: put_main_def split: kobject.split)

lemma kind_put_status [simp]: "kind_of (put_status old new) = kind_of old"
  by (auto simp: put_status_def split: kobject.split)

lemma meta_put_status [simp]: "meta_of (put_status old new) = meta_of old"
  by (auto simp: put_status_def split: kobject.split)

lemma deletion_done_with [simp]:
  "deletion_done (with_rv rv ob) = deletion_done ob" "deletion_done (with_uid u ob) = deletion_done ob"
  "deletion_done (put_main old ob) = deletion_done ob" "deletion_done (put_status ob new) = deletion_done ob"
  by (simp_all add: deletion_done_def with_rv_def with_uid_def)

lemma key_put [simp]: "key_of (put_main old new) = key_of new" "key_of (put_status old new) = key_of old"
  by (simp_all add: key_of_def)

section \<open>The client, the clock and the process environment\<close>

text \<open>
  \<open>env_wait\<close> is \<^verbatim>\<open>select { case <-ctx.Done(): ...; case <-time.After(2 * time.Second): }\<close>: it
  returns the context's error when the context ended first. \<open>env_namespace\<close> is the value of
  \<^verbatim>\<open>WATCH_NAMESPACE\<close> (empty when unset).
\<close>

record 'w env =
  env_get :: "kind \<Rightarrow> nskey \<Rightarrow> ('w, error + kobject) state"
  env_create :: "kobject \<Rightarrow> ('w, error option) state"
  env_update :: "kobject \<Rightarrow> ('w, error option) state"
  env_status_update :: "kobject \<Rightarrow> ('w, error option) state"
  env_delete :: "kobject \<Rightarrow> ('w, error option) state"
  env_now :: "('w, time) state"
  env_wait :: "('w, error option) state"
  env_namespace :: string

text \<open>Decoding a response into the Go type of the caller's pointer.\<close>

definition decode_error :: error where
  "decode_error = ErrorString ''unexpected object type''"

definition as_Disk :: "error + kobject \<Rightarrow> error + Disk" where
  "as_Disk r = (case r of Inl e \<Rightarrow> Inl e | Inr (ODisk x) \<Rightarrow> Inr x | Inr _ \<Rightarrow> Inl decode_error)"

definition as_Array :: "error + kobject \<Rightarrow> error + Array" where
  "as_Array r = (case r of Inl e \<Rightarrow> Inl e | Inr (OArray x) \<Rightarrow> Inr x | Inr _ \<Rightarrow> Inl decode_error)"

definition as_Pool :: "error + kobject \<Rightarrow> error + Pool" where
  "as_Pool r = (case r of Inl e \<Rightarrow> Inl e | Inr (OPool x) \<Rightarrow> Inr x | Inr _ \<Rightarrow> Inl decode_error)"

definition as_Share :: "error + kobject \<Rightarrow> error + Share" where
  "as_Share r = (case r of Inl e \<Rightarrow> Inl e | Inr (OShare x) \<Rightarrow> Inr x | Inr _ \<Rightarrow> Inl decode_error)"

definition as_ParitySchedule :: "error + kobject \<Rightarrow> error + ParitySchedule" where
  "as_ParitySchedule r =
     (case r of Inl e \<Rightarrow> Inl e | Inr (OParitySchedule x) \<Rightarrow> Inr x | Inr _ \<Rightarrow> Inl decode_error)"

definition as_PlacementPolicy :: "error + kobject \<Rightarrow> error + PlacementPolicy" where
  "as_PlacementPolicy r =
     (case r of Inl e \<Rightarrow> Inl e | Inr (OPlacementPolicy x) \<Rightarrow> Inr x | Inr _ \<Rightarrow> Inl decode_error)"

definition as_RebalanceJob :: "error + kobject \<Rightarrow> error + RebalanceJob" where
  "as_RebalanceJob r =
     (case r of Inl e \<Rightarrow> Inl e | Inr (ORebalanceJob x) \<Rightarrow> Inr x | Inr _ \<Rightarrow> Inl decode_error)"

definition as_DiskFailure :: "error + kobject \<Rightarrow> error + DiskFailure" where
  "as_DiskFailure r =
     (case r of Inl e \<Rightarrow> Inl e | Inr (ODiskFailure x) \<Rightarrow> Inr x | Inr _ \<Rightarrow> Inl decode_error)"

definition as_CachePool :: "error + kobject \<Rightarrow> error + CachePool" where
  "as_CachePool r =
     (case r of Inl e \<Rightarrow> Inl e | Inr (OCachePool x) \<Rightarrow> Inr x | Inr _ \<Rightarrow> Inl decode_error)"

definition as_ConfigMap :: "error + kobject \<Rightarrow> error + ConfigMap" where
  "as_ConfigMap r =
     (case r of Inl e \<Rightarrow> Inl e | Inr (OConfigMap x) \<Rightarrow> Inr x | Inr _ \<Rightarrow> Inl decode_error)"

definition as_CronJob :: "error + kobject \<Rightarrow> error + CronJob" where
  "as_CronJob r =
     (case r of Inl e \<Rightarrow> Inl e | Inr (OCronJob x) \<Rightarrow> Inr x | Inr _ \<Rightarrow> Inl decode_error)"

lemmas as_defs = as_Disk_def as_Array_def as_Pool_def as_Share_def as_ParitySchedule_def
  as_PlacementPolicy_def as_RebalanceJob_def as_DiskFailure_def as_CachePool_def as_ConfigMap_def
  as_CronJob_def

text \<open>A typed response is one of the client's errors, or the decoded object.\<close>

lemma decode_not_NotFound [simp]: "\<not> IsNotFound decode_error"
  by (simp add: decode_error_def IsNotFound_def)

lemma as_kind_Inr:
  "as_Disk r = Inr d \<longleftrightarrow> r = Inr (ODisk d)"
  "as_Array r = Inr a \<longleftrightarrow> r = Inr (OArray a)"
  "as_Pool r = Inr p \<longleftrightarrow> r = Inr (OPool p)"
  "as_Share r = Inr s \<longleftrightarrow> r = Inr (OShare s)"
  "as_ParitySchedule r = Inr ps \<longleftrightarrow> r = Inr (OParitySchedule ps)"
  "as_PlacementPolicy r = Inr pp \<longleftrightarrow> r = Inr (OPlacementPolicy pp)"
  "as_RebalanceJob r = Inr j \<longleftrightarrow> r = Inr (ORebalanceJob j)"
  "as_DiskFailure r = Inr f \<longleftrightarrow> r = Inr (ODiskFailure f)"
  "as_CachePool r = Inr c \<longleftrightarrow> r = Inr (OCachePool c)"
  "as_ConfigMap r = Inr m \<longleftrightarrow> r = Inr (OConfigMap m)"
  "as_CronJob r = Inr cj \<longleftrightarrow> r = Inr (OCronJob cj)"
  by (auto simp: as_defs split: sum.splits kobject.splits)

lemma as_kind_NotFound:
  "as_Disk r = Inl e \<Longrightarrow> IsNotFound e \<Longrightarrow> r = Inl e"
  "as_Array r = Inl e \<Longrightarrow> IsNotFound e \<Longrightarrow> r = Inl e"
  "as_Pool r = Inl e \<Longrightarrow> IsNotFound e \<Longrightarrow> r = Inl e"
  "as_Share r = Inl e \<Longrightarrow> IsNotFound e \<Longrightarrow> r = Inl e"
  "as_ParitySchedule r = Inl e \<Longrightarrow> IsNotFound e \<Longrightarrow> r = Inl e"
  "as_PlacementPolicy r = Inl e \<Longrightarrow> IsNotFound e \<Longrightarrow> r = Inl e"
  "as_RebalanceJob r = Inl e \<Longrightarrow> IsNotFound e \<Longrightarrow> r = Inl e"
  "as_DiskFailure r = Inl e \<Longrightarrow> IsNotFound e \<Longrightarrow> r = Inl e"
  "as_CachePool r = Inl e \<Longrightarrow> IsNotFound e \<Longrightarrow> r = Inl e"
  "as_ConfigMap r = Inl e \<Longrightarrow> IsNotFound e \<Longrightarrow> r = Inl e"
  "as_CronJob r = Inl e \<Longrightarrow> IsNotFound e \<Longrightarrow> r = Inl e"
  by (auto simp: as_defs split: sum.splits kobject.splits)

text \<open>The result of a reconcile call; times in seconds.\<close>

record ctrl_Result =
  Requeue :: bool
  RequeueAfter :: int

definition Result_zero :: ctrl_Result where
  "Result_zero = \<lparr>Requeue = False, RequeueAfter = 0\<rparr>"

definition requeue_after :: "int \<Rightarrow> ctrl_Result" where
  "requeue_after s = \<lparr>Requeue = False, RequeueAfter = s\<rparr>"

definition requeue_now :: ctrl_Result where
  "requeue_now = \<lparr>Requeue = True, RequeueAfter = 0\<rparr>"

definition operatorNamespace :: "'w env \<Rightarrow> string" where
  "operatorNamespace cl = (if env_namespace cl \<noteq> '''' then env_namespace cl else ''kubenas-system'')"

end
