(* ===== verification/Kube_Api.thy ===== *)
theory Kube_Api
  imports Kube
begin

text \<open>
  The contract between the controllers and the Kubernetes API (\<open>kube_api\<close>), the
  weakest-precondition rules it gives, and the in-memory API server that satisfies it. \<open>view\<close> reads
  the stored objects of a world. The contract is sequential: between two calls of one reconcile
  nobody else writes the operator's resources, only ConfigMaps change while the operator waits for
  the node agent. A deleted Pod may stay for its grace period; other objects without finalizers go
  at once.
\<close>

section \<open>The contract\<close>

locale kube_api =
  fixes cl :: "'w env" and view :: "'w \<Rightarrow> store"
  assumes get_law:
    "run_state (env_get cl k n) w = (res, w') \<Longrightarrow> view w' = view w \<and>
       (case res of Inr ob \<Rightarrow> view w k n = Some ob \<and> kind_of ob = k \<and> key_of ob = n \<and> \<not> deletion_done ob
                | Inl e \<Rightarrow> IsNotFound e \<longrightarrow> view w k n = None)"
  and create_law:
    "run_state (env_create cl ob) w = (r, w') \<Longrightarrow>
       (case r of Some e \<Rightarrow> view w' = view w
        | None \<Rightarrow> view w (kind_of ob) (key_of ob) = None \<and>
            (\<exists>rv u. view w' =
               store_set (view w) (kind_of ob) (key_of ob) (Some (with_uid u (with_rv rv ob)))))"
  and update_law:
    "run_state (env_update cl ob) w = (r, w') \<Longrightarrow>
       (case r of Some e \<Rightarrow> view w' = view w
        | None \<Rightarrow> (\<exists>old rv. view w (kind_of ob) (key_of ob) = Some old \<and>
            view w' = store_set (view w) (kind_of ob) (key_of ob)
              (if deletion_done ob then None else Some (with_rv rv (put_main old ob)))))"
  and status_update_law:
    "run_state (env_status_update cl ob) w = (r, w') \<Longrightarrow>
       (case r of Some e \<Rightarrow> view w' = view w
        | None \<Rightarrow> (\<exists>old rv. view w (kind_of ob) (key_of ob) = Some old \<and>
            view w' = store_set (view w) (kind_of ob) (key_of ob)
              (Some (with_rv rv (put_status old ob)))))"
  and delete_law:
    "run_state (env_delete cl ob) w = (r, w') \<Longrightarrow>
       (case r of Some e \<Rightarrow> view w' = view w
        | None \<Rightarrow> (\<exists>old x. view w (kind_of ob) (key_of ob) = Some old \<and>
            view w' = store_set (view w) (kind_of ob) (key_of ob) x \<and>
            (kind_of ob \<noteq> KPod \<longrightarrow> meta_Finalizers (meta_of old) = [] \<longrightarrow> x = None)))"
  and now_law: "run_state (env_now cl) w = (t, w') \<Longrightarrow> view w' = view w"
  and wait_law: "run_state (env_wait cl) w = (r, w') \<Longrightarrow> k \<noteq> KConfigMap \<Longrightarrow> view w' k = view w k"
begin

lemma wp_get:
  assumes "\<And>ob w'. view w' = view w \<Longrightarrow> view w k n = Some ob \<Longrightarrow> kind_of ob = k \<Longrightarrow> key_of ob = n
             \<Longrightarrow> \<not> deletion_done ob \<Longrightarrow> Q (Inr ob) w'"
    and "\<And>e w'. view w' = view w \<Longrightarrow> (IsNotFound e \<Longrightarrow> view w k n = None) \<Longrightarrow> Q (Inl e) w'"
  shows "wp (env_get cl k n) Q w"
proof (rule run_wp)
  fix r w' assume "run_state (env_get cl k n) w = (r, w')"
  from get_law[OF this] show "Q r w'" using assms by (cases r) auto
qed

lemma wp_create:
  assumes "\<And>rv u w'. view w (kind_of ob) (key_of ob) = None \<Longrightarrow>
             view w' = store_set (view w) (kind_of ob) (key_of ob) (Some (with_uid u (with_rv rv ob)))
             \<Longrightarrow> Q None w'"
    and "\<And>e w'. view w' = view w \<Longrightarrow> Q (Some e) w'"
  shows "wp (env_create cl ob) Q w"
proof (rule run_wp)
  fix r w' assume "run_state (env_create cl ob) w = (r, w')"
  from create_law[OF this] show "Q r w'" using assms by (cases r) auto
qed

lemma wp_update:
  assumes "\<And>old rv w'. view w (kind_of ob) (key_of ob) = Some old \<Longrightarrow>
             view w' = store_set (view w) (kind_of ob) (key_of ob)
               (if deletion_done ob then None else Some (with_rv rv (put_main old ob))) \<Longrightarrow> Q None w'"
    and "\<And>e w'. view w' = view w \<Longrightarrow> Q (Some e) w'"
  shows "wp (env_update cl ob) Q w"
proof (rule run_wp)
  fix r w' assume "run_state (env_update cl ob) w = (r, w')"
  from update_law[OF this] show "Q r w'" using assms by (cases r) auto
qed

lemma wp_status_update:
  assumes "\<And>old rv w'. view w (kind_of ob) (key_of ob) = Some old \<Longrightarrow>
             view w' = store_set (view w) (kind_of ob) (key_of ob)
               (Some (with_rv rv (put_status old ob))) \<Longrightarrow> Q None w'"
    and "\<And>e w'. view w' = view w \<Longrightarrow> Q (Some e) w'"
  shows "wp (env_status_update cl ob) Q w"
proof (rule run_wp)
  fix r w' assume "run_state (env_status_update cl ob) w = (r, w')"
  from status_update_law[OF this] show "Q r w'" using assms by (cases r) auto
qed

lemma wp_delete:
  assumes "\<And>old x w'. view w (kind_of ob) (key_of ob) = Some old \<Longrightarrow>
             view w' = store_set (view w) (kind_of ob) (key_of ob) x \<Longrightarrow>
             (kind_of ob \<noteq> KPod \<Longrightarrow> meta_Finalizers (meta_of old) = [] \<Longrightarrow> x = None) \<Longrightarrow> Q None w'"
    and "\<And>e w'. view w' = view w \<Longrightarrow> Q (Some e) w'"
  shows "wp (env_delete cl ob) Q w"
proof (rule run_wp)
  fix r w' assume "run_state (env_delete cl ob) w = (r, w')"
  from delete_law[OF this] show "Q r w'" using assms by (cases r) auto
qed

lemma wp_now:
  assumes "\<And>t w'. view w' = view w \<Longrightarrow> Q t w'"
  shows "wp (env_now cl) Q w"
  by (rule run_wp) (auto dest: now_law intro: assms)

lemma wp_wait:
  assumes "\<And>r w'. (\<And>k. k \<noteq> KConfigMap \<Longrightarrow> view w' k = view w k) \<Longrightarrow> Q r w'"
  shows "wp (env_wait cl) Q w"
  by (rule run_wp) (auto dest: wait_law intro: assms)

lemmas kube_rules = wp_get wp_create wp_update wp_status_update wp_delete wp_now wp_wait

end

text \<open>Nothing but the object at this place changed.\<close>

definition only_at :: "('w \<Rightarrow> store) \<Rightarrow> kind \<Rightarrow> nskey \<Rightarrow> 'w \<Rightarrow> 'w \<Rightarrow> bool" where
  "only_at view k n w w' \<longleftrightarrow> (\<forall>k' n'. (k', n') \<noteq> (k, n) \<longrightarrow> view w' k' n' = view w k' n')"

lemma only_at_refl: "view w' = view w \<Longrightarrow> only_at view k n w w'"
  by (simp add: only_at_def)

lemma only_at_set: "view w' = store_set (view w) k n x \<Longrightarrow> only_at view k n w w'"
  by (simp add: only_at_def)

lemma only_at_set2: "view w1 = store_set (view w) k n y \<Longrightarrow> view w' = store_set (view w1) k n x \<Longrightarrow> only_at view k n w w'"
  by (simp add: only_at_def)

section \<open>A server that is up\<close>

definition rv_of :: "kobject \<Rightarrow> string" where
  "rv_of ob = meta_ResourceVersion (meta_of ob)"

definition stale :: "kobject \<Rightarrow> kobject \<Rightarrow> bool" where
  "stale old ob \<longleftrightarrow> rv_of ob \<noteq> '''' \<and> rv_of ob \<noteq> rv_of old"

lemma rv_of_with [simp]: "rv_of (with_rv rv ob) = rv" "rv_of (with_uid u ob) = rv_of ob"
  by (simp_all add: rv_of_def with_rv_def with_uid_def)

text \<open>
  Optimistic concurrency, on a server that answers and admits every update: an update of a stored object
  succeeds exactly when its resource version is the stored one (or empty), and an update that changes the
  object gives it a new resource version.
\<close>

locale kube_serving = kube_api +
  assumes serve_law:
    "run_state (env_update cl ob) w = (r, w') \<Longrightarrow> view w (kind_of ob) (key_of ob) = Some old \<Longrightarrow>
       r = None \<longleftrightarrow> \<not> stale old ob"
  and bump_law:
    "run_state (env_update cl ob) w = (None, w') \<Longrightarrow> view w (kind_of ob) (key_of ob) = Some old \<Longrightarrow>
       view w' (kind_of ob) (key_of ob) = Some new \<Longrightarrow>
       rv_of new \<noteq> '''' \<and> (put_main old ob \<noteq> old \<longrightarrow> rv_of new \<noteq> rv_of old)"
  and create_rv_law:
    "run_state (env_create cl ob) w = (None, w') \<Longrightarrow> view w' (kind_of ob) (key_of ob) = Some new \<Longrightarrow>
       rv_of new \<noteq> ''''"

section \<open>An in-memory API server\<close>

text \<open>
  Optimistic concurrency (a stale resource version is a Conflict), finalizers, the status
  subresource, an admission function, and a clock. \<open>step\<close> is what other processes do to the
  ConfigMaps while the operator waits.
\<close>

record mem =
  mem_objs :: store
  mem_now :: time
  mem_next :: nat

definition mem_view :: "mem \<Rightarrow> store" where
  "mem_view m k n = (case mem_objs m k n of None \<Rightarrow> None
     | Some ob \<Rightarrow> if kind_of ob = k \<and> key_of ob = n \<and> \<not> deletion_done ob then Some ob else None)"

definition not_found :: "nskey \<Rightarrow> error" where
  "not_found n = ApiError ReasonNotFound (Quote (snd n) @ '' not found'')"

definition mem_put :: "mem \<Rightarrow> kobject \<Rightarrow> kobject option \<Rightarrow> mem" where
  "mem_put m ob x = m\<lparr>mem_objs := store_set (mem_objs m) (kind_of ob) (key_of ob) x,
     mem_next := Suc (mem_next m)\<rparr>"

definition mem_get :: "kind \<Rightarrow> nskey \<Rightarrow> mem \<Rightarrow> (error + kobject) \<times> mem" where
  "mem_get k n m = (case mem_view m k n of None \<Rightarrow> Inl (not_found n) | Some ob \<Rightarrow> Inr ob, m)"

definition mem_create :: "kobject \<Rightarrow> mem \<Rightarrow> error option \<times> mem" where
  "mem_create ob m =
     (case mem_view m (kind_of ob) (key_of ob) of
        Some _ \<Rightarrow> (Some (ApiError ReasonAlreadyExists (Quote (snd (key_of ob)) @ '' already exists'')), m)
      | None \<Rightarrow>
          if deletion_done ob then (Some (ApiError ReasonInvalid ''metadata.deletionTimestamp is read only''), m)
          else (None, mem_put m ob (Some (with_uid (show_nat (mem_next m))
                                            (with_rv (show_nat (mem_next m)) ob)))))"

definition conflict :: error where
  "conflict = ApiError ReasonConflict ''the object has been modified''"

definition new_rv :: "mem \<Rightarrow> kobject \<Rightarrow> string" where
  "new_rv m old = (if show_nat (mem_next m) = rv_of old then show_nat (Suc (mem_next m)) else show_nat (mem_next m))"

lemma new_rv [simp]: "new_rv m old \<noteq> []" "new_rv m old \<noteq> rv_of old"
  using show_nat_inject[of "mem_next m" "Suc (mem_next m)"] by (auto simp: new_rv_def simp del: show_nat_inject)

definition mem_update :: "(kobject \<Rightarrow> kobject \<Rightarrow> error option) \<Rightarrow> kobject \<Rightarrow> mem \<Rightarrow> error option \<times> mem" where
  "mem_update admit ob m =
     (case mem_view m (kind_of ob) (key_of ob) of
        None \<Rightarrow> (Some (not_found (key_of ob)), m)
      | Some old \<Rightarrow>
          if stale old ob then (Some conflict, m)
          else (case admit old ob of
                  Some e \<Rightarrow> (Some e, m)
                | None \<Rightarrow> (None, mem_put m ob
                    (if deletion_done ob then None
                     else Some (with_rv (new_rv m old) (put_main old ob))))))"

definition mem_status_update :: "kobject \<Rightarrow> mem \<Rightarrow> error option \<times> mem" where
  "mem_status_update ob m =
     (case mem_view m (kind_of ob) (key_of ob) of
        None \<Rightarrow> (Some (not_found (key_of ob)), m)
      | Some old \<Rightarrow>
          if stale old ob then (Some conflict, m)
          else (None, mem_put m ob (Some (with_rv (show_nat (mem_next m)) (put_status old ob)))))"

definition mem_delete :: "kobject \<Rightarrow> mem \<Rightarrow> error option \<times> mem" where
  "mem_delete ob m =
     (case mem_view m (kind_of ob) (key_of ob) of
        None \<Rightarrow> (Some (not_found (key_of ob)), m)
      | Some old \<Rightarrow>
          (None, mem_put m ob
             (if meta_Finalizers (meta_of old) = [] then None
              else Some (with_rv (show_nat (mem_next m)) (map_meta (meta_DeletionTimestamp_update (\<lambda>_. Some (mem_now m))) old)))))"

definition mem_env :: "string \<Rightarrow> (kobject \<Rightarrow> kobject \<Rightarrow> error option) \<Rightarrow> (mem \<Rightarrow> mem) \<Rightarrow> mem env" where
  "mem_env ns admit step =
     \<lparr>env_get = (\<lambda>k n. State (mem_get k n)),
      env_create = (\<lambda>ob. State (mem_create ob)),
      env_update = (\<lambda>ob. State (mem_update admit ob)),
      env_status_update = (\<lambda>ob. State (mem_status_update ob)),
      env_delete = (\<lambda>ob. State (mem_delete ob)),
      env_now = State (\<lambda>m. (mem_now m, m)),
      env_wait = State (\<lambda>m. (None, step (m\<lparr>mem_now := mem_now m + 2000000000\<rparr>))),
      env_namespace = ns\<rparr>"

lemma mem_view_put_Some:
  assumes "kind_of ob' = kind_of ob" "key_of ob' = key_of ob" "\<not> deletion_done ob'"
  shows "mem_view (mem_put m ob (Some ob')) = store_set (mem_view m) (kind_of ob) (key_of ob) (Some ob')"
  using assms by (intro ext) (simp add: mem_view_def mem_put_def)

lemma mem_view_put_None:
  "mem_view (mem_put m ob None) = store_set (mem_view m) (kind_of ob) (key_of ob) None"
  by (intro ext) (simp add: mem_view_def mem_put_def)

lemmas mem_view_puts = mem_view_put_Some mem_view_put_None

lemma mem_view_Some: "mem_view m k n = Some ob \<Longrightarrow> kind_of ob = k \<and> key_of ob = n \<and> \<not> deletion_done ob"
  by (auto simp: mem_view_def split: option.splits if_splits)

lemma mem_view_now [simp]: "mem_view (mem_now_update f m) = mem_view m"
  by (simp add: mem_view_def fun_eq_iff)

lemma mem_env_sel [simp]:
  "env_get (mem_env ns admit step) k n = State (mem_get k n)"
  "env_create (mem_env ns admit step) ob = State (mem_create ob)"
  "env_update (mem_env ns admit step) ob = State (mem_update admit ob)"
  "env_status_update (mem_env ns admit step) ob = State (mem_status_update ob)"
  "env_delete (mem_env ns admit step) ob = State (mem_delete ob)"
  "env_now (mem_env ns admit step) = State (\<lambda>m. (mem_now m, m))"
  "env_wait (mem_env ns admit step) = State (\<lambda>m. (None, step (m\<lparr>mem_now := mem_now m + 2000000000\<rparr>)))"
  "env_namespace (mem_env ns admit step) = ns"
  by (simp_all add: mem_env_def)

lemma deletion_done_not_found [simp]: "IsNotFound (not_found n)"
  by (simp add: not_found_def IsNotFound_def)

text \<open>Each operation, success by success.\<close>

lemma mem_update_ok:
  assumes "mem_update admit ob m = (None, m')"
  obtains old where "mem_view m (kind_of ob) (key_of ob) = Some old" and
    "mem_view m' = store_set (mem_view m) (kind_of ob) (key_of ob)
       (if deletion_done ob then None else Some (with_rv (new_rv m old) (put_main old ob)))"
proof (cases "mem_view m (kind_of ob) (key_of ob)")
  case None
  with assms show ?thesis by (simp add: mem_update_def)
next
  case (Some old)
  with assms have "m' = mem_put m ob
      (if deletion_done ob then None else Some (with_rv (new_rv m old) (put_main old ob)))"
    by (simp add: mem_update_def split: if_splits option.splits)
  with Some show ?thesis by (intro that[OF Some]) (simp add: mem_view_puts)
qed

lemma mem_status_update_ok:
  assumes "mem_status_update ob m = (None, m')"
  obtains old where "mem_view m (kind_of ob) (key_of ob) = Some old" and
    "mem_view m' = store_set (mem_view m) (kind_of ob) (key_of ob)
       (Some (with_rv (show_nat (mem_next m)) (put_status old ob)))"
proof (cases "mem_view m (kind_of ob) (key_of ob)")
  case None
  with assms show ?thesis by (simp add: mem_status_update_def)
next
  case (Some old)
  with assms have "m' = mem_put m ob (Some (with_rv (show_nat (mem_next m)) (put_status old ob)))"
    by (simp add: mem_status_update_def split: if_splits)
  with Some mem_view_Some[OF Some] show ?thesis by (intro that[OF Some]) (simp add: mem_view_puts)
qed

lemma mem_delete_ok:
  assumes "mem_delete ob m = (None, m')"
  obtains old x where "mem_view m (kind_of ob) (key_of ob) = Some old" and
    "mem_view m' = store_set (mem_view m) (kind_of ob) (key_of ob) x" and
    "meta_Finalizers (meta_of old) = [] \<Longrightarrow> x = None"
proof (cases "mem_view m (kind_of ob) (key_of ob)")
  case None
  with assms show ?thesis by (simp add: mem_delete_def)
next
  case (Some old)
  let ?x = "if meta_Finalizers (meta_of old) = [] then None
            else Some (with_rv (show_nat (mem_next m)) (map_meta (meta_DeletionTimestamp_update (\<lambda>_. Some (mem_now m))) old))"
  have k: "key_of (map_meta (meta_DeletionTimestamp_update f) old) = key_of old" for f
    by (simp add: key_of_def)
  from Some assms have "m' = mem_put m ob ?x" by (simp add: mem_delete_def)
  moreover have "meta_Finalizers (meta_of old) \<noteq> [] \<Longrightarrow> \<not> deletion_done
      (map_meta (meta_DeletionTimestamp_update f) old)" for f
    by (simp add: deletion_done_def)
  ultimately show ?thesis using Some mem_view_Some[OF Some] k
    by (intro that[OF Some, of ?x]) (simp_all add: mem_view_puts)
qed

lemma mem_update_err: "mem_update admit ob m = (Some e, m') \<Longrightarrow> m' = m"
  by (simp add: mem_update_def split: option.splits if_splits)

lemma mem_status_update_err: "mem_status_update ob m = (Some e, m') \<Longrightarrow> m' = m"
  by (simp add: mem_status_update_def split: option.splits if_splits)

lemma mem_delete_err: "mem_delete ob m = (Some e, m') \<Longrightarrow> m' = m"
  by (simp add: mem_delete_def split: option.splits)

text \<open>The laws of the writing calls.\<close>

lemma mem_update_law:
  assumes "mem_update admit ob w = (r, w')"
  shows "case r of Some e \<Rightarrow> mem_view w' = mem_view w
    | None \<Rightarrow> (\<exists>old rv. mem_view w (kind_of ob) (key_of ob) = Some old \<and>
        mem_view w' = store_set (mem_view w) (kind_of ob) (key_of ob)
          (if deletion_done ob then None else Some (with_rv rv (put_main old ob))))"
proof (cases r)
  case None
  with assms obtain old where "mem_view w (kind_of ob) (key_of ob) = Some old"
    "mem_view w' = store_set (mem_view w) (kind_of ob) (key_of ob)
       (if deletion_done ob then None else Some (with_rv (new_rv w old) (put_main old ob)))"
    by (auto elim: mem_update_ok)
  with None show ?thesis by auto
next
  case (Some e)
  with assms have "w' = w" by (auto dest: mem_update_err)
  with Some show ?thesis by simp
qed

lemma mem_status_update_law:
  assumes "mem_status_update ob w = (r, w')"
  shows "case r of Some e \<Rightarrow> mem_view w' = mem_view w
    | None \<Rightarrow> (\<exists>old rv. mem_view w (kind_of ob) (key_of ob) = Some old \<and>
        mem_view w' = store_set (mem_view w) (kind_of ob) (key_of ob)
          (Some (with_rv rv (put_status old ob))))"
proof (cases r)
  case None
  with assms obtain old where "mem_view w (kind_of ob) (key_of ob) = Some old"
    "mem_view w' = store_set (mem_view w) (kind_of ob) (key_of ob)
       (Some (with_rv (show_nat (mem_next w)) (put_status old ob)))"
    by (auto elim: mem_status_update_ok)
  with None show ?thesis by auto
next
  case (Some e)
  with assms have "w' = w" by (auto dest: mem_status_update_err)
  with Some show ?thesis by simp
qed

lemma mem_delete_law:
  assumes "mem_delete ob w = (r, w')"
  shows "case r of Some e \<Rightarrow> mem_view w' = mem_view w
    | None \<Rightarrow> (\<exists>old x. mem_view w (kind_of ob) (key_of ob) = Some old \<and>
        mem_view w' = store_set (mem_view w) (kind_of ob) (key_of ob) x \<and>
        (kind_of ob \<noteq> KPod \<longrightarrow> meta_Finalizers (meta_of old) = [] \<longrightarrow> x = None))"
proof (cases r)
  case None
  with assms obtain old x where "mem_view w (kind_of ob) (key_of ob) = Some old"
    "mem_view w' = store_set (mem_view w) (kind_of ob) (key_of ob) x"
    "meta_Finalizers (meta_of old) = [] \<Longrightarrow> x = None"
    by (auto elim: mem_delete_ok)
  with None show ?thesis by auto
next
  case (Some e)
  with assms have "w' = w" by (auto dest: mem_delete_err)
  with Some show ?thesis by simp
qed

text \<open>The server satisfies the contract, whatever the other processes do to ConfigMaps.\<close>

lemma mem_kube_api:
  assumes step: "\<And>m k. k \<noteq> KConfigMap \<Longrightarrow> mem_view (step m) k = mem_view m k"
  shows "kube_api (mem_env ns admit step) mem_view"
proof (unfold_locales, goal_cases)
  case (1 k n w res w')
  then show ?case
    by (cases "mem_view w k n") (auto simp: mem_get_def dest: mem_view_Some)
next
  case (2 ob w r w')
  then show ?case
    by (cases "mem_view w (kind_of ob) (key_of ob)")
      (auto simp: mem_create_def mem_view_puts split: if_splits intro!: exI[of _ "show_nat (mem_next w)"])
next
  case (3 ob w r w')
  then show ?case by (intro mem_update_law) simp
next
  case (4 ob w r w')
  then show ?case by (intro mem_status_update_law) simp
next
  case (5 ob w r w')
  then show ?case by (intro mem_delete_law) simp
next
  case (6 w t w')
  then show ?case by simp
next
  case (7 w r w' k)
  then show ?case using step by auto
qed

interpretation mem: kube_api "mem_env ns (\<lambda>_ _. None) (\<lambda>m. m)" mem_view
  by (rule mem_kube_api) simp

lemma mem_kube_serving:
  assumes "\<And>m k. k \<noteq> KConfigMap \<Longrightarrow> mem_view (step m) k = mem_view m k"
  shows "kube_serving (mem_env ns (\<lambda>_ _. None) step) mem_view"
proof (intro kube_serving.intro mem_kube_api assms kube_serving_axioms.intro)
  fix ob w r w' old
  assume "run_state (env_update (mem_env ns (\<lambda>_ _. None) step) ob) w = (r, w')"
    and "mem_view w (kind_of ob) (key_of ob) = Some old"
  then show "(r = None) = (\<not> stale old ob)" by (auto simp: mem_update_def split: if_splits)
next
  fix ob w w' old new
  assume u: "run_state (env_update (mem_env ns (\<lambda>_ _. None) step) ob) w = (None, w')"
    and o: "mem_view w (kind_of ob) (key_of ob) = Some old" and n: "mem_view w' (kind_of ob) (key_of ob) = Some new"
  from u obtain old' where "mem_view w (kind_of ob) (key_of ob) = Some old'"
    "mem_view w' = store_set (mem_view w) (kind_of ob) (key_of ob)
       (if deletion_done ob then None else Some (with_rv (new_rv w old') (put_main old' ob)))"
    by (auto elim: mem_update_ok)
  then have "new = with_rv (new_rv w old) (put_main old ob)" using o n by (simp split: if_splits)
  then show "rv_of new \<noteq> '''' \<and> (put_main old ob \<noteq> old \<longrightarrow> rv_of new \<noteq> rv_of old)" by simp
next
  fix ob w w' new
  assume c: "run_state (env_create (mem_env ns (\<lambda>_ _. None) step) ob) w = (None, w')"
    and n: "mem_view w' (kind_of ob) (key_of ob) = Some new"
  from c have "w' = mem_put w ob (Some (with_uid (show_nat (mem_next w)) (with_rv (show_nat (mem_next w)) ob)))"
    "\<not> deletion_done ob"
    by (auto simp: mem_create_def split: option.splits if_splits)
  then have "new = with_uid (show_nat (mem_next w)) (with_rv (show_nat (mem_next w)) ob)"
    using n by (simp add: mem_view_puts)
  then show "rv_of new \<noteq> ''''" by simp
qed

interpretation mem_serving: kube_serving "mem_env ns (\<lambda>_ _. None) (\<lambda>m. m)" mem_view
  by (rule mem_kube_serving) simp

end
