(* ===== verification/Conditions.thy ===== *)
theory Conditions
  imports Kube_Api
begin

text \<open>
  The list helpers of \<^verbatim>\<open>controllers/agent_client.go\<close>: status conditions as a list keyed by
  type, and finalizer lists. The locale \<open>keyed_list\<close> is the contract the status setters rely on: a
  list kept as a map from keys to entries, without duplicate keys.
\<close>

section \<open>The helpers\<close>

fun setCondition :: "Condition list \<Rightarrow> Condition \<Rightarrow> Condition list" where
  "setCondition [] newCond = [newCond]"
| "setCondition (c # cs) newCond =
     (if cond_Type c = cond_Type newCond then newCond # cs else c # setCondition cs newCond)"

fun containsString :: "string list \<Rightarrow> string \<Rightarrow> bool" where
  "containsString [] s = False"
| "containsString (item # items) s = (if item = s then True else containsString items s)"

fun removeString :: "string list \<Rightarrow> string \<Rightarrow> string list" where
  "removeString [] s = []"
| "removeString (item # items) s =
     (if item \<noteq> s then item # removeString items s else removeString items s)"

definition setSimpleCondition ::
  "Condition list \<Rightarrow> string \<Rightarrow> string \<Rightarrow> string \<Rightarrow> ConditionStatus \<Rightarrow> time \<Rightarrow> Condition list" where
  "setSimpleCondition conditions t reason msg status now =
     setCondition conditions \<lparr>cond_Type = t, cond_Status = status, cond_Reason = reason,
       cond_Message = msg, cond_LastTransitionTime = now\<rparr>"

text \<open>
  \<^verbatim>\<open>conditions[len(conditions)-1].Status = metav1.ConditionFalse\<close>, as the array, pool and share
  setters write it after \<^verbatim>\<open>setCondition\<close> (so the list is not empty).
\<close>

definition setLastFalse :: "Condition list \<Rightarrow> Condition list" where
  "setLastFalse cs = cs[length cs - 1 := (cs ! (length cs - 1))\<lparr>cond_Status := ConditionFalse\<rparr>]"

section \<open>A list as a map keyed by type\<close>

definition cond_map :: "Condition list \<Rightarrow> string \<rightharpoonup> Condition" where
  "cond_map cs = map_of (map (\<lambda>c. (cond_Type c, c)) cs)"

definition types_distinct :: "Condition list \<Rightarrow> bool" where
  "types_distinct cs = distinct (map cond_Type cs)"

locale keyed_list =
  fixes key :: "'c \<Rightarrow> 'k" and put :: "'c list \<Rightarrow> 'c \<Rightarrow> 'c list"
    and lookup :: "'c list \<Rightarrow> 'k \<rightharpoonup> 'c" and invar :: "'c list \<Rightarrow> bool"
  assumes lookup_Nil: "lookup [] = Map.empty"
    and lookup_put: "lookup (put xs x) = (lookup xs)(key x \<mapsto> x)"
    and invar_Nil: "invar []"
    and invar_put: "invar xs \<Longrightarrow> invar (put xs x)"
begin

text \<open>A sequence of updates: the last write to each key wins.\<close>

fun puts :: "'c list \<Rightarrow> 'c list \<Rightarrow> 'c list" where
  "puts xs [] = xs"
| "puts xs (y # ys) = puts (put xs y) ys"

lemma lookup_puts: "lookup (puts xs ys) = lookup xs ++ map_of (map (\<lambda>c. (key c, c)) (rev ys))"
  by (induction ys arbitrary: xs) (simp_all add: lookup_put map_add_def fun_eq_iff split: option.split)

lemma invar_puts: "invar xs \<Longrightarrow> invar (puts xs ys)"
  by (induction ys arbitrary: xs) (simp_all add: invar_put)

lemma put_idem: "lookup (put (put xs x) x) = lookup (put xs x)"
  by (simp add: lookup_put)

end

lemma cond_map_Nil [simp]: "cond_map [] = Map.empty"
  by (simp add: cond_map_def)

lemma cond_map_Cons [simp]: "cond_map (c # cs) = (cond_map cs)(cond_Type c \<mapsto> c)"
  by (simp add: cond_map_def)

lemma cond_map_set: "cond_map (setCondition cs c) = (cond_map cs)(cond_Type c \<mapsto> c)"
  by (induction cs) (auto simp: fun_eq_iff)

lemma types_set: "cond_Type ` set (setCondition cs c) = insert (cond_Type c) (cond_Type ` set cs)"
  by (induction cs) auto

lemma types_distinct_set: "types_distinct cs \<Longrightarrow> types_distinct (setCondition cs c)"
  unfolding types_distinct_def
proof (induction cs)
  case Nil
  then show ?case by simp
next
  case (Cons x cs)
  then show ?case using types_set[of cs c] by auto
qed

interpretation conds: keyed_list cond_Type setCondition cond_map types_distinct
  by unfold_locales (simp_all add: cond_map_set types_distinct_set, simp add: types_distinct_def)

lemma setCondition_not_Nil [simp]: "setCondition cs c \<noteq> []"
  by (cases cs) simp_all

text \<open>\<^verbatim>\<open>setCondition\<close> appends only when the type is new; otherwise it keeps every position.\<close>

lemma setCondition_new: "cond_Type c \<notin> cond_Type ` set cs \<Longrightarrow> setCondition cs c = cs @ [c]"
  by (induction cs) auto

lemma setCondition_types:
  "cond_Type c \<in> cond_Type ` set cs \<Longrightarrow> map cond_Type (setCondition cs c) = map cond_Type cs"
  by (induction cs) auto

lemma cond_map_last:
  "types_distinct cs \<Longrightarrow> cs \<noteq> [] \<Longrightarrow>
   cond_map (setLastFalse cs) =
   (cond_map cs)(cond_Type (last cs) \<mapsto> (last cs)\<lparr>cond_Status := ConditionFalse\<rparr>)"
proof (induction cs rule: rev_induct)
  case Nil
  then show ?case by simp
next
  case (snoc c cs)
  have eq: "setLastFalse (cs @ [c]) = cs @ [c\<lparr>cond_Status := ConditionFalse\<rparr>]"
    by (simp add: setLastFalse_def)
  have "cond_map (cs @ [d]) = (\<lambda>t. case cond_map cs t of None \<Rightarrow> if t = cond_Type d then Some d else None
          | Some x \<Rightarrow> Some x)" for d
    by (auto simp: cond_map_def map_add_def fun_eq_iff split: option.split)
  moreover have "cond_map cs (cond_Type c) = None"
    using snoc.prems(1) by (auto simp: types_distinct_def cond_map_def map_of_eq_None_iff)
  ultimately show ?case by (auto simp: eq fun_eq_iff split: option.split)
qed

text \<open>
  Whether a "not ready" update of the array, pool and share setters reaches the \<open>Ready\<close>
  condition: exactly when it is the last entry.
\<close>

lemma Ready_false_iff_last:
  assumes d: "types_distinct cs" and c: "cond_Status c = ConditionTrue"
  shows "(\<exists>x. cond_map (setLastFalse (setCondition cs c)) (cond_Type c) = Some x \<and>
            cond_Status x = ConditionFalse)
         \<longleftrightarrow> cond_Type (last (setCondition cs c)) = cond_Type c"
proof -
  let ?cs = "setCondition cs c"
  have dd: "types_distinct ?cs" by (rule types_distinct_set[OF d])
  have m: "cond_map ?cs (cond_Type c) = Some c" by (simp add: cond_map_set)
  show ?thesis using c by (auto simp: cond_map_last[OF dd] m)
qed

section \<open>Finalizer lists\<close>

lemma containsString_iff [simp]: "containsString xs s \<longleftrightarrow> s \<in> set xs"
  by (induction xs) auto

lemma removeString_filter: "removeString xs s = filter (\<lambda>x. x \<noteq> s) xs"
  by (induction xs) auto

lemma set_removeString [simp]: "set (removeString xs s) = set xs - {s}"
  by (auto simp: removeString_filter)

end
