(* ===== verification/Placement.thy ===== *)
theory Placement
  imports Conditions "HOL-Library.Multiset"
begin

text \<open>
  Disk placement. \<^verbatim>\<open>PlacementScheduler\<close> of \<^verbatim>\<open>controllers/placement_failure_controllers.go\<close>
  (prefix \<open>ps_\<close>) chooses among \<^verbatim>\<open>Disk\<close> resources, \<^verbatim>\<open>Engine\<close> of \<^verbatim>\<open>storage/scheduler\<close> (prefix
  \<open>eng_\<close>) among plain candidates. The locale \<open>disk_selector\<close> is the contract of every strategy,
  \<open>slice_sorter\<close> the contract of \<^verbatim>\<open>sort.Slice\<close>.
\<close>

section \<open>sort.Slice\<close>

text \<open>
  \<^verbatim>\<open>sort.Slice\<close> promises a permutation that is ordered when \<^verbatim>\<open>less\<close> is a strict weak order, and
  no stability. The code's selections take the sorting function as a parameter; Go sorts up to
  twelve elements with the insertion sort \<open>insertionSort\<close>.
\<close>

definition strict_weak :: "('a \<Rightarrow> 'a \<Rightarrow> bool) \<Rightarrow> 'a set \<Rightarrow> bool" where
  "strict_weak lt A \<longleftrightarrow>
     (\<forall>x\<in>A. \<not> lt x x) \<and>
     (\<forall>x\<in>A. \<forall>y\<in>A. \<forall>z\<in>A. lt x y \<longrightarrow> lt y z \<longrightarrow> lt x z) \<and>
     (\<forall>x\<in>A. \<forall>y\<in>A. \<forall>z\<in>A. lt x z \<longrightarrow> lt x y \<or> lt y z)"

lemma strict_weak_irrefl: "strict_weak lt A \<Longrightarrow> x \<in> A \<Longrightarrow> \<not> lt x x"
  by (simp add: strict_weak_def)

lemma strict_weak_trans:
  "strict_weak lt A \<Longrightarrow> x \<in> A \<Longrightarrow> y \<in> A \<Longrightarrow> z \<in> A \<Longrightarrow> lt x y \<Longrightarrow> lt y z \<Longrightarrow> lt x z"
  unfolding strict_weak_def by blast

lemma strict_weak_negtrans:
  "strict_weak lt A \<Longrightarrow> x \<in> A \<Longrightarrow> y \<in> A \<Longrightarrow> z \<in> A \<Longrightarrow> lt x z \<Longrightarrow> lt x y \<or> lt y z"
  unfolding strict_weak_def by blast

lemma strict_weak_asym: "strict_weak lt A \<Longrightarrow> x \<in> A \<Longrightarrow> y \<in> A \<Longrightarrow> lt x y \<Longrightarrow> \<not> lt y x"
  using strict_weak_trans[of lt A x y x] strict_weak_irrefl[of lt A x] by blast

locale slice_sorter =
  fixes sorter :: "('a \<Rightarrow> 'a \<Rightarrow> bool) \<Rightarrow> 'a list \<Rightarrow> 'a list"
  assumes sorter_mset: "mset (sorter lt xs) = mset xs"
    and sorter_sorted: "strict_weak lt (set xs) \<Longrightarrow> sorted_wrt (\<lambda>x y. \<not> lt y x) (sorter lt xs)"
begin

lemma sorter_set: "set (sorter lt xs) = set xs"
  using sorter_mset[of lt xs] by (metis set_mset_mset)

lemma sorter_Nil_iff: "sorter lt xs = [] \<longleftrightarrow> xs = []"
  using sorter_mset[of lt xs] by (metis mset_zero_iff)

lemma sorter_hd: "xs \<noteq> [] \<Longrightarrow> hd (sorter lt xs) \<in> set xs"
  using sorter_Nil_iff sorter_set hd_in_set by metis

text \<open>The first element after sorting is minimal.\<close>

lemma sorter_hd_least:
  assumes "strict_weak lt (set xs)" and y: "y \<in> set xs"
  shows "\<not> lt y (hd (sorter lt xs))"
proof -
  have s: "sorted_wrt (\<lambda>x y. \<not> lt y x) (sorter lt xs)" using assms(1) by (rule sorter_sorted)
  have "y \<in> set (sorter lt xs)" using y by (simp add: sorter_set)
  then obtain z zs where zs: "sorter lt xs = z # zs" by (cases "sorter lt xs") auto
  have "\<not> lt z z" using assms(1) zs sorter_set[of lt xs] by (auto simp: strict_weak_def)
  then show ?thesis using s y zs sorter_set[of lt xs] by auto
qed

end

fun insert_back :: "('a \<Rightarrow> 'a \<Rightarrow> bool) \<Rightarrow> 'a \<Rightarrow> 'a list \<Rightarrow> 'a list" where
  "insert_back lt x [] = [x]"
| "insert_back lt x (y # ys) = (if lt x y then y # insert_back lt x ys else x # y # ys)"

text \<open>
  The inner loop swaps the new element leftwards while it is smaller than its left neighbour: on
  the reversed sorted prefix that is \<open>insert_back\<close>.
\<close>

definition insertionSort :: "('a \<Rightarrow> 'a \<Rightarrow> bool) \<Rightarrow> 'a list \<Rightarrow> 'a list" where
  "insertionSort lt xs = rev (foldl (\<lambda>done x. insert_back lt x done) [] xs)"

lemma mset_insert_back [simp]: "mset (insert_back lt x ys) = add_mset x (mset ys)"
  by (induction ys) auto

lemma set_insert_back [simp]: "set (insert_back lt x ys) = insert x (set ys)"
  by (induction ys) auto

lemma sorted_insert_back:
  assumes "strict_weak lt A" "x \<in> A" "set ys \<subseteq> A" "sorted_wrt (\<lambda>a b. \<not> lt a b) ys"
  shows "sorted_wrt (\<lambda>a b. \<not> lt a b) (insert_back lt x ys)"
  using assms(3,4)
proof (induction ys)
  case Nil
  then show ?case by simp
next
  case (Cons y ys)
  then have A: "y \<in> A" "set ys \<subseteq> A" and st: "\<forall>z \<in> set ys. \<not> lt y z"
    and IH: "sorted_wrt (\<lambda>a b. \<not> lt a b) (insert_back lt x ys)" by auto
  show ?case
  proof (cases "lt x y")
    case True
    then have "\<not> lt y x" using strict_weak_asym[OF assms(1,2) A(1)] by simp
    with True IH st show ?thesis by simp
  next
    case False
    have "\<not> lt x z" if "z \<in> set ys" for z
      using strict_weak_negtrans[OF assms(1,2) A(1), of z] that A(2) st False by blast
    with False Cons.prems(2) show ?thesis by simp
  qed
qed

lemma foldl_insert_back:
  assumes "strict_weak lt A" "set xs \<subseteq> A" "set acc \<subseteq> A" "sorted_wrt (\<lambda>a b. \<not> lt a b) acc"
  shows "sorted_wrt (\<lambda>a b. \<not> lt a b) (foldl (\<lambda>done x. insert_back lt x done) acc xs)"
  using assms(2-4)
  by (induction xs arbitrary: acc) (auto simp: sorted_insert_back[OF assms(1)])

lemma mset_foldl_insert_back:
  "mset (foldl (\<lambda>done x. insert_back lt x done) acc xs) = mset acc + mset xs"
  by (induction xs arbitrary: acc) auto

interpretation insertion: slice_sorter insertionSort
  by unfold_locales
    (auto simp: insertionSort_def mset_foldl_insert_back sorted_wrt_rev intro: foldl_insert_back)

section \<open>The contract of a selection strategy\<close>

locale disk_selector =
  fixes sel :: "'a list \<Rightarrow> 'a option" and better :: "'a \<Rightarrow> 'a \<Rightarrow> bool"
  assumes sel_mem: "xs \<noteq> [] \<Longrightarrow> \<exists>x \<in> set xs. sel xs = Some x"
    and sel_best: "sel xs = Some x \<Longrightarrow> y \<in> set xs \<Longrightarrow> \<not> better y x"
begin

lemma sel_in: "xs \<noteq> [] \<Longrightarrow> sel xs = Some x \<Longrightarrow> x \<in> set xs"
  using sel_mem by fastforce

text \<open>Selecting after a filter: the choice passes the filter and no passing candidate beats it.\<close>

lemma filtered_mem: "filter P xs \<noteq> [] \<Longrightarrow> sel (filter P xs) = Some x \<Longrightarrow> x \<in> set xs \<and> P x"
  using sel_in[of "filter P xs" x] by auto

lemma filtered_best: "sel (filter P xs) = Some x \<Longrightarrow> y \<in> set xs \<Longrightarrow> P y \<Longrightarrow> \<not> better y x"
  using sel_best[of "filter P xs" x y] by auto

lemma filtered_some: "y \<in> set xs \<Longrightarrow> P y \<Longrightarrow> \<exists>x. sel (filter P xs) = Some x"
  using sel_mem[of "filter P xs"] by (auto simp: filter_empty_conv)

end

text \<open>
  The loop that keeps the best candidate so far and replaces it by a strictly better one. If
  "strictly better" is a strict weak order, the result is a maximum.
\<close>

fun scan :: "('a \<Rightarrow> 'a \<Rightarrow> bool) \<Rightarrow> 'a \<Rightarrow> 'a list \<Rightarrow> 'a" where
  "scan better best [] = best"
| "scan better best (d # ds) = scan better (if better d best then d else best) ds"

lemma scan_mem: "scan better b ds \<in> insert b (set ds)"
proof (induction ds arbitrary: b)
  case Nil
  then show ?case by simp
next
  case (Cons d ds)
  then show ?case using Cons[of d] Cons[of b] by auto
qed

lemma scan_best:
  assumes irr: "\<And>x. \<not> better x x" and tr: "\<And>x y z. better x y \<Longrightarrow> better y z \<Longrightarrow> better x z"
    and neg: "\<And>x y z. better x z \<Longrightarrow> better x y \<or> better y z"
  shows "y \<in> insert b (set ds) \<Longrightarrow> \<not> better y (scan better b ds)"
proof (induction ds arbitrary: b y)
  case Nil
  then show ?case by (simp add: irr)
next
  case (Cons d ds)
  let ?b = "if better d b then d else b"
  have b: "\<not> better ?b (scan better ?b ds)" by (rule Cons.IH) simp
  consider "y \<in> set ds" | "y = d \<or> y = b" using Cons.prems by auto
  then show ?case
  proof cases
    case 1
    then show ?thesis using Cons.IH[of y ?b] by simp
  next
    case 2
    then have "\<not> better y ?b" using irr tr by auto
    then show ?thesis using b neg[of y "scan better ?b ds" ?b] by auto
  qed
qed

lemmas scan_best_int = scan_best[where better = "\<lambda>x y. f y < f x" for f :: "_ \<Rightarrow> int"]

section \<open>PlacementScheduler\<close>

definition usedBytes :: "Disk \<Rightarrow> i64" where
  "usedBytes d = disk_CapacityBytes (disk_Status d) - disk_AvailableBytes (disk_Status d)"

text \<open>\<^verbatim>\<open>float64(d.Status.AvailableBytes) / float64(d.Status.CapacityBytes)\<close>\<close>

definition freeRatio :: "Disk \<Rightarrow> f64" where
  "freeRatio d = fdiv (of_i64 (disk_AvailableBytes (disk_Status d)))
                      (of_i64 (disk_CapacityBytes (disk_Status d)))"

definition ps_eligible :: "Disk \<Rightarrow> bool" where
  "ps_eligible d \<longleftrightarrow>
     (if disk_Phase (disk_Status d) \<noteq> DiskPhaseReady then False
      else if disk_CapacityBytes (disk_Status d) = 0 then False
      else if flt (freeRatio d) (lit (5 / 100)) then False
      else True)"

definition ps_filterEligible :: "PlacementPolicy \<Rightarrow> Disk list \<Rightarrow> Disk list" where
  "ps_filterEligible policy disks = filter ps_eligible disks"

definition ps_weights :: "PlacementPolicy \<Rightarrow> f64 \<times> f64 \<times> f64" where
  "ps_weights policy =
     (case policy_Weights (policy_Spec policy) of
        None \<Rightarrow> (lit (7 / 10), lit (2 / 10), lit (1 / 10))
      | Some w \<Rightarrow> (weight_FreeSpace w, weight_Load w, weight_Health w))"

definition ps_score :: "f64 \<times> f64 \<times> f64 \<Rightarrow> Disk \<Rightarrow> f64" where
  "ps_score ws d =
     (case ws of (wFree, wLoad, wHealth) \<Rightarrow>
       let fr = (if 0 < sint (disk_CapacityBytes (disk_Status d)) then freeRatio d else lit 0);
           inverseLoad = fr;
           healthScore = disk_HealthScore (disk_Status d)
       in fadd (fadd (fmul fr wFree) (fmul inverseLoad wLoad)) (fmul healthScore wHealth))"

type_synonym 'a sorter = "('a \<times> f64 \<Rightarrow> 'a \<times> f64 \<Rightarrow> bool) \<Rightarrow> ('a \<times> f64) list \<Rightarrow> ('a \<times> f64) list"

text \<open>\<^verbatim>\<open>scored[i].Score > scored[j].Score\<close>\<close>

definition higher :: "'a \<times> f64 \<Rightarrow> 'a \<times> f64 \<Rightarrow> bool" where
  "higher x y = flt (snd y) (snd x)"

text \<open>The empty slice would panic in \<^verbatim>\<open>scored[0]\<close>; the only caller passes a non-empty one.\<close>

definition ps_selectBalanced ::
  "Disk sorter \<Rightarrow> PlacementPolicy \<Rightarrow> Disk list \<Rightarrow> error + Disk" where
  "ps_selectBalanced sorter policy disks =
     (let scored = map (\<lambda>d. (d, ps_score (ps_weights policy) d)) disks
      in case sorter higher scored of
           [] \<Rightarrow> Inl (Panic ''index out of range [0] with length 0'')
         | s # _ \<Rightarrow> Inr (fst s))"

definition ps_selectLeastUsed :: "Disk list \<Rightarrow> Disk option" where
  "ps_selectLeastUsed disks =
     foldl (\<lambda>best d. case best of
              None \<Rightarrow> Some d
            | Some b \<Rightarrow> if sint (disk_AvailableBytes (disk_Status b)) < sint (disk_AvailableBytes (disk_Status d))
                        then Some d else Some b) None disks"

definition ps_selectFillFirst :: "Disk list \<Rightarrow> Disk option" where
  "ps_selectFillFirst disks =
     foldl (\<lambda>best d. case best of
              None \<Rightarrow> Some d
            | Some b \<Rightarrow> if sint (usedBytes b) < sint (usedBytes d) then Some d else Some b)
       None disks"

fun ps_firstSSD :: "Disk list \<Rightarrow> Disk option" where
  "ps_firstSSD [] = None"
| "ps_firstSSD (d # ds) = (if \<not> disk_Rotational (disk_Status d) then Some d else ps_firstSSD ds)"

definition ps_selectTiered :: "Disk list \<Rightarrow> Disk option" where
  "ps_selectTiered disks =
     (case ps_firstSSD disks of Some d \<Rightarrow> Some d | None \<Rightarrow> ps_selectLeastUsed disks)"

text \<open>A selector returns \<^verbatim>\<open>(disk, nil)\<close>; a nil pointer without error is impossible on the caller's
  non-empty slice and would be a nil dereference later.\<close>

definition ret_disk :: "Disk option \<Rightarrow> error + Disk" where
  "ret_disk r = (case r of Some d \<Rightarrow> Inr d | None \<Rightarrow> Inl (Panic ''nil pointer dereference''))"

definition SelectDisk :: "Disk sorter \<Rightarrow> PlacementPolicy \<Rightarrow> Disk list \<Rightarrow> error + Disk" where
  "SelectDisk sorter policy candidates =
     (let eligible = ps_filterEligible policy candidates
      in if length eligible = 0
         then Inl (ErrorString ''no eligible disks meet policy constraints'')
         else (case policy_Strategy (policy_Spec policy) of
                 PlacementStrategyBalanced \<Rightarrow> ps_selectBalanced sorter policy eligible
               | PlacementStrategyLeastUsed \<Rightarrow> ret_disk (ps_selectLeastUsed eligible)
               | PlacementStrategyFillFirst \<Rightarrow> ret_disk (ps_selectFillFirst eligible)
               | PlacementStrategyTiered \<Rightarrow> ret_disk (ps_selectTiered eligible)
               | PlacementStrategyOther s \<Rightarrow> ps_selectBalanced sorter policy eligible))"

section \<open>Engine of storage/scheduler\<close>

record SchedDisk =
  sd_Name :: string
  sd_CapacityBytes :: i64
  sd_AvailableBytes :: i64
  sd_HealthScore :: f64
  sd_IOLoadScore :: f64
  sd_Rotational :: bool
  sd_Eligible :: bool

record EngineWeights =
  ew_FreeSpace :: f64
  ew_Health :: f64
  ew_IOLoad :: f64

datatype Strategy = StrategyBalanced | StrategyLeastUsed | StrategyFillFirst | StrategyTiered
  | StrategyOther string

definition NewEngine :: EngineWeights where
  "NewEngine = \<lparr>ew_FreeSpace = lit (7 / 10), ew_Health = lit (2 / 10), ew_IOLoad = lit (1 / 10)\<rparr>"

definition eng_eligible :: "SchedDisk \<Rightarrow> bool" where
  "eng_eligible d \<longleftrightarrow>
     \<not> (\<not> sd_Eligible d \<or> sint (sd_CapacityBytes d) \<le> 0 \<or> sint (sd_AvailableBytes d) \<le> 0)"

definition eng_filterEligible :: "SchedDisk list \<Rightarrow> SchedDisk list" where
  "eng_filterEligible disks = filter eng_eligible disks"

definition eng_score :: "EngineWeights \<Rightarrow> SchedDisk \<Rightarrow> f64" where
  "eng_score w d =
     (let fr = fdiv (of_i64 (sd_AvailableBytes d)) (of_i64 (sd_CapacityBytes d))
      in fadd (fadd (fmul fr (ew_FreeSpace w)) (fmul (sd_HealthScore d) (ew_Health w)))
              (fmul (sd_IOLoadScore d) (ew_IOLoad w)))"

definition eng_selectBalanced ::
  "SchedDisk sorter \<Rightarrow> EngineWeights \<Rightarrow> SchedDisk list \<Rightarrow> error + SchedDisk" where
  "eng_selectBalanced sorter w disks =
     (case sorter higher (map (\<lambda>d. (d, eng_score w d)) disks) of
        [] \<Rightarrow> Inl (Panic ''index out of range [0] with length 0'')
      | s # _ \<Rightarrow> Inr (fst s))"

text \<open>\<^verbatim>\<open>best := disks[0]; for _, d := range disks[1:]\<close> panics on an empty slice.\<close>

definition eng_selectLeastUsed :: "SchedDisk list \<Rightarrow> error + SchedDisk" where
  "eng_selectLeastUsed disks =
     (case disks of [] \<Rightarrow> Inl (Panic ''index out of range [0] with length 0'')
      | b # ds \<Rightarrow> Inr (scan (\<lambda>d best. sint (sd_AvailableBytes best) < sint (sd_AvailableBytes d)) b ds))"

definition eng_selectFillFirst :: "SchedDisk list \<Rightarrow> error + SchedDisk" where
  "eng_selectFillFirst disks =
     (case disks of [] \<Rightarrow> Inl (Panic ''index out of range [0] with length 0'')
      | b # ds \<Rightarrow> Inr (scan (\<lambda>d best.
           sint (sd_CapacityBytes best - sd_AvailableBytes best)
           < sint (sd_CapacityBytes d - sd_AvailableBytes d)) b ds))"

fun eng_firstSSD :: "SchedDisk list \<Rightarrow> SchedDisk option" where
  "eng_firstSSD [] = None"
| "eng_firstSSD (d # ds) = (if \<not> sd_Rotational d then Some d else eng_firstSSD ds)"

definition eng_selectTiered :: "SchedDisk list \<Rightarrow> error + SchedDisk" where
  "eng_selectTiered disks =
     (case eng_firstSSD disks of Some d \<Rightarrow> Inr d | None \<Rightarrow> eng_selectLeastUsed disks)"

definition Engine_Select ::
  "SchedDisk sorter \<Rightarrow> EngineWeights \<Rightarrow> Strategy \<Rightarrow> SchedDisk list \<Rightarrow> error + SchedDisk" where
  "Engine_Select sorter w strategy disks =
     (let eligible = eng_filterEligible disks
      in if length eligible = 0 then Inl (ErrorString ''no eligible disks'')
         else (case strategy of
                 StrategyLeastUsed \<Rightarrow> eng_selectLeastUsed eligible
               | StrategyFillFirst \<Rightarrow> eng_selectFillFirst eligible
               | StrategyTiered \<Rightarrow> eng_selectTiered eligible
               | _ \<Rightarrow> eng_selectBalanced sorter w eligible))"

section \<open>Every strategy meets the contract\<close>

lemma foldl_scan_Some:
  "foldl (\<lambda>best d. case best of None \<Rightarrow> Some d | Some b \<Rightarrow> if better d b then Some d else Some b) (Some b) ds
   = Some (scan better b ds)"
  by (induction ds arbitrary: b) auto

lemma foldl_scan:
  "foldl (\<lambda>best d. case best of None \<Rightarrow> Some d | Some b \<Rightarrow> if better d b then Some d else Some b) None ds
   = (case ds of [] \<Rightarrow> None | b # r \<Rightarrow> Some (scan better b r))"
  by (cases ds) (simp_all add: foldl_scan_Some)

lemma disk_selector_scan:
  fixes f :: "'a \<Rightarrow> int"
  shows "disk_selector (\<lambda>ds. case ds of [] \<Rightarrow> None | b # r \<Rightarrow> Some (scan (\<lambda>d best. f best < f d) b r))
           (\<lambda>d best. f best < f d)"
proof
  fix xs :: "'a list" assume "xs \<noteq> []"
  then obtain b r where xs: "xs = b # r" by (cases xs) auto
  show "\<exists>x\<in>set xs. (case xs of [] \<Rightarrow> None | b # r \<Rightarrow> Some (scan (\<lambda>d best. f best < f d) b r)) = Some x"
    using scan_mem[of "\<lambda>d best. f best < f d" b r] by (auto simp: xs)
next
  fix xs :: "'a list" and x y
  assume x: "(case xs of [] \<Rightarrow> None | b # r \<Rightarrow> Some (scan (\<lambda>d best. f best < f d) b r)) = Some x"
    and y: "y \<in> set xs"
  obtain b r where xs: "xs = b # r" using y by (cases xs) auto
  have "\<not> f (scan (\<lambda>d best. f best < f d) b r) < f y"
    by (rule scan_best) (use y xs in auto)
  with x xs show "\<not> f x < f y" by simp
qed

abbreviation avail :: "Disk \<Rightarrow> int" where
  "avail d \<equiv> sint (disk_AvailableBytes (disk_Status d))"

abbreviation capacity :: "Disk \<Rightarrow> int" where
  "capacity d \<equiv> sint (disk_CapacityBytes (disk_Status d))"

abbreviation rotational :: "Disk \<Rightarrow> bool" where
  "rotational d \<equiv> disk_Rotational (disk_Status d)"

lemma ps_selectLeastUsed_scan:
  "ps_selectLeastUsed = (\<lambda>ds. case ds of [] \<Rightarrow> None | b # r \<Rightarrow> Some (scan (\<lambda>d best. avail best < avail d) b r))"
  by (simp add: fun_eq_iff ps_selectLeastUsed_def foldl_scan)

lemma ps_selectFillFirst_scan:
  "ps_selectFillFirst = (\<lambda>ds. case ds of [] \<Rightarrow> None
     | b # r \<Rightarrow> Some (scan (\<lambda>d best. sint (usedBytes best) < sint (usedBytes d)) b r))"
  by (simp add: fun_eq_iff ps_selectFillFirst_def foldl_scan)

interpretation least_used: disk_selector ps_selectLeastUsed "\<lambda>d best. avail best < avail d"
  unfolding ps_selectLeastUsed_scan by (rule disk_selector_scan)

interpretation fill_first: disk_selector ps_selectFillFirst
    "\<lambda>d best. sint (usedBytes best) < sint (usedBytes d)"
  unfolding ps_selectFillFirst_scan by (rule disk_selector_scan)

definition tier_better :: "Disk \<Rightarrow> Disk \<Rightarrow> bool" where
  "tier_better d best \<longleftrightarrow>
     (\<not> rotational d \<and> rotational best) \<or> (rotational d \<and> rotational best \<and> avail best < avail d)"

lemma ps_firstSSD_find: "ps_firstSSD ds = find (\<lambda>d. \<not> rotational d) ds"
  by (induction ds) auto

interpretation tiered: disk_selector ps_selectTiered tier_better
proof
  fix xs :: "Disk list" assume xs: "xs \<noteq> []"
  show "\<exists>x\<in>set xs. ps_selectTiered xs = Some x"
    using least_used.sel_mem[OF xs]
    by (auto simp: ps_selectTiered_def ps_firstSSD_find find_Some_iff split: option.splits)
next
  fix xs and x y :: Disk
  assume x: "ps_selectTiered xs = Some x" and y: "y \<in> set xs"
  show "\<not> tier_better y x"
  proof (cases "ps_firstSSD xs")
    case None
    then have "\<forall>d \<in> set xs. rotational d" by (auto simp: ps_firstSSD_find find_None_iff)
    moreover have "ps_selectLeastUsed xs = Some x" using x None by (simp add: ps_selectTiered_def)
    ultimately show ?thesis using least_used.sel_best[of xs x y] y by (auto simp: tier_better_def)
  next
    case (Some d)
    then have "x = d" using x by (simp add: ps_selectTiered_def)
    moreover have "\<not> rotational d" using Some by (auto simp: ps_firstSSD_find find_Some_iff)
    ultimately show ?thesis by (simp add: tier_better_def)
  qed
qed

text \<open>The balanced strategy, over the contract of the sort.\<close>

lemma higher_strict_weak: "(\<And>s. s \<in> A \<Longrightarrow> snd s \<noteq> NaN) \<Longrightarrow> strict_weak higher A"
proof -
  assume A: "\<And>s. s \<in> A \<Longrightarrow> snd s \<noteq> NaN"
  have "higher x y \<or> higher y z" if "x \<in> A" "y \<in> A" "z \<in> A" "higher x z" for x y z
    using that A[of x] A[of y] A[of z]
    by (cases "snd x"; cases "snd y"; cases "snd z") (auto simp: higher_def)
  then show ?thesis unfolding strict_weak_def by (auto simp: higher_def intro: flt_trans)
qed

lemma balanced_mem:
  assumes s: "slice_sorter (sorter :: Disk sorter)" and ne: "ds \<noteq> []"
  shows "\<exists>d \<in> set ds. ps_selectBalanced sorter policy ds = Inr d"
proof -
  let ?sc = "map (\<lambda>d. (d, ps_score (ps_weights policy) d)) ds"
  have "sorter higher ?sc \<noteq> []" using slice_sorter.sorter_Nil_iff[OF s] ne by auto
  then obtain p ps where p: "sorter higher ?sc = p # ps" by (cases "sorter higher ?sc") auto
  have "p \<in> set ?sc" using slice_sorter.sorter_hd[OF s, of ?sc higher] ne p by auto
  then show ?thesis by (auto simp: ps_selectBalanced_def p Let_def)
qed

lemma balanced_best:
  assumes s: "slice_sorter (sorter :: Disk sorter)"
    and nan: "\<And>d. d \<in> set ds \<Longrightarrow> ps_score (ps_weights policy) d \<noteq> NaN"
    and x: "ps_selectBalanced sorter policy ds = Inr x" and y: "y \<in> set ds"
  shows "\<not> flt (ps_score (ps_weights policy) x) (ps_score (ps_weights policy) y)"
proof -
  let ?g = "\<lambda>d. (d, ps_score (ps_weights policy) d)"
  let ?sc = "map ?g ds"
  have ne: "?sc \<noteq> []" using y by (cases ds) auto
  obtain p ps where p: "sorter higher ?sc = p # ps"
    using slice_sorter.sorter_Nil_iff[OF s, of higher ?sc] ne by (cases "sorter higher ?sc") auto
  have mem: "p \<in> set ?sc" using slice_sorter.sorter_hd[OF s, of ?sc higher] ne p by simp
  have "strict_weak higher (set ?sc)" by (rule higher_strict_weak) (use nan in auto)
  then have "\<not> higher (?g y) p" using slice_sorter.sorter_hd_least[OF s, of higher ?sc "?g y"] y p by simp
  then show ?thesis using x mem by (auto simp: ps_selectBalanced_def p Let_def higher_def)
qed

section \<open>SelectDisk\<close>

lemma SelectDisk_cases:
  assumes s: "slice_sorter sorter" and ne: "filter ps_eligible cands \<noteq> []"
  shows "\<exists>d \<in> set (filter ps_eligible cands). SelectDisk sorter policy cands = Inr d"
proof -
  let ?e = "filter ps_eligible cands"
  show ?thesis
    using balanced_mem[OF s ne, of policy] least_used.sel_mem[OF ne] fill_first.sel_mem[OF ne]
      tiered.sel_mem[OF ne] ne
    by (cases "policy_Strategy (policy_Spec policy)")
      (auto simp: SelectDisk_def ps_filterEligible_def ret_disk_def Let_def)
qed

text \<open>C15. A disk chosen by \<^verbatim>\<open>SelectDisk\<close>, whatever the policy's strategy, is one of the candidates, is
  Ready, has a non-zero capacity and passed the five-percent free-space check.\<close>

theorem SelectDisk_safe:
  assumes "slice_sorter sorter" and "SelectDisk sorter policy cands = Inr d"
  shows "d \<in> set cands \<and> disk_Phase (disk_Status d) = DiskPhaseReady
         \<and> disk_CapacityBytes (disk_Status d) \<noteq> 0 \<and> \<not> flt (freeRatio d) (lit (5 / 100))"
proof -
  have ne: "filter ps_eligible cands \<noteq> []"
    using assms(2) by (auto simp: SelectDisk_def ps_filterEligible_def Let_def split: if_splits)
  have "d \<in> set (filter ps_eligible cands)"
    using SelectDisk_cases[OF assms(1) ne, of policy] assms(2) by auto
  then show ?thesis by (auto simp: ps_eligible_def split: if_splits)
qed

text \<open>\<^verbatim>\<open>SelectDisk\<close> fails exactly when no candidate is eligible, then with the error
  \<^verbatim>\<open>no eligible disks meet policy constraints\<close>; in every other case it returns a disk, never a
  nil pointer and never an index panic.\<close>

lemma SelectDisk_total:
  assumes "slice_sorter sorter"
  shows "if \<exists>d \<in> set cands. ps_eligible d
         then \<exists>d. SelectDisk sorter policy cands = Inr d
         else SelectDisk sorter policy cands = Inl (ErrorString ''no eligible disks meet policy constraints'')"
proof (cases "filter ps_eligible cands = []")
  case True
  then show ?thesis by (auto simp: SelectDisk_def ps_filterEligible_def Let_def filter_empty_conv)
next
  case False
  then show ?thesis using SelectDisk_cases[OF assms False, of policy] by (auto simp: filter_empty_conv)
qed

text \<open>The order each strategy promises: what it means that a candidate beats the choice.\<close>

definition strategy_better :: "PlacementPolicy \<Rightarrow> Disk \<Rightarrow> Disk \<Rightarrow> bool" where
  "strategy_better policy y x =
     (case policy_Strategy (policy_Spec policy) of
        PlacementStrategyLeastUsed \<Rightarrow> avail x < avail y
      | PlacementStrategyFillFirst \<Rightarrow> sint (usedBytes x) < sint (usedBytes y)
      | PlacementStrategyTiered \<Rightarrow> tier_better y x
      | _ \<Rightarrow> flt (ps_score (ps_weights policy) x) (ps_score (ps_weights policy) y))"


section \<open>The five-percent check in exact arithmetic\<close>

lemma rnd_twentieth: "rnd (5 / 100) = 7205759403792794 / 144115188075855872"
  by code_simp

lemma rnd_below_twentieth:
  "rnd (7205759403792793 / 144115188075855872) = 7205759403792793 / 144115188075855872"
  by (rule rnd_exact[of _ 7205759403792793 "- 57"]) (simp_all add: pow2_def)

lemma lit_twentieth: "lit (5 / 100) = Fin (7205759403792794 / 144115188075855872)"
proof -
  have "(5 / 100 :: rat) \<le> 2 ^ 64" by simp
  then have "\<bar>5 / 100 :: rat\<bar> \<le> max_float" using max_float_big by linarith
  then show ?thesis by (simp only: lit_def fround_small rnd_twentieth)
qed

lemma lit_1_20: "lit (1 / 20) = Fin (3602879701896397 / 72057594037927936)"
  using lit_twentieth by simp

lemma sint_zero_iff: "sint (w :: i64) = 0 \<longleftrightarrow> w = 0"
  by (metis signed_0 signed_word_eqI)

lemma freeRatio_exact:
  assumes "capacity d \<noteq> 0" "\<bar>capacity d\<bar> \<le> 2 ^ 53" "\<bar>avail d\<bar> \<le> 2 ^ 53"
  shows "freeRatio d = Fin (rnd (of_int (avail d) / of_int (capacity d)))"
  using fdiv_of_i64[OF assms(1), of "disk_AvailableBytes (disk_Status d)"]
    rnd_of_int[OF assms(2)] rnd_of_int[OF assms(3)] by (simp only: freeRatio_def)

lemma ratio_check_exact:
  fixes a c :: int
  assumes c: "0 < c" "c \<le> 2 ^ 53"
  shows "rnd (of_int a / of_int c) < 7205759403792794 / 144115188075855872 \<longleftrightarrow> 20 * a < c"
proof
  assume lt: "rnd (of_int a / of_int c) < 7205759403792794 / 144115188075855872"
  show "20 * a < c"
  proof (rule ccontr)
    assume "\<not> 20 * a < c"
    then have "of_int c \<le> (of_int (20 * a) :: rat)" by (simp only: of_int_le_iff)
    then have "(5 / 100 :: rat) \<le> of_int a / of_int c" using c by (simp add: field_simps)
    then show False using rnd_mono[of "5 / 100" "of_int a / of_int c"] lt rnd_twentieth by simp
  qed
next
  assume "20 * a < c"
  then have "of_int (20 * a + 1) \<le> (of_int c :: rat)" by (simp only: of_int_le_iff)
  moreover have "(of_int c :: rat) \<le> of_int (2 ^ 53)" using c by (simp only: of_int_le_iff)
  ultimately have "(of_int a / of_int c :: rat) \<le> 7205759403792793 / 144115188075855872"
    using c by (simp add: field_simps)
  then have "rnd (of_int a / of_int c) \<le> 7205759403792793 / 144115188075855872"
    using rnd_mono rnd_below_twentieth by metis
  then show "rnd (of_int a / of_int c) < 7205759403792794 / 144115188075855872" by simp
qed

lemma ps_eligible_exact:
  assumes "0 < capacity d" and "capacity d \<le> 2 ^ 53" and "\<bar>avail d\<bar> \<le> 2 ^ 53"
  shows "ps_eligible d \<longleftrightarrow> disk_Phase (disk_Status d) = DiskPhaseReady \<and> capacity d \<le> 20 * avail d"
proof -
  have "freeRatio d = Fin (rnd (of_int (avail d) / of_int (capacity d)))"
    using assms by (intro freeRatio_exact) auto
  then have "flt (freeRatio d) (lit (5 / 100)) \<longleftrightarrow> 20 * avail d < capacity d"
    using ratio_check_exact[OF assms(1,2), of "avail d"] by (simp add: lit_1_20)
  moreover have "disk_CapacityBytes (disk_Status d) \<noteq> 0" using assms(1) by auto
  ultimately show ?thesis by (auto simp: ps_eligible_def)
qed

text \<open>C34. The floating-point free-space check is exact: for a capacity of up to 2^53 bytes (8 PiB), a
  Ready disk is eligible if and only if at least one twentieth of its capacity is available.\<close>

theorem ps_eligible_threshold:
  assumes "0 < capacity d" and "capacity d \<le> 2 ^ 53" and "\<bar>avail d\<bar> \<le> 2 ^ 53"
  shows "ps_eligible d \<longleftrightarrow> disk_Phase (disk_Status d) = DiskPhaseReady \<and> capacity d \<le> 20 * avail d"
  by (rule ps_eligible_exact[OF assms])

section \<open>The balanced score\<close>

lemma freeRatio_Fin: "0 < capacity d \<Longrightarrow> \<exists>r. freeRatio d = Fin r"
  using fdiv_of_i64[of "disk_CapacityBytes (disk_Status d)"] by (auto simp: freeRatio_def)

lemma freeRatio_mono:
  assumes "0 < capacity d" "capacity d' = capacity d" "avail d \<le> avail d'"
    "freeRatio d = Fin r" "freeRatio d' = Fin r'"
  shows "r \<le> r'"
proof -
  let ?c = "rnd (of_int (capacity d))"
  have c: "1 \<le> ?c" using assms(1) by (intro rnd_int_ge1) simp
  have "rnd (of_int (avail d)) \<le> rnd (of_int (avail d'))"
    by (rule rnd_mono) (use assms(3) in \<open>simp only: of_int_le_iff\<close>)
  then have "rnd (of_int (avail d)) / ?c \<le> rnd (of_int (avail d')) / ?c"
    using c by (intro divide_right_mono) auto
  moreover have "r = rnd (rnd (of_int (avail d)) / ?c)" "r' = rnd (rnd (of_int (avail d')) / ?c)"
    using assms fdiv_of_i64[of "disk_CapacityBytes (disk_Status d)"]
      fdiv_of_i64[of "disk_CapacityBytes (disk_Status d')"] by (auto simp: freeRatio_def)
  ultimately show ?thesis using rnd_mono by simp
qed

lemma freeRatio_nonneg:
  assumes "0 < capacity d" "0 \<le> avail d" "freeRatio d = Fin r" shows "0 \<le> r"
proof -
  have "0 \<le> (of_int (avail d) :: rat)" using assms(2) by (simp only: of_int_0_le_iff)
  then have "0 \<le> rnd (of_int (avail d)) / rnd (of_int (capacity d))"
    using rnd_nonneg rnd_int_ge1[OF assms(1)] by (intro divide_nonneg_nonneg) auto
  then show ?thesis
    using assms(1,3) fdiv_of_i64[of "disk_CapacityBytes (disk_Status d)"]
    by (auto simp: freeRatio_def intro: rnd_nonneg)
qed

lemma lit_Fin: "0 \<le> x \<Longrightarrow> x \<le> 1 \<Longrightarrow> \<exists>r. lit x = Fin r \<and> 0 \<le> r"
proof -
  assume x: "0 \<le> x" "x \<le> 1"
  then have "\<bar>x\<bar> \<le> max_float" using max_float_big by simp
  then show ?thesis using x rnd_nonneg by (auto simp: lit_def fround_small)
qed

lemma ps_score_not_NaN:
  assumes "0 < capacity d" "0 \<le> avail d" "disk_HealthScore (disk_Status d) = Fin h"
    "0 \<le> h" "0 \<le> f" "0 \<le> l" "0 \<le> k"
  shows "ps_score (Fin f, Fin l, Fin k) d \<noteq> NaN"
proof -
  obtain r where r: "freeRatio d = Fin r" using freeRatio_Fin assms(1) by blast
  then have "0 \<le> r" using freeRatio_nonneg assms(1,2) by blast
  then have "nonneg_f (ps_score (Fin f, Fin l, Fin k) d)"
    using assms r by (auto simp: ps_score_def Let_def intro!: fadd_nonneg fround_nonneg)
  then show ?thesis by (rule nonneg_f_not_NaN)
qed

text \<open>The balanced score is a number (never NaN) and is monotone in the free space: of two disks with
  the same capacity and health, the one with at least as many available bytes scores at least as high,
  for all finite non-negative weights, in spite of rounding.\<close>

lemma ps_score_mono:
  assumes "0 < capacity d" and "capacity d' = capacity d" and "0 \<le> avail d" and "avail d \<le> avail d'"
    and "disk_HealthScore (disk_Status d) = Fin h" and "disk_HealthScore (disk_Status d') = Fin h"
    and "0 \<le> h" and "0 \<le> f" and "0 \<le> l" and "0 \<le> k"
  shows "ps_score (Fin f, Fin l, Fin k) d \<noteq> NaN
         \<and> fle (ps_score (Fin f, Fin l, Fin k) d) (ps_score (Fin f, Fin l, Fin k) d')"
proof -
  obtain r r' where r: "freeRatio d = Fin r" "freeRatio d' = Fin r'"
    using freeRatio_Fin[of d] freeRatio_Fin[of d'] assms(1,2) by auto
  have le: "0 \<le> r" "r \<le> r'"
    using freeRatio_nonneg[OF assms(1,3) r(1)] freeRatio_mono[OF assms(1,2,4) r] by simp_all
  let ?s = "\<lambda>x. fadd (fadd (fround (x * f)) (fround (x * l))) (fround (h * k))"
  have e: "ps_score (Fin f, Fin l, Fin k) d = ?s r" "ps_score (Fin f, Fin l, Fin k) d' = ?s r'"
    using assms r by (simp_all add: ps_score_def Let_def)
  have nn: "nonneg_f (fround (x * y))" if "0 \<le> x" "0 \<le> y" for x y
    using that by (intro fround_nonneg) simp
  have in1: "nonneg_f (fadd (fround (r * f)) (fround (r * l)))"
    using nn le assms by (intro fadd_nonneg) auto
  have "fle (fadd (fround (r * f)) (fround (r * l))) (fadd (fround (r' * f)) (fround (r' * l)))"
    using nn le assms by (intro fadd_mono fround_mono mult_right_mono) auto
  then have "fle (?s r) (?s r')"
    by (rule fadd_mono[OF _ fle_refl[OF fround_not_NaN] in1]) (use nn le assms in auto)
  moreover have "nonneg_f (?s r)" by (rule fadd_nonneg[OF in1]) (use nn assms in auto)
  ultimately show ?thesis using nonneg_f_not_NaN by (auto simp: e)
qed

section \<open>The two schedulers agree\<close>

text \<open>A \<^verbatim>\<open>Disk\<close> resource as a candidate of \<^verbatim>\<open>storage/scheduler\<close>, \<open>io\<close> its I/O score.\<close>

definition to_sched :: "(Disk \<Rightarrow> f64) \<Rightarrow> Disk \<Rightarrow> SchedDisk" where
  "to_sched io d = \<lparr>sd_Name = meta_Name (disk_Meta d),
     sd_CapacityBytes = disk_CapacityBytes (disk_Status d),
     sd_AvailableBytes = disk_AvailableBytes (disk_Status d),
     sd_HealthScore = disk_HealthScore (disk_Status d), sd_IOLoadScore = io d,
     sd_Rotational = disk_Rotational (disk_Status d), sd_Eligible = ps_eligible d\<rparr>"

fun to_strategy :: "PlacementStrategy \<Rightarrow> Strategy" where
  "to_strategy PlacementStrategyBalanced = StrategyBalanced"
| "to_strategy PlacementStrategyLeastUsed = StrategyLeastUsed"
| "to_strategy PlacementStrategyFillFirst = StrategyFillFirst"
| "to_strategy PlacementStrategyTiered = StrategyTiered"
| "to_strategy (PlacementStrategyOther s) = StrategyOther s"

lemma to_sched_sel [simp]:
  "sd_CapacityBytes (to_sched io d) = disk_CapacityBytes (disk_Status d)"
  "sd_AvailableBytes (to_sched io d) = disk_AvailableBytes (disk_Status d)"
  "sd_Rotational (to_sched io d) = disk_Rotational (disk_Status d)"
  "sd_Eligible (to_sched io d) = ps_eligible d"
  by (simp_all add: to_sched_def)

lemma ps_eligible_avail:
  assumes "ps_eligible d" "0 \<le> capacity d" shows "0 < capacity d" "0 < avail d"
proof -
  have c0: "capacity d \<noteq> 0" using assms(1) by (auto simp: ps_eligible_def sint_zero_iff split: if_splits)
  then show c: "0 < capacity d" using assms(2) by simp
  show "0 < avail d"
  proof (rule ccontr)
    assume "\<not> 0 < avail d"
    then have "(of_int (avail d) :: rat) \<le> of_int 0" by (simp only: of_int_le_iff)
    then have "rnd (of_int (avail d)) \<le> 0" using rnd_mono[of "of_int (avail d)" 0] by simp
    then have "rnd (of_int (avail d)) / rnd (of_int (capacity d)) \<le> 0"
      using rnd_int_ge1[OF c] by (intro divide_nonpos_pos) auto
    then have "rnd (rnd (of_int (avail d)) / rnd (of_int (capacity d))) \<le> 0"
      using rnd_mono[of _ 0] by simp
    then have "flt (freeRatio d) (lit (5 / 100))"
      using fdiv_of_i64[OF c0] by (simp add: freeRatio_def lit_1_20)
    with assms(1) show False by (auto simp: ps_eligible_def split: if_splits)
  qed
qed

lemma eng_eligible_to_sched: "0 \<le> capacity d \<Longrightarrow> eng_eligible (to_sched io d) = ps_eligible d"
  using ps_eligible_avail[of d] by (auto simp: eng_eligible_def)

lemma eng_filter_to_sched:
  "(\<And>d. d \<in> set ds \<Longrightarrow> 0 \<le> capacity d) \<Longrightarrow>
   eng_filterEligible (map (to_sched io) ds) = map (to_sched io) (filter ps_eligible ds)"
  by (induction ds) (auto simp: eng_filterEligible_def eng_eligible_to_sched)

lemma scan_map: "(\<And>x y. b' (g x) (g y) = b x y) \<Longrightarrow> scan b' (g x) (map g ds) = g (scan b x ds)"
  by (induction ds arbitrary: x) simp_all

lemma eng_least_used_map:
  "ps_selectLeastUsed ds = Some d \<Longrightarrow> eng_selectLeastUsed (map (to_sched io) ds) = Inr (to_sched io d)"
  by (cases ds) (auto simp: ps_selectLeastUsed_scan eng_selectLeastUsed_def intro!: scan_map)

lemma eng_fill_first_map:
  "ps_selectFillFirst ds = Some d \<Longrightarrow> eng_selectFillFirst (map (to_sched io) ds) = Inr (to_sched io d)"
  by (cases ds) (auto simp: ps_selectFillFirst_scan eng_selectFillFirst_def usedBytes_def intro!: scan_map)

lemma eng_firstSSD_map: "eng_firstSSD (map (to_sched io) ds) = map_option (to_sched io) (ps_firstSSD ds)"
  by (induction ds) simp_all

lemma eng_tiered_map:
  "ps_selectTiered ds = Some d \<Longrightarrow> eng_selectTiered (map (to_sched io) ds) = Inr (to_sched io d)"
  by (auto simp: ps_selectTiered_def eng_selectTiered_def eng_firstSSD_map eng_least_used_map
      split: option.splits)

text \<open>C33. The two scheduler implementations agree on the strategies \<^verbatim>\<open>least-used\<close>,
  \<^verbatim>\<open>fill-first\<close> and \<^verbatim>\<open>tiered\<close>: when \<^verbatim>\<open>PlacementScheduler.SelectDisk\<close> picks a disk,
  \<^verbatim>\<open>Engine.Select\<close> on the same candidates (with \<^verbatim>\<open>Eligible\<close> set by the operator's rule) picks the
  same one, whatever the engine's weights, I/O scores and sorting function.\<close>

theorem schedulers_agree:
  assumes "SelectDisk sorter policy cands = Inr d"
    and "policy_Strategy (policy_Spec policy)
         \<in> {PlacementStrategyLeastUsed, PlacementStrategyFillFirst, PlacementStrategyTiered}"
    and "\<And>c. c \<in> set cands \<Longrightarrow> 0 \<le> capacity c"
  shows "Engine_Select sorter' w (to_strategy (policy_Strategy (policy_Spec policy)))
           (map (to_sched io) cands) = Inr (to_sched io d)"
proof -
  let ?e = "filter ps_eligible cands"
  have ne: "?e \<noteq> []"
    using assms(1) by (auto simp: SelectDisk_def ps_filterEligible_def Let_def split: if_splits)
  have ret: "ret_disk r = Inr d \<Longrightarrow> r = Some d" for r by (simp add: ret_disk_def split: option.splits)
  show ?thesis
    using assms(1,2) ne eng_filter_to_sched[of cands io, OF assms(3)]
      eng_least_used_map[of ?e d io] eng_fill_first_map[of ?e d io] eng_tiered_map[of ?e d io]
    by (auto simp: SelectDisk_def Engine_Select_def ps_filterEligible_def Let_def dest!: ret)
qed

section \<open>Witnesses\<close>

definition sample_disk :: "string \<Rightarrow> i64 \<Rightarrow> i64 \<Rightarrow> bool \<Rightarrow> Disk" where
  "sample_disk n c a rot =
     \<lparr>disk_Meta = ObjectMeta_zero\<lparr>meta_Name := n\<rparr>,
      disk_Spec = \<lparr>disk_NodeName = ''node-a'', disk_DevicePath = ''/dev/'' @ n, disk_Filesystem = ''xfs'',
        disk_MountPoint = ''/mnt/disks/'' @ n, disk_Role = DiskRoleData, disk_SpinDown = None\<rparr>,
      disk_Status = \<lparr>disk_Phase = DiskPhaseReady, disk_CapacityBytes = c, disk_AvailableBytes = a,
        disk_HealthScore = Fin 1, disk_SmartSummary = ''PASSED'', disk_SerialNumber = '''',
        disk_Model = '''', disk_Rotational = rot, disk_Mounted = True,
        disk_LastSmartCheckTime = None, disk_Conditions = []\<rparr>\<rparr>"

definition sample_policy :: "PlacementStrategy \<Rightarrow> PlacementPolicy" where
  "sample_policy s = \<lparr>policy_Meta = ObjectMeta_zero,
     policy_Spec = \<lparr>policy_Strategy = s, policy_Weights = None, policy_MinFreeSpace = ''20Gi''\<rparr>\<rparr>"

lemma sample_eligible: "ps_eligible (sample_disk n 100 40 rot)" "ps_eligible (sample_disk n 100 60 rot)"
  "\<not> ps_eligible (sample_disk n 100 4 rot)"
  by (simp_all add: ps_eligible_exact sample_disk_def)

lemma sample_select:
  "SelectDisk insertionSort (sample_policy PlacementStrategyLeastUsed)
     [sample_disk ''sdb'' 100 40 True, sample_disk ''sdc'' 100 60 True, sample_disk ''sdd'' 100 4 False]
   = Inr (sample_disk ''sdc'' 100 60 True)"
  by (simp add: SelectDisk_def ps_filterEligible_def sample_eligible sample_policy_def ret_disk_def
      ps_selectLeastUsed_def) (simp add: sample_disk_def)

lemma sample_score: "ps_score (ps_weights (sample_policy s)) (sample_disk n c a rot) \<noteq> NaN"
  if "0 < sint c" "0 \<le> sint a"
proof -
  obtain f l k where w: "ps_weights (sample_policy s) = (Fin f, Fin l, Fin k)"
    "0 \<le> f" "0 \<le> l" "0 \<le> k"
    using lit_Fin[of "7 / 10"] lit_Fin[of "1 / 5"] lit_Fin[of "1 / 10"]
    by (fastforce simp: ps_weights_def sample_policy_def)
  show ?thesis unfolding w(1)
    by (rule ps_score_not_NaN[where h = 1]) (use that w in \<open>simp_all add: sample_disk_def\<close>)
qed

lemmas insertionSort_sorter = insertion.slice_sorter_axioms

theorem SelectDisk_safe_witness:
  "disk_Phase (disk_Status (sample_disk ''sdc'' 100 60 True)) = DiskPhaseReady
   \<and> \<not> flt (freeRatio (sample_disk ''sdc'' 100 60 True)) (lit (5 / 100))"
  using SelectDisk_safe[OF insertionSort_sorter sample_select] by simp

lemma SelectDisk_total_witness:
  "SelectDisk insertionSort (sample_policy PlacementStrategyTiered) [sample_disk ''sdd'' 100 4 False]
   = Inl (ErrorString ''no eligible disks meet policy constraints'')"
  using SelectDisk_total[OF insertionSort_sorter, of "[sample_disk ''sdd'' 100 4 False]"
      "sample_policy PlacementStrategyTiered"] by (simp add: sample_eligible)


theorem ps_eligible_threshold_witness:
  "ps_eligible (sample_disk ''sdb'' 1000000 50000 True) \<and> \<not> ps_eligible (sample_disk ''sdb'' 1000000 49999 True)"
  using ps_eligible_threshold[of "sample_disk ''sdb'' 1000000 50000 True"]
    ps_eligible_threshold[of "sample_disk ''sdb'' 1000000 49999 True"] by (simp add: sample_disk_def)

lemma ps_score_mono_witness:
  "fle (ps_score (Fin (1 / 2), Fin (1 / 4), Fin (1 / 4)) (sample_disk ''sdb'' 100 40 True))
       (ps_score (Fin (1 / 2), Fin (1 / 4), Fin (1 / 4)) (sample_disk ''sdc'' 100 60 False))"
  using ps_score_mono[of "sample_disk ''sdb'' 100 40 True" "sample_disk ''sdc'' 100 60 False" 1
      "1 / 2" "1 / 4" "1 / 4"] by (simp add: sample_disk_def)

theorem schedulers_agree_witness:
  "Engine_Select insertionSort NewEngine StrategyLeastUsed
     (map (to_sched (\<lambda>_. lit 0)) [sample_disk ''sdb'' 100 40 True, sample_disk ''sdc'' 100 60 True,
        sample_disk ''sdd'' 100 4 False])
   = Inr (to_sched (\<lambda>_. lit 0) (sample_disk ''sdc'' 100 60 True))"
proof -
  let ?ds = "[sample_disk ''sdb'' 100 40 True, sample_disk ''sdc'' 100 60 True, sample_disk ''sdd'' 100 4 False]"
  have "0 \<le> capacity c" if "c \<in> set ?ds" for c using that by (auto simp: sample_disk_def)
  then show ?thesis
    using schedulers_agree[OF sample_select, of insertionSort NewEngine "\<lambda>_. lit 0"]
    by (simp add: sample_policy_def)
qed

end
