(* ===== verification/Json.thy ===== *)
theory Json
  imports Float64
begin

text \<open>
  What the sources use of \<^verbatim>\<open>encoding/json\<close> and \<^verbatim>\<open>strconv\<close>: the text of a JSON value as
  \<^verbatim>\<open>json.Marshal\<close> writes it (compact, HTML-safe escapes), the parser behind
  \<^verbatim>\<open>json.Unmarshal\<close>, the typed decoding of members into the fields of a struct
  (case-insensitive names, unknown members ignored, \<^verbatim>\<open>null\<close> leaves a field alone, a wrong type is
  an error), and the proof that parsing reads back what marshalling wrote. Bytes from 0x80 on pass
  through both ways; Go does the same for valid UTF-8. The parser is bounded by a fuel argument of
  twice the length of the text, which every recursive call decreases.
\<close>

datatype json = JNull | JBool bool | JNum string | JStr string | JArr "json list"
  | JObj "(string \<times> json) list"

section \<open>String literals\<close>

definition code :: "char \<Rightarrow> nat" where
  "code c = of_char c"

definition line_sep :: string where "line_sep = [CHR 0xE2, CHR 0x80, CHR 0xA8]"
definition para_sep :: string where "para_sep = [CHR 0xE2, CHR 0x80, CHR 0xA9]"

definition esc_char :: "char \<Rightarrow> string" where
  "esc_char c =
     (if c = CHR 0x22 then [CHR 0x5C, CHR 0x22]
      else if c = CHR 0x5C then [CHR 0x5C, CHR 0x5C]
      else if c = CHR 0x08 then [CHR 0x5C, CHR ''b'']
      else if c = CHR 0x0C then [CHR 0x5C, CHR ''f'']
      else if c = CHR 0x0A then [CHR 0x5C, CHR ''n'']
      else if c = CHR 0x0D then [CHR 0x5C, CHR ''r'']
      else if c = CHR 0x09 then [CHR 0x5C, CHR ''t'']
      else if code c < 32 \<or> c = CHR ''<'' \<or> c = CHR ''>'' \<or> c = CHR ''&''
      then [CHR 0x5C, CHR ''u'', CHR ''0'', CHR ''0'', hex_digit (code c div 16), hex_digit (code c mod 16)]
      else [c])"

fun esc :: "string \<Rightarrow> string" where
  "esc [] = []"
| "esc (c # s) =
     (if take 3 (c # s) = line_sep then CHR 0x5C # ''u2028'' @ esc (drop 2 s)
      else if take 3 (c # s) = para_sep then CHR 0x5C # ''u2029'' @ esc (drop 2 s)
      else esc_char c @ esc s)"

definition quote_json :: "string \<Rightarrow> string" where
  "quote_json s = CHR 0x22 # esc s @ [CHR 0x22]"

definition hexval :: "char \<Rightarrow> nat option" where
  "hexval c =
     (let n = code c in
      if 48 \<le> n \<and> n \<le> 57 then Some (n - 48)
      else if 97 \<le> n \<and> n \<le> 102 then Some (n - 87)
      else if 65 \<le> n \<and> n \<le> 70 then Some (n - 55)
      else None)"

fun hex4 :: "string \<Rightarrow> nat option" where
  "hex4 (a # b # c # d # s) =
     (case (hexval a, hexval b, hexval c, hexval d) of
        (Some i, Some j, Some k, Some l) \<Rightarrow> Some (4096 * i + 256 * j + 16 * k + l)
      | _ \<Rightarrow> None)"
| "hex4 s = None"

definition utf8 :: "nat \<Rightarrow> string" where
  "utf8 n =
     (if n < 128 then [char_of n]
      else if n < 2048 then [char_of (192 + n div 64), char_of (128 + n mod 64)]
      else if n < 65536 then
        [char_of (224 + n div 4096), char_of (128 + n div 64 mod 64), char_of (128 + n mod 64)]
      else [char_of (240 + n div 262144), char_of (128 + n div 4096 mod 64),
            char_of (128 + n div 64 mod 64), char_of (128 + n mod 64)])"

text \<open>
  The text after \<^verbatim>\<open>\u\<close>: the bytes it denotes and how many characters it takes. A surrogate pair
  is one code point; a lone surrogate is U+FFFD.
\<close>

definition parse_u :: "string \<Rightarrow> (string \<times> nat) option" where
  "parse_u s =
     (case hex4 s of
        None \<Rightarrow> None
      | Some a \<Rightarrow>
          if a < 55296 \<or> 57344 \<le> a then Some (utf8 a, 4)
          else (case (if take 2 (drop 4 s) = [CHR 0x5C, CHR ''u''] then hex4 (drop 6 s) else None) of
                  Some b \<Rightarrow> if a < 56320 \<and> 56320 \<le> b \<and> b < 57344
                            then Some (utf8 (65536 + (a - 55296) * 1024 + (b - 56320)), 10)
                            else Some (utf8 65533, 4)
                | None \<Rightarrow> Some (utf8 65533, 4)))"

definition unesc :: "char \<Rightarrow> char option" where
  "unesc e =
     (if e = CHR 0x22 \<or> e = CHR 0x5C \<or> e = CHR ''/'' then Some e
      else if e = CHR ''b'' then Some (CHR 0x08)
      else if e = CHR ''f'' then Some (CHR 0x0C)
      else if e = CHR ''n'' then Some (CHR 0x0A)
      else if e = CHR ''r'' then Some (CHR 0x0D)
      else if e = CHR ''t'' then Some (CHR 0x09)
      else None)"

definition prepend :: "'a list \<Rightarrow> ('a list \<times> 'b) option \<Rightarrow> ('a list \<times> 'b) option" where
  "prepend xs = map_option (apfst ((@) xs))"

lemma prepend_Some [simp]: "prepend xs (Some (ys, r)) = Some (xs @ ys, r)"
  by (simp add: prepend_def)

text \<open>From after the opening quote: the string and the text after the closing quote.\<close>

fun parse_str :: "string \<Rightarrow> (string \<times> string) option" where
  "parse_str [] = None"
| "parse_str (c # r) =
     (if c = CHR 0x22 then Some ([], r)
      else if c = CHR 0x5C then
        (case r of
           [] \<Rightarrow> None
         | e # r1 \<Rightarrow>
             if e = CHR ''u'' then
               (case parse_u r1 of None \<Rightarrow> None | Some (bs, k) \<Rightarrow> prepend bs (parse_str (drop k r1)))
             else (case unesc e of None \<Rightarrow> None | Some d \<Rightarrow> prepend [d] (parse_str r1)))
      else if code c < 32 then None
      else prepend [c] (parse_str r))"

declare parse_str.simps(2) [simp del]

lemma hexval_hex_digit: "n < 16 \<Longrightarrow> hexval (hex_digit n) = Some n"
  by (cases "n < 10") (simp_all add: hexval_def hex_digit_def code_def of_char_of)

lemma hexval_digits: "hexval (CHR ''0'') = Some 0" "hexval (CHR ''2'') = Some 2"
  "hexval (CHR ''8'') = Some 8" "hexval (CHR ''9'') = Some 9"
  by code_simp+

lemma char_of_code [simp]: "char_of (code c) = c"
  by (simp add: code_def)

lemma code_less [simp]: "code c < 256"
  by (simp add: code_def)

lemma two_tests:
  obtains "P" "\<not> Q" | "Q" | "\<not> P" "\<not> Q"
  by blast

lemma parse_esc_char: "parse_str (esc_char c @ t) = prepend [c] (parse_str t)"
proof -
  consider "code c < 32 \<or> c = CHR ''<'' \<or> c = CHR ''>'' \<or> c = CHR ''&''"
      "c \<notin> {CHR 0x22, CHR 0x5C, CHR 0x08, CHR 0x0C, CHR 0x0A, CHR 0x0D, CHR 0x09}"
    | "c \<in> {CHR 0x22, CHR 0x5C, CHR 0x08, CHR 0x0C, CHR 0x0A, CHR 0x0D, CHR 0x09}"
    | "\<not> (code c < 32 \<or> c = CHR ''<'' \<or> c = CHR ''>'' \<or> c = CHR ''&'')"
      "c \<notin> {CHR 0x22, CHR 0x5C, CHR 0x08, CHR 0x0C, CHR 0x0A, CHR 0x0D, CHR 0x09}"
    by (rule two_tests)
  then show ?thesis
  proof cases
    case 1
    have "code (CHR ''<'') < 128" "code (CHR ''>'') < 128" "code (CHR ''&'') < 128"
      by (simp_all add: code_def)
    with 1(1) have lt: "code c < 128" by (elim disjE) (linarith | simp only:)+
    have "hex4 (CHR ''0'' # CHR ''0'' # hex_digit (code c div 16) # hex_digit (code c mod 16) # t)
          = Some (code c)"
      using lt by (simp add: hexval_hex_digit hexval_digits)
    then have "parse_u (CHR ''0'' # CHR ''0'' # hex_digit (code c div 16) # hex_digit (code c mod 16) # t)
          = Some ([c], 4)"
      using lt by (simp add: parse_u_def utf8_def)
    then have "parse_str (CHR 0x5C # CHR ''u'' # CHR ''0'' # CHR ''0'' # hex_digit (code c div 16)
        # hex_digit (code c mod 16) # t) = prepend [c] (parse_str t)"
      by (simp add: parse_str.simps(2))
    moreover have "esc_char c = [CHR 0x5C, CHR ''u'', CHR ''0'', CHR ''0'', hex_digit (code c div 16),
        hex_digit (code c mod 16)]"
      using 1 unfolding esc_char_def by (simp only: insert_iff empty_iff de_Morgan_disj if_False if_True simp_thms)
    ultimately show ?thesis by simp
  next
    case 2
    then show ?thesis by (auto simp: esc_char_def parse_str.simps(2) unesc_def)
  next
    case 3
    then have "esc_char c = [c]" "c \<noteq> CHR 0x22" "c \<noteq> CHR 0x5C" "\<not> code c < 32"
      unfolding esc_char_def by simp_all
    then show ?thesis by (simp add: parse_str.simps(2))
  qed
qed

lemma char_of_eqI: "of_char c = (n :: nat) \<Longrightarrow> char_of n = c"
  by (metis char_of_code code_def)

lemma utf8_sep: "utf8 8232 = line_sep" "utf8 8233 = para_sep"
  by (simp_all add: utf8_def line_sep_def para_sep_def char_of_eqI)

lemma parse_u_sep: "parse_u (''2028'' @ t) = Some (line_sep, 4)" "parse_u (''2029'' @ t) = Some (para_sep, 4)"
  by (simp_all add: parse_u_def hexval_digits utf8_sep)

lemma parse_sep:
  "parse_str (CHR 0x5C # ''u2028'' @ t) = prepend line_sep (parse_str t)"
  "parse_str (CHR 0x5C # ''u2029'' @ t) = prepend para_sep (parse_str t)"
  using parse_u_sep[of t] by (simp_all add: parse_str.simps(2))

text \<open>A string literal reads back as the string that was written.\<close>

lemma parse_esc: "parse_str (esc s @ CHR 0x22 # r) = Some (s, r)"
proof (induction s rule: esc.induct)
  case 1
  then show ?case by (simp add: parse_str.simps(2))
next
  case (2 c s)
  have split: "take 3 (c # s) = x \<Longrightarrow> c # s = x @ drop 2 s" for x
    by (metis append_take_drop_id drop_Suc_Cons numeral_2_eq_2 numeral_3_eq_3)
  consider "take 3 (c # s) = line_sep" | "take 3 (c # s) \<noteq> line_sep" "take 3 (c # s) = para_sep"
    | "take 3 (c # s) \<noteq> line_sep" "take 3 (c # s) \<noteq> para_sep" by blast
  then show ?case
  proof cases
    case 1
    have "esc (c # s) = CHR 0x5C # ''u2028'' @ esc (drop 2 s)" using 1 by simp
    then show ?thesis using "2.IH"(1)[OF 1] split[OF 1]
      by (metis append_Cons append_assoc parse_sep prepend_Some)
  next
    case x: 2
    have "esc (c # s) = CHR 0x5C # ''u2029'' @ esc (drop 2 s)" using x by simp
    then show ?thesis using "2.IH"(2)[OF x] split[OF x(2)]
      by (metis append_Cons append_assoc parse_sep prepend_Some)
  next
    case 3
    show ?thesis using "2.IH"(3)[OF 3] 3
      by (simp only: esc.simps if_False append_assoc parse_esc_char prepend_Some append_Cons append_Nil)
  qed
qed

section \<open>Number literals\<close>

definition num_char :: "char \<Rightarrow> bool" where
  "num_char c \<longleftrightarrow> is_digit c \<or> c \<in> {CHR ''-'', CHR ''+'', CHR ''.'', CHR ''e'', CHR ''E''}"

definition digits1 :: "string \<Rightarrow> bool" where
  "digits1 s \<longleftrightarrow> s \<noteq> [] \<and> list_all is_digit s"

definition drop_sign :: "char list \<Rightarrow> string \<Rightarrow> string" where
  "drop_sign signs s = (case s of c # r \<Rightarrow> if c \<in> set signs then r else s | [] \<Rightarrow> [])"

text \<open>The pieces of a literal: integer digits, then the fraction and the exponent when present.\<close>

definition num_int :: "string \<Rightarrow> string" where
  "num_int s = takeWhile is_digit (drop_sign ''-'' s)"

definition after_int :: "string \<Rightarrow> string" where
  "after_int s = dropWhile is_digit (drop_sign ''-'' s)"

definition num_frac :: "string \<Rightarrow> string option" where
  "num_frac s = (case after_int s of c # r \<Rightarrow> if c = CHR ''.'' then Some (takeWhile is_digit r) else None
                 | [] \<Rightarrow> None)"

definition num_exp :: "string \<Rightarrow> string option" where
  "num_exp s =
     (case (case after_int s of c # r \<Rightarrow> if c = CHR ''.'' then dropWhile is_digit r else c # r | [] \<Rightarrow> []) of
        [] \<Rightarrow> None
      | c # r \<Rightarrow> Some (if c = CHR ''e'' \<or> c = CHR ''E'' then r else [c]))"

definition valid_num :: "string \<Rightarrow> bool" where
  "valid_num s \<longleftrightarrow>
     num_int s \<noteq> [] \<and> (hd (num_int s) = CHR ''0'' \<longrightarrow> length (num_int s) = 1) \<and>
     (case num_frac s of None \<Rightarrow> True | Some f \<Rightarrow> f \<noteq> []) \<and>
     (case num_exp s of None \<Rightarrow> True | Some e \<Rightarrow> digits1 (drop_sign ''+-'' e)) \<and>
     list_all num_char s"

text \<open>\<^verbatim>\<open>strconv.ParseInt(literal, 10, 64)\<close> as the decoder uses it: an error unless the literal is an
  integer in range.\<close>

definition num_i64 :: "string \<Rightarrow> i64 option" where
  "num_i64 s =
     (let ds = drop_sign ''-'' s; v = (if s \<noteq> ds then - int (read_nat ds) else int (read_nat ds))
      in if \<not> digits1 ds \<or> v < - (2 ^ 63) \<or> 2 ^ 63 \<le> v then None else Some (word_of_int v))"

text \<open>\<^verbatim>\<open>strconv.ParseFloat(literal, 64)\<close>: correctly rounded, an error when out of range.\<close>

definition pow10 :: "int \<Rightarrow> rat" where
  "pow10 e = (if 0 \<le> e then of_int (10 ^ nat e) else 1 / of_int (10 ^ nat (- e)))"

definition num_exponent :: "string \<Rightarrow> int" where
  "num_exponent s =
     (case num_exp s of None \<Rightarrow> 0
      | Some e \<Rightarrow> (if HasPrefix e ''-'' then - int (read_nat (drop_sign ''+-'' e))
                   else int (read_nat (drop_sign ''+-'' e))))"

definition num_rat :: "string \<Rightarrow> rat" where
  "num_rat s =
     (let f = (case num_frac s of None \<Rightarrow> [] | Some f \<Rightarrow> f);
          m = rat_of_nat (read_nat (num_int s @ f)) * pow10 (num_exponent s - int (length f))
      in if HasPrefix s ''-'' then - m else m)"

definition num_f64 :: "string \<Rightarrow> f64 option" where
  "num_f64 s = (case fround (num_rat s) of Fin r \<Rightarrow> Some (Fin r) | _ \<Rightarrow> None)"

lemma digit_num_char: "is_digit c \<Longrightarrow> num_char c"
  by (simp add: num_char_def)

lemma show_nat_first: "0 < n \<Longrightarrow> \<exists>c r. show_nat n = c # r \<and> c \<noteq> CHR ''0''"
proof (induction n rule: show_nat.induct)
  case (1 n)
  show ?case
  proof (cases "n < 10")
    case True
    with 1(2) have "of_char (char_of (48 + n) :: char) \<noteq> (of_char (CHR ''0'') :: nat)"
      by (simp add: of_char_digit)
    then have "(char_of (48 + n) :: char) \<noteq> CHR ''0''" by metis
    with True show ?thesis by (subst show_nat.simps) simp
  next
    case False
    then have "0 < n div 10" by simp
    with 1(1)[OF False] False show ?thesis by (subst show_nat.simps) auto
  qed
qed

lemma takeWhile_digits: "list_all is_digit s \<Longrightarrow> takeWhile is_digit s = s"
  and dropWhile_digits: "list_all is_digit s \<Longrightarrow> dropWhile is_digit s = []"
  by (simp_all add: list_all_iff)

lemma drop_sign_digit: "list_all is_digit s \<Longrightarrow> drop_sign ''-'' s = s"
  by (cases s) (auto simp: drop_sign_def)

lemma drop_sign_minus [simp]: "drop_sign ''-'' (CHR ''-'' # s) = s"
  by (simp add: drop_sign_def)

lemma show_i64_cases:
  obtains n where "show_i64 w = show_nat n" "sint w = int n"
  | n where "show_i64 w = CHR ''-'' # show_nat n" "sint w = - int n" "0 < n"
proof (cases "sint w < 0")
  case True
  then show ?thesis by (intro that(2)[of "nat (- sint w)"]) (simp_all add: show_i64_def show_int_def)
next
  case False
  then show ?thesis by (intro that(1)[of "nat (sint w)"]) (simp_all add: show_i64_def show_int_def)
qed

lemma show_nat_zero: "show_nat 0 = ''0''"
  by code_simp

lemma show_nat_lead: "hd (show_nat n) = CHR ''0'' \<longrightarrow> length (show_nat n) = 1"
  using show_nat_first[of n] by (cases "n = 0") (auto simp: show_nat_zero)

lemma valid_num_i64: "valid_num (show_i64 w)"
proof -
  note d = show_nat_digits takeWhile_digits dropWhile_digits drop_sign_digit
  have nc: "list_all num_char (show_nat n)" for n
    using hd_show_nat digit_num_char by (auto simp: list_all_iff)
  show ?thesis
    by (rule show_i64_cases[of w])
      (simp_all add: valid_num_def num_int_def num_frac_def num_exp_def after_int_def d show_nat_lead nc,
        simp_all add: num_char_def)
qed

lemma num_i64_show [simp]: "num_i64 (show_i64 w) = Some w"
proof (rule show_i64_cases[of w])
  fix n assume n: "show_i64 w = show_nat n" "sint w = int n"
  have b: "int n < 2 ^ 63" using sint_lt[of w] n(2) by simp
  have "word_of_int (int n) = w" unfolding n(2)[symmetric] by simp
  with b show ?thesis
    by (simp add: n(1) num_i64_def Let_def drop_sign_digit show_nat_digits digits1_def)
next
  fix n assume n: "show_i64 w = CHR ''-'' # show_nat n" "sint w = - int n" "0 < n"
  have b: "- (2 ^ 63) \<le> - int n" using sint_ge[of w] n(2) by simp
  have "word_of_int (- int n) = w" unfolding n(2)[symmetric] by simp
  with b show ?thesis by (simp add: n(1) num_i64_def Let_def show_nat_digits digits1_def)
qed

section \<open>Values\<close>

text \<open>\<^verbatim>\<open>json.Marshal\<close>\<close>

fun print_json :: "json \<Rightarrow> string" and print_elems :: "json list \<Rightarrow> string"
  and print_members :: "(string \<times> json) list \<Rightarrow> string" where
  "print_json JNull = ''null''"
| "print_json (JBool b) = (if b then ''true'' else ''false'')"
| "print_json (JNum s) = s"
| "print_json (JStr s) = quote_json s"
| "print_json (JArr xs) = CHR ''['' # print_elems xs @ '']''"
| "print_json (JObj ms) = CHR ''{'' # print_members ms @ ''}''"
| "print_elems [] = []"
| "print_elems [x] = print_json x"
| "print_elems (x # y # xs) = print_json x @ '','' @ print_elems (y # xs)"
| "print_members [] = []"
| "print_members [(k, x)] = quote_json k @ '':'' @ print_json x"
| "print_members ((k, x) # m # ms) = quote_json k @ '':'' @ print_json x @ '','' @ print_members (m # ms)"

fun wf_json :: "json \<Rightarrow> bool" where
  "wf_json (JNum s) = valid_num s"
| "wf_json (JArr xs) = (\<forall>x \<in> set xs. wf_json x)"
| "wf_json (JObj ms) = (\<forall>m \<in> set ms. wf_json (snd m))"
| "wf_json j = True"

definition skip :: "string \<Rightarrow> string" where
  "skip = dropWhile (\<lambda>c. c \<in> {CHR '' '', CHR 0x09, CHR 0x0A, CHR 0x0D})"

definition lit_after :: "string \<Rightarrow> json \<Rightarrow> string \<Rightarrow> (json \<times> string) option" where
  "lit_after word v s = (if HasPrefix s word then Some (v, drop (length word) s) else None)"

definition parse_num :: "string \<Rightarrow> (json \<times> string) option" where
  "parse_num s = (if valid_num (takeWhile num_char s)
                  then Some (JNum (takeWhile num_char s), dropWhile num_char s) else None)"

text \<open>The name of a member and the text after its colon.\<close>

definition parse_key :: "string \<Rightarrow> (string \<times> string) option" where
  "parse_key s =
     (case skip s of
        [] \<Rightarrow> None
      | c # r \<Rightarrow>
          if c \<noteq> CHR 0x22 then None
          else (case parse_str r of
                  None \<Rightarrow> None
                | Some (k, r1) \<Rightarrow> (case skip r1 of [] \<Rightarrow> None
                                  | d # r2 \<Rightarrow> if d = CHR '':'' then Some (k, r2) else None)))"

fun parse_val :: "nat \<Rightarrow> string \<Rightarrow> (json \<times> string) option"
  and parse_elems :: "nat \<Rightarrow> string \<Rightarrow> (json list \<times> string) option"
  and parse_members :: "nat \<Rightarrow> string \<Rightarrow> ((string \<times> json) list \<times> string) option" where
  "parse_val 0 s = None"
| "parse_val (Suc n) s =
     (case skip s of
        [] \<Rightarrow> None
      | c # r \<Rightarrow>
          if c = CHR 0x22 then map_option (apfst JStr) (parse_str r)
          else if c = CHR ''['' then
            (if HasPrefix (skip r) '']'' then Some (JArr [], tl (skip r))
             else map_option (apfst JArr) (parse_elems n r))
          else if c = CHR ''{'' then
            (if HasPrefix (skip r) ''}'' then Some (JObj [], tl (skip r))
             else map_option (apfst JObj) (parse_members n r))
          else if c = CHR ''t'' then lit_after ''true'' (JBool True) (c # r)
          else if c = CHR ''f'' then lit_after ''false'' (JBool False) (c # r)
          else if c = CHR ''n'' then lit_after ''null'' JNull (c # r)
          else parse_num (c # r))"
| "parse_elems 0 s = None"
| "parse_elems (Suc n) s =
     (case parse_val n s of
        None \<Rightarrow> None
      | Some (v, r) \<Rightarrow>
          (case skip r of
             [] \<Rightarrow> None
           | c # r1 \<Rightarrow>
               if c = CHR '','' then prepend [v] (parse_elems n r1)
               else if c = CHR '']'' then Some ([v], r1)
               else None))"
| "parse_members 0 s = None"
| "parse_members (Suc n) s =
     (case parse_key s of
        None \<Rightarrow> None
      | Some (k, r) \<Rightarrow>
          (case parse_val n r of
             None \<Rightarrow> None
           | Some (v, r1) \<Rightarrow>
               (case skip r1 of
                  [] \<Rightarrow> None
                | c # r2 \<Rightarrow>
                    if c = CHR '','' then prepend [(k, v)] (parse_members n r2)
                    else if c = CHR ''}'' then Some ([(k, v)], r2)
                    else None)))"

definition parse_json :: "string \<Rightarrow> json option" where
  "parse_json s =
     (case parse_val (2 * length s + 2) s of
        Some (v, r) \<Rightarrow> if skip r = [] then Some v else None
      | None \<Rightarrow> None)"

section \<open>Parsing reads back what marshalling wrote\<close>

lemma skip_Cons: "c \<notin> {CHR '' '', CHR 0x09, CHR 0x0A, CHR 0x0D} \<Longrightarrow> skip (c # s) = c # s"
  by (simp add: skip_def)

definition num_end :: "string \<Rightarrow> bool" where
  "num_end r \<longleftrightarrow> (case r of [] \<Rightarrow> True | c # _ \<Rightarrow> \<not> num_char c)"

lemma takeWhile_end: "list_all P s \<Longrightarrow> (case r of [] \<Rightarrow> True | c # _ \<Rightarrow> \<not> P c) \<Longrightarrow>
    takeWhile P (s @ r) = s \<and> dropWhile P (s @ r) = r"
  by (induction s) (auto split: list.splits)

lemma valid_num_first: "valid_num s \<Longrightarrow> \<exists>c r. s = c # r \<and> num_char c"
  by (cases s) (auto simp: valid_num_def num_int_def drop_sign_def)

lemma parse_num_ok:
  assumes "valid_num s" "num_end r" shows "parse_num (s @ r) = Some (JNum s, r)"
proof -
  have "list_all num_char s" using assms(1) by (simp add: valid_num_def)
  from takeWhile_end[OF this assms(2)[unfolded num_end_def]] assms(1) show ?thesis
    by (simp add: parse_num_def)
qed

lemma num_char_other:
  "num_char c \<Longrightarrow> c \<notin> {CHR 0x22, CHR ''['', CHR ''{'', CHR ''t'', CHR ''f'', CHR ''n'', CHR '' '',
      CHR 0x09, CHR 0x0A, CHR 0x0D, CHR ''}'', CHR '']'', CHR '',''}"
  by (auto simp: num_char_def is_digit_def)

lemma num_end_punct [simp]: "num_end []" "num_end (CHR '','' # r)" "num_end (CHR '']'' # r)"
  "num_end (CHR ''}'' # r)"
  by (simp_all add: num_end_def num_char_def is_digit_def)

text \<open>The first character of a printed value is none of the closing brackets.\<close>

lemma print_first: "wf_json j \<Longrightarrow> \<exists>c r. print_json j = c # r \<and>
    c \<notin> {CHR '' '', CHR 0x09, CHR 0x0A, CHR 0x0D, CHR '']'', CHR ''}''}"
  by (cases j) (auto simp: quote_json_def dest!: valid_num_first num_char_other)

lemma print_elems_first: "wf_json x \<Longrightarrow> \<exists>c r. print_elems (x # xs) = c # r \<and>
    c \<notin> {CHR '' '', CHR 0x09, CHR 0x0A, CHR 0x0D, CHR '']'', CHR ''}''}"
  using print_first[of x] by (cases xs) auto

lemma print_members_first: "\<exists>r. print_members (m # ms) = CHR 0x22 # r"
  by (cases m; cases ms) (auto simp: quote_json_def)

lemma parse_key_ok: "parse_key (quote_json k @ CHR '':'' # r) = Some (k, r)"
  by (simp add: parse_key_def quote_json_def skip_Cons parse_esc)

lemma parse_JArr:
  assumes "\<forall>x \<in> set xs. wf_json x"
    and "xs \<noteq> [] \<Longrightarrow> parse_elems n (print_elems xs @ CHR '']'' # r) = Some (xs, r)"
  shows "parse_val (Suc n) (print_json (JArr xs) @ r) = Some (JArr xs, r)"
proof (cases xs)
  case (Cons x ys)
  obtain c t where "print_elems xs = c # t" "c \<notin> {CHR '' '', CHR 0x09, CHR 0x0A, CHR 0x0D, CHR '']'', CHR ''}''}"
    using print_elems_first[of x ys] assms(1) Cons by auto
  then show ?thesis using assms(2) Cons by (simp add: skip_Cons HasPrefix_def)
qed (simp add: skip_Cons HasPrefix_def)

lemma parse_JObj:
  assumes "ms \<noteq> [] \<Longrightarrow> parse_members n (print_members ms @ CHR ''}'' # r) = Some (ms, r)"
  shows "parse_val (Suc n) (print_json (JObj ms) @ r) = Some (JObj ms, r)"
proof (cases ms)
  case (Cons m ns)
  obtain t where "print_members ms = CHR 0x22 # t" using print_members_first Cons by blast
  then show ?thesis using assms Cons by (simp add: skip_Cons HasPrefix_def)
qed (simp add: skip_Cons HasPrefix_def)

lemma parse_print:
  "wf_json j \<Longrightarrow> length (print_json j) \<le> n \<Longrightarrow> num_end r \<Longrightarrow> parse_val n (print_json j @ r) = Some (j, r)"
  "\<forall>x \<in> set xs. wf_json x \<Longrightarrow> xs \<noteq> [] \<Longrightarrow> length (print_elems xs) < n \<Longrightarrow>
     parse_elems n (print_elems xs @ CHR '']'' # r) = Some (xs, r)"
  "\<forall>m \<in> set ms. wf_json (snd m) \<Longrightarrow> ms \<noteq> [] \<Longrightarrow> length (print_members ms) < n \<Longrightarrow>
     parse_members n (print_members ms @ CHR ''}'' # r) = Some (ms, r)"
proof (induction j and xs and ms arbitrary: n r and n r and n r
    rule: print_json_print_elems_print_members.induct)
  case 1
  then show ?case by (cases n) (simp_all add: skip_Cons lit_after_def HasPrefix_def)
next
  case (2 b)
  then show ?case by (cases n; cases b) (simp_all add: skip_Cons lit_after_def HasPrefix_def)
next
  case (3 s)
  obtain c t where s: "s = c # t" "num_char c" using 3(1) valid_num_first[of s] by auto
  then show ?case using 3 num_char_other[OF s(2)] parse_num_ok[of s r]
    by (cases n) (simp_all add: skip_Cons)
next
  case (4 s)
  then show ?case by (cases n) (simp_all add: skip_Cons quote_json_def parse_esc)
next
  case (5 xs)
  then obtain k where "n = Suc k" by (cases n) simp_all
  then show ?case using 5 parse_JArr[of xs k r] by simp
next
  case (6 ms)
  then obtain k where "n = Suc k" by (cases n) simp_all
  then show ?case using 6 parse_JObj[of ms k r] by simp
next
  case (8 x)
  then show ?case by (cases n) (simp_all add: skip_Cons)
next
  case (9 x y xs)
  then show ?case by (cases n) (simp_all add: skip_Cons)
next
  case (11 k x)
  then show ?case by (cases n) (simp_all add: skip_Cons parse_key_ok)
next
  case (12 k x m ms)
  then show ?case by (cases n) (simp_all add: skip_Cons parse_key_ok)
qed simp_all

lemma parse_print_json: "wf_json j \<Longrightarrow> parse_json (print_json j) = Some j"
  using parse_print(1)[of j "2 * length (print_json j) + 2" "[]"] by (simp add: parse_json_def skip_def)

section \<open>The fuel is enough\<close>

lemma skip_length: "length (skip s) \<le> length s"
  by (simp add: skip_def length_dropWhile_le)

lemma prepend_Some_iff: "prepend xs p = Some (ys, r) \<longleftrightarrow> (\<exists>zs. p = Some (zs, r) \<and> ys = xs @ zs)"
  by (cases p) (auto simp: prepend_def)

lemma parse_str_length: "parse_str s = Some (t, r) \<Longrightarrow> length r < length s"
proof (induction s arbitrary: t rule: parse_str.induct)
  case 1
  then show ?case by simp
next
  case (2 c r0)
  consider "c = CHR 0x22" | "c = CHR 0x5C" | "c \<noteq> CHR 0x22" "c \<noteq> CHR 0x5C" by blast
  then show ?case
  proof cases
    case 1
    then show ?thesis using 2(4) by (simp add: parse_str.simps(2))
  next
    case bs: 2
    with 2(4) obtain e r1 where e: "r0 = e # r1"
      by (cases r0) (simp_all add: parse_str.simps(2))
    show ?thesis
    proof (cases "e = CHR ''u''")
      case True
      with 2(4) bs e obtain u k zs where "parse_u r1 = Some (u, k)" "parse_str (drop k r1) = Some (zs, r)"
        by (auto simp: parse_str.simps(2) prepend_Some_iff split: option.splits)
      with 2(1) bs e True show ?thesis by fastforce
    next
      case False
      with 2(4) bs e obtain d zs where "unesc e = Some d" "parse_str r1 = Some (zs, r)"
        by (auto simp: parse_str.simps(2) prepend_Some_iff split: option.splits)
      with 2(2) bs e False show ?thesis by fastforce
    qed
  next
    case 3
    with 2(4) obtain zs where "\<not> code c < 32" "parse_str r0 = Some (zs, r)"
      by (auto simp: parse_str.simps(2) prepend_Some_iff split: if_splits)
    with 2(3) 3 show ?thesis by fastforce
  qed
qed

lemma skip_Cons_length: "skip s = c # r \<Longrightarrow> length r < length s"
  using skip_length[of s] by simp

lemma parse_key_Some:
  assumes "parse_key s = Some (k, r)"
  obtains t t1 where "skip s = CHR 0x22 # t" "parse_str t = Some (k, t1)" "skip t1 = CHR '':'' # r"
  using assms by (auto simp: parse_key_def split: list.splits option.splits if_splits)

lemma parse_key_length: "parse_key s = Some (k, r) \<Longrightarrow> length r < length s"
proof (elim parse_key_Some)
  fix t t1
  assume "skip s = CHR 0x22 # t" "parse_str t = Some (k, t1)" "skip t1 = CHR '':'' # r"
  from skip_Cons_length[OF this(1)] parse_str_length[OF this(2)] skip_Cons_length[OF this(3)]
  show "length r < length s" by simp
qed

lemma parse_num_length: "parse_num s = Some (v, r) \<Longrightarrow> length r < length s"
proof -
  assume a: "parse_num s = Some (v, r)"
  then have r: "r = dropWhile num_char s" and v: "valid_num (takeWhile num_char s)"
    by (simp_all add: parse_num_def split: if_splits)
  have "length s = length (takeWhile num_char s) + length (dropWhile num_char s)"
    unfolding length_append[symmetric] takeWhile_dropWhile_id ..
  moreover have "takeWhile num_char s \<noteq> []" using valid_num_first[OF v] by auto
  ultimately show ?thesis by (simp add: r)
qed

lemma lit_after_length: "w \<noteq> [] \<Longrightarrow> lit_after w v s = Some (x, r) \<Longrightarrow> length r < length s"
  by (cases s) (auto simp: lit_after_def HasPrefix_def split: if_splits)

lemma parse_length:
  "parse_val n s = Some (v, r) \<Longrightarrow> length r < length s"
  "parse_elems n s = Some (vs, r) \<Longrightarrow> length r < length s"
  "parse_members n s = Some (ms, r) \<Longrightarrow> length r < length s"
proof (induction n s and n s and n s arbitrary: v r and vs r and ms r
    rule: parse_val_parse_elems_parse_members.induct)
  case (2 n s)
  obtain c t where c: "skip s = c # t" using 2(3) by (auto split: list.splits)
  have l: "Suc (length t) \<le> length s" using skip_length[of s] c by simp
  have tl: "HasPrefix (skip t) [x] \<Longrightarrow> length (tl (skip t)) < length s" for x
    using skip_length[of t] l by simp
  show ?case
    using 2(3) 2(1)[OF c] 2(2)[OF c] l tl
    by (auto simp: c split: if_splits dest!: parse_str_length lit_after_length[rotated] parse_num_length)
next
  case (4 n s)
  obtain v t c t1 where v: "parse_val n s = Some (v, t)" and t: "skip t = c # t1"
    using 4(3) by (auto split: option.splits list.splits)
  have l: "length t1 < length s" using 4(1)[OF v] skip_Cons_length[OF t] by simp
  show ?case
  proof (cases "c = CHR '',''")
    case True
    then obtain zs where "parse_elems n t1 = Some (zs, r)" using 4(3) v t by (auto simp: prepend_Some_iff)
    with 4(2) v t True l show ?thesis by fastforce
  next
    case False
    then show ?thesis using 4(3) v t l by (auto split: if_splits)
  qed
next
  case (6 n s)
  obtain k t0 v t c t1 where k: "parse_key s = Some (k, t0)" and v: "parse_val n t0 = Some (v, t)"
    and t: "skip t = c # t1"
    using 6(3) by (auto split: option.splits list.splits)
  have l: "length t1 < length s"
    using 6(1)[OF k refl v] parse_key_length[OF k] skip_Cons_length[OF t] by simp
  show ?case
  proof (cases "c = CHR '',''")
    case True
    then obtain zs where "parse_members n t1 = Some (zs, r)" using 6(3) k v t by (auto simp: prepend_Some_iff)
    with 6(2) k v t True l show ?thesis by fastforce
  next
    case False
    then show ?thesis using 6(3) k v t l by (auto split: if_splits)
  qed
qed simp_all

text \<open>More fuel never changes the result, so the bound of \<open>parse_json\<close> decides nothing.\<close>

lemma parse_fuel:
  "2 * length s < n \<Longrightarrow> parse_val (Suc n) s = parse_val n s"
  "2 * length s + 1 < n \<Longrightarrow> parse_elems (Suc n) s = parse_elems n s"
  "2 * length s + 1 < n \<Longrightarrow> parse_members (Suc n) s = parse_members n s"
proof (induction n s and n s and n s rule: parse_val_parse_elems_parse_members.induct)
  case (2 n s)
  show ?case
  proof (cases "skip s")
    case Nil
    then show ?thesis by simp
  next
    case (Cons c t)
    have "parse_elems (Suc n) t = parse_elems n t" if "c = CHR ''[''" "\<not> HasPrefix (skip t) '']''"
      using 2(1)[OF Cons] that 2(3) skip_Cons_length[OF Cons] by simp
    moreover have "parse_members (Suc n) t = parse_members n t" if "c = CHR ''{''" "\<not> HasPrefix (skip t) ''}''"
      using 2(2)[OF Cons] that 2(3) skip_Cons_length[OF Cons] by simp
    ultimately show ?thesis
      unfolding parse_val.simps(2)[of "Suc n" s] parse_val.simps(2)[of n s] by (simp add: Cons)
  qed
next
  case (4 n s)
  have v: "parse_val (Suc n) s = parse_val n s" using 4(1,3) by simp
  have "parse_elems (Suc n) t1 = parse_elems n t1"
    if "parse_val n s = Some (v, t)" "skip t = CHR '','' # t1" for v t t1
    using 4(2)[OF that(1) refl that(2)] 4(3) parse_length(1)[OF that(1)] skip_Cons_length[OF that(2)] by simp
  then show ?case
    unfolding parse_elems.simps(2)[of "Suc n" s] parse_elems.simps(2)[of n s] v
    by (auto split: option.splits list.splits)
next
  case (6 n s)
  have v: "parse_val (Suc n) t = parse_val n t" if "parse_key s = Some (k, t)" for k t
    using 6(1)[OF that] 6(3) parse_key_length[OF that] by simp
  have "parse_members (Suc n) t1 = parse_members n t1"
    if "parse_key s = Some (k, t0)" "parse_val n t0 = Some (v, t)" "skip t = CHR '','' # t1" for k t0 v t t1
    using 6(2)[OF that(1) refl that(2) refl that(3)] 6(3) parse_key_length[OF that(1)]
      parse_length(1)[OF that(2)] skip_Cons_length[OF that(3)] by simp
  then show ?case
    unfolding parse_members.simps(2)[of "Suc n" s] parse_members.simps(2)[of n s] using v
    by (auto split: option.splits list.splits)
qed simp_all

lemma parse_json_fuel: "2 * length s + 2 \<le> n \<Longrightarrow> parse_val n s = parse_val (2 * length s + 2) s"
proof (induction rule: dec_induct)
  case base
  then show ?case by simp
next
  case (step n)
  then show ?case using parse_fuel(1)[of s n] by simp
qed

section \<open>Decoding into structs\<close>

text \<open>
  A struct is decoded member by member; \<open>set\<close> stores one member. Decoding stops here at the first
  error, where Go goes on and reports that error at the end; every caller drops the value on error.
\<close>

definition type_error :: error where
  "type_error = ErrorString ''json: cannot unmarshal value of another type''"

definition syntax_error :: error where
  "syntax_error = ErrorString ''json: invalid syntax''"

fun decode_members :: "(string \<Rightarrow> json \<Rightarrow> 'a \<Rightarrow> error + 'a) \<Rightarrow> (string \<times> json) list \<Rightarrow> 'a \<Rightarrow> error + 'a" where
  "decode_members put [] x = Inr x"
| "decode_members put ((k, v) # ms) x =
     (case put k v x of Inl e \<Rightarrow> Inl e | Inr y \<Rightarrow> decode_members put ms y)"

definition decode_struct :: "(string \<Rightarrow> json \<Rightarrow> 'a \<Rightarrow> error + 'a) \<Rightarrow> json \<Rightarrow> 'a \<Rightarrow> error + 'a" where
  "decode_struct put j x =
     (case j of JObj ms \<Rightarrow> decode_members put ms x | JNull \<Rightarrow> Inr x | _ \<Rightarrow> Inl type_error)"

definition Unmarshal :: "(string \<Rightarrow> json \<Rightarrow> 'a \<Rightarrow> error + 'a) \<Rightarrow> string \<Rightarrow> 'a \<Rightarrow> error + 'a" where
  "Unmarshal put s x =
     (case parse_json s of None \<Rightarrow> Inl syntax_error | Some j \<Rightarrow> decode_struct put j x)"

text \<open>\<^verbatim>\<open>strings.EqualFold\<close> on the ASCII names of the fields.\<close>

definition field_is :: "string \<Rightarrow> string \<Rightarrow> bool" where
  "field_is name k \<longleftrightarrow> ToLower k = ToLower name"

definition put_str :: "((string \<Rightarrow> string) \<Rightarrow> 'a \<Rightarrow> 'a) \<Rightarrow> json \<Rightarrow> 'a \<Rightarrow> error + 'a" where
  "put_str upd j x = (case j of JStr s \<Rightarrow> Inr (upd (\<lambda>_. s) x) | JNull \<Rightarrow> Inr x | _ \<Rightarrow> Inl type_error)"

definition put_bool :: "((bool \<Rightarrow> bool) \<Rightarrow> 'a \<Rightarrow> 'a) \<Rightarrow> json \<Rightarrow> 'a \<Rightarrow> error + 'a" where
  "put_bool upd j x = (case j of JBool b \<Rightarrow> Inr (upd (\<lambda>_. b) x) | JNull \<Rightarrow> Inr x | _ \<Rightarrow> Inl type_error)"

definition put_i64 :: "((i64 \<Rightarrow> i64) \<Rightarrow> 'a \<Rightarrow> 'a) \<Rightarrow> json \<Rightarrow> 'a \<Rightarrow> error + 'a" where
  "put_i64 upd j x =
     (case j of JNum s \<Rightarrow> (case num_i64 s of Some n \<Rightarrow> Inr (upd (\<lambda>_. n) x) | None \<Rightarrow> Inl type_error)
      | JNull \<Rightarrow> Inr x | _ \<Rightarrow> Inl type_error)"

definition put_f64 :: "((f64 \<Rightarrow> f64) \<Rightarrow> 'a \<Rightarrow> 'a) \<Rightarrow> json \<Rightarrow> 'a \<Rightarrow> error + 'a" where
  "put_f64 upd j x =
     (case j of JNum s \<Rightarrow> (case num_f64 s of Some n \<Rightarrow> Inr (upd (\<lambda>_. n) x) | None \<Rightarrow> Inl type_error)
      | JNull \<Rightarrow> Inr x | _ \<Rightarrow> Inl type_error)"

text \<open>A \<^verbatim>\<open>[]string\<close>: \<^verbatim>\<open>null\<close> gives the nil slice, a null element the empty string.\<close>

fun elem_strs :: "json list \<Rightarrow> string list option" where
  "elem_strs [] = Some []"
| "elem_strs (JStr s # js) = map_option ((#) s) (elem_strs js)"
| "elem_strs (JNull # js) = map_option ((#) '''') (elem_strs js)"
| "elem_strs (_ # js) = None"

definition put_strs :: "((string list \<Rightarrow> string list) \<Rightarrow> 'a \<Rightarrow> 'a) \<Rightarrow> json \<Rightarrow> 'a \<Rightarrow> error + 'a" where
  "put_strs upd j x =
     (case j of JArr js \<Rightarrow> (case elem_strs js of Some ss \<Rightarrow> Inr (upd (\<lambda>_. ss) x) | None \<Rightarrow> Inl type_error)
      | JNull \<Rightarrow> Inr (upd (\<lambda>_. []) x) | _ \<Rightarrow> Inl type_error)"

lemma elem_strs_map [simp]: "elem_strs (map JStr ss) = Some ss"
  by (induction ss) simp_all

lemma put_simps [simp]:
  "put_str upd1 (JStr s) x1 = Inr (upd1 (\<lambda>_. s) x1)"
  "put_bool upd2 (JBool b) x2 = Inr (upd2 (\<lambda>_. b) x2)"
  "put_i64 upd3 (JNum (show_i64 n)) x3 = Inr (upd3 (\<lambda>_. n) x3)"
  "put_strs upd4 (JArr (map JStr ss)) x4 = Inr (upd4 (\<lambda>_. ss) x4)"
  "put_strs upd4 JNull x4 = Inr (upd4 (\<lambda>_. []) x4)"
  by (simp_all add: put_str_def put_bool_def put_i64_def put_strs_def)

text \<open>A marshalled object is decoded as the object itself, without its text.\<close>

lemma Unmarshal_print: "wf_json j \<Longrightarrow> Unmarshal put (print_json j) x = decode_struct put j x"
  by (simp add: Unmarshal_def parse_print_json)

text \<open>A slice of strings is \<^verbatim>\<open>null\<close> when nil; the sources build their slices with \<^verbatim>\<open>append\<close> or
  \<^verbatim>\<open>make\<close>, and the model's empty list stands for the nil slice.\<close>

definition json_strs :: "string list \<Rightarrow> json" where
  "json_strs ss = (if ss = [] then JNull else JArr (map JStr ss))"

lemma put_strs_json [simp]: "put_strs upd (json_strs ss) x = Inr (upd (\<lambda>_. ss) x)"
  by (simp add: json_strs_def)

lemma wf_json_strs [simp]: "wf_json (json_strs ss)"
  by (auto simp: json_strs_def)

text \<open>One member that cannot be decoded makes the whole object fail.\<close>

lemma case_sum_Inl:
  "(\<And>d. \<exists>e. f d = Inl e) \<Longrightarrow> \<exists>e. (case x of Inl e \<Rightarrow> Inl e | Inr d \<Rightarrow> f d) = Inl e"
  by (cases x) auto

lemma decode_members_error:
  assumes "m \<in> set ms" "\<And>x. \<exists>e. put (fst m) (snd m) x = Inl e"
  shows "\<exists>e. decode_members put ms x = Inl e"
  using assms(1)
proof (induction ms arbitrary: x)
  case (Cons a ms)
  obtain k v where a: "a = (k, v)" by (cases a)
  show ?case
  proof (cases "m = a")
    case True
    then obtain e where "put k v x = Inl e" using assms(2)[of x] a by auto
    then show ?thesis by (simp add: a)
  next
    case False
    then have "\<exists>e. decode_members put ms y = Inl e" for y using Cons by simp
    then show ?thesis unfolding a decode_members.simps by (rule case_sum_Inl)
  qed
qed simp

end
