(* ===== verification/Agent_Client.thy ===== *)
theory Agent_Client
  imports Json Conditions
begin

text \<open>
  The operator's side of the conversation with the node agents: the interface
  \<^verbatim>\<open>NodeAgentClient\<close> with its request and status types (\<^verbatim>\<open>controllers/agent_client.go\<close>) and its
  implementation over ConfigMaps (\<^verbatim>\<open>controllers/kubernetes_agent_client.go\<close>). The locale
  \<open>node_agent_client\<close> is what the controllers rely on; \<open>KubernetesAgentClient\<close> satisfies it on
  every API server that satisfies \<open>kube_api\<close>.
\<close>

section \<open>Requests and statuses\<close>

text \<open>\<^verbatim>\<open>LastChecked\<close> is left out: the agent never writes it and no controller reads it.\<close>

record DiskAgentStatus =
  das_DevicePath :: string
  das_CapacityBytes :: i64
  das_AvailableBytes :: i64
  das_HealthScore :: f64
  das_SmartSummary :: string
  das_SerialNumber :: string
  das_Model :: string
  das_Rotational :: bool
  das_Mounted :: bool
  das_SmartFailed :: bool
  das_IOErrors :: i64

record DiskIOStats =
  io_ReadsCompleted :: i64
  io_WritesCompleted :: i64
  io_ReadBytes :: i64
  io_WriteBytes :: i64
  io_IOInProgress :: i64
  io_IOTimeMs :: i64

record MountDiskRequest =
  mdr_DevicePath :: string
  mdr_MountPoint :: string
  mdr_Filesystem :: string
  mdr_FormatIfEmpty :: bool

record MergerFSMountRequest =
  mmr_Branches :: "string list"
  mmr_MountPoint :: string
  mmr_CategoryCreate :: string
  mmr_MinFreeSpace :: string
  mmr_ExtraOptions :: string

record SnapraidParityEntry =
  spe_Index :: int
  spe_DevicePath :: string
  spe_MountPoint :: string

record SnapraidDataEntry =
  sde_Label :: string
  sde_DevicePath :: string
  sde_MountPoint :: string

record SnapraidConfig =
  src_ParityEntries :: "SnapraidParityEntry list"
  src_DataEntries :: "SnapraidDataEntry list"
  src_ContentFiles :: "string list"
  src_ExcludePatterns :: "string list"

record AgentOperationStatus =
  aos_OperationID :: string
  aos_State :: string
  aos_Message :: string

definition DiskAgentStatus_zero :: DiskAgentStatus where
  "DiskAgentStatus_zero = \<lparr>das_DevicePath = '''', das_CapacityBytes = 0, das_AvailableBytes = 0,
     das_HealthScore = Fin 0, das_SmartSummary = '''', das_SerialNumber = '''', das_Model = '''',
     das_Rotational = False, das_Mounted = False, das_SmartFailed = False, das_IOErrors = 0\<rparr>"

definition DiskIOStats_zero :: DiskIOStats where
  "DiskIOStats_zero = \<lparr>io_ReadsCompleted = 0, io_WritesCompleted = 0, io_ReadBytes = 0,
     io_WriteBytes = 0, io_IOInProgress = 0, io_IOTimeMs = 0\<rparr>"

section \<open>The interface\<close>

text \<open>
  One field per method. \<^verbatim>\<open>EnsureMergerFSMount\<close> returns false whenever it returns an error, so its
  pair is a sum; \<^verbatim>\<open>WaitForOperation\<close> returns a status together with the error of a failed operation.
\<close>

record 'w agent_client =
  ac_GetDiskStatus :: "string \<Rightarrow> string \<Rightarrow> ('w, error + DiskAgentStatus) state"
  ac_MountDisk :: "string \<Rightarrow> MountDiskRequest \<Rightarrow> ('w, error option) state"
  ac_UnmountDisk :: "string \<Rightarrow> string \<Rightarrow> ('w, error option) state"
  ac_ApplySnapraidConfig :: "string \<Rightarrow> SnapraidConfig \<Rightarrow> ('w, error option) state"
  ac_EnsureMergerFSMount :: "string \<Rightarrow> MergerFSMountRequest \<Rightarrow> ('w, error + bool) state"
  ac_RunParityOperation :: "string \<Rightarrow> string \<Rightarrow> ('w, error option) state"
  ac_GetDiskIOStats :: "string \<Rightarrow> string \<Rightarrow> ('w, error + DiskIOStats) state"
  ac_WaitForOperation :: "string \<Rightarrow> ('w, AgentOperationStatus option \<times> error option) state"

section \<open>JSON of the messages\<close>

text \<open>The operator's structs have no JSON tags: the members carry the names of the Go fields.\<close>

definition json_MountDiskRequest :: "MountDiskRequest \<Rightarrow> json" where
  "json_MountDiskRequest q = JObj
     [(''DevicePath'', JStr (mdr_DevicePath q)), (''MountPoint'', JStr (mdr_MountPoint q)),
      (''Filesystem'', JStr (mdr_Filesystem q)), (''FormatIfEmpty'', JBool (mdr_FormatIfEmpty q))]"

definition json_MergerFSMountRequest :: "MergerFSMountRequest \<Rightarrow> json" where
  "json_MergerFSMountRequest q = JObj
     [(''Branches'', json_strs (mmr_Branches q)), (''MountPoint'', JStr (mmr_MountPoint q)),
      (''CategoryCreate'', JStr (mmr_CategoryCreate q)), (''MinFreeSpace'', JStr (mmr_MinFreeSpace q)),
      (''ExtraOptions'', JStr (mmr_ExtraOptions q))]"

definition put_DiskAgentStatus :: "string \<Rightarrow> json \<Rightarrow> DiskAgentStatus \<Rightarrow> error + DiskAgentStatus" where
  "put_DiskAgentStatus k v x =
     (if field_is ''DevicePath'' k then put_str das_DevicePath_update v x
      else if field_is ''CapacityBytes'' k then put_i64 das_CapacityBytes_update v x
      else if field_is ''AvailableBytes'' k then put_i64 das_AvailableBytes_update v x
      else if field_is ''HealthScore'' k then put_f64 das_HealthScore_update v x
      else if field_is ''SmartSummary'' k then put_str das_SmartSummary_update v x
      else if field_is ''SerialNumber'' k then put_str das_SerialNumber_update v x
      else if field_is ''Model'' k then put_str das_Model_update v x
      else if field_is ''Rotational'' k then put_bool das_Rotational_update v x
      else if field_is ''Mounted'' k then put_bool das_Mounted_update v x
      else if field_is ''SmartFailed'' k then put_bool das_SmartFailed_update v x
      else if field_is ''IOErrors'' k then put_i64 das_IOErrors_update v x
      else Inr x)"

definition put_DiskIOStats :: "string \<Rightarrow> json \<Rightarrow> DiskIOStats \<Rightarrow> error + DiskIOStats" where
  "put_DiskIOStats k v x =
     (if field_is ''ReadsCompleted'' k then put_i64 io_ReadsCompleted_update v x
      else if field_is ''WritesCompleted'' k then put_i64 io_WritesCompleted_update v x
      else if field_is ''ReadBytes'' k then put_i64 io_ReadBytes_update v x
      else if field_is ''WriteBytes'' k then put_i64 io_WriteBytes_update v x
      else if field_is ''IOInProgress'' k then put_i64 io_IOInProgress_update v x
      else if field_is ''IOTimeMs'' k then put_i64 io_IOTimeMs_update v x
      else Inr x)"

section \<open>KubernetesAgentClient\<close>

definition agentStatusPrefix :: string where "agentStatusPrefix = ''kubenas-diskstatus-''"
definition agentOpPrefix :: string where "agentOpPrefix = ''kubenas-agentop-''"

definition sanitizeDevicePath :: "string \<Rightarrow> string" where
  "sanitizeDevicePath path = ReplaceAll path (CHR ''/'') ''_''"

text \<open>\<^verbatim>\<open>cm.Data[key]\<close>; reading a nil map is allowed.\<close>

definition cm_lookup :: "ConfigMap \<Rightarrow> string \<Rightarrow> string option" where
  "cm_lookup cm key = (case cm_Data cm of None \<Rightarrow> None | Some m \<Rightarrow> m key)"

definition cm_str :: "ConfigMap \<Rightarrow> string \<Rightarrow> string" where
  "cm_str cm key = (case cm_lookup cm key of None \<Rightarrow> '''' | Some s \<Rightarrow> s)"

definition get_cm :: "'w env \<Rightarrow> string \<Rightarrow> ('w, error + ConfigMap) state" where
  "get_cm cl name = do {
     r \<leftarrow> env_get cl KConfigMap (operatorNamespace cl, name);
     State_Monad.return (as_ConfigMap r)
   }"

definition GetDiskStatus :: "'w env \<Rightarrow> string \<Rightarrow> string \<Rightarrow> ('w, error + DiskAgentStatus) state" where
  "GetDiskStatus cl nodeName devicePath = do {
     r \<leftarrow> get_cm cl (agentStatusPrefix @ nodeName);
     let unknown = DiskAgentStatus_zero\<lparr>das_DevicePath := devicePath, das_HealthScore := lit 1\<rparr>;
     State_Monad.return (case r of
       Inl err \<Rightarrow> if IsNotFound err then Inr unknown else Inl err
     | Inr cm \<Rightarrow> (case cm_lookup cm (sanitizeDevicePath devicePath) of
          None \<Rightarrow> Inr unknown
        | Some data \<Rightarrow> Unmarshal put_DiskAgentStatus data DiskAgentStatus_zero))
   }"

definition GetDiskIOStats :: "'w env \<Rightarrow> string \<Rightarrow> string \<Rightarrow> ('w, error + DiskIOStats) state" where
  "GetDiskIOStats cl nodeName devicePath = do {
     r \<leftarrow> get_cm cl (agentStatusPrefix @ nodeName @ ''-io'');
     State_Monad.return (case r of
       Inl err \<Rightarrow> Inr DiskIOStats_zero
     | Inr cm \<Rightarrow> (case cm_lookup cm (sanitizeDevicePath devicePath) of
          None \<Rightarrow> Inr DiskIOStats_zero
        | Some data \<Rightarrow> (case Unmarshal put_DiskIOStats data DiskIOStats_zero of
             Inl err \<Rightarrow> Inr DiskIOStats_zero
           | Inr stats \<Rightarrow> Inr stats)))
   }"

definition op_configmap :: "string \<Rightarrow> string \<Rightarrow> string \<Rightarrow> string \<Rightarrow> string \<Rightarrow> ConfigMap" where
  "op_configmap ns opName nodeName opType data =
     \<lparr>cm_Meta = ObjectMeta_zero\<lparr>meta_Name := opName, meta_Namespace := ns,
        meta_Labels := [''kubenas.io/agent-op'' \<mapsto> ''true'', ''kubenas.io/node'' \<mapsto> nodeName,
                        ''kubenas.io/op-type'' \<mapsto> opType]\<rparr>,
      cm_Data = Some [''operationID'' \<mapsto> opName, ''operation'' \<mapsto> opType, ''node'' \<mapsto> nodeName,
                      ''payload'' \<mapsto> data, ''status.state'' \<mapsto> ''Pending'', ''status.message'' \<mapsto> ''queued'']\<rparr>"

definition postAgentOp ::
  "'w env \<Rightarrow> string \<Rightarrow> string \<Rightarrow> json \<Rightarrow> ('w, string \<times> error option) state" where
  "postAgentOp cl nodeName opType payload = do {
     let data = print_json payload;
     now \<leftarrow> env_now cl;
     let opName = agentOpPrefix @ nodeName @ ''-'' @ show_int (now div 1000000);
     err \<leftarrow> env_create cl (OConfigMap (op_configmap (operatorNamespace cl) opName nodeName opType data));
     State_Monad.return (opName, err)
   }"

text \<open>The loop of at most 24 polls; the first argument counts the polls that are left.\<close>

fun wait_polls ::
  "nat \<Rightarrow> 'w env \<Rightarrow> string \<Rightarrow> ('w, AgentOperationStatus option \<times> error option) state" where
  "wait_polls 0 cl opName =
     State_Monad.return (None, Some (ErrorString (''operation '' @ opName @ '' timed out'')))"
| "wait_polls (Suc i) cl opName = do {
     r \<leftarrow> get_cm cl opName;
     case r of
       Inl err \<Rightarrow>
         if IsNotFound err then do {
           e \<leftarrow> env_wait cl;
           case e of Some ctxErr \<Rightarrow> State_Monad.return (None, Some ctxErr)
           | None \<Rightarrow> wait_polls i cl opName
         } else State_Monad.return (None, Some err)
     | Inr cm \<Rightarrow> do {
         let st = \<lparr>aos_OperationID = opName, aos_State = cm_str cm ''status.state'',
                   aos_Message = cm_str cm ''status.message''\<rparr>;
         if aos_State st = ''Success'' then State_Monad.return (Some st, None)
         else if aos_State st = ''Failed''
         then State_Monad.return (Some st, Some (ErrorString (''operation '' @ opName @ '' failed: '' @ aos_Message st)))
         else do {
           e \<leftarrow> env_wait cl;
           case e of Some ctxErr \<Rightarrow> State_Monad.return (None, Some ctxErr)
           | None \<Rightarrow> wait_polls i cl opName
         }
       }
   }"

definition waitForOperationState ::
  "'w env \<Rightarrow> string \<Rightarrow> ('w, AgentOperationStatus option \<times> error option) state" where
  "waitForOperationState cl opName = wait_polls 24 cl opName"

text \<open>The common shape of \<^verbatim>\<open>MountDisk\<close>, \<^verbatim>\<open>UnmountDisk\<close> and \<^verbatim>\<open>RunParityOperation\<close>.\<close>

definition post_and_wait :: "'w env \<Rightarrow> string \<Rightarrow> string \<Rightarrow> json \<Rightarrow> ('w, error option) state" where
  "post_and_wait cl nodeName opType payload = do {
     (opID, err) \<leftarrow> postAgentOp cl nodeName opType payload;
     case err of
       Some e \<Rightarrow> State_Monad.return (Some e)
     | None \<Rightarrow> do {
         (st, err2) \<leftarrow> waitForOperationState cl opID;
         State_Monad.return err2
       }
   }"

definition MountDisk :: "'w env \<Rightarrow> string \<Rightarrow> MountDiskRequest \<Rightarrow> ('w, error option) state" where
  "MountDisk cl nodeName req = post_and_wait cl nodeName ''mount'' (json_MountDiskRequest req)"

definition UnmountDisk :: "'w env \<Rightarrow> string \<Rightarrow> string \<Rightarrow> ('w, error option) state" where
  "UnmountDisk cl nodeName mountPoint =
     post_and_wait cl nodeName ''unmount'' (JObj [(''mountPoint'', JStr mountPoint)])"

definition RunParityOperation :: "'w env \<Rightarrow> string \<Rightarrow> string \<Rightarrow> ('w, error option) state" where
  "RunParityOperation cl nodeName operation = post_and_wait cl nodeName (''parity-'' @ operation) JNull"

definition EnsureMergerFSMount ::
  "'w env \<Rightarrow> string \<Rightarrow> MergerFSMountRequest \<Rightarrow> ('w, error + bool) state" where
  "EnsureMergerFSMount cl nodeName req = do {
     (opID, err) \<leftarrow> postAgentOp cl nodeName ''mergerfs-mount'' (json_MergerFSMountRequest req);
     case err of
       Some e \<Rightarrow> State_Monad.return (Inl e)
     | None \<Rightarrow> do {
         (st, err2) \<leftarrow> waitForOperationState cl opID;
         State_Monad.return (case err2 of
           Some e \<Rightarrow> Inl e
         | None \<Rightarrow> (case st of None \<Rightarrow> Inl (Panic ''nil pointer dereference'')
                    | Some s \<Rightarrow> Inr (aos_State s = ''Success'')))
       }
   }"

definition renderSnapraidConf :: "SnapraidConfig \<Rightarrow> string" where
  "renderSnapraidConf cfg =
     ''# Generated by KubeNAS Operator'' @ newline @ newline
     @ concat (map (\<lambda>p.
         if spe_Index p = 1
         then ''parity '' @ spe_MountPoint p @ ''/'' @ ''snapraid'' @ ''.parity'' @ newline
         else show_int (spe_Index p) @ ''-parity '' @ spe_MountPoint p @ ''/'' @ ''snapraid'' @ ''.parity'' @ newline)
       (src_ParityEntries cfg))
     @ newline
     @ concat (map (\<lambda>cf. ''content '' @ cf @ newline) (src_ContentFiles cfg))
     @ newline
     @ concat (map (\<lambda>d. ''data '' @ sde_Label d @ '' '' @ sde_MountPoint d @ newline) (src_DataEntries cfg))
     @ newline
     @ concat (map (\<lambda>ex. ''exclude '' @ ex @ newline) (src_ExcludePatterns cfg))"

definition snapraid_cm_name :: "string \<Rightarrow> string" where
  "snapraid_cm_name nodeName = ''kubenas-snapraid-'' @ nodeName"

definition ApplySnapraidConfig :: "'w env \<Rightarrow> string \<Rightarrow> SnapraidConfig \<Rightarrow> ('w, error option) state" where
  "ApplySnapraidConfig cl nodeName cfg = do {
     let rendered = renderSnapraidConf cfg;
     let cm = \<lparr>cm_Meta = ObjectMeta_zero\<lparr>meta_Name := snapraid_cm_name nodeName,
                 meta_Namespace := operatorNamespace cl,
                 meta_Labels := [''kubenas.io/snapraid-config'' \<mapsto> ''true'', ''kubenas.io/node'' \<mapsto> nodeName]\<rparr>,
               cm_Data = Some [''snapraid.conf'' \<mapsto> rendered]\<rparr>;
     r \<leftarrow> get_cm cl (snapraid_cm_name nodeName);
     case r of
       Inl err \<Rightarrow> if IsNotFound err then env_create cl (OConfigMap cm) else State_Monad.return (Some err)
     | Inr existing \<Rightarrow> env_update cl (OConfigMap (existing\<lparr>cm_Data := cm_Data cm\<rparr>))
   }"

definition KubernetesAgentClient :: "'w env \<Rightarrow> 'w agent_client" where
  "KubernetesAgentClient cl =
     \<lparr>ac_GetDiskStatus = GetDiskStatus cl, ac_MountDisk = MountDisk cl,
      ac_UnmountDisk = UnmountDisk cl, ac_ApplySnapraidConfig = ApplySnapraidConfig cl,
      ac_EnsureMergerFSMount = EnsureMergerFSMount cl, ac_RunParityOperation = RunParityOperation cl,
      ac_GetDiskIOStats = GetDiskIOStats cl, ac_WaitForOperation = waitForOperationState cl\<rparr>"

section \<open>What the controllers rely on\<close>

definition crs_same :: "('w \<Rightarrow> store) \<Rightarrow> 'w \<Rightarrow> 'w \<Rightarrow> bool" where
  "crs_same view w w' \<longleftrightarrow> (\<forall>k. k \<noteq> KConfigMap \<longrightarrow> view w' k = view w k)"

lemma crs_same_refl [simp]: "view w' = view w \<Longrightarrow> crs_same view w w'"
  by (simp add: crs_same_def)

lemma crs_same_trans [trans]: "crs_same view w w' \<Longrightarrow> crs_same view w' w'' \<Longrightarrow> crs_same view w w''"
  by (simp add: crs_same_def)

lemma crs_same_set_cm:
  "view w' = store_set (view w) KConfigMap n x \<Longrightarrow> crs_same view w w'"
  by (simp add: crs_same_def fun_eq_iff)

text \<open>
  The agent client never touches an object other than ConfigMaps; a mount that is reported without
  error has succeeded; an applied SnapRAID configuration is the one on record for the node, and
  applying one node's configuration leaves the others alone. \<open>conf\<close> reads the configuration on record.
\<close>

locale node_agent_client =
  fixes ac :: "'w agent_client" and view :: "'w \<Rightarrow> store" and conf :: "store \<Rightarrow> string \<rightharpoonup> string"
  assumes conf_law: "v' KConfigMap = v KConfigMap \<Longrightarrow> conf v' = conf v"
    and status_law: "run_state (ac_GetDiskStatus ac n p) w = (s, w') \<Longrightarrow> view w' = view w"
    and iostats_law: "run_state (ac_GetDiskIOStats ac n p) w = (i, w') \<Longrightarrow> view w' = view w"
    and mount_law: "run_state (ac_MountDisk ac n q) w = (r, w') \<Longrightarrow> crs_same view w w'"
    and unmount_law: "run_state (ac_UnmountDisk ac n p) w = (r, w') \<Longrightarrow> crs_same view w w'"
    and parity_law: "run_state (ac_RunParityOperation ac n p) w = (r, w') \<Longrightarrow> crs_same view w w'"
    and mergerfs_law: "run_state (ac_EnsureMergerFSMount ac n m) w = (b, w') \<Longrightarrow>
      crs_same view w w' \<and> b \<noteq> Inr False"
    and apply_law: "run_state (ac_ApplySnapraidConfig ac n c) w = (r, w') \<Longrightarrow>
      crs_same view w w' \<and> (\<forall>n'. n' \<noteq> n \<longrightarrow> conf (view w') n' = conf (view w) n') \<and>
      (r = None \<longrightarrow> conf (view w') n = Some (renderSnapraidConf c))"
    and wait_op_law: "run_state (ac_WaitForOperation ac opID) w = ((st, e), w') \<Longrightarrow>
      crs_same view w w' \<and> (e = None \<longrightarrow> (\<exists>s. st = Some s \<and> aos_State s = ''Success''))"
begin

lemma wp_status: "(\<And>s w'. view w' = view w \<Longrightarrow> Q s w') \<Longrightarrow> wp (ac_GetDiskStatus ac n p) Q w"
  by (rule run_wp) (auto dest: status_law)

lemma wp_iostats: "(\<And>s w'. view w' = view w \<Longrightarrow> Q s w') \<Longrightarrow> wp (ac_GetDiskIOStats ac n p) Q w"
  by (rule run_wp) (auto dest: iostats_law)

lemma wp_mount: "(\<And>r w'. crs_same view w w' \<Longrightarrow> Q r w') \<Longrightarrow> wp (ac_MountDisk ac n q) Q w"
  by (rule run_wp) (auto dest: mount_law)

lemma wp_unmount: "(\<And>r w'. crs_same view w w' \<Longrightarrow> Q r w') \<Longrightarrow> wp (ac_UnmountDisk ac n p) Q w"
  by (rule run_wp) (auto dest: unmount_law)

lemma wp_parity: "(\<And>r w'. crs_same view w w' \<Longrightarrow> Q r w') \<Longrightarrow> wp (ac_RunParityOperation ac n p) Q w"
  by (rule run_wp) (auto dest: parity_law)

lemma wp_mergerfs:
  assumes "\<And>w'. crs_same view w w' \<Longrightarrow> Q (Inr True) w'"
    and "\<And>e w'. crs_same view w w' \<Longrightarrow> Q (Inl e) w'"
  shows "wp (ac_EnsureMergerFSMount ac n m) Q w"
proof (rule run_wp)
  fix b w' assume "run_state (ac_EnsureMergerFSMount ac n m) w = (b, w')"
  from mergerfs_law[OF this] show "Q b w'"
    using assms by (cases b) auto
qed

lemma wp_apply:
  assumes "\<And>w'. crs_same view w w' \<Longrightarrow> (\<And>n'. n' \<noteq> n \<Longrightarrow> conf (view w') n' = conf (view w) n') \<Longrightarrow>
      conf (view w') n = Some (renderSnapraidConf c) \<Longrightarrow> Q None w'"
    and "\<And>e w'. crs_same view w w' \<Longrightarrow> (\<And>n'. n' \<noteq> n \<Longrightarrow> conf (view w') n' = conf (view w) n') \<Longrightarrow> Q (Some e) w'"
  shows "wp (ac_ApplySnapraidConfig ac n c) Q w"
proof (rule run_wp)
  fix r w' assume "run_state (ac_ApplySnapraidConfig ac n c) w = (r, w')"
  from apply_law[OF this] show "Q r w'" using assms by (cases r) auto
qed

lemmas agent_rules = wp_status wp_iostats wp_mount wp_unmount wp_parity wp_mergerfs wp_apply

end

section \<open>The client over ConfigMaps keeps the contract\<close>

definition snapraid_conf :: "'w env \<Rightarrow> store \<Rightarrow> string \<rightharpoonup> string" where
  "snapraid_conf cl v nodeName =
     (case v KConfigMap (operatorNamespace cl, snapraid_cm_name nodeName) of
        Some (OConfigMap cm) \<Rightarrow> cm_lookup cm ''snapraid.conf''
      | _ \<Rightarrow> None)"

context kube_api begin

lemma wp_get_cm:
  assumes "\<And>cm w'. view w' = view w \<Longrightarrow> view w KConfigMap (operatorNamespace cl, name) = Some (OConfigMap cm)
      \<Longrightarrow> key_of (OConfigMap cm) = (operatorNamespace cl, name) \<Longrightarrow> \<not> deletion_done (OConfigMap cm)
      \<Longrightarrow> Q (Inr cm) w'"
    and "\<And>e w'. view w' = view w \<Longrightarrow> (IsNotFound e \<Longrightarrow> view w KConfigMap (operatorNamespace cl, name) = None)
      \<Longrightarrow> Q (Inl e) w'"
  shows "wp (get_cm cl name) Q w"
  unfolding get_cm_def wp
proof (rule wp_get, goal_cases)
  case (1 ob w')
  then show ?case by (cases ob) (auto simp: as_ConfigMap_def intro: assms(1))
next
  case (2 e w')
  then show ?case by (auto simp: as_ConfigMap_def intro: assms(2))
qed

lemma wait_crs: "run_state (env_wait cl) w = (r, w') \<Longrightarrow> crs_same view w w'"
  by (simp add: crs_same_def wait_law)

lemma wp_wait_crs: "(\<And>r w'. crs_same view w w' \<Longrightarrow> Q r w') \<Longrightarrow> wp (env_wait cl) Q w"
  by (rule run_wp) (auto dest: wait_crs)

lemma wp_wait_polls:
  "wp (wait_polls i cl opName) (\<lambda>r w'. crs_same view w w' \<and>
     (snd r = None \<longrightarrow> (\<exists>s. fst r = Some s \<and> aos_State s = ''Success''))) w"
proof (induction i arbitrary: w)
  case 0
  show ?case by (simp add: wp)
next
  case (Suc i)
  show ?case
    by (auto simp: wp Let_def crs_same_def[of view w] intro!: wp_get_cm wp_wait_crs split: option.split)
      (rule wp_mono[OF Suc.IH], auto simp: crs_same_def)+
qed

lemma wp_wait_operation:
  assumes "\<And>s w'. crs_same view w w' \<Longrightarrow> aos_State s = ''Success'' \<Longrightarrow> Q (Some s, None) w'"
    and "\<And>st e w'. crs_same view w w' \<Longrightarrow> Q (st, Some e) w'"
  shows "wp (waitForOperationState cl opName) Q w"
  unfolding waitForOperationState_def
proof (rule wp_mono[OF wp_wait_polls])
  fix r :: "AgentOperationStatus option \<times> error option" and w'
  assume a: "crs_same view w w' \<and> (snd r = None \<longrightarrow> (\<exists>s. fst r = Some s \<and> aos_State s = ''Success''))"
  show "Q r w'"
  proof (cases "snd r")
    case None
    with a obtain s where "r = (Some s, None)" "aos_State s = ''Success''" by (cases r) auto
    with a assms(1) show ?thesis by simp
  next
    case (Some e)
    with a assms(2)[of w' "fst r" e] show ?thesis by (cases r) simp
  qed
qed

lemma wp_post:
  assumes "\<And>op e w'. crs_same view w w' \<Longrightarrow> Q (op, e) w'"
  shows "wp (postAgentOp cl nodeName opType payload) Q w"
  by (auto simp: postAgentOp_def wp Let_def intro!: wp_now wp_create assms)
    (simp add: crs_same_def fun_eq_iff)

lemma wp_post_and_wait:
  assumes "\<And>r w'. crs_same view w w' \<Longrightarrow> Q r w'"
  shows "wp (post_and_wait cl nodeName opType payload) Q w"
  by (auto simp: post_and_wait_def wp split: option.split
      intro!: wp_post wp_wait_operation assms) (simp_all add: crs_same_def)

lemma wp_EnsureMergerFSMount:
  assumes "\<And>w'. crs_same view w w' \<Longrightarrow> Q (Inr True) w'"
    and "\<And>e w'. crs_same view w w' \<Longrightarrow> Q (Inl e) w'"
  shows "wp (EnsureMergerFSMount cl nodeName req) Q w"
  by (auto simp: EnsureMergerFSMount_def wp split: option.split
      intro!: wp_post wp_wait_operation assms) (simp_all add: crs_same_def)

lemma wp_ApplySnapraidConfig:
  assumes "\<And>w'. crs_same view w w' \<Longrightarrow>
      (\<And>n'. n' \<noteq> n \<Longrightarrow> snapraid_conf cl (view w') n' = snapraid_conf cl (view w) n') \<Longrightarrow>
      snapraid_conf cl (view w') n = Some (renderSnapraidConf c) \<Longrightarrow> Q None w'"
    and "\<And>e w'. view w' = view w \<Longrightarrow> Q (Some e) w'"
  shows "wp (ApplySnapraidConfig cl n c) Q w"
proof -
  have inj: "snapraid_cm_name n' = snapraid_cm_name n \<longleftrightarrow> n' = n" for n'
    by (simp add: snapraid_cm_name_def)
  show ?thesis
    by (auto simp: ApplySnapraidConfig_def wp Let_def key_of_def crs_same_def snapraid_conf_def inj
        cm_lookup_def with_rv_def with_uid_def deletion_done_def fun_eq_iff
        intro!: wp_get_cm wp_create wp_update assms)
qed

end

sublocale kube_api \<subseteq> kac: node_agent_client "KubernetesAgentClient cl" view "snapraid_conf cl"
proof
  fix v v' :: store
  assume "v' KConfigMap = v KConfigMap"
  then show "snapraid_conf cl v' = snapraid_conf cl v" by (simp add: snapraid_conf_def fun_eq_iff)
next
  fix n p w s w'
  assume "run_state (ac_GetDiskStatus (KubernetesAgentClient cl) n p) w = (s, w')"
  moreover have "wp (GetDiskStatus cl n p) (\<lambda>s w'. view w' = view w) w"
    by (auto simp: GetDiskStatus_def wp Let_def intro!: wp_get_cm)
  ultimately show "view w' = view w" by (simp add: KubernetesAgentClient_def wp_def)
next
  fix n p w i w'
  assume "run_state (ac_GetDiskIOStats (KubernetesAgentClient cl) n p) w = (i, w')"
  moreover have "wp (GetDiskIOStats cl n p) (\<lambda>s w'. view w' = view w) w"
    by (auto simp: GetDiskIOStats_def wp Let_def intro!: wp_get_cm)
  ultimately show "view w' = view w" by (simp add: KubernetesAgentClient_def wp_def)
next
  fix n q w r w'
  assume "run_state (ac_MountDisk (KubernetesAgentClient cl) n q) w = (r, w')"
  moreover have "wp (MountDisk cl n q) (\<lambda>r w'. crs_same view w w') w"
    unfolding MountDisk_def by (rule wp_post_and_wait)
  ultimately show "crs_same view w w'" by (simp add: KubernetesAgentClient_def wp_def)
next
  fix n p w r w'
  assume "run_state (ac_UnmountDisk (KubernetesAgentClient cl) n p) w = (r, w')"
  moreover have "wp (UnmountDisk cl n p) (\<lambda>r w'. crs_same view w w') w"
    unfolding UnmountDisk_def by (rule wp_post_and_wait)
  ultimately show "crs_same view w w'" by (simp add: KubernetesAgentClient_def wp_def)
next
  fix n p w r w'
  assume "run_state (ac_RunParityOperation (KubernetesAgentClient cl) n p) w = (r, w')"
  moreover have "wp (RunParityOperation cl n p) (\<lambda>r w'. crs_same view w w') w"
    unfolding RunParityOperation_def by (rule wp_post_and_wait)
  ultimately show "crs_same view w w'" by (simp add: KubernetesAgentClient_def wp_def)
next
  fix n m w b w'
  assume "run_state (ac_EnsureMergerFSMount (KubernetesAgentClient cl) n m) w = (b, w')"
  moreover have "wp (EnsureMergerFSMount cl n m) (\<lambda>b w'. crs_same view w w' \<and> b \<noteq> Inr False) w"
    by (rule wp_EnsureMergerFSMount) simp_all
  ultimately show "crs_same view w w' \<and> b \<noteq> Inr False"
    by (simp add: KubernetesAgentClient_def wp_def)
next
  fix n c w r w'
  assume "run_state (ac_ApplySnapraidConfig (KubernetesAgentClient cl) n c) w = (r, w')"
  moreover have "wp (ApplySnapraidConfig cl n c) (\<lambda>r w'. crs_same view w w' \<and>
      (\<forall>n'. n' \<noteq> n \<longrightarrow> snapraid_conf cl (view w') n' = snapraid_conf cl (view w) n') \<and>
      (r = None \<longrightarrow> snapraid_conf cl (view w') n = Some (renderSnapraidConf c))) w"
    by (rule wp_ApplySnapraidConfig) (simp_all add: snapraid_conf_def)
  ultimately show "crs_same view w w' \<and>
      (\<forall>n'. n' \<noteq> n \<longrightarrow> snapraid_conf cl (view w') n' = snapraid_conf cl (view w) n') \<and>
      (r = None \<longrightarrow> snapraid_conf cl (view w') n = Some (renderSnapraidConf c))"
    by (simp add: KubernetesAgentClient_def wp_def)
next
  fix opID w st e w'
  assume "run_state (ac_WaitForOperation (KubernetesAgentClient cl) opID) w = ((st, e), w')"
  moreover have "wp (waitForOperationState cl opID) (\<lambda>r w'. crs_same view w w' \<and>
      (snd r = None \<longrightarrow> (\<exists>s. fst r = Some s \<and> aos_State s = ''Success''))) w"
    by (rule wp_wait_operation) simp_all
  ultimately show "crs_same view w w' \<and> (e = None \<longrightarrow> (\<exists>s. st = Some s \<and> aos_State s = ''Success''))"
    by (simp add: KubernetesAgentClient_def wp_def)
qed

context kube_api begin

lemma agent_contract: "node_agent_client (KubernetesAgentClient cl) view (snapraid_conf cl)"
  by (rule kac.node_agent_client_axioms)

end

text \<open>The same on the in-memory API server.\<close>

interpretation mem_agent: node_agent_client "KubernetesAgentClient (mem_env ns (\<lambda>_ _. None) (\<lambda>m. m))"
    mem_view "snapraid_conf (mem_env ns (\<lambda>_ _. None) (\<lambda>m. m))"
  by (rule mem.agent_contract)

section \<open>API server and agent client together\<close>

locale operator = kube_api cl view + node_agent_client ac view conf
  for cl :: "'w env" and view :: "'w \<Rightarrow> store" and ac :: "'w agent_client"
    and conf :: "store \<Rightarrow> string \<rightharpoonup> string"
begin

lemmas op_rules = kube_rules agent_rules

end

lemma operator_KubernetesAgentClient:
  "kube_api cl view \<Longrightarrow> operator cl view (KubernetesAgentClient cl) (snapraid_conf cl)"
  by (simp add: operator_def kube_api.agent_contract)

interpretation mem_operator: operator "mem_env ns (\<lambda>_ _. None) (\<lambda>m. m)" mem_view
    "KubernetesAgentClient (mem_env ns (\<lambda>_ _. None) (\<lambda>m. m))"
    "snapraid_conf (mem_env ns (\<lambda>_ _. None) (\<lambda>m. m))"
  by (rule operator_KubernetesAgentClient[OF mem.kube_api_axioms])

text \<open>Everything but ConfigMaps and one named object is as before.\<close>

definition only_changed :: "('w \<Rightarrow> store) \<Rightarrow> kind \<Rightarrow> nskey \<Rightarrow> 'w \<Rightarrow> 'w \<Rightarrow> bool" where
  "only_changed view k n w w' \<longleftrightarrow>
     (\<forall>k' n'. k' \<noteq> KConfigMap \<longrightarrow> (k', n') \<noteq> (k, n) \<longrightarrow> view w' k' n' = view w k' n')"

lemma only_changed_other:
  "only_changed view k n w w' \<Longrightarrow> k' \<noteq> KConfigMap \<Longrightarrow> (k', n') \<noteq> (k, n) \<Longrightarrow> view w' k' n' = view w k' n'"
  unfolding only_changed_def by blast

section \<open>Waiting for an operation\<close>

text \<open>The state an operation ConfigMap carries in a store.\<close>

definition op_state :: "'w env \<Rightarrow> store \<Rightarrow> string \<Rightarrow> string option" where
  "op_state cl v opName =
     (case v KConfigMap (operatorNamespace cl, opName) of
        Some (OConfigMap cm) \<Rightarrow> Some (cm_str cm ''status.state'')
      | _ \<Rightarrow> None)"

context kube_api begin

lemma wait_truthful:
  "wp (wait_polls i cl opName) (\<lambda>(st, e) w'.
     (e = None \<longrightarrow> op_state cl (view w') opName = Some ''Success'') \<and>
     (\<forall>s err. st = Some s \<longrightarrow> e = Some err \<longrightarrow> op_state cl (view w') opName = Some ''Failed'' \<and>
        err = ErrorString (''operation '' @ opName @ '' failed: '' @ aos_Message s))) w"
proof (induction i arbitrary: w)
  case 0
  show ?case by (simp add: wp)
next
  case (Suc i)
  show ?case
    by (auto simp: wp Let_def op_state_def intro!: wp_get_cm wp_wait_crs split: option.split)
      (rule wp_mono[OF Suc.IH], auto simp: op_state_def)+
qed

end


text \<open>Polling an operation whose ConfigMap never reaches a final state.\<close>

lemma run_get_cm_mem:
  "run_state (get_cm (mem_env ns adm step) name) m =
   (as_ConfigMap (fst (mem_get KConfigMap (operatorNamespace (mem_env ns adm step), name) m)), m)"
  by (simp add: get_cm_def run_simps mem_get_def)

lemma wait_polls_pending:
  assumes "op_state (mem_env ns adm (\<lambda>m. m)) (mem_view m) opName \<noteq> Some ''Success''"
    and "op_state (mem_env ns adm (\<lambda>m. m)) (mem_view m) opName \<noteq> Some ''Failed''"
  shows "run_state (wait_polls i (mem_env ns adm (\<lambda>m. m)) opName) m =
    ((None, Some (ErrorString (''operation '' @ opName @ '' timed out''))),
     m\<lparr>mem_now := mem_now m + int i * 2000000000\<rparr>)"
  using assms
proof (induction i arbitrary: m)
  case 0
  show ?case by (simp add: run_simps)
next
  case (Suc i)
  let ?cl = "mem_env ns adm (\<lambda>m. m)" and ?m = "m\<lparr>mem_now := mem_now m + 2000000000\<rparr>"
  let ?n = "(operatorNamespace ?cl, opName)"
  have rec: "run_state (wait_polls i ?cl opName) ?m =
     ((None, Some (ErrorString (''operation '' @ opName @ '' timed out''))),
      m\<lparr>mem_now := mem_now m + int (Suc i) * 2000000000\<rparr>)"
    using Suc.IH[of ?m] Suc.prems by (simp add: algebra_simps)
  show ?case
  proof (cases "mem_view m KConfigMap ?n")
    case None
    then show ?thesis using rec by (simp add: run_simps run_get_cm_mem mem_get_def as_ConfigMap_def)
  next
    case (Some ob)
    then obtain cm where cm: "ob = OConfigMap cm" using mem_view_Some[OF Some] by (cases ob) auto
    then have "cm_str cm ''status.state'' \<noteq> ''Success''" "cm_str cm ''status.state'' \<noteq> ''Failed''"
      using Suc.prems Some by (simp_all add: op_state_def)
    then show ?thesis using rec Some cm
      by (simp add: run_simps run_get_cm_mem mem_get_def as_ConfigMap_def Let_def)
  qed
qed


section \<open>The SnapRAID configuration file\<close>

definition parity_line :: "SnapraidParityEntry \<Rightarrow> string" where
  "parity_line p = (if spe_Index p = 1 then ''parity '' else show_int (spe_Index p) @ ''-parity '')
     @ spe_MountPoint p @ ''/snapraid.parity''"

definition conf_lines :: "SnapraidConfig \<Rightarrow> string list" where
  "conf_lines cfg =
     [''# Generated by KubeNAS Operator'', '''']
     @ map parity_line (src_ParityEntries cfg) @ ['''']
     @ map (\<lambda>cf. ''content '' @ cf) (src_ContentFiles cfg) @ ['''']
     @ map (\<lambda>d. ''data '' @ sde_Label d @ '' '' @ sde_MountPoint d) (src_DataEntries cfg) @ ['''']
     @ map (\<lambda>ex. ''exclude '' @ ex) (src_ExcludePatterns cfg)"

definition one_line :: "string \<Rightarrow> bool" where
  "one_line s \<longleftrightarrow> CHR 0x0A \<notin> set s"

definition clean_conf :: "SnapraidConfig \<Rightarrow> bool" where
  "clean_conf cfg \<longleftrightarrow>
     (\<forall>p \<in> set (src_ParityEntries cfg). one_line (spe_MountPoint p)) \<and>
     (\<forall>c \<in> set (src_ContentFiles cfg). one_line c) \<and>
     (\<forall>d \<in> set (src_DataEntries cfg). one_line (sde_Label d) \<and> one_line (sde_MountPoint d)) \<and>
     (\<forall>e \<in> set (src_ExcludePatterns cfg). one_line e)"

lemma Split_lines:
  "(\<And>l. l \<in> set ls \<Longrightarrow> one_line l) \<Longrightarrow>
   Split (concat (map (\<lambda>l. l @ newline) ls)) (CHR 0x0A) = ls @ ['''']"
  by (induction ls) (simp_all add: one_line_def Split_append_sep)

lemma show_nat_one_line: "CHR 0x0A \<notin> set (show_nat n)"
  using hd_show_nat[of "CHR 0x0A" n] by (auto simp: is_digit_def)

lemma show_int_one_line: "CHR 0x0A \<notin> set (show_int i)"
  by (simp add: show_int_def show_nat_one_line)

lemma renderSnapraidConf_concat:
  "renderSnapraidConf cfg = concat (map (\<lambda>l. l @ newline) (conf_lines cfg))"
proof -
  have "concat (map (\<lambda>p.
         if spe_Index p = 1
         then ''parity '' @ spe_MountPoint p @ ''/'' @ ''snapraid'' @ ''.parity'' @ newline
         else show_int (spe_Index p) @ ''-parity '' @ spe_MountPoint p @ ''/'' @ ''snapraid'' @ ''.parity'' @ newline) ps)
      = concat (map (\<lambda>l. l @ newline) (map parity_line ps))" for ps
    by (induction ps) (simp_all add: parity_line_def)
  then show ?thesis by (simp add: renderSnapraidConf_def conf_lines_def comp_def)
qed

text \<open>C32. The rendered file, read line by line, is exactly the header, one line per parity disk, per
  content file, per data disk and per exclude pattern in the order of the configuration, each
  section closed by an empty line - when no field contains a line break.\<close>

theorem renderSnapraidConf_lines:
  assumes "clean_conf cfg"
  shows "Split (renderSnapraidConf cfg) (CHR 0x0A) = conf_lines cfg @ ['''']"
  unfolding renderSnapraidConf_concat
  by (rule Split_lines)
    (use assms in \<open>auto simp: conf_lines_def clean_conf_def one_line_def parity_line_def show_int_one_line split: if_splits\<close>)

section \<open>Witnesses\<close>

definition mem_empty :: mem where
  "mem_empty = \<lparr>mem_objs = \<lambda>_ _. None, mem_now = 1700000000000000000, mem_next = 1\<rparr>"

lemma mem_view_empty [simp]: "mem_view mem_empty k n = None"
  by (simp add: mem_view_def mem_empty_def)

definition idle_env :: "mem env" where
  "idle_env = mem_env '''' (\<lambda>_ _. None) (\<lambda>m. m)"

lemma idle_kube_api: "kube_api idle_env mem_view"
  unfolding idle_env_def by (rule mem_kube_api) simp



theorem renderSnapraidConf_lines_witness:
  "Split (renderSnapraidConf
      \<lparr>src_ParityEntries = [\<lparr>spe_Index = 1, spe_DevicePath = ''/dev/sdd'', spe_MountPoint = ''/mnt/p''\<rparr>],
       src_DataEntries = [\<lparr>sde_Label = ''d1'', sde_DevicePath = ''/dev/sdb'', sde_MountPoint = ''/mnt/a''\<rparr>],
       src_ContentFiles = [''/var/c''], src_ExcludePatterns = [''*.tmp'']\<rparr>) (CHR 0x0A)
   = [''# Generated by KubeNAS Operator'', '''', ''parity /mnt/p/snapraid.parity'', '''', ''content /var/c'', '''',
      ''data d1 /mnt/a'', '''', ''exclude *.tmp'', '''']"
  using renderSnapraidConf_lines[of
      "\<lparr>src_ParityEntries = [\<lparr>spe_Index = 1, spe_DevicePath = ''/dev/sdd'', spe_MountPoint = ''/mnt/p''\<rparr>],
       src_DataEntries = [\<lparr>sde_Label = ''d1'', sde_DevicePath = ''/dev/sdb'', sde_MountPoint = ''/mnt/a''\<rparr>],
       src_ContentFiles = [''/var/c''], src_ExcludePatterns = [''*.tmp'']\<rparr>"]
  by (simp add: clean_conf_def one_line_def conf_lines_def parity_line_def)

end
