(* ===== verification/Disk_Controller.thy ===== *)
theory Disk_Controller
  imports Agent_Client
begin

text \<open>
  The Disk reconciler (\<^verbatim>\<open>controllers/disk_controller.go\<close>): the finalizer, the agent's report, the
  mount request, the phase. \<open>disk_trans\<close> is the abstract machine of one Disk object; one reconcile
  call is at most one of its steps and touches no other object.
\<close>

section \<open>The reconciler\<close>

definition diskFinalizer :: string where
  "diskFinalizer = ''storage.kubenas.io/disk-protection''"

definition conditionStatusForPhase :: "DiskPhase \<Rightarrow> ConditionStatus" where
  "conditionStatusForPhase phase = (if phase = DiskPhaseReady then ConditionTrue else ConditionFalse)"

definition computePhase :: "DiskAgentStatus \<Rightarrow> DiskPhase" where
  "computePhase s =
     (if das_SmartFailed s then DiskPhaseFailed
      else if flt (das_HealthScore s) (lit (3 / 10)) then DiskPhaseDegraded
      else if 0 < sint (das_IOErrors s) then DiskPhaseDegraded
      else DiskPhaseReady)"

definition disk_with_phase :: "DiskPhase \<Rightarrow> string \<Rightarrow> string \<Rightarrow> time \<Rightarrow> Disk \<Rightarrow> Disk" where
  "disk_with_phase phase reason msg now disk =
     disk\<lparr>disk_Status := (disk_Status disk)
       \<lparr>disk_Phase := phase,
        disk_Conditions := setCondition (disk_Conditions (disk_Status disk))
          \<lparr>cond_Type = ''Ready'', cond_Status = conditionStatusForPhase phase, cond_Reason = reason,
           cond_Message = msg, cond_LastTransitionTime = now\<rparr>\<rparr>\<rparr>"

definition Disk_setPhase ::
  "'w env \<Rightarrow> Disk \<Rightarrow> DiskPhase \<Rightarrow> string \<Rightarrow> string \<Rightarrow> ('w, ctrl_Result \<times> error option) state" where
  "Disk_setPhase cl disk phase reason msg = do {
     now \<leftarrow> env_now cl;
     err \<leftarrow> env_status_update cl (ODisk (disk_with_phase phase reason msg now disk));
     State_Monad.return (case err of
       Some e \<Rightarrow> (Result_zero, Some (WrapError ''updating disk status'' e))
     | None \<Rightarrow> (requeue_after 30, None))
   }"

definition disk_report :: "DiskAgentStatus \<Rightarrow> time \<Rightarrow> Disk \<Rightarrow> Disk" where
  "disk_report s now disk =
     disk\<lparr>disk_Status := (disk_Status disk)
       \<lparr>disk_CapacityBytes := das_CapacityBytes s,
        disk_AvailableBytes := das_AvailableBytes s,
        disk_HealthScore := das_HealthScore s,
        disk_SmartSummary := das_SmartSummary s,
        disk_SerialNumber := das_SerialNumber s,
        disk_Model := das_Model s,
        disk_Rotational := das_Rotational s,
        disk_Mounted := das_Mounted s,
        disk_LastSmartCheckTime := Some now\<rparr>\<rparr>"

definition disk_set_mounted :: "Disk \<Rightarrow> Disk" where
  "disk_set_mounted disk = disk\<lparr>disk_Status := (disk_Status disk)\<lparr>disk_Mounted := True\<rparr>\<rparr>"

definition disk_mount_request :: "Disk \<Rightarrow> MountDiskRequest" where
  "disk_mount_request disk =
     \<lparr>mdr_DevicePath = disk_DevicePath (disk_Spec disk), mdr_MountPoint = disk_MountPoint (disk_Spec disk),
      mdr_Filesystem = disk_Filesystem (disk_Spec disk), mdr_FormatIfEmpty = False\<rparr>"

definition Disk_reconcileNormal ::
  "'w env \<Rightarrow> 'w agent_client \<Rightarrow> Disk \<Rightarrow> ('w, ctrl_Result \<times> error option) state" where
  "Disk_reconcileNormal cl ac disk = do {
     r \<leftarrow> ac_GetDiskStatus ac (disk_NodeName (disk_Spec disk)) (disk_DevicePath (disk_Spec disk));
     case r of
       Inl err \<Rightarrow> Disk_setPhase cl disk DiskPhaseDegraded ''AgentUnavailable'' (Error err)
     | Inr agentStatus \<Rightarrow> do {
         now \<leftarrow> env_now cl;
         let disk1 = disk_report agentStatus now disk;
         let targetPhase = computePhase agentStatus;
         if \<not> das_Mounted agentStatus \<and> targetPhase = DiskPhaseReady
         then do {
           err \<leftarrow> ac_MountDisk ac (disk_NodeName (disk_Spec disk)) (disk_mount_request disk);
           case err of
             Some e \<Rightarrow> Disk_setPhase cl disk1 DiskPhaseDegraded ''MountFailed'' (Error e)
           | None \<Rightarrow> Disk_setPhase cl (disk_set_mounted disk1) targetPhase ''Reconciled''
                       ''Disk reconciliation complete''
         }
         else Disk_setPhase cl disk1 targetPhase ''Reconciled'' ''Disk reconciliation complete''
       }
   }"

definition disk_without_finalizer :: "Disk \<Rightarrow> Disk" where
  "disk_without_finalizer disk =
     disk\<lparr>disk_Meta := (disk_Meta disk)
       \<lparr>meta_Finalizers := removeString (meta_Finalizers (disk_Meta disk)) diskFinalizer\<rparr>\<rparr>"

definition disk_with_finalizer :: "Disk \<Rightarrow> Disk" where
  "disk_with_finalizer disk =
     disk\<lparr>disk_Meta := (disk_Meta disk)
       \<lparr>meta_Finalizers := meta_Finalizers (disk_Meta disk) @ [diskFinalizer]\<rparr>\<rparr>"

definition Disk_reconcileDelete ::
  "'w env \<Rightarrow> 'w agent_client \<Rightarrow> Disk \<Rightarrow> ('w, ctrl_Result \<times> error option) state" where
  "Disk_reconcileDelete cl ac disk = do {
     _ \<leftarrow> (if disk_Mounted (disk_Status disk)
          then ac_UnmountDisk ac (disk_NodeName (disk_Spec disk)) (disk_MountPoint (disk_Spec disk))
          else State_Monad.return None);
     err \<leftarrow> env_update cl (ODisk (disk_without_finalizer disk));
     State_Monad.return (case err of
       Some e \<Rightarrow> (Result_zero, Some (WrapError ''removing finalizer'' e))
     | None \<Rightarrow> (Result_zero, None))
   }"

definition Disk_Reconcile ::
  "'w env \<Rightarrow> 'w agent_client \<Rightarrow> nskey \<Rightarrow> ('w, ctrl_Result \<times> error option) state" where
  "Disk_Reconcile cl ac req = do {
     r \<leftarrow> env_get cl KDisk req;
     case as_Disk r of
       Inl err \<Rightarrow> State_Monad.return (Result_zero, if IsNotFound err then None else Some err)
     | Inr disk \<Rightarrow>
         if meta_DeletionTimestamp (disk_Meta disk) \<noteq> None then Disk_reconcileDelete cl ac disk
         else if \<not> containsString (meta_Finalizers (disk_Meta disk)) diskFinalizer
         then do {
           err \<leftarrow> env_update cl (ODisk (disk_with_finalizer disk));
           State_Monad.return (case err of
             Some e \<Rightarrow> (Result_zero, Some (WrapError ''adding finalizer'' e))
           | None \<Rightarrow> (requeue_now, None))
         }
         else Disk_reconcileNormal cl ac disk
   }"

section \<open>The abstract machine of a Disk object\<close>

definition set_disk_rv :: "string \<Rightarrow> Disk \<Rightarrow> Disk" where
  "set_disk_rv rv = disk_Meta_update (meta_ResourceVersion_update (\<lambda>_. rv))"

definition disk_at :: "store \<Rightarrow> nskey \<Rightarrow> Disk option" where
  "disk_at v n = (case v KDisk n of Some (ODisk d) \<Rightarrow> Some d | _ \<Rightarrow> None)"

text \<open>\<open>s\<close> is an answer of the agent client to a status query.\<close>

definition reported :: "'w agent_client \<Rightarrow> Disk \<Rightarrow> DiskAgentStatus \<Rightarrow> bool" where
  "reported ac d s \<longleftrightarrow>
     (\<exists>w w'. run_state (ac_GetDiskStatus ac (disk_NodeName (disk_Spec d)) (disk_DevicePath (disk_Spec d))) w
        = (Inr s, w'))"

text \<open>\<open>r\<close> is an answer of the agent client to the request to mount the disk.\<close>

definition mount_answer :: "'w agent_client \<Rightarrow> Disk \<Rightarrow> error option \<Rightarrow> bool" where
  "mount_answer ac d r \<longleftrightarrow>
     (\<exists>w w'. run_state (ac_MountDisk ac (disk_NodeName (disk_Spec d)) (disk_mount_request d)) w = (r, w'))"

text \<open>
  The steps: nothing; taking the finalizer; the agent cannot be asked; a report on a disk that is
  mounted or not Ready; a report followed by a successful or a failed mount; and the release of an
  object that is marked for deletion, which removes it when no other finalizer is left.
\<close>

inductive disk_trans :: "'w agent_client \<Rightarrow> Disk option \<Rightarrow> Disk option \<Rightarrow> bool" for ac where
  stutter: "disk_trans ac d d"
| take_finalizer: "meta_DeletionTimestamp (disk_Meta d) = None \<Longrightarrow> diskFinalizer \<notin> set (meta_Finalizers (disk_Meta d)) \<Longrightarrow>
    disk_trans ac (Some d) (Some (set_disk_rv rv (disk_with_finalizer d)))"
| unavailable: "meta_DeletionTimestamp (disk_Meta d) = None \<Longrightarrow> diskFinalizer \<in> set (meta_Finalizers (disk_Meta d)) \<Longrightarrow>
    disk_trans ac (Some d) (Some (set_disk_rv rv
      (disk_with_phase DiskPhaseDegraded ''AgentUnavailable'' msg now d)))"
| report: "meta_DeletionTimestamp (disk_Meta d) = None \<Longrightarrow> diskFinalizer \<in> set (meta_Finalizers (disk_Meta d)) \<Longrightarrow>
    reported ac d s \<Longrightarrow> das_Mounted s \<or> computePhase s \<noteq> DiskPhaseReady \<Longrightarrow>
    disk_trans ac (Some d) (Some (set_disk_rv rv
      (disk_with_phase (computePhase s) ''Reconciled'' ''Disk reconciliation complete'' now (disk_report s t d))))"
| mounted: "meta_DeletionTimestamp (disk_Meta d) = None \<Longrightarrow> diskFinalizer \<in> set (meta_Finalizers (disk_Meta d)) \<Longrightarrow>
    reported ac d s \<Longrightarrow> \<not> das_Mounted s \<Longrightarrow> computePhase s = DiskPhaseReady \<Longrightarrow>
    mount_answer ac d None \<Longrightarrow>
    disk_trans ac (Some d) (Some (set_disk_rv rv
      (disk_with_phase DiskPhaseReady ''Reconciled'' ''Disk reconciliation complete'' now
        (disk_set_mounted (disk_report s t d)))))"
| mount_failed: "meta_DeletionTimestamp (disk_Meta d) = None \<Longrightarrow> diskFinalizer \<in> set (meta_Finalizers (disk_Meta d)) \<Longrightarrow>
    reported ac d s \<Longrightarrow> \<not> das_Mounted s \<Longrightarrow> computePhase s = DiskPhaseReady \<Longrightarrow>
    mount_answer ac d (Some e) \<Longrightarrow>
    disk_trans ac (Some d) (Some (set_disk_rv rv
      (disk_with_phase DiskPhaseDegraded ''MountFailed'' (Error e) now (disk_report s t d))))"
| release: "meta_DeletionTimestamp (disk_Meta d) \<noteq> None \<Longrightarrow>
    disk_trans ac (Some d)
      (if deletion_done (ODisk (disk_without_finalizer d)) then None
       else Some (set_disk_rv rv (disk_without_finalizer d)))"

inductive_cases disk_transE: "disk_trans ac d d'"

lemma with_rv_ODisk [simp]: "with_rv rv (ODisk d) = ODisk (set_disk_rv rv d)"
  by (simp add: with_rv_def set_disk_rv_def)

lemma disk_at_iff: "disk_at v n = Some d \<longleftrightarrow> v KDisk n = Some (ODisk d)"
  by (auto simp: disk_at_def split: option.splits kobject.splits)

text \<open>Facts about the status builders.\<close>

lemma disk_builders_spec [simp]:
  "disk_Spec (disk_with_phase p r m t d) = disk_Spec d"
  "disk_Spec (disk_report s t d) = disk_Spec d"
  "disk_Spec (disk_set_mounted d) = disk_Spec d"
  "disk_Spec (disk_with_finalizer d) = disk_Spec d"
  "disk_Spec (disk_without_finalizer d) = disk_Spec d"
  "disk_Spec (set_disk_rv rv d) = disk_Spec d"
  by (simp_all add: disk_with_phase_def disk_report_def disk_set_mounted_def disk_with_finalizer_def
      disk_without_finalizer_def set_disk_rv_def)

lemma disk_builders_meta [simp]:
  "disk_Meta (disk_with_phase p r m t d) = disk_Meta d"
  "disk_Meta (disk_report s t d) = disk_Meta d"
  "disk_Meta (disk_set_mounted d) = disk_Meta d"
  by (simp_all add: disk_with_phase_def disk_report_def disk_set_mounted_def)

lemma disk_builders_status [simp]:
  "disk_Status (set_disk_rv rv d) = disk_Status d"
  "disk_Status (disk_with_finalizer d) = disk_Status d"
  "disk_Status (disk_without_finalizer d) = disk_Status d"
  by (simp_all add: set_disk_rv_def disk_with_finalizer_def disk_without_finalizer_def)

lemma put_disk_status: "disk_Spec d' = disk_Spec d \<Longrightarrow> disk_Meta d' = disk_Meta d \<Longrightarrow>
    d\<lparr>disk_Status := disk_Status d'\<rparr> = d'" for d d' :: Disk
  by (cases d; cases d') simp

lemma put_disk_main: "disk_Status d' = disk_Status d \<Longrightarrow> d'\<lparr>disk_Status := disk_Status d\<rparr> = d'"
  for d d' :: Disk
  by (cases d') simp

text \<open>What a reconcile call may end with: nothing but this Disk and ConfigMaps changed, by one step;
  an error means no step, and a status write is followed by a new look after 30 seconds.\<close>

definition disk_step :: "'w agent_client \<Rightarrow> ('w \<Rightarrow> store) \<Rightarrow> nskey \<Rightarrow> 'w \<Rightarrow> ctrl_Result \<times> error option \<Rightarrow> 'w \<Rightarrow> bool" where
  "disk_step ac view n w r w' \<longleftrightarrow>
     only_changed view KDisk n w w' \<and>
     disk_trans ac (disk_at (view w) n) (disk_at (view w') n) \<and>
     (snd r \<noteq> None \<longrightarrow> disk_at (view w') n = disk_at (view w) n)"

context operator begin

lemma wp_Disk_setPhase:
  assumes v: "crs_same view w w1" and d: "view w KDisk n = Some (ODisk d)" "key_of (ODisk d) = n"
    and m: "disk_Meta d1 = disk_Meta d" "disk_Spec d1 = disk_Spec d"
    and t: "\<And>rv now. disk_trans ac (Some d) (Some (set_disk_rv rv (disk_with_phase phase reason msg now d1)))"
  shows "wp (Disk_setPhase cl d1 phase reason msg) (disk_step ac view n w) w1"
proof -
  have k: "key_of (ODisk (disk_with_phase phase reason msg now d1)) = n" for now
    using d(2) m(1) by (simp add: key_of_def)
  have v1: "view w1 KDisk n = Some (ODisk d)" using v d(1) by (simp add: crs_same_def)
  show ?thesis
    unfolding Disk_setPhase_def wp
  proof (rule wp_now, rule wp_status_update, goal_cases)
    case (1 t0 w2 old rv w3)
    then have "view w3 KDisk n = Some (ODisk (set_disk_rv rv (disk_with_phase phase reason msg t0 d1)))"
      using k v1 m by (auto simp: put_disk_status)
    moreover have "only_changed view KDisk n w w3"
      using 1 k v by (simp add: only_changed_def crs_same_def)
    ultimately show ?case using t d(1) by (simp add: disk_step_def disk_at_def)
  next
    case (2 t0 w2 e w3)
    then show ?case using v d(1) v1
      by (simp add: disk_step_def disk_at_def only_changed_def crs_same_def disk_trans.stutter)
  qed
qed

lemma wp_Disk_reconcileNormal:
  assumes w1: "view w1 = view w" and d: "view w KDisk n = Some (ODisk d)" "key_of (ODisk d) = n"
    and f: "meta_DeletionTimestamp (disk_Meta d) = None" "diskFinalizer \<in> set (meta_Finalizers (disk_Meta d))"
  shows "wp (Disk_reconcileNormal cl ac d) (disk_step ac view n w) w1"
  unfolding Disk_reconcileNormal_def wp
proof (rule run_wp, goal_cases)
  case (1 r w2)
  have w2: "view w2 = view w" using status_law[OF 1] w1 by simp
  show ?case
  proof (cases r)
    case (Inl err)
    show ?thesis unfolding Inl sum.case
      by (rule wp_Disk_setPhase[OF _ d]) (simp_all add: w2 f disk_trans.unavailable)
  next
    case (Inr s)
    have rep: "reported ac d s" using 1 Inr by (auto simp: reported_def)
    show ?thesis unfolding Inr sum.case Let_def wp
    proof (rule wp_now, goal_cases)
      case (1 t w3)
      have w3: "crs_same view w w3" using 1 w2 by simp
      show ?case
      proof (cases "\<not> das_Mounted s \<and> computePhase s = DiskPhaseReady")
        case True
        show ?thesis
          unfolding if_P[OF True] wp
        proof (rule run_wp, goal_cases)
          case (1 r w4)
          have w4: "crs_same view w w4" using w3 mount_law[OF 1] by (rule crs_same_trans)
          have ans: "mount_answer ac d r" using 1 by (auto simp: mount_answer_def)
          show ?case
            by (cases r) (use True f rep ans in \<open>auto intro!: wp_Disk_setPhase[OF w4 d] disk_trans.intros\<close>)
        qed
      next
        case False
        then show ?thesis
          unfolding if_not_P[OF False]
          by (intro wp_Disk_setPhase[OF w3 d]) (use f rep in \<open>auto intro: disk_trans.report\<close>)
      qed
    qed
  qed
qed

end

context operator begin

lemma disk_step_stutter: "view w' = view w \<Longrightarrow> disk_step ac view n w r w'"
  by (simp add: disk_step_def only_changed_def disk_trans.stutter)

lemma wp_Disk_update:
  assumes w1: "crs_same view w w1" and d: "view w KDisk n = Some (ODisk d)" "key_of (ODisk d) = n"
    and d1: "disk_Status d1 = disk_Status d" "key_of (ODisk d1) = n"
    and t: "\<And>rv. disk_trans ac (Some d)
      (if deletion_done (ODisk d1) then None else Some (set_disk_rv rv d1))"
  shows "wp (env_update cl (ODisk d1)) (\<lambda>e w'.
     only_changed view KDisk n w w' \<and> disk_trans ac (Some d) (disk_at (view w') n) \<and>
     (case e of Some err \<Rightarrow> disk_at (view w') n = Some d
      | None \<Rightarrow> (\<exists>rv. disk_at (view w') n = (if deletion_done (ODisk d1) then None else Some (set_disk_rv rv d1))))) w1"
proof (rule wp_update, goal_cases)
  case (1 old rv w2)
  have old: "old = ODisk d" using 1(1) d d1 w1 by (simp add: crs_same_def)
  have x: "put_main old (ODisk d1) = ODisk d1" using d1(1) by (simp add: old put_disk_main)
  have at: "disk_at (view w2) n = (if deletion_done (ODisk d1) then None else Some (set_disk_rv rv d1))"
    using 1(2) d1(2) x by (simp add: disk_at_def)
  have oc: "only_changed view KDisk n w w2"
    using 1(2) d1(2) w1 by (simp add: only_changed_def crs_same_def)
  show ?case using at oc t[of rv] by simp blast
next
  case (2 e w2)
  then show ?case using w1 d by (simp add: only_changed_def crs_same_def disk_at_def disk_trans.stutter)
qed

lemma wp_Disk_reconcileDelete:
  assumes w1: "view w1 = view w" and d: "view w KDisk n = Some (ODisk d)" "key_of (ODisk d) = n"
    and f: "meta_DeletionTimestamp (disk_Meta d) \<noteq> None"
  shows "wp (Disk_reconcileDelete cl ac d) (\<lambda>r w'. disk_step ac view n w r w' \<and>
     (snd r = None \<longrightarrow> (\<exists>rv. disk_at (view w') n = (if deletion_done (ODisk (disk_without_finalizer d)) then None
        else Some (set_disk_rv rv (disk_without_finalizer d)))))) w1"
proof -
  have k: "key_of (ODisk (disk_without_finalizer d)) = n"
    using d(2) by (simp add: key_of_def disk_without_finalizer_def)
  have upd: "wp (env_update cl (ODisk (disk_without_finalizer d)))
      (\<lambda>e w'. disk_step ac view n w (case e of Some x \<Rightarrow> (Result_zero, Some (WrapError ''removing finalizer'' x))
          | None \<Rightarrow> (Result_zero, None)) w' \<and>
        (e = None \<longrightarrow> (\<exists>rv. disk_at (view w') n = (if deletion_done (ODisk (disk_without_finalizer d)) then None
        else Some (set_disk_rv rv (disk_without_finalizer d)))))) w2"
    if w2: "crs_same view w w2" for w2
    using d(1)
    by (auto intro!: wp_mono[OF wp_Disk_update[OF w2 d _ k]] disk_trans.release[OF f]
        simp: disk_step_def disk_at_def[of "view w"] split: option.splits)
  show ?thesis
    unfolding Disk_reconcileDelete_def wp
    using w1 by (auto intro!: wp_unmount wp_mono[OF upd] split: option.splits elim: crs_same_trans[rotated])
qed

lemma wp_Disk_Reconcile: "wp (Disk_Reconcile cl ac n) (disk_step ac view n w) w"
  unfolding Disk_Reconcile_def wp
proof (rule wp_get, goal_cases)
  case (1 ob w1)
  then obtain d where ob: "ob = ODisk d" by (cases ob) auto
  have d: "view w KDisk n = Some (ODisk d)" "key_of (ODisk d) = n" using 1 ob by simp_all
  have k: "key_of (ODisk (disk_with_finalizer d)) = n"
    using d(2) by (simp add: key_of_def disk_with_finalizer_def)
  have w1: "crs_same view w w1" using 1(1) by simp
  have nd: "\<not> deletion_done (ODisk (disk_with_finalizer d))" if "meta_DeletionTimestamp (disk_Meta d) = None"
    using that by (simp add: deletion_done_def disk_with_finalizer_def)
  have t: "disk_trans ac (Some d) (if deletion_done (ODisk (disk_with_finalizer d)) then None
      else Some (set_disk_rv rv (disk_with_finalizer d)))"
    if "meta_DeletionTimestamp (disk_Meta d) = None" "diskFinalizer \<notin> set (meta_Finalizers (disk_Meta d))" for rv
    using nd that disk_trans.take_finalizer by simp
  show ?case
    unfolding ob using 1(1) d
    by (auto simp: as_Disk_def wp disk_step_def disk_at_def[of "view w"] split: option.splits
        intro!: wp_mono[OF wp_Disk_reconcileDelete[OF 1(1) d]] wp_mono[OF wp_Disk_update[OF w1 d _ k]]
          wp_mono[OF wp_Disk_reconcileNormal[OF 1(1) d]] t)
next
  case (2 e w1)
  then show ?case by (simp add: as_Disk_def wp disk_step_stutter)
qed

end

section \<open>Properties\<close>


text \<open>A Disk's status is consistent: at most one condition per type, a Ready disk is mounted, and the
  \<open>Ready\<close> condition of a disk that was ever reported says what the phase says.\<close>

definition disk_ok :: "Disk \<Rightarrow> bool" where
  "disk_ok d \<longleftrightarrow>
     types_distinct (disk_Conditions (disk_Status d)) \<and>
     (disk_Phase (disk_Status d) = DiskPhaseReady \<longrightarrow> disk_Mounted (disk_Status d)) \<and>
     (disk_Phase (disk_Status d) \<noteq> DiskPhaseUnset \<longrightarrow>
        (\<exists>c. cond_map (disk_Conditions (disk_Status d)) ''Ready'' = Some c \<and>
             cond_Status c = conditionStatusForPhase (disk_Phase (disk_Status d))))"

definition disks_ok :: "store \<Rightarrow> bool" where
  "disks_ok v \<longleftrightarrow> (\<forall>n d. disk_at v n = Some d \<longrightarrow> disk_ok d)"

lemma disk_ok_types: "disk_ok d \<Longrightarrow> types_distinct (disk_Conditions (disk_Status d))"
  by (simp add: disk_ok_def)

lemma disk_ok_with_phase:
  "types_distinct (disk_Conditions (disk_Status d)) \<Longrightarrow> (p = DiskPhaseReady \<Longrightarrow> disk_Mounted (disk_Status d)) \<Longrightarrow>
   disk_ok (disk_with_phase p reason msg t d)"
  by (simp add: disk_ok_def disk_with_phase_def types_distinct_set cond_map_set)

lemma disk_ok_rv [simp]: "disk_ok (set_disk_rv rv d) = disk_ok d"
  and disk_ok_finalizer [simp]: "disk_ok (disk_with_finalizer d) = disk_ok d"
    "disk_ok (disk_without_finalizer d) = disk_ok d"
  by (simp_all add: disk_ok_def)

lemma disk_report_conditions [simp]:
  "disk_Conditions (disk_Status (disk_report s t d)) = disk_Conditions (disk_Status d)"
  "disk_Conditions (disk_Status (disk_set_mounted d)) = disk_Conditions (disk_Status d)"
  "disk_Mounted (disk_Status (disk_report s t d)) = das_Mounted s"
  "disk_Mounted (disk_Status (disk_set_mounted d))"
  by (simp_all add: disk_report_def disk_set_mounted_def)

lemma disk_trans_ok:
  assumes "disk_trans ac x y" "y = Some d'" and x: "\<And>d. x = Some d \<Longrightarrow> disk_ok d"
  shows "disk_ok d'"
  using assms(1)
proof cases
  case stutter
  with assms(2) x show ?thesis by simp
qed (use assms(2) x in \<open>auto intro!: disk_ok_with_phase simp: disk_ok_types split: if_splits\<close>)

lemma disk_step_ok:
  assumes "disks_ok (view w)" "disk_step ac view n w r w'"
  shows "disks_ok (view w')"
  unfolding disks_ok_def
proof (intro allI impI)
  fix n' d assume d: "disk_at (view w') n' = Some d"
  show "disk_ok d"
  proof (cases "n' = n")
    case True
    have "disk_trans ac (disk_at (view w) n) (Some d)"
      using assms(2) d True unfolding disk_step_def by simp
    then show ?thesis using assms(1) unfolding disks_ok_def by (elim disk_trans_ok) (rule refl, blast)
  next
    case False
    then have "view w' KDisk n' = view w KDisk n'"
      using assms(2) unfolding disk_step_def by (elim conjE) (erule only_changed_other; simp)
    then have "disk_at (view w) n' = Some d" using d by (simp add: disk_at_def)
    then show ?thesis using assms(1) unfolding disks_ok_def by blast
  qed
qed

text \<open>Whatever the queue of Disk requests, the answers of the agents and the failures of the API
  server, every Disk in the store stays consistent: a disk whose phase is Ready is mounted, its
  \<open>Ready\<close> condition agrees with its phase, and no condition type occurs twice.\<close>

lemma Disk_queue_invariant:
  assumes "operator cl view ac conf" and "disks_ok (view w)"
  shows "wp (run_queue (Disk_Reconcile cl ac) ns) (\<lambda>_ w'. disks_ok (view w')) w"
proof (rule wp_run_queue[where I = "\<lambda>w. disks_ok (view w)"])
  fix n w assume "disks_ok (view w)"
  then show "wp (Disk_Reconcile cl ac n) (\<lambda>_ w'. disks_ok (view w')) w"
    by (intro wp_mono[OF operator.wp_Disk_Reconcile[OF assms(1)]]) (rule disk_step_ok)
qed (rule assms(2))

context operator begin

lemma wp_Disk_Reconcile_delete:
  assumes d: "disk_at (view w) n = Some d" "meta_DeletionTimestamp (disk_Meta d) \<noteq> None"
  shows "wp (Disk_Reconcile cl ac n) (\<lambda>r w'. snd r = None \<longrightarrow>
     (\<exists>rv. disk_at (view w') n = (if deletion_done (ODisk (disk_without_finalizer d)) then None
        else Some (set_disk_rv rv (disk_without_finalizer d))))) w"
  unfolding Disk_Reconcile_def wp
proof (rule wp_get, goal_cases)
  case (1 ob w1)
  then have "view w KDisk n = Some (ODisk d)" "ob = ODisk d" "key_of (ODisk d) = n"
    using d(1) by (auto simp: disk_at_iff)
  with 1 d(2) show ?case
    by (auto simp: as_Disk_def intro!: wp_mono[OF wp_Disk_reconcileDelete])
next
  case (2 e w1)
  then show ?case using d(1) by (auto simp: as_Disk_def wp disk_at_iff)
qed

end

lemma disk_trans_kept:
  "disk_trans ac x y \<Longrightarrow> x = Some d \<Longrightarrow> meta_DeletionTimestamp (disk_Meta d) = None \<Longrightarrow> y \<noteq> None"
  by (induction rule: disk_trans.induct) auto

text \<open>C35. Deletion: a Disk that is marked for deletion and held only by the operator's finalizer is gone
  after a reconcile call that returns no error, even when the unmount failed; a Disk that is not
  marked for deletion is never removed.\<close>

theorem Disk_deletion:
  assumes "operator cl view ac conf" and "disk_at (view w) n = Some d"
  shows "wp (Disk_Reconcile cl ac n) (\<lambda>r w'.
     if meta_DeletionTimestamp (disk_Meta d) = None then disk_at (view w') n \<noteq> None
     else meta_Finalizers (disk_Meta d) = [diskFinalizer] \<longrightarrow> snd r = None \<longrightarrow> disk_at (view w') n = None) w"
proof (cases "meta_DeletionTimestamp (disk_Meta d) = None")
  case True
  show ?thesis
    by (rule wp_mono[OF operator.wp_Disk_Reconcile[OF assms(1)]])
      (use True assms(2) in \<open>auto simp: disk_step_def dest: disk_trans_kept\<close>)
next
  case False
  then have "meta_Finalizers (disk_Meta d) = [diskFinalizer] \<Longrightarrow> deletion_done (ODisk (disk_without_finalizer d))"
    by (simp add: deletion_done_def disk_without_finalizer_def)
  with False show ?thesis
    by (intro wp_mono[OF operator.wp_Disk_Reconcile_delete[OF assms False]]) auto
qed

fun phase_rank :: "DiskPhase \<Rightarrow> nat" where
  "phase_rank DiskPhaseReady = 0"
| "phase_rank DiskPhaseDegraded = 1"
| "phase_rank DiskPhaseFailed = 2"
| "phase_rank DiskPhasePending = 3"
| "phase_rank DiskPhaseUnset = 3"

definition worse_report :: "DiskAgentStatus \<Rightarrow> DiskAgentStatus \<Rightarrow> bool" where
  "worse_report s s' \<longleftrightarrow> (das_SmartFailed s \<longrightarrow> das_SmartFailed s') \<and>
     fle (das_HealthScore s') (das_HealthScore s) \<and> sint (das_IOErrors s) \<le> sint (das_IOErrors s')"

text \<open>The phase follows the agent's report: failed SMART status gives Failed, a health score below
  0.3 or I/O errors give Degraded, everything else Ready; and a report that is worse in every
  respect never gives a better phase.\<close>

lemma computePhase_mono:
  "worse_report s s' \<Longrightarrow> phase_rank (computePhase s) \<le> phase_rank (computePhase s')"
  by (auto simp: worse_report_def computePhase_def dest: fle_flt_trans)

section \<open>Witnesses\<close>

definition demo_disk :: "string list \<Rightarrow> time option \<Rightarrow> Disk" where
  "demo_disk fins deletion =
     \<lparr>disk_Meta = ObjectMeta_zero\<lparr>meta_Name := ''sdb'', meta_Finalizers := fins, meta_DeletionTimestamp := deletion\<rparr>,
      disk_Spec = \<lparr>disk_NodeName = ''node-a'', disk_DevicePath = ''/dev/sdb'', disk_Filesystem = ''xfs'',
        disk_MountPoint = ''/mnt/disks/sdb'', disk_Role = DiskRoleData, disk_SpinDown = None\<rparr>,
      disk_Status = \<lparr>disk_Phase = DiskPhaseUnset, disk_CapacityBytes = 0, disk_AvailableBytes = 0,
        disk_HealthScore = Fin 0, disk_SmartSummary = '''', disk_SerialNumber = '''',
        disk_Model = '''', disk_Rotational = False, disk_Mounted = False,
        disk_LastSmartCheckTime = None, disk_Conditions = []\<rparr>\<rparr>"

definition demo_world :: "string list \<Rightarrow> time option \<Rightarrow> mem" where
  "demo_world fins deletion =
     mem_empty\<lparr>mem_objs := (\<lambda>k n. if k = KDisk \<and> n = ('''', ''sdb'') then Some (ODisk (demo_disk fins deletion)) else None)\<rparr>"

abbreviation idle_agent :: "mem agent_client" where
  "idle_agent \<equiv> KubernetesAgentClient idle_env"

lemma idle_operator: "operator idle_env mem_view idle_agent (snapraid_conf idle_env)"
  by (rule operator_KubernetesAgentClient[OF idle_kube_api])

lemma demo_disk_at:
  "fins \<noteq> [] \<or> deletion = None \<Longrightarrow>
   disk_at (mem_view (demo_world fins deletion)) n = (if n = ('''', ''sdb'') then Some (demo_disk fins deletion) else None)"
  by (auto simp: disk_at_def mem_view_def demo_world_def deletion_done_def demo_disk_def key_of_def ObjectMeta_zero_def)

lemma demo_disk_ok: "disk_ok (demo_disk fins deletion)"
  by (simp add: disk_ok_def demo_disk_def types_distinct_def)


lemma Disk_queue_invariant_witness:
  "wp (run_queue (Disk_Reconcile idle_env idle_agent) [('''', ''sdb''), ('''', ''sdb'')])
     (\<lambda>_ w'. disks_ok (mem_view w')) (demo_world [] None)"
  by (rule Disk_queue_invariant[OF idle_operator]) (auto simp: disks_ok_def demo_disk_at demo_disk_ok split: if_splits)

theorem Disk_deletion_witness:
  "wp (Disk_Reconcile idle_env idle_agent ('''', ''sdb'')) (\<lambda>r w'.
     snd r = None \<longrightarrow> disk_at (mem_view w') ('''', ''sdb'') = None) (demo_world [diskFinalizer] (Some 1700000000000000000))"
  using Disk_deletion[OF idle_operator, of "demo_world [diskFinalizer] (Some 1700000000000000000)" "('''', ''sdb'')"
      "demo_disk [diskFinalizer] (Some 1700000000000000000)"]
  by (simp add: demo_disk_at) (simp add: demo_disk_def ObjectMeta_zero_def)

lemma computePhase_mono_witness:
  "phase_rank (computePhase (DiskAgentStatus_zero\<lparr>das_HealthScore := Fin (1 / 2)\<rparr>))
   \<le> phase_rank (computePhase (DiskAgentStatus_zero\<lparr>das_HealthScore := Fin (1 / 4), das_IOErrors := 3\<rparr>))"
  by (rule computePhase_mono) (simp add: worse_report_def DiskAgentStatus_zero_def)

end
