(* ===== verification/Array_Controller.thy ===== *)
theory Array_Controller
  imports Disk_Controller
begin

text \<open>
  The Array reconciler (\<^verbatim>\<open>controllers/array_controller.go\<close>): resolving the disk references, the
  SnapRAID configuration of the array and its push to the node of the first data disk, the phase.
  \<open>array_outcome\<close> is the abstract specification of the status it writes.
\<close>

section \<open>The reconciler\<close>

fun resolveDiskRefs :: "'w env \<Rightarrow> string list \<Rightarrow> ('w, error + Disk list) state" where
  "resolveDiskRefs cl [] = State_Monad.return (Inr [])"
| "resolveDiskRefs cl (name # names) = do {
     r \<leftarrow> env_get cl KDisk ('''', name);
     case as_Disk r of
       Inl err \<Rightarrow> State_Monad.return (Inl (if IsNotFound err
         then ErrorString (''disk '' @ Quote name @ '' not found'')
         else WrapError (''fetching disk '' @ Quote name) err))
     | Inr disk \<Rightarrow> do {
         rest \<leftarrow> resolveDiskRefs cl names;
         State_Monad.return (case rest of Inl e \<Rightarrow> Inl e | Inr disks \<Rightarrow> Inr (disk # disks))
       }
   }"

definition parityEntries :: "Disk list \<Rightarrow> SnapraidParityEntry list" where
  "parityEntries parity =
     map (\<lambda>(i, d). \<lparr>spe_Index = int i + 1, spe_DevicePath = disk_DevicePath (disk_Spec d),
                    spe_MountPoint = disk_MountPoint (disk_Spec d)\<rparr>)
       (enumerate 0 parity)"

definition dataEntries :: "Disk list \<Rightarrow> SnapraidDataEntry list" where
  "dataEntries data =
     map (\<lambda>(i, d). \<lparr>sde_Label = ''d'' @ show_int (int i + 1), sde_DevicePath = disk_DevicePath (disk_Spec d),
                    sde_MountPoint = disk_MountPoint (disk_Spec d)\<rparr>)
       (enumerate 0 data)"

definition buildSnapraidConfig :: "Array \<Rightarrow> Disk list \<Rightarrow> Disk list \<Rightarrow> SnapraidConfig" where
  "buildSnapraidConfig array data parity =
     (let cfg = \<lparr>src_ParityEntries = parityEntries parity, src_DataEntries = dataEntries data,
                 src_ContentFiles = [], src_ExcludePatterns = []\<rparr>;
          cfg = (case array_SnapraidConfig (array_Spec array) of
                   None \<Rightarrow> cfg
                 | Some sc \<Rightarrow> cfg\<lparr>src_ContentFiles := asc_ContentFiles sc,
                                  src_ExcludePatterns := asc_ExcludePatterns sc\<rparr>)
      in if length (src_ContentFiles cfg) = 0 \<and> 0 < length data
         then cfg\<lparr>src_ContentFiles := map (\<lambda>d. disk_MountPoint (disk_Spec d) @ ''/.snapraid.content'') data\<rparr>
         else cfg)"

definition array_with_phase :: "ArrayPhase \<Rightarrow> string \<Rightarrow> string \<Rightarrow> time \<Rightarrow> Array \<Rightarrow> Array" where
  "array_with_phase phase reason msg now array =
     (let cs = setCondition (array_Conditions (array_Status array))
           \<lparr>cond_Type = ''Ready'', cond_Status = ConditionTrue, cond_Reason = reason,
            cond_Message = msg, cond_LastTransitionTime = now\<rparr>
      in array\<lparr>array_Status := (array_Status array)
        \<lparr>array_Phase := phase,
         array_Conditions := (if phase \<noteq> ArrayPhaseReady then setLastFalse cs else cs)\<rparr>\<rparr>)"

definition setArrayPhase ::
  "'w env \<Rightarrow> Array \<Rightarrow> ArrayPhase \<Rightarrow> string \<Rightarrow> string \<Rightarrow> ('w, ctrl_Result \<times> error option) state" where
  "setArrayPhase cl array phase reason msg = do {
     now \<leftarrow> env_now cl;
     err \<leftarrow> env_status_update cl (OArray (array_with_phase phase reason msg now array));
     State_Monad.return (case err of
       Some e \<Rightarrow> (Result_zero, Some (WrapError ''updating array status'' e))
     | None \<Rightarrow> (requeue_after 60, None))
   }"

definition is_degraded :: "Disk \<Rightarrow> bool" where
  "is_degraded d \<longleftrightarrow> disk_Phase (disk_Status d) = DiskPhaseDegraded \<or> disk_Phase (disk_Status d) = DiskPhaseFailed"

definition degradedNames :: "Disk list \<Rightarrow> string list" where
  "degradedNames ds = map (\<lambda>d. meta_Name (disk_Meta d)) (filter is_degraded ds)"

definition array_set_degraded :: "string list \<Rightarrow> Array \<Rightarrow> Array" where
  "array_set_degraded names array =
     array\<lparr>array_Status := (array_Status array)\<lparr>array_DegradedDisks := names\<rparr>\<rparr>"

definition reconciled_msg :: "Disk list \<Rightarrow> Disk list \<Rightarrow> string" where
  "reconciled_msg data parity = ''Array reconciled with '' @ show_nat (length data) @ '' data disks, ''
     @ show_nat (length parity) @ '' parity disks''"

definition Array_Reconcile ::
  "'w env \<Rightarrow> 'w agent_client \<Rightarrow> nskey \<Rightarrow> ('w, ctrl_Result \<times> error option) state" where
  "Array_Reconcile cl ac req = do {
     r \<leftarrow> env_get cl KArray req;
     case as_Array r of
       Inl err \<Rightarrow> State_Monad.return (Result_zero, if IsNotFound err then None else Some err)
     | Inr array \<Rightarrow> do {
         data \<leftarrow> resolveDiskRefs cl (array_DataDisks (array_Spec array));
         case data of
           Inl err \<Rightarrow> setArrayPhase cl array ArrayPhasePending ''DiskRefError'' (Error err)
         | Inr dataDisks \<Rightarrow> do {
             parity \<leftarrow> resolveDiskRefs cl (array_ParityDisks (array_Spec array));
             case parity of
               Inl err \<Rightarrow> setArrayPhase cl array ArrayPhasePending ''ParityDiskRefError'' (Error err)
             | Inr parityDisks \<Rightarrow> do {
                 let degraded = degradedNames (dataDisks @ parityDisks);
                 let array1 = array_set_degraded degraded array;
                 applied \<leftarrow> (case dataDisks of
                   [] \<Rightarrow> State_Monad.return None
                 | d # _ \<Rightarrow> ac_ApplySnapraidConfig ac (disk_NodeName (disk_Spec d))
                              (buildSnapraidConfig array1 dataDisks parityDisks));
                 case applied of
                   Some err \<Rightarrow> setArrayPhase cl array1 ArrayPhaseDegraded ''SnapraidConfigError'' (Error err)
                 | None \<Rightarrow> setArrayPhase cl array1
                     (if 0 < length degraded then ArrayPhaseDegraded else ArrayPhaseReady)
                     ''Reconciled'' (reconciled_msg dataDisks parityDisks)
               }
           }
       }
   }"

section \<open>The abstract specification\<close>

definition array_at :: "store \<Rightarrow> nskey \<Rightarrow> Array option" where
  "array_at v n = (case v KArray n of Some (OArray a) \<Rightarrow> Some a | _ \<Rightarrow> None)"

definition set_array_rv :: "string \<Rightarrow> Array \<Rightarrow> Array" where
  "set_array_rv rv = array_Meta_update (meta_ResourceVersion_update (\<lambda>_. rv))"

definition resolved :: "store \<Rightarrow> string list \<Rightarrow> Disk list \<Rightarrow> bool" where
  "resolved v names ds \<longleftrightarrow>
     list_all2 (\<lambda>name d. disk_at v ('''', name) = Some d \<and> meta_Name (disk_Meta d) = name) names ds"

text \<open>
  What a status write means for the array \<open>a\<close>, given the stored disks and the SnapRAID
  configurations on record afterwards.
\<close>

inductive array_outcome :: "store \<Rightarrow> (string \<rightharpoonup> string) \<Rightarrow> Array \<Rightarrow> Array \<Rightarrow> bool" for v cf a where
  data_error: "array_outcome v cf a (array_with_phase ArrayPhasePending ''DiskRefError'' msg now a)"
| parity_error: "array_outcome v cf a (array_with_phase ArrayPhasePending ''ParityDiskRefError'' msg now a)"
| config_error: "resolved v (array_DataDisks (array_Spec a)) ds \<Longrightarrow> resolved v (array_ParityDisks (array_Spec a)) ps \<Longrightarrow>
    ds \<noteq> [] \<Longrightarrow>
    array_outcome v cf a (array_with_phase ArrayPhaseDegraded ''SnapraidConfigError'' msg now
      (array_set_degraded (degradedNames (ds @ ps)) a))"
| reconciled: "resolved v (array_DataDisks (array_Spec a)) ds \<Longrightarrow> resolved v (array_ParityDisks (array_Spec a)) ps \<Longrightarrow>
    (ds \<noteq> [] \<Longrightarrow> cf (disk_NodeName (disk_Spec (hd ds))) = Some (renderSnapraidConf (buildSnapraidConfig a ds ps))) \<Longrightarrow>
    array_outcome v cf a (array_with_phase
      (if degradedNames (ds @ ps) = [] then ArrayPhaseReady else ArrayPhaseDegraded)
      ''Reconciled'' (reconciled_msg ds ps) now (array_set_degraded (degradedNames (ds @ ps)) a))"

definition array_step :: "('w \<Rightarrow> store) \<Rightarrow> (store \<Rightarrow> string \<rightharpoonup> string) \<Rightarrow> nskey \<Rightarrow> 'w \<Rightarrow> ctrl_Result \<times> error option \<Rightarrow> 'w \<Rightarrow> bool" where
  "array_step view conf n w r w' \<longleftrightarrow>
     only_changed view KArray n w w' \<and>
     (case array_at (view w) n of
        None \<Rightarrow> array_at (view w') n = None
      | Some a \<Rightarrow>
          if snd r \<noteq> None then array_at (view w') n = Some a
          else (\<exists>rv a'. array_at (view w') n = Some (set_array_rv rv a') \<and>
                  array_outcome (view w) (conf (view w')) a a'))"

lemma with_rv_OArray [simp]: "with_rv rv (OArray a) = OArray (set_array_rv rv a)"
  by (simp add: with_rv_def set_array_rv_def)

lemma array_at_iff: "array_at v n = Some a \<longleftrightarrow> v KArray n = Some (OArray a)"
  by (auto simp: array_at_def split: option.splits kobject.splits)

lemma array_builders [simp]:
  "array_Spec (array_with_phase p r m t a) = array_Spec a"
  "array_Meta (array_with_phase p r m t a) = array_Meta a"
  "array_Spec (array_set_degraded ns a) = array_Spec a"
  "array_Meta (array_set_degraded ns a) = array_Meta a"
  "array_Phase (array_Status (array_with_phase p r m t a)) = p"
  "array_DegradedDisks (array_Status (array_with_phase p r m t a)) = array_DegradedDisks (array_Status a)"
  "array_DegradedDisks (array_Status (array_set_degraded ns a)) = ns"
  "array_Spec (set_array_rv rv a) = array_Spec a"
  "array_Status (set_array_rv rv a) = array_Status a"
  by (simp_all add: array_with_phase_def array_set_degraded_def set_array_rv_def Let_def)

lemma build_set_degraded [simp]:
  "buildSnapraidConfig (array_set_degraded ns a) ds ps = buildSnapraidConfig a ds ps"
  by (simp add: buildSnapraidConfig_def)

lemma put_array_status: "array_Spec a' = array_Spec a \<Longrightarrow> array_Meta a' = array_Meta a \<Longrightarrow>
    a\<lparr>array_Status := array_Status a'\<rparr> = a'" for a a' :: Array
  by (cases a; cases a') simp

context operator begin

lemma wp_resolveDiskRefs:
  assumes "view w1 = view w"
    and "\<And>ds w'. view w' = view w \<Longrightarrow> resolved (view w) names ds \<Longrightarrow> Q (Inr ds) w'"
    and "\<And>e w'. view w' = view w \<Longrightarrow> Q (Inl e) w'"
  shows "wp (resolveDiskRefs cl names) Q w1"
  using assms
proof (induction names arbitrary: Q w1)
  case Nil
  then show ?case by (simp add: wp resolved_def)
next
  case (Cons name names)
  show ?case
    unfolding resolveDiskRefs.simps wp
  proof (rule wp_get, goal_cases)
    case (1 ob w2)
    then obtain d where d: "ob = ODisk d" by (cases ob) auto
    have at: "disk_at (view w) ('''', name) = Some d" "meta_Name (disk_Meta d) = name"
      using 1 Cons.prems(1) by (auto simp: disk_at_def d key_of_def)
    show ?case
      unfolding d as_Disk_def sum.case kobject.case wp
      by (rule Cons.IH) (use 1(1) at Cons.prems in \<open>auto simp: wp resolved_def\<close>)
  next
    case (2 e w2)
    then show ?case using Cons.prems by (simp add: as_Disk_def wp)
  qed
qed

lemma wp_setArrayPhase:
  assumes v: "crs_same view w w1" and a: "view w KArray n = Some (OArray a)" "key_of (OArray a) = n"
    and m: "array_Meta a1 = array_Meta a" "array_Spec a1 = array_Spec a"
    and o: "\<And>now. array_outcome (view w) (conf (view w1)) a (array_with_phase phase reason msg now a1)"
  shows "wp (setArrayPhase cl a1 phase reason msg) (array_step view conf n w) w1"
proof -
  have k: "key_of (OArray (array_with_phase phase reason msg now a1)) = n" for now
    using a(2) m(1) by (simp add: key_of_def)
  have v1: "view w1 KArray n = Some (OArray a)" using v a(1) by (simp add: crs_same_def)
  show ?thesis
    unfolding setArrayPhase_def wp
  proof (rule wp_now, rule wp_status_update, goal_cases)
    case (1 t0 w2 old rv w3)
    then have "view w3 KArray n = Some (OArray (set_array_rv rv (array_with_phase phase reason msg t0 a1)))"
      using k v1 m by (auto simp: put_array_status)
    moreover have "only_changed view KArray n w w3"
      using 1 k v by (simp add: only_changed_def crs_same_def)
    moreover have "conf (view w3) = conf (view w1)"
      by (rule conf_law) (use 1 in \<open>simp add: fun_eq_iff\<close>)
    ultimately show ?case using o a(1) by (auto simp: array_step_def array_at_def)
  next
    case (2 t0 w2 e w3)
    then show ?case using v a(1) v1
      by (simp add: array_step_def array_at_def only_changed_def crs_same_def)
  qed
qed

text \<open>The last two outcomes: both reference lists resolved, the configuration posted or refused.\<close>

lemma wp_array_reconciled:
  assumes w1: "crs_same view w w1" and a: "view w KArray n = Some (OArray a)" "key_of (OArray a) = n"
    and ds: "resolved (view w) (array_DataDisks (array_Spec a)) ds" and ps: "resolved (view w) (array_ParityDisks (array_Spec a)) ps"
    and cf: "ds \<noteq> [] \<Longrightarrow> conf (view w1) (disk_NodeName (disk_Spec (hd ds))) = Some (renderSnapraidConf (buildSnapraidConfig a ds ps))"
  shows "wp (setArrayPhase cl (array_set_degraded (degradedNames (ds @ ps)) a)
      (if 0 < length (degradedNames (ds @ ps)) then ArrayPhaseDegraded else ArrayPhaseReady)
      ''Reconciled'' (reconciled_msg ds ps)) (array_step view conf n w) w1"
proof -
  have p: "(if 0 < length (degradedNames (ds @ ps)) then ArrayPhaseDegraded else ArrayPhaseReady)
      = (if degradedNames (ds @ ps) = [] then ArrayPhaseReady else ArrayPhaseDegraded)" by simp
  show ?thesis unfolding p
    by (rule wp_setArrayPhase[OF w1 a], simp, simp, rule array_outcome.reconciled[OF ds ps]) (rule cf)
qed

lemma wp_array_apply:
  assumes w1: "view w1 = view w" and a: "view w KArray n = Some (OArray a)" "key_of (OArray a) = n"
    and ds: "resolved (view w) (array_DataDisks (array_Spec a)) ds" and ps: "resolved (view w) (array_ParityDisks (array_Spec a)) ps"
  shows "wp (case ds of
       [] \<Rightarrow> State_Monad.return None
     | d # _ \<Rightarrow> ac_ApplySnapraidConfig ac (disk_NodeName (disk_Spec d)) (buildSnapraidConfig a ds ps))
     (\<lambda>applied w'. case applied of
       Some err \<Rightarrow> wp (setArrayPhase cl (array_set_degraded (degradedNames (ds @ ps)) a) ArrayPhaseDegraded
         ''SnapraidConfigError'' (Error err)) (array_step view conf n w) w'
     | None \<Rightarrow> wp (setArrayPhase cl (array_set_degraded (degradedNames (ds @ ps)) a)
         (if 0 < length (degradedNames (ds @ ps)) then ArrayPhaseDegraded else ArrayPhaseReady)
         ''Reconciled'' (reconciled_msg ds ps)) (array_step view conf n w) w') w1"
proof (cases ds)
  case Nil
  then show ?thesis using wp_array_reconciled[OF _ a ds ps, of w1] w1 by (simp add: wp)
next
  case (Cons d ds')
  show ?thesis unfolding Cons list.case
  proof (rule wp_apply, goal_cases)
    case (1 w2)
    then show ?case using wp_array_reconciled[OF _ a ds ps, of w2] w1 Cons by (simp add: crs_same_def)
  next
    case (2 e w2)
    have "ds \<noteq> []" using Cons by simp
    note refused = array_outcome.config_error[OF ds ps this]
    show ?case unfolding option.case Cons[symmetric]
      by (rule wp_setArrayPhase[OF _ a]) (use 2 w1 refused in \<open>simp_all add: crs_same_def\<close>)
  qed
qed

lemma wp_Array_Reconcile: "wp (Array_Reconcile cl ac n) (array_step view conf n w) w"
  unfolding Array_Reconcile_def wp
proof (rule wp_get, goal_cases)
  case (1 ob w1)
  then obtain a where ob: "ob = OArray a" by (cases ob) auto
  have a: "view w KArray n = Some (OArray a)" "key_of (OArray a) = n" using 1 ob by simp_all
  show ?case
    unfolding ob as_Array_def sum.case kobject.case wp
  proof (rule wp_resolveDiskRefs[OF 1(1)], goal_cases)
    case (1 ds w2)
    note ds = 1(2)
    show ?case unfolding sum.case wp
    proof (rule wp_resolveDiskRefs[OF 1(1)], goal_cases)
      case (1 ps w3)
      show ?case unfolding sum.case wp Let_def build_set_degraded by (rule wp_array_apply[OF 1(1) a ds 1(2)])
    next
      case (2 e w3)
      then show ?case by (auto intro!: wp_setArrayPhase[OF _ a] array_outcome.parity_error)
    qed
  next
    case (2 e w2)
    then show ?case by (auto intro!: wp_setArrayPhase[OF _ a] array_outcome.data_error)
  qed
next
  case (2 e w1)
  then show ?case
    by (auto simp: as_Array_def wp array_step_def only_changed_def array_at_def split: option.split)
qed

end

section \<open>Properties\<close>

text \<open>C18. One reconcile call of an Array changes no object but that Array and ConfigMaps; when it returns
  an error the Array is as before, otherwise its new status is one the specification
  \<open>array_outcome\<close> allows for the stored disks and the configuration that is now on record.\<close>

theorem Array_Reconcile_refines:
  assumes "operator cl view ac conf"
  shows "wp (Array_Reconcile cl ac n) (\<lambda>r w'.
     only_changed view KArray n w w' \<and>
     (case array_at (view w) n of
        None \<Rightarrow> array_at (view w') n = None
      | Some a \<Rightarrow>
          if snd r \<noteq> None then array_at (view w') n = Some a
          else (\<exists>rv a'. array_at (view w') n = Some (set_array_rv rv a') \<and>
                  array_outcome (view w) (conf (view w')) a a'))) w"
  using operator.wp_Array_Reconcile[OF assms, of n w] unfolding array_step_def .

lemma resolved_mem: "resolved v names ds \<Longrightarrow> d \<in> set ds \<Longrightarrow> \<exists>name \<in> set names. disk_at v ('''', name) = Some d"
  by (auto simp: resolved_def list_all2_conv_all_nth in_set_conv_nth[of d] intro!: bexI[OF _ nth_mem])

lemma resolved_name: "resolved v names ds \<Longrightarrow> name \<in> set names \<Longrightarrow> \<exists>d \<in> set ds. disk_at v ('''', name) = Some d"
  by (auto simp: resolved_def list_all2_conv_all_nth in_set_conv_nth[of name] intro!: bexI[OF _ nth_mem])

text \<open>What an Array that is Ready after a reconcile call promises.\<close>

definition array_sound :: "store \<Rightarrow> (string \<rightharpoonup> string) \<Rightarrow> Array \<Rightarrow> bool" where
  "array_sound v cf a \<longleftrightarrow>
     (\<exists>ds ps. resolved v (array_DataDisks (array_Spec a)) ds \<and> resolved v (array_ParityDisks (array_Spec a)) ps \<and>
        (\<forall>d \<in> set (ds @ ps). \<not> is_degraded d) \<and> array_DegradedDisks (array_Status a) = [] \<and>
        (ds \<noteq> [] \<longrightarrow> cf (disk_NodeName (disk_Spec (hd ds))) = Some (renderSnapraidConf (buildSnapraidConfig a ds ps))))"

lemma build_rv [simp]: "buildSnapraidConfig (set_array_rv rv a) ds ps = buildSnapraidConfig a ds ps"
  by (simp add: buildSnapraidConfig_def)

lemma build_phase [simp]: "buildSnapraidConfig (array_with_phase p r m t a) ds ps = buildSnapraidConfig a ds ps"
  by (simp add: buildSnapraidConfig_def)

lemma outcome_sound:
  assumes "array_outcome v cf a a'" "array_Phase (array_Status a') = ArrayPhaseReady"
  shows "array_sound v cf (set_array_rv rv a')"
  using assms(1)
proof cases
  case (reconciled ds ps now)
  with assms(2) have "degradedNames (ds @ ps) = []" by (simp split: if_splits)
  moreover from this have "\<forall>d \<in> set (ds @ ps). \<not> is_degraded d"
    by (auto simp: degradedNames_def filter_empty_conv)
  ultimately show ?thesis using reconciled unfolding array_sound_def
    by (intro exI[of _ ds] exI[of _ ps]) simp
qed (use assms(2) in simp_all)

text \<open>C9. An Array that a reconcile call leaves Ready is backed by disks: every data and parity disk it
  names exists in the store, none of them is Degraded or Failed, no disk is listed as degraded, and the
  SnapRAID configuration built from exactly these disks is on record for the node of the first one.\<close>

theorem Array_Ready_sound:
  assumes "operator cl view ac conf" and "array_at (view w) n = Some a"
  shows "wp (Array_Reconcile cl ac n) (\<lambda>r w'. snd r = None \<longrightarrow>
     (\<exists>a'. array_at (view w') n = Some a' \<and>
        (array_Phase (array_Status a') = ArrayPhaseReady \<longrightarrow> array_sound (view w) (conf (view w')) a'))) w"
proof (rule wp_mono[OF operator.wp_Array_Reconcile[OF assms(1)]])
  fix r w' assume "array_step view conf n w r w'"
  then show "snd r = None \<longrightarrow> (\<exists>a'. array_at (view w') n = Some a' \<and>
        (array_Phase (array_Status a') = ArrayPhaseReady \<longrightarrow> array_sound (view w) (conf (view w')) a'))"
    using assms(2) outcome_sound by (fastforce simp: array_step_def)
qed

lemma labels_distinct: "distinct (map sde_Label (dataEntries ds))"
  by (simp add: dataEntries_def distinct_conv_nth nth_enumerate_eq)

lemma buildSnapraidConfig_fields [simp]:
  "src_ParityEntries (buildSnapraidConfig a ds ps) = parityEntries ps"
  "src_DataEntries (buildSnapraidConfig a ds ps) = dataEntries ds"
  by (simp_all add: buildSnapraidConfig_def Let_def split: option.split)

text \<open>The SnapRAID configuration built for an array is well formed: parity entries are numbered
  1, 2, ... in the order of the parity disks, data labels are pairwise distinct, entry i is disk i's
  mount point, and an array with data disks has at least one content file.\<close>

lemma buildSnapraidConfig_wf:
  "map spe_Index (src_ParityEntries (buildSnapraidConfig a ds ps)) = map int [1..<Suc (length ps)] \<and>
   map spe_MountPoint (src_ParityEntries (buildSnapraidConfig a ds ps)) = map (\<lambda>d. disk_MountPoint (disk_Spec d)) ps \<and>
   distinct (map sde_Label (src_DataEntries (buildSnapraidConfig a ds ps))) \<and>
   map sde_MountPoint (src_DataEntries (buildSnapraidConfig a ds ps)) = map (\<lambda>d. disk_MountPoint (disk_Spec d)) ds \<and>
   (src_ContentFiles (buildSnapraidConfig a ds ps) = [] \<longleftrightarrow>
      ds = [] \<and> (case array_SnapraidConfig (array_Spec a) of None \<Rightarrow> True | Some sc \<Rightarrow> asc_ContentFiles sc = []))"
proof (intro conjI)
  show "map spe_Index (src_ParityEntries (buildSnapraidConfig a ds ps)) = map int [1..<Suc (length ps)]"
    by (rule nth_equalityI) (simp_all add: parityEntries_def nth_enumerate_eq del: upt_Suc)
  show "map spe_MountPoint (src_ParityEntries (buildSnapraidConfig a ds ps)) = map (\<lambda>d. disk_MountPoint (disk_Spec d)) ps"
    by (rule nth_equalityI) (simp_all add: parityEntries_def nth_enumerate_eq)
  show "distinct (map sde_Label (src_DataEntries (buildSnapraidConfig a ds ps)))"
    by (simp add: labels_distinct)
  show "map sde_MountPoint (src_DataEntries (buildSnapraidConfig a ds ps)) = map (\<lambda>d. disk_MountPoint (disk_Spec d)) ds"
    by (rule nth_equalityI) (simp_all add: dataEntries_def nth_enumerate_eq)
  show "src_ContentFiles (buildSnapraidConfig a ds ps) = [] \<longleftrightarrow>
      ds = [] \<and> (case array_SnapraidConfig (array_Spec a) of None \<Rightarrow> True | Some sc \<Rightarrow> asc_ContentFiles sc = [])"
    by (auto simp: buildSnapraidConfig_def Let_def split: option.split)
qed

section \<open>Witnesses\<close>

definition demo_array :: Array where
  "demo_array = \<lparr>array_Meta = ObjectMeta_zero\<lparr>meta_Name := ''main'', meta_Namespace := ''nas''\<rparr>,
     array_Spec = \<lparr>array_DataDisks = [''sdb''], array_ParityDisks = [], array_SnapraidConfig = None\<rparr>,
     array_Status = \<lparr>array_Phase = ArrayPhaseUnset, array_ParityHealthy = False, array_ParityDriftPercent = Fin 0,
       array_DegradedDisks = [], array_LastSyncTime = None, array_LastCheckTime = None, array_Conditions = []\<rparr>\<rparr>"

definition array_world :: mem where
  "array_world = (demo_world [diskFinalizer] None)
     \<lparr>mem_objs := (\<lambda>k n. if k = KArray \<and> n = (''nas'', ''main'') then Some (OArray demo_array)
                      else mem_objs (demo_world [diskFinalizer] None) k n)\<rparr>"

lemma demo_array_at: "array_at (mem_view array_world) (''nas'', ''main'') = Some demo_array"
  by (simp add: array_at_def mem_view_def array_world_def demo_array_def deletion_done_def key_of_def ObjectMeta_zero_def)

theorem Array_Reconcile_refines_witness:
  "wp (Array_Reconcile idle_env idle_agent (''nas'', ''main'')) (\<lambda>r w'.
     only_changed mem_view KArray (''nas'', ''main'') array_world w' \<and>
     (if snd r \<noteq> None then array_at (mem_view w') (''nas'', ''main'') = Some demo_array
      else (\<exists>rv a'. array_at (mem_view w') (''nas'', ''main'') = Some (set_array_rv rv a') \<and>
              array_outcome (mem_view array_world) (snapraid_conf idle_env (mem_view w')) demo_array a')))
     array_world"
  using Array_Reconcile_refines[OF idle_operator, of "(''nas'', ''main'')" array_world]
  unfolding demo_array_at option.case .

theorem Array_Ready_sound_witness:
  "wp (Array_Reconcile idle_env idle_agent (''nas'', ''main'')) (\<lambda>r w'. snd r = None \<longrightarrow>
     (\<exists>a'. array_at (mem_view w') (''nas'', ''main'') = Some a' \<and>
        (array_Phase (array_Status a') = ArrayPhaseReady \<longrightarrow>
           array_sound (mem_view array_world) (snapraid_conf idle_env (mem_view w')) a'))) array_world"
  by (rule Array_Ready_sound[OF idle_operator demo_array_at])

end
