(* ===== verification/Pool_Controller.thy ===== *)
theory Pool_Controller
  imports Array_Controller
begin

text \<open>
  The Pool reconciler (\<^verbatim>\<open>controllers/pool_controller.go\<close>): the backing array, the branches of the
  union mount with their capacity, the mergerfs request and its defaults, the phase.
  \<open>pool_outcome\<close> is the abstract specification of the status it writes.
\<close>

section \<open>The reconciler\<close>

definition pool_categoryCreate :: "Pool \<Rightarrow> string" where
  "pool_categoryCreate pool =
     (case pool_Mergerfs (pool_Spec pool) of
        Some m \<Rightarrow> if mfs_CategoryCreate m \<noteq> '''' then mfs_CategoryCreate m else ''epmfs''
      | None \<Rightarrow> ''epmfs'')"

definition pool_minFreeSpace :: "Pool \<Rightarrow> string" where
  "pool_minFreeSpace pool =
     (case pool_Mergerfs (pool_Spec pool) of
        Some m \<Rightarrow> if mfs_MinFreeSpace m \<noteq> '''' then mfs_MinFreeSpace m else ''20G''
      | None \<Rightarrow> ''20G'')"

definition pool_extraOptions :: "Pool \<Rightarrow> string" where
  "pool_extraOptions pool =
     (case pool_Mergerfs (pool_Spec pool) of Some m \<Rightarrow> mfs_ExtraOptions m | None \<Rightarrow> '''')"

text \<open>The variables of the loop over the data disks.\<close>

record branches =
  br_branches :: "string list"
  br_diskNames :: "string list"
  br_totalBytes :: i64
  br_availableBytes :: i64

definition no_branches :: branches where
  "no_branches = \<lparr>br_branches = [], br_diskNames = [], br_totalBytes = 0, br_availableBytes = 0\<rparr>"

definition add_branch :: "string \<Rightarrow> Disk \<Rightarrow> branches \<Rightarrow> branches" where
  "add_branch diskName disk b =
     (if disk_Mounted (disk_Status disk) \<and> disk_Phase (disk_Status disk) = DiskPhaseReady
      then \<lparr>br_branches = br_branches b @ [disk_MountPoint (disk_Spec disk)],
            br_diskNames = br_diskNames b @ [diskName],
            br_totalBytes = br_totalBytes b + disk_CapacityBytes (disk_Status disk),
            br_availableBytes = br_availableBytes b + disk_AvailableBytes (disk_Status disk)\<rparr>
      else b)"

fun collectBranches :: "'w env \<Rightarrow> string list \<Rightarrow> branches \<Rightarrow> ('w, branches) state" where
  "collectBranches cl [] b = State_Monad.return b"
| "collectBranches cl (diskName # names) b = do {
     r \<leftarrow> env_get cl KDisk ('''', diskName);
     case as_Disk r of
       Inl err \<Rightarrow> collectBranches cl names b
     | Inr disk \<Rightarrow> collectBranches cl names (add_branch diskName disk b)
   }"

fun firstNode :: "'w env \<Rightarrow> string list \<Rightarrow> ('w, string) state" where
  "firstNode cl [] = State_Monad.return ''''"
| "firstNode cl (diskName # names) = do {
     r \<leftarrow> env_get cl KDisk ('''', diskName);
     case as_Disk r of
       Inl err \<Rightarrow> firstNode cl names
     | Inr disk \<Rightarrow> State_Monad.return (disk_NodeName (disk_Spec disk))
   }"

definition pool_with_phase :: "string \<Rightarrow> string \<Rightarrow> string \<Rightarrow> time \<Rightarrow> Pool \<Rightarrow> Pool" where
  "pool_with_phase phase reason msg now pool =
     (let cs = setCondition (pool_Conditions (pool_Status pool))
           \<lparr>cond_Type = ''Ready'', cond_Status = ConditionTrue, cond_Reason = reason,
            cond_Message = msg, cond_LastTransitionTime = now\<rparr>
      in pool\<lparr>pool_Status := (pool_Status pool)
        \<lparr>pool_Phase := phase,
         pool_Conditions := (if phase \<noteq> ''Ready'' then setLastFalse cs else cs)\<rparr>\<rparr>)"

definition setPoolPhase ::
  "'w env \<Rightarrow> Pool \<Rightarrow> string \<Rightarrow> string \<Rightarrow> string \<Rightarrow> ('w, ctrl_Result \<times> error option) state" where
  "setPoolPhase cl pool phase reason msg = do {
     now \<leftarrow> env_now cl;
     err \<leftarrow> env_status_update cl (OPool (pool_with_phase phase reason msg now pool));
     State_Monad.return (case err of
       Some e \<Rightarrow> (Result_zero, Some (WrapError ''updating pool status'' e))
     | None \<Rightarrow> (requeue_after 30, None))
   }"

definition pool_mount_request :: "Pool \<Rightarrow> branches \<Rightarrow> MergerFSMountRequest" where
  "pool_mount_request pool b =
     \<lparr>mmr_Branches = br_branches b, mmr_MountPoint = pool_MountPoint (pool_Spec pool),
      mmr_CategoryCreate = pool_categoryCreate pool, mmr_MinFreeSpace = pool_minFreeSpace pool,
      mmr_ExtraOptions = pool_extraOptions pool\<rparr>"

definition pool_fill :: "branches \<Rightarrow> bool \<Rightarrow> Pool \<Rightarrow> Pool" where
  "pool_fill b mounted pool =
     pool\<lparr>pool_Status := (pool_Status pool)
       \<lparr>pool_TotalBytes := br_totalBytes b, pool_AvailableBytes := br_availableBytes b,
        pool_MemberDisks := br_diskNames b, pool_Mounted := mounted\<rparr>\<rparr>"

definition Pool_Reconcile ::
  "'w env \<Rightarrow> 'w agent_client \<Rightarrow> nskey \<Rightarrow> ('w, ctrl_Result \<times> error option) state" where
  "Pool_Reconcile cl ac req = do {
     r \<leftarrow> env_get cl KPool req;
     case as_Pool r of
       Inl err \<Rightarrow> State_Monad.return (Result_zero, if IsNotFound err then None else Some err)
     | Inr pool \<Rightarrow> do {
         let ref = pool_ArrayRef (pool_Spec pool);
         ra \<leftarrow> env_get cl KArray (meta_Namespace (pool_Meta pool), ref);
         case as_Array ra of
           Inl err \<Rightarrow> setPoolPhase cl pool ''Pending'' ''ArrayNotFound'' (''Array '' @ Quote ref @ '' not found'')
         | Inr array \<Rightarrow>
             if array_Phase (array_Status array) \<noteq> ArrayPhaseReady
             then setPoolPhase cl pool ''Pending'' ''ArrayNotReady''
                    (''Array '' @ Quote ref @ '' is not Ready ('' @ ArrayPhase_text (array_Phase (array_Status array)) @ '')'')
             else do {
               b \<leftarrow> collectBranches cl (array_DataDisks (array_Spec array)) no_branches;
               if length (br_branches b) = 0
               then setPoolPhase cl pool ''Pending'' ''NoBranchesReady'' ''No data disks are ready and mounted''
               else do {
                 nodeName \<leftarrow> firstNode cl (array_DataDisks (array_Spec array));
                 m \<leftarrow> ac_EnsureMergerFSMount ac nodeName (pool_mount_request pool b);
                 case m of
                   Inl err \<Rightarrow> setPoolPhase cl pool ''Degraded'' ''MountError'' (Error err)
                 | Inr mounted \<Rightarrow> setPoolPhase cl (pool_fill b mounted pool) ''Ready'' ''Reconciled''
                     (''Pool mounted with '' @ show_nat (length (br_branches b)) @ '' disks at ''
                      @ pool_MountPoint (pool_Spec pool))
               }
             }
       }
   }"

section \<open>The abstract specification\<close>

definition pool_at :: "store \<Rightarrow> nskey \<Rightarrow> Pool option" where
  "pool_at v n = (case v KPool n of Some (OPool p) \<Rightarrow> Some p | _ \<Rightarrow> None)"

definition set_pool_rv :: "string \<Rightarrow> Pool \<Rightarrow> Pool" where
  "set_pool_rv rv = pool_Meta_update (meta_ResourceVersion_update (\<lambda>_. rv))"

definition usable :: "Disk \<Rightarrow> bool" where
  "usable d \<longleftrightarrow> disk_Mounted (disk_Status d) \<and> disk_Phase (disk_Status d) = DiskPhaseReady"

text \<open>The loop's variables after adding the disks \<open>ds\<close>.\<close>

definition branches_of :: "Disk list \<Rightarrow> branches" where
  "branches_of ds =
     \<lparr>br_branches = map (\<lambda>d. disk_MountPoint (disk_Spec d)) ds,
      br_diskNames = map (\<lambda>d. meta_Name (disk_Meta d)) ds,
      br_totalBytes = (\<Sum>d\<leftarrow>ds. disk_CapacityBytes (disk_Status d)),
      br_availableBytes = (\<Sum>d\<leftarrow>ds. disk_AvailableBytes (disk_Status d))\<rparr>"

text \<open>\<open>ds\<close> are disks of the store, all usable, that \<open>names\<close> lists in this order.\<close>

definition members :: "store \<Rightarrow> string list \<Rightarrow> Disk list \<Rightarrow> bool" where
  "members v names ds \<longleftrightarrow>
     subseq (map (\<lambda>d. meta_Name (disk_Meta d)) ds) names \<and>
     (\<forall>d \<in> set ds. disk_at v ('''', meta_Name (disk_Meta d)) = Some d \<and> usable d)"

inductive pool_outcome :: "store \<Rightarrow> Pool \<Rightarrow> Pool \<Rightarrow> bool" for v p where
  array_unread: "pool_outcome v p (pool_with_phase ''Pending'' ''ArrayNotFound''
    (''Array '' @ Quote (pool_ArrayRef (pool_Spec p)) @ '' not found'') now p)"
| array_not_ready: "array_at v (meta_Namespace (pool_Meta p), pool_ArrayRef (pool_Spec p)) = Some a \<Longrightarrow>
    array_Phase (array_Status a) \<noteq> ArrayPhaseReady \<Longrightarrow>
    pool_outcome v p (pool_with_phase ''Pending'' ''ArrayNotReady''
      (''Array '' @ Quote (pool_ArrayRef (pool_Spec p)) @ '' is not Ready (''
        @ ArrayPhase_text (array_Phase (array_Status a)) @ '')'') now p)"
| no_branches: "array_at v (meta_Namespace (pool_Meta p), pool_ArrayRef (pool_Spec p)) = Some a \<Longrightarrow>
    array_Phase (array_Status a) = ArrayPhaseReady \<Longrightarrow>
    pool_outcome v p (pool_with_phase ''Pending'' ''NoBranchesReady'' ''No data disks are ready and mounted'' now p)"
| mount_error: "array_at v (meta_Namespace (pool_Meta p), pool_ArrayRef (pool_Spec p)) = Some a \<Longrightarrow>
    array_Phase (array_Status a) = ArrayPhaseReady \<Longrightarrow>
    pool_outcome v p (pool_with_phase ''Degraded'' ''MountError'' msg now p)"
| ready: "array_at v (meta_Namespace (pool_Meta p), pool_ArrayRef (pool_Spec p)) = Some a \<Longrightarrow>
    array_Phase (array_Status a) = ArrayPhaseReady \<Longrightarrow>
    members v (array_DataDisks (array_Spec a)) ds \<Longrightarrow> ds \<noteq> [] \<Longrightarrow>
    pool_outcome v p (pool_with_phase ''Ready'' ''Reconciled''
      (''Pool mounted with '' @ show_nat (length ds) @ '' disks at '' @ pool_MountPoint (pool_Spec p)) now
      (pool_fill (branches_of ds) True p))"

definition pool_step :: "('w \<Rightarrow> store) \<Rightarrow> nskey \<Rightarrow> 'w \<Rightarrow> ctrl_Result \<times> error option \<Rightarrow> 'w \<Rightarrow> bool" where
  "pool_step view n w r w' \<longleftrightarrow>
     only_changed view KPool n w w' \<and>
     (case pool_at (view w) n of
        None \<Rightarrow> pool_at (view w') n = None
      | Some p \<Rightarrow>
          if snd r \<noteq> None then pool_at (view w') n = Some p
          else (\<exists>rv p'. pool_at (view w') n = Some (set_pool_rv rv p') \<and> pool_outcome (view w) p p'))"

lemma with_rv_OPool [simp]: "with_rv rv (OPool p) = OPool (set_pool_rv rv p)"
  by (simp add: with_rv_def set_pool_rv_def)

lemma pool_at_iff: "pool_at v n = Some p \<longleftrightarrow> v KPool n = Some (OPool p)"
  by (auto simp: pool_at_def split: option.splits kobject.splits)

lemma pool_builders [simp]:
  "pool_Spec (pool_with_phase ph r m t p) = pool_Spec p"
  "pool_Meta (pool_with_phase ph r m t p) = pool_Meta p"
  "pool_Spec (pool_fill b mt p) = pool_Spec p"
  "pool_Meta (pool_fill b mt p) = pool_Meta p"
  "pool_Spec (set_pool_rv rv p) = pool_Spec p"
  "pool_Status (set_pool_rv rv p) = pool_Status p"
  "meta_Namespace (pool_Meta (set_pool_rv rv p)) = meta_Namespace (pool_Meta p)"
  "pool_Phase (pool_Status (pool_with_phase ph r m t p)) = ph"
  "pool_Mounted (pool_Status (pool_with_phase ph r m t p)) = pool_Mounted (pool_Status p)"
  "pool_MemberDisks (pool_Status (pool_with_phase ph r m t p)) = pool_MemberDisks (pool_Status p)"
  "pool_TotalBytes (pool_Status (pool_with_phase ph r m t p)) = pool_TotalBytes (pool_Status p)"
  "pool_AvailableBytes (pool_Status (pool_with_phase ph r m t p)) = pool_AvailableBytes (pool_Status p)"
  by (simp_all add: pool_with_phase_def pool_fill_def set_pool_rv_def Let_def)

lemma pool_fill_status [simp]:
  "pool_Mounted (pool_Status (pool_fill b mt p)) = mt"
  "pool_MemberDisks (pool_Status (pool_fill b mt p)) = br_diskNames b"
  "pool_TotalBytes (pool_Status (pool_fill b mt p)) = br_totalBytes b"
  "pool_AvailableBytes (pool_Status (pool_fill b mt p)) = br_availableBytes b"
  by (simp_all add: pool_fill_def)

lemma put_pool_status: "pool_Spec p' = pool_Spec p \<Longrightarrow> pool_Meta p' = pool_Meta p \<Longrightarrow>
    p\<lparr>pool_Status := pool_Status p'\<rparr> = p'" for p p' :: Pool
  by (cases p; cases p') simp

lemma branches_of_snoc: "usable d \<Longrightarrow> meta_Name (disk_Meta d) = n \<Longrightarrow>
    add_branch n d (branches_of ds) = branches_of (ds @ [d])"
  by (auto simp: add_branch_def branches_of_def usable_def)

lemma add_branch_unusable: "\<not> usable d \<Longrightarrow> add_branch n d b = b"
  by (auto simp: add_branch_def usable_def)

lemma no_branches_of: "no_branches = branches_of []"
  by (simp add: no_branches_def branches_of_def)

context operator begin

lemma wp_collectBranches:
  assumes "view w1 = view w"
    and "\<And>ds w'. view w' = view w \<Longrightarrow> members (view w) names ds \<Longrightarrow> Q (branches_of (ds0 @ ds)) w'"
  shows "wp (collectBranches cl names (branches_of ds0)) Q w1"
  using assms
proof (induction names arbitrary: ds0 w1 Q)
  case Nil
  from Nil.prems(2)[OF Nil.prems(1), of "[]"] show ?case by (simp add: wp members_def)
next
  case (Cons name names)
  have skip: "wp (collectBranches cl names (branches_of ds0)) Q w2" if "view w2 = view w" for w2
  proof (rule Cons.IH[OF that])
    fix ds w' assume "view w' = view w" "members (view w) names ds"
    then show "Q (branches_of (ds0 @ ds)) w'" by (intro Cons.prems(2)) (auto simp: members_def)
  qed
  show ?case
    unfolding collectBranches.simps wp
  proof (rule wp_get, goal_cases)
    case (1 ob w2)
    then obtain d where d: "ob = ODisk d" by (cases ob) auto
    have at: "disk_at (view w) ('''', name) = Some d" "meta_Name (disk_Meta d) = name"
      using 1 Cons.prems(1) by (auto simp: disk_at_def d key_of_def)
    have w2: "view w2 = view w" using 1(1) Cons.prems(1) by simp
    show ?case
    proof (cases "usable d")
      case True
      have "wp (collectBranches cl names (branches_of (ds0 @ [d]))) Q w2"
      proof (rule Cons.IH[OF w2])
        fix ds w' assume "view w' = view w" "members (view w) names ds"
        then show "Q (branches_of ((ds0 @ [d]) @ ds)) w'"
          using at True Cons.prems(2)[of w' "d # ds"] by (simp add: members_def)
      qed
      then show ?thesis by (simp add: d as_Disk_def branches_of_snoc[OF True at(2)])
    next
      case False
      then show ?thesis using skip[OF w2] by (simp add: d as_Disk_def add_branch_unusable)
    qed
  next
    case (2 e w2)
    then show ?case using skip[of w2] Cons.prems(1) by (simp add: as_Disk_def)
  qed
qed

lemma wp_firstNode:
  assumes "view w1 = view w" and "\<And>s w'. view w' = view w \<Longrightarrow> Q s w'"
  shows "wp (firstNode cl names) Q w1"
  using assms(1)
proof (induction names arbitrary: w1)
  case Nil
  then show ?case by (simp add: wp assms(2))
next
  case (Cons name names)
  show ?case
    by (auto simp: wp Cons.prems intro!: wp_get Cons.IH assms(2) split: sum.split)
qed

lemma wp_setPoolPhase:
  assumes v: "crs_same view w w1" and p: "view w KPool n = Some (OPool p)" "key_of (OPool p) = n"
    and m: "pool_Meta p1 = pool_Meta p" "pool_Spec p1 = pool_Spec p"
    and o: "\<And>now. pool_outcome (view w) p (pool_with_phase phase reason msg now p1)"
  shows "wp (setPoolPhase cl p1 phase reason msg) (pool_step view n w) w1"
proof -
  have k: "key_of (OPool (pool_with_phase phase reason msg now p1)) = n" for now
    using p(2) m(1) by (simp add: key_of_def)
  have v1: "view w1 KPool n = Some (OPool p)" using v p(1) by (simp add: crs_same_def)
  show ?thesis
    unfolding setPoolPhase_def wp
  proof (rule wp_now, rule wp_status_update, goal_cases)
    case (1 t0 w2 old rv w3)
    then have "view w3 KPool n = Some (OPool (set_pool_rv rv (pool_with_phase phase reason msg t0 p1)))"
      using k v1 m by (auto simp: put_pool_status)
    moreover have "only_changed view KPool n w w3"
      using 1 k v by (simp add: only_changed_def crs_same_def)
    ultimately show ?case using o p(1) by (auto simp: pool_step_def pool_at_def)
  next
    case (2 t0 w2 e w3)
    then show ?case using v p(1) v1
      by (simp add: pool_step_def pool_at_def only_changed_def crs_same_def)
  qed
qed

end

context operator begin

text \<open>The request for the mount and the status after its answer.\<close>

lemma wp_pool_mount:
  assumes p: "view w KPool n = Some (OPool p)" "key_of (OPool p) = n" and w1: "view w1 = view w"
    and at: "array_at (view w) (meta_Namespace (pool_Meta p), pool_ArrayRef (pool_Spec p)) = Some a"
      "array_Phase (array_Status a) = ArrayPhaseReady"
    and ds: "members (view w) (array_DataDisks (array_Spec a)) ds" "ds \<noteq> []"
  shows "wp (ac_EnsureMergerFSMount ac node (pool_mount_request p (branches_of ds)))
    (\<lambda>m w'. case m of
         Inl err \<Rightarrow> wp (setPoolPhase cl p ''Degraded'' ''MountError'' (Error err)) (pool_step view n w) w'
       | Inr mounted \<Rightarrow> wp (setPoolPhase cl (pool_fill (branches_of ds) mounted p) ''Ready'' ''Reconciled''
           (''Pool mounted with '' @ show_nat (length (br_branches (branches_of ds))) @ '' disks at ''
              @ pool_MountPoint (pool_Spec p))) (pool_step view n w) w') w1"
proof (rule wp_mergerfs, goal_cases)
  case (1 w2)
  have n: "length (br_branches (branches_of ds)) = length ds" by (simp add: branches_of_def)
  show ?case unfolding sum.case n
    by (intro wp_setPoolPhase[OF _ p] pool_outcome.ready[OF at ds]) (use 1 w1 in \<open>simp_all add: crs_same_def\<close>)
next
  case (2 e w2)
  then show ?case unfolding sum.case
    by (intro wp_setPoolPhase[OF _ p] pool_outcome.mount_error[OF at]) (simp_all add: crs_same_def w1)
qed

lemma wp_Pool_Reconcile: "wp (Pool_Reconcile cl ac n) (pool_step view n w) w"
  unfolding Pool_Reconcile_def wp
proof (rule wp_get, goal_cases)
  case (1 ob w1)
  then obtain p where ob: "ob = OPool p" by (cases ob) auto
  have p: "view w KPool n = Some (OPool p)" "key_of (OPool p) = n" using 1 ob by simp_all
  have same: "crs_same view w w2" if "view w2 = view w" for w2 using that by simp
  show ?case
    unfolding ob as_Pool_def sum.case kobject.case wp Let_def
  proof (rule wp_get, goal_cases)
    case (1 ob w2)
    then obtain a where a: "ob = OArray a" by (cases ob) auto
    have at: "array_at (view w) (meta_Namespace (pool_Meta p), pool_ArrayRef (pool_Spec p)) = Some a"
      using 1 \<open>view w1 = view w\<close> a by (simp add: array_at_def)
    have w2: "view w2 = view w" using 1(1) \<open>view w1 = view w\<close> by simp
    show ?case
    proof (cases "array_Phase (array_Status a) = ArrayPhaseReady")
      case False
      then show ?thesis unfolding a as_Array_def sum.case kobject.case
        by (simp, intro wp_setPoolPhase[OF same[OF w2] p])
          (use pool_outcome.array_not_ready[OF at False] in simp_all)
    next
      case True
      have none: "wp (setPoolPhase cl p ''Pending'' ''NoBranchesReady'' ''No data disks are ready and mounted'')
          (pool_step view n w) w3" if "view w3 = view w" for w3
        by (intro wp_setPoolPhase[OF same[OF that] p] pool_outcome.no_branches[OF at True]) simp_all
      show ?thesis
        using True unfolding a as_Array_def sum.case kobject.case no_branches_of wp
      proof (simp, intro wp_collectBranches[OF w2], goal_cases)
        case (1 ds w3)
        then show ?case unfolding append_Nil
          by (cases ds) (auto simp: wp branches_of_def[of "[]"] none intro!: wp_firstNode wp_pool_mount[OF p _ at True])
      qed
    qed
  next
    case (2 e w2)
    then show ?case unfolding as_Array_def sum.case using \<open>view w1 = view w\<close>
      by (intro wp_setPoolPhase[OF same p] pool_outcome.array_unread) simp_all
  qed
next
  case (2 e w1)
  then show ?case
    by (auto simp: as_Pool_def wp pool_step_def only_changed_def pool_at_def split: option.split)
qed

end

section \<open>Properties\<close>


text \<open>What a Pool that is Ready after a reconcile call promises.\<close>

definition pool_sound :: "store \<Rightarrow> Pool \<Rightarrow> bool" where
  "pool_sound v p \<longleftrightarrow>
     pool_Mounted (pool_Status p) \<and>
     (\<exists>a ds. array_at v (meta_Namespace (pool_Meta p), pool_ArrayRef (pool_Spec p)) = Some a \<and>
        array_Phase (array_Status a) = ArrayPhaseReady \<and> ds \<noteq> [] \<and>
        members v (array_DataDisks (array_Spec a)) ds \<and>
        pool_MemberDisks (pool_Status p) = map (\<lambda>d. meta_Name (disk_Meta d)) ds \<and>
        pool_TotalBytes (pool_Status p) = (\<Sum>d\<leftarrow>ds. disk_CapacityBytes (disk_Status d)) \<and>
        pool_AvailableBytes (pool_Status p) = (\<Sum>d\<leftarrow>ds. disk_AvailableBytes (disk_Status d)))"

lemma pool_outcome_sound:
  assumes "pool_outcome v p p'" "pool_Phase (pool_Status p') = ''Ready''"
  shows "pool_sound v (set_pool_rv rv p')"
  using assms(1)
proof cases
  case (ready a ds now)
  then show ?thesis unfolding pool_sound_def
    by (intro conjI exI[of _ a] exI[of _ ds]) (simp_all add: branches_of_def)
qed (use assms(2) in simp_all)


text \<open>A Pool that a reconcile call leaves in another phase than Ready keeps the mount flag, the members
  and the sizes of its last successful mount: \<^verbatim>\<open>status.mounted\<close> stays true although the mount is not
  confirmed any more.\<close>

lemma Pool_not_ready_stale:
  assumes "operator cl view ac conf" and "pool_at (view w) n = Some p"
  shows "wp (Pool_Reconcile cl ac n) (\<lambda>r w'. \<exists>p'. pool_at (view w') n = Some p' \<and>
     (pool_Phase (pool_Status p') \<noteq> ''Ready'' \<longrightarrow>
        pool_Mounted (pool_Status p') = pool_Mounted (pool_Status p) \<and>
        pool_MemberDisks (pool_Status p') = pool_MemberDisks (pool_Status p) \<and>
        pool_TotalBytes (pool_Status p') = pool_TotalBytes (pool_Status p))) w"
proof (rule wp_mono[OF operator.wp_Pool_Reconcile[OF assms(1)]])
  fix r w' assume "pool_step view n w r w'"
  then show "\<exists>p'. pool_at (view w') n = Some p' \<and>
     (pool_Phase (pool_Status p') \<noteq> ''Ready'' \<longrightarrow>
        pool_Mounted (pool_Status p') = pool_Mounted (pool_Status p) \<and>
        pool_MemberDisks (pool_Status p') = pool_MemberDisks (pool_Status p) \<and>
        pool_TotalBytes (pool_Status p') = pool_TotalBytes (pool_Status p))"
    using assms(2) by (auto simp: pool_step_def elim!: pool_outcome.cases split: if_splits)
qed

section \<open>Witnesses\<close>

definition demo_pool :: Pool where
  "demo_pool = \<lparr>pool_Meta = ObjectMeta_zero\<lparr>meta_Name := ''tank'', meta_Namespace := ''nas''\<rparr>,
     pool_Spec = \<lparr>pool_ArrayRef = ''main'', pool_MountPoint = ''/mnt/pool'', pool_Mergerfs = None\<rparr>,
     pool_Status = \<lparr>pool_Phase = ''Ready'', pool_Mounted = True, pool_TotalBytes = 100, pool_AvailableBytes = 60,
       pool_MemberDisks = [''sdb''], pool_Conditions = []\<rparr>\<rparr>"

definition pool_world :: mem where
  "pool_world = array_world
     \<lparr>mem_objs := (\<lambda>k n. if k = KPool \<and> n = (''nas'', ''tank'') then Some (OPool demo_pool)
                      else mem_objs array_world k n)\<rparr>"

lemma demo_pool_at: "pool_at (mem_view pool_world) (''nas'', ''tank'') = Some demo_pool"
  by (simp add: pool_at_def mem_view_def pool_world_def demo_pool_def deletion_done_def key_of_def ObjectMeta_zero_def)



lemma Pool_not_ready_stale_witness:
  "wp (Pool_Reconcile idle_env idle_agent (''nas'', ''tank'')) (\<lambda>r w'.
     \<exists>p'. pool_at (mem_view w') (''nas'', ''tank'') = Some p' \<and>
     (pool_Phase (pool_Status p') \<noteq> ''Ready'' \<longrightarrow> pool_Mounted (pool_Status p'))) pool_world"
  by (rule wp_mono[OF Pool_not_ready_stale[OF idle_operator demo_pool_at]]) (auto simp: demo_pool_def)

end
