(* ===== verification/Share_Controller.thy ===== *)
theory Share_Controller
  imports Pool_Controller
begin

text \<open>
  The Share reconciler (\<^verbatim>\<open>controllers/share_controller.go\<close>): the ConfigMap, Pod and Service that
  publish a share over SMB or NFS, their create-or-update with the delete-and-recreate path for
  immutable Pod fields, and the phase. \<^verbatim>\<open>controllerutil.SetControllerReference\<close> is third-party: it
  is the parameter \<open>own\<close>, what it does with the metadata of the share to the metadata of the object;
  \<open>own_ok\<close> states that it keeps name, namespace and deletion mark.
\<close>

section \<open>Create or update\<close>

definition isImmutablePodUpdateError :: "error \<Rightarrow> bool" where
  "isImmutablePodUpdateError err =
     (if IsInvalid err \<or> IsForbidden err then Contains (ToLower (Error err)) ''immutable'' else False)"

definition upsertObject :: "'w env \<Rightarrow> kobject \<Rightarrow> ('w, error option) state" where
  "upsertObject cl ob = do {
     r \<leftarrow> env_get cl (kind_of ob) (key_of ob);
     case r of
       Inl err \<Rightarrow> if IsNotFound err then env_create cl ob else State_Monad.return (Some err)
     | Inr existing \<Rightarrow> env_update cl (with_rv (rv_of existing) ob)
   }"

definition upsertPodObject :: "'w env \<Rightarrow> kobject \<Rightarrow> ('w, error option) state" where
  "upsertPodObject cl pod = do {
     r \<leftarrow> env_get cl (kind_of pod) (key_of pod);
     case r of
       Inl err \<Rightarrow> if IsNotFound err then env_create cl pod else State_Monad.return (Some err)
     | Inr existing \<Rightarrow> do {
         u \<leftarrow> env_update cl (with_rv (rv_of existing) pod);
         case u of
           None \<Rightarrow> State_Monad.return None
         | Some err \<Rightarrow>
             if isImmutablePodUpdateError err then do {
               d \<leftarrow> env_delete cl existing;
               if (case d of None \<Rightarrow> False | Some delErr \<Rightarrow> \<not> IsNotFound delErr)
               then State_Monad.return d
               else env_create cl (with_rv '''' pod)
             } else State_Monad.return (Some err)
       }
   }"

section \<open>The objects that publish a share\<close>

definition renderSMBConfig :: "Share \<Rightarrow> string \<Rightarrow> string" where
  "renderSMBConfig share sharePath =
     ''[global]'' @ newline @ ''workgroup = WORKGROUP'' @ newline @ ''['' @ meta_Name (share_Meta share) @ '']'' @ newline
     @ ''path = '' @ sharePath @ newline"

definition renderNFSExports :: "Share \<Rightarrow> string \<Rightarrow> string" where
  "renderNFSExports share sharePath = sharePath @ '' *(rw,sync,no_subtree_check)'' @ newline"

definition sharePath :: "Share \<Rightarrow> Pool \<Rightarrow> string" where
  "sharePath share pool = pool_MountPoint (pool_Spec pool) @ share_Path (share_Spec share)"

definition share_object_meta :: "Share \<Rightarrow> string \<Rightarrow> ObjectMeta" where
  "share_object_meta share name =
     ObjectMeta_zero\<lparr>meta_Name := name, meta_Namespace := meta_Namespace (share_Meta share)\<rparr>"

definition app_labels :: "string \<Rightarrow> string \<rightharpoonup> string" where
  "app_labels name = [''app'' \<mapsto> name]"

definition tcp_probe :: "int \<Rightarrow> int \<Rightarrow> Probe" where
  "tcp_probe port delay = \<lparr>probe_TCPPort = port, probe_InitialDelaySeconds = delay\<rparr>"

definition smb_name :: "Share \<Rightarrow> string" where
  "smb_name share = ''kubenas-smb-'' @ meta_Name (share_Meta share)"

definition smb_configmap :: "Share \<Rightarrow> Pool \<Rightarrow> ConfigMap" where
  "smb_configmap share pool =
     \<lparr>cm_Meta = share_object_meta share (smb_name share),
      cm_Data = Some [''smb.conf'' \<mapsto> renderSMBConfig share (sharePath share pool)]\<rparr>"

definition smb_pod :: "Share \<Rightarrow> Pool \<Rightarrow> Pod" where
  "smb_pod share pool =
     \<lparr>pod_Meta = (share_object_meta share (smb_name share))\<lparr>meta_Labels := app_labels (smb_name share)\<rparr>,
      pod_Spec = \<lparr>podspec_RestartPolicy = '''',
        podspec_Containers = [\<lparr>ctr_Name = ''samba'', ctr_Image = ''ghcr.io/servercontainers/samba'', ctr_Command = [],
          ctr_Ports = [445], ctr_LivenessProbe = Some (tcp_probe 445 10), ctr_ReadinessProbe = Some (tcp_probe 445 5),
          ctr_Privileged = None,
          ctr_VolumeMounts = [\<lparr>vm_Name = ''pool'', vm_MountPath = ''/share'', vm_SubPath = ''''\<rparr>,
            \<lparr>vm_Name = ''config'', vm_MountPath = ''/etc/samba/smb.conf'', vm_SubPath = ''smb.conf''\<rparr>]\<rparr>],
        podspec_Volumes = [\<lparr>vol_Name = ''pool'', vol_Source = HostPath (sharePath share pool)\<rparr>,
          \<lparr>vol_Name = ''config'', vol_Source = ConfigMapVolume (smb_name share)\<rparr>]\<rparr>\<rparr>"

definition share_service :: "Share \<Rightarrow> string \<Rightarrow> string \<Rightarrow> int \<Rightarrow> Service" where
  "share_service share name portName port =
     \<lparr>svc_Meta = share_object_meta share (name @ ''-svc''), svc_Selector = app_labels name,
      svc_Ports = [\<lparr>port_Name = portName, port_Port = port, port_TargetPort = port\<rparr>]\<rparr>"

definition nfs_name :: "Share \<Rightarrow> string" where
  "nfs_name share = ''kubenas-nfs-'' @ meta_Name (share_Meta share)"

definition nfs_configmap :: "Share \<Rightarrow> Pool \<Rightarrow> ConfigMap" where
  "nfs_configmap share pool =
     \<lparr>cm_Meta = share_object_meta share (nfs_name share),
      cm_Data = Some [''exports'' \<mapsto> renderNFSExports share (sharePath share pool)]\<rparr>"

definition nfs_pod :: "Share \<Rightarrow> Pool \<Rightarrow> Pod" where
  "nfs_pod share pool =
     \<lparr>pod_Meta = (share_object_meta share (nfs_name share))\<lparr>meta_Labels := app_labels (nfs_name share)\<rparr>,
      pod_Spec = \<lparr>podspec_RestartPolicy = '''',
        podspec_Containers = [\<lparr>ctr_Name = ''nfs'', ctr_Image = ''ghcr.io/nfs-ganesha/nfs-ganesha'', ctr_Command = [],
          ctr_Ports = [2049], ctr_LivenessProbe = Some (tcp_probe 2049 10), ctr_ReadinessProbe = Some (tcp_probe 2049 5),
          ctr_Privileged = None,
          ctr_VolumeMounts = [\<lparr>vm_Name = ''pool'', vm_MountPath = ''/export'', vm_SubPath = ''''\<rparr>]\<rparr>],
        podspec_Volumes = [\<lparr>vol_Name = ''pool'', vol_Source = HostPath (sharePath share pool)\<rparr>]\<rparr>\<rparr>"

type_synonym owner_fn = "ObjectMeta \<Rightarrow> ObjectMeta \<Rightarrow> ObjectMeta"

definition share_set_names :: "string \<Rightarrow> string \<Rightarrow> Share \<Rightarrow> Share" where
  "share_set_names podName svcName share =
     share\<lparr>share_Status := (share_Status share)\<lparr>share_PodName := podName, share_ServiceName := svcName\<rparr>\<rparr>"

text \<open>The common tail of \<^verbatim>\<open>reconcileSMBShare\<close> and \<^verbatim>\<open>reconcileNFSShare\<close>: three upserts, each of an
  object owned by the share, then the names in the status.\<close>

definition publish :: "'w env \<Rightarrow> owner_fn \<Rightarrow> Share \<Rightarrow> ConfigMap \<Rightarrow> Pod \<Rightarrow> Service \<Rightarrow> ('w, error + Share) state" where
  "publish cl own share cm pod svc = do {
     e1 \<leftarrow> upsertObject cl (map_meta (own (share_Meta share)) (OConfigMap cm));
     case e1 of
       Some err \<Rightarrow> State_Monad.return (Inl err)
     | None \<Rightarrow> do {
         e2 \<leftarrow> upsertPodObject cl (map_meta (own (share_Meta share)) (OPod pod));
         case e2 of
           Some err \<Rightarrow> State_Monad.return (Inl err)
         | None \<Rightarrow> do {
             e3 \<leftarrow> upsertObject cl (map_meta (own (share_Meta share)) (OService svc));
             case e3 of
               Some err \<Rightarrow> State_Monad.return (Inl err)
             | None \<Rightarrow> State_Monad.return (Inr (share_set_names (meta_Name (pod_Meta pod)) (meta_Name (svc_Meta svc)) share))
           }
       }
   }"

definition reconcileSMBShare :: "'w env \<Rightarrow> owner_fn \<Rightarrow> Share \<Rightarrow> Pool \<Rightarrow> ('w, error + Share) state" where
  "reconcileSMBShare cl own share pool =
     publish cl own share (smb_configmap share pool) (smb_pod share pool)
       (share_service share (smb_name share) ''smb'' 445)"

definition reconcileNFSShare :: "'w env \<Rightarrow> owner_fn \<Rightarrow> Share \<Rightarrow> Pool \<Rightarrow> ('w, error + Share) state" where
  "reconcileNFSShare cl own share pool =
     publish cl own share (nfs_configmap share pool) (nfs_pod share pool)
       (share_service share (nfs_name share) ''nfs'' 2049)"

section \<open>The reconciler\<close>

definition share_with_phase :: "string \<Rightarrow> string \<Rightarrow> string \<Rightarrow> time \<Rightarrow> Share \<Rightarrow> Share" where
  "share_with_phase phase reason msg now share =
     (let cs = setCondition (share_Conditions (share_Status share))
           \<lparr>cond_Type = ''Ready'', cond_Status = ConditionTrue, cond_Reason = reason,
            cond_Message = msg, cond_LastTransitionTime = now\<rparr>
      in share\<lparr>share_Status := (share_Status share)
        \<lparr>share_Phase := phase,
         share_Conditions := (if phase \<noteq> ''Ready'' then setLastFalse cs else cs),
         share_Published := (if phase \<noteq> ''Ready'' then False else share_Published (share_Status share))\<rparr>\<rparr>)"

definition setSharePhase ::
  "'w env \<Rightarrow> Share \<Rightarrow> string \<Rightarrow> string \<Rightarrow> string \<Rightarrow> ('w, ctrl_Result \<times> error option) state" where
  "setSharePhase cl share phase reason msg = do {
     now \<leftarrow> env_now cl;
     err \<leftarrow> env_status_update cl (OShare (share_with_phase phase reason msg now share));
     State_Monad.return (case err of Some e \<Rightarrow> (Result_zero, Some e) | None \<Rightarrow> (requeue_after 30, None))
   }"

text \<open>\<^verbatim>\<open>resolveEffectiveSubjects\<close> always returns nil.\<close>

definition resolveEffectiveSubjects :: "Share \<Rightarrow> string list" where
  "resolveEffectiveSubjects share = []"

definition share_set_subjects :: "string list \<Rightarrow> Share \<Rightarrow> Share" where
  "share_set_subjects subjects share =
     share\<lparr>share_Status := (share_Status share)\<lparr>share_EffectiveSubjects := subjects\<rparr>\<rparr>"

definition share_set_published :: "Share \<Rightarrow> Share" where
  "share_set_published share = share\<lparr>share_Status := (share_Status share)\<lparr>share_Published := True\<rparr>\<rparr>"

definition Share_Reconcile :: "'w env \<Rightarrow> owner_fn \<Rightarrow> nskey \<Rightarrow> ('w, ctrl_Result \<times> error option) state" where
  "Share_Reconcile cl own req = do {
     r \<leftarrow> env_get cl KShare req;
     case as_Share r of
       Inl err \<Rightarrow> State_Monad.return (Result_zero, if IsNotFound err then None else Some err)
     | Inr share \<Rightarrow> do {
         rp \<leftarrow> env_get cl KPool (meta_Namespace (share_Meta share), share_PoolRef (share_Spec share));
         case as_Pool rp of
           Inl err \<Rightarrow> setSharePhase cl share ''Pending'' ''PoolNotFound'' (Error err)
         | Inr pool \<Rightarrow>
             if \<not> pool_Mounted (pool_Status pool)
             then setSharePhase cl share ''Pending'' ''PoolNotMounted'' ''Pool is not yet mounted''
             else do {
               let share1 = share_set_subjects (resolveEffectiveSubjects share) share;
               p \<leftarrow> (case share_Protocol (share_Spec share1) of
                   ShareProtocolSMB \<Rightarrow> reconcileSMBShare cl own share1 pool
                 | ShareProtocolNFS \<Rightarrow> reconcileNFSShare cl own share1 pool
                 | ShareProtocolUnset \<Rightarrow> State_Monad.return (Inr share1));
               case p of
                 Inl err \<Rightarrow> setSharePhase cl share1 ''Degraded'' ''DataPlaneError'' (Error err)
               | Inr share2 \<Rightarrow> setSharePhase cl (share_set_published share2) ''Ready'' ''Published''
                   (''Share published via '' @ ShareProtocol_text (share_Protocol (share_Spec share)))
             }
       }
   }"

section \<open>Lemmas\<close>

definition own_ok :: "owner_fn \<Rightarrow> bool" where
  "own_ok own \<longleftrightarrow> (\<forall>s m. meta_Name (own s m) = meta_Name m \<and> meta_Namespace (own s m) = meta_Namespace m \<and>
     meta_DeletionTimestamp (own s m) = meta_DeletionTimestamp m)"

text \<open>The object is stored with this content, whatever its resource version and UID.\<close>

definition stored :: "store \<Rightarrow> kobject \<Rightarrow> bool" where
  "stored v ob \<longleftrightarrow> (\<exists>f. v (kind_of ob) (key_of ob) = Some (map_meta f ob))"

definition plain :: "kobject \<Rightarrow> bool" where
  "plain ob \<longleftrightarrow> kind_of ob \<in> {KConfigMap, KPod, KService} \<and> meta_DeletionTimestamp (meta_of ob) = None"

lemma map_meta_map_meta: "map_meta f (map_meta g ob) = map_meta (\<lambda>m. f (g m)) ob"
  by (cases ob) simp_all

lemma stored_with [intro]:
  "v (kind_of ob) (key_of ob) = Some (with_rv rv ob) \<Longrightarrow> stored v ob"
  "v (kind_of ob) (key_of ob) = Some (with_rv rv (with_rv rv' ob)) \<Longrightarrow> stored v ob"
  "v (kind_of ob) (key_of ob) = Some (with_uid u (with_rv rv ob)) \<Longrightarrow> stored v ob"
  "v (kind_of ob) (key_of ob) = Some (with_uid u (with_rv rv (with_rv rv' ob))) \<Longrightarrow> stored v ob"
  by (auto simp: stored_def with_rv_def with_uid_def map_meta_map_meta)

lemma plain_put_main: "plain ob \<Longrightarrow> kind_of old = kind_of ob \<Longrightarrow> put_main old (with_rv rv ob) = with_rv rv ob"
  by (cases old) (auto simp: plain_def)

lemma plain_not_done: "plain ob \<Longrightarrow> \<not> deletion_done ob"
  by (simp add: plain_def deletion_done_def)

context kube_api begin

lemma wp_upsertObject:
  assumes p: "plain ob"
    and ok: "\<And>w'. only_at view (kind_of ob) (key_of ob) w w' \<Longrightarrow> stored (view w') ob \<Longrightarrow> Q None w'"
    and err: "\<And>e w'. only_at view (kind_of ob) (key_of ob) w w' \<Longrightarrow> Q (Some e) w'"
  shows "wp (upsertObject cl ob) Q w"
  unfolding upsertObject_def wp
proof (rule wp_get, goal_cases)
  case (1 ex w1)
  show ?case unfolding sum.case
  proof (rule wp_update, goal_cases)
    case (1 old rv w2)
    then have "old = ex" using \<open>view w1 = view w\<close> \<open>view w _ _ = Some ex\<close> by simp
    then have "view w2 = store_set (view w) (kind_of ob) (key_of ob) (Some (with_rv rv (with_rv (rv_of ex) ob)))"
      using 1 \<open>view w1 = view w\<close> \<open>kind_of ex = _\<close> plain_put_main[OF p] plain_not_done[OF p] by simp
    then show ?case by (intro ok) (auto intro: only_at_set stored_with(2))
  next
    case (2 e w2)
    then show ?case using \<open>view w1 = view w\<close> by (intro err only_at_refl) simp
  qed
next
  case (2 e w1)
  then show ?case
    by (auto simp: wp intro!: wp_create ok err intro: only_at_refl only_at_set stored_with)
qed

lemma wp_upsertPodObject:
  assumes p: "plain ob"
    and ok: "\<And>w'. only_at view (kind_of ob) (key_of ob) w w' \<Longrightarrow> stored (view w') ob \<Longrightarrow> Q None w'"
    and err: "\<And>e w'. only_at view (kind_of ob) (key_of ob) w w' \<Longrightarrow> Q (Some e) w'"
  shows "wp (upsertPodObject cl ob) Q w"
  unfolding upsertPodObject_def wp
proof (rule wp_get, goal_cases)
  case (1 ex w1)
  show ?case unfolding sum.case wp
  proof (rule wp_update, goal_cases)
    case (1 old rv w2)
    then have "old = ex" using \<open>view w1 = view w\<close> \<open>view w _ _ = Some ex\<close> by simp
    then have "view w2 = store_set (view w) (kind_of ob) (key_of ob) (Some (with_rv rv (with_rv (rv_of ex) ob)))"
      using 1 \<open>view w1 = view w\<close> \<open>kind_of ex = _\<close> plain_put_main[OF p] plain_not_done[OF p] by simp
    then show ?case unfolding option.case by (intro ok) (auto intro: only_at_set stored_with(2))
  next
    case (2 e w2)
    have w2: "view w2 = view w" using 2 \<open>view w1 = view w\<close> by simp
    show ?case unfolding option.case wp
    proof (split if_split, intro conjI impI)
      assume "isImmutablePodUpdateError e"
      show "wp (env_delete cl ex) (\<lambda>a w'. if (case a of None \<Rightarrow> False | Some delErr \<Rightarrow> \<not> IsNotFound delErr)
              then Q a w' else wp (env_create cl (with_rv [] ob)) Q w') w2"
      proof (rule wp_delete, goal_cases)
        case (1 old x w3)
        then have w3: "view w3 = store_set (view w) (kind_of ob) (key_of ob) x"
          using w2 \<open>kind_of ex = _\<close> \<open>key_of ex = _\<close> by simp
        show ?case
          by (simp, rule wp_create)
            (auto simp: w3 intro!: ok err intro: only_at_set stored_with)
      next
        case (2 e' w3)
        then show ?case using w2
          by (auto intro!: wp_create ok err intro: only_at_refl only_at_set stored_with)
      qed
    next
      assume "\<not> isImmutablePodUpdateError e"
      show "Q (Some e) w2" using w2 by (intro err only_at_refl)
    qed
  qed
next
  case (2 e w1)
  then show ?case
    by (auto simp: wp intro!: wp_create ok err intro: only_at_refl only_at_set stored_with)
qed

end

definition data_changed :: "('w \<Rightarrow> store) \<Rightarrow> 'w \<Rightarrow> 'w \<Rightarrow> bool" where
  "data_changed view w w' \<longleftrightarrow> (\<forall>k. k \<notin> {KConfigMap, KPod, KService} \<longrightarrow> view w' k = view w k)"

lemma data_changed_at: "only_at view k n w w' \<Longrightarrow> k \<in> {KConfigMap, KPod, KService} \<Longrightarrow> data_changed view w w'"
  by (auto simp: only_at_def data_changed_def fun_eq_iff)

lemma data_changed_trans: "data_changed view w w' \<Longrightarrow> data_changed view w' w'' \<Longrightarrow> data_changed view w w''"
  by (simp add: data_changed_def)

lemma stored_only_at: "stored (view w) ob \<Longrightarrow> only_at view k n w w' \<Longrightarrow> k \<noteq> kind_of ob \<Longrightarrow> stored (view w') ob"
  unfolding stored_def only_at_def by (metis prod.inject)

text \<open>The objects that publish the share, owned by it.\<close>

definition data_plane :: "owner_fn \<Rightarrow> Share \<Rightarrow> Pool \<Rightarrow> kobject list" where
  "data_plane own s p = map (map_meta (own (share_Meta s)))
     (case share_Protocol (share_Spec s) of
        ShareProtocolSMB \<Rightarrow> [OConfigMap (smb_configmap s p), OPod (smb_pod s p), OService (share_service s (smb_name s) ''smb'' 445)]
      | ShareProtocolNFS \<Rightarrow> [OConfigMap (nfs_configmap s p), OPod (nfs_pod s p), OService (share_service s (nfs_name s) ''nfs'' 2049)]
      | ShareProtocolUnset \<Rightarrow> [])"

context kube_api begin

lemma wp_publish:
  assumes p: "plain (map_meta (own (share_Meta s)) (OConfigMap cm))" "plain (map_meta (own (share_Meta s)) (OPod pod))"
      "plain (map_meta (own (share_Meta s)) (OService svc))"
    and ok: "\<And>w'. data_changed view w w' \<Longrightarrow>
      (\<forall>ob \<in> {OConfigMap cm, OPod pod, OService svc}. stored (view w') (map_meta (own (share_Meta s)) ob)) \<Longrightarrow>
      Q (Inr (share_set_names (meta_Name (pod_Meta pod)) (meta_Name (svc_Meta svc)) s)) w'"
    and err: "\<And>e w'. data_changed view w w' \<Longrightarrow> Q (Inl e) w'"
  shows "wp (publish cl own s cm pod svc) Q w"
  unfolding publish_def wp
proof (rule wp_upsertObject[OF p(1)], goal_cases)
  case (1 w1)
  have d1: "data_changed view w w1" by (rule data_changed_at[OF 1(1)]) simp
  show ?case unfolding option.case wp
  proof (rule wp_upsertPodObject[OF p(2)], goal_cases)
    case (1 w2)
    have d2: "data_changed view w1 w2" by (rule data_changed_at[OF 1(1)]) simp
    have s2: "stored (view w2) (map_meta (own (share_Meta s)) (OConfigMap cm))"
      by (rule stored_only_at[OF \<open>stored (view w1) _\<close> 1(1)]) simp
    show ?case unfolding option.case wp
    proof (rule wp_upsertObject[OF p(3)], goal_cases)
      case (1 w3)
      have d3: "data_changed view w2 w3" by (rule data_changed_at[OF 1(1)]) simp
      have "stored (view w3) (map_meta (own (share_Meta s)) (OConfigMap cm))"
        by (rule stored_only_at[OF s2 1(1)]) simp
      moreover have "stored (view w3) (map_meta (own (share_Meta s)) (OPod pod))"
        by (rule stored_only_at[OF \<open>stored (view w2) (map_meta _ (OPod pod))\<close> 1(1)]) simp
      ultimately show ?case unfolding option.case
        using 1(2) data_changed_trans[OF data_changed_trans[OF d1 d2] d3] by (intro ok) auto
    next
      case (2 e w3)
      have "data_changed view w2 w3" by (rule data_changed_at[OF 2]) simp
      then show ?case unfolding option.case
        by (intro err) (rule data_changed_trans[OF data_changed_trans[OF d1 d2]])
    qed
  next
    case (2 e w2)
    have "data_changed view w1 w2" by (rule data_changed_at[OF 2]) simp
    then show ?case unfolding option.case by (intro err) (rule data_changed_trans[OF d1])
  qed
next
  case (2 e w1)
  have "data_changed view w w1" by (rule data_changed_at[OF 2]) simp
  then show ?case unfolding option.case by (rule err)
qed

end

lemma plain_own: "own_ok own \<Longrightarrow> plain ob \<Longrightarrow> plain (map_meta (own m) ob)"
  by (simp add: own_ok_def plain_def)

lemma plain_objects:
  "plain (OConfigMap (smb_configmap s p))" "plain (OPod (smb_pod s p))"
  "plain (OConfigMap (nfs_configmap s p))" "plain (OPod (nfs_pod s p))" "plain (OService (share_service s nm pn port))"
  by (simp_all add: plain_def smb_configmap_def smb_pod_def nfs_configmap_def nfs_pod_def share_service_def
      share_object_meta_def ObjectMeta_zero_def)

section \<open>The abstract specification\<close>

definition share_at :: "store \<Rightarrow> nskey \<Rightarrow> Share option" where
  "share_at v n = (case v KShare n of Some (OShare s) \<Rightarrow> Some s | _ \<Rightarrow> None)"

definition set_share_rv :: "string \<Rightarrow> Share \<Rightarrow> Share" where
  "set_share_rv rv = share_Meta_update (meta_ResourceVersion_update (\<lambda>_. rv))"

inductive share_outcome :: "owner_fn \<Rightarrow> store \<Rightarrow> store \<Rightarrow> Share \<Rightarrow> Share \<Rightarrow> bool" for own v v' s where
  pool_unread: "share_outcome own v v' s (share_with_phase ''Pending'' ''PoolNotFound'' msg now s)"
| pool_unmounted: "pool_at v (meta_Namespace (share_Meta s), share_PoolRef (share_Spec s)) = Some p \<Longrightarrow>
    \<not> pool_Mounted (pool_Status p) \<Longrightarrow>
    share_outcome own v v' s (share_with_phase ''Pending'' ''PoolNotMounted'' ''Pool is not yet mounted'' now s)"
| degraded: "pool_at v (meta_Namespace (share_Meta s), share_PoolRef (share_Spec s)) = Some p \<Longrightarrow>
    pool_Mounted (pool_Status p) \<Longrightarrow>
    share_outcome own v v' s (share_with_phase ''Degraded'' ''DataPlaneError'' msg now (share_set_subjects [] s))"
| ready: "pool_at v (meta_Namespace (share_Meta s), share_PoolRef (share_Spec s)) = Some p \<Longrightarrow>
    pool_Mounted (pool_Status p) \<Longrightarrow> \<forall>ob \<in> set (data_plane own s p). stored v' ob \<Longrightarrow>
    share_Meta s' = share_Meta s \<Longrightarrow> share_Spec s' = share_Spec s \<Longrightarrow>
    share_outcome own v v' s (share_with_phase ''Ready'' ''Published''
      (''Share published via '' @ ShareProtocol_text (share_Protocol (share_Spec s))) now (share_set_published s'))"

definition share_changed :: "('w \<Rightarrow> store) \<Rightarrow> nskey \<Rightarrow> 'w \<Rightarrow> 'w \<Rightarrow> bool" where
  "share_changed view n w w' \<longleftrightarrow> (\<forall>k n'. k \<notin> {KConfigMap, KPod, KService} \<longrightarrow> (k, n') \<noteq> (KShare, n) \<longrightarrow>
     view w' k n' = view w k n')"

definition share_step :: "owner_fn \<Rightarrow> ('w \<Rightarrow> store) \<Rightarrow> nskey \<Rightarrow> 'w \<Rightarrow> ctrl_Result \<times> error option \<Rightarrow> 'w \<Rightarrow> bool" where
  "share_step own view n w r w' \<longleftrightarrow>
     share_changed view n w w' \<and>
     (case share_at (view w) n of
        None \<Rightarrow> share_at (view w') n = None
      | Some s \<Rightarrow>
          if snd r \<noteq> None then share_at (view w') n = Some s
          else (\<exists>rv s'. share_at (view w') n = Some (set_share_rv rv s') \<and>
                  share_outcome own (view w) (view w') s s'))"

lemma with_rv_OShare [simp]: "with_rv rv (OShare s) = OShare (set_share_rv rv s)"
  by (simp add: with_rv_def set_share_rv_def)

lemma share_builders [simp]:
  "share_Spec (share_with_phase ph r m t s) = share_Spec s"
  "share_Meta (share_with_phase ph r m t s) = share_Meta s"
  "share_Spec (share_set_subjects xs s) = share_Spec s"
  "share_Meta (share_set_subjects xs s) = share_Meta s"
  "share_Spec (share_set_names pn sn s) = share_Spec s"
  "share_Meta (share_set_names pn sn s) = share_Meta s"
  "share_Spec (share_set_published s) = share_Spec s"
  "share_Meta (share_set_published s) = share_Meta s"
  "share_Spec (set_share_rv rv s) = share_Spec s"
  "share_Status (set_share_rv rv s) = share_Status s"
  "share_Phase (share_Status (share_with_phase ph r m t s)) = ph"
  "share_Published (share_Status (share_with_phase ph r m t s)) =
     (if ph \<noteq> ''Ready'' then False else share_Published (share_Status s))"
  "share_Published (share_Status (share_set_published s))"
  by (simp_all add: share_with_phase_def share_set_subjects_def share_set_names_def share_set_published_def
      set_share_rv_def Let_def)

lemma put_share_status: "share_Spec s' = share_Spec s \<Longrightarrow> share_Meta s' = share_Meta s \<Longrightarrow>
    s\<lparr>share_Status := share_Status s'\<rparr> = s'" for s s' :: Share
  by (cases s; cases s') simp

lemma objects_set_subjects [simp]:
  "smb_configmap (share_set_subjects xs s) p = smb_configmap s p"
  "smb_pod (share_set_subjects xs s) p = smb_pod s p"
  "nfs_configmap (share_set_subjects xs s) p = nfs_configmap s p"
  "nfs_pod (share_set_subjects xs s) p = nfs_pod s p"
  "share_service (share_set_subjects xs s) nm pn port = share_service s nm pn port"
  "smb_name (share_set_subjects xs s) = smb_name s" "nfs_name (share_set_subjects xs s) = nfs_name s"
  by (simp_all add: smb_configmap_def smb_pod_def nfs_configmap_def nfs_pod_def share_service_def
      smb_name_def nfs_name_def share_object_meta_def sharePath_def renderSMBConfig_def renderNFSExports_def)

lemma stored_cong: "kind_of ob \<noteq> KShare \<Longrightarrow> v' (kind_of ob) = v (kind_of ob) \<Longrightarrow> stored v' ob = stored v ob"
  by (simp add: stored_def)

lemma data_plane_kinds: "ob \<in> set (data_plane own s p) \<Longrightarrow> kind_of ob \<noteq> KShare"
  by (auto simp: data_plane_def split: ShareProtocol.splits)

context kube_api begin

lemma wp_setSharePhase:
  assumes v: "data_changed view w w1" and s: "view w KShare n = Some (OShare s)" "key_of (OShare s) = n"
    and m: "share_Meta s1 = share_Meta s" "share_Spec s1 = share_Spec s"
    and o: "\<And>now v'. (\<And>k. k \<noteq> KShare \<Longrightarrow> v' k = view w1 k) \<Longrightarrow>
      share_outcome own (view w) v' s (share_with_phase phase reason msg now s1)"
  shows "wp (setSharePhase cl s1 phase reason msg) (share_step own view n w) w1"
proof -
  have k: "key_of (OShare (share_with_phase phase reason msg now s1)) = n" for now
    using s(2) m(1) by (simp add: key_of_def)
  have v1: "view w1 KShare n = Some (OShare s)" using v s(1) by (simp add: data_changed_def)
  have same: "k \<notin> {KConfigMap, KPod, KService} \<Longrightarrow> view w1 k = view w k" for k
    using v by (simp add: data_changed_def)
  show ?thesis
    unfolding setSharePhase_def wp
  proof (rule wp_now, rule wp_status_update, goal_cases)
    case (1 t0 w2 old rv w3)
    then have "view w3 KShare n = Some (OShare (set_share_rv rv (share_with_phase phase reason msg t0 s1)))"
      using k v1 m by (auto simp: put_share_status)
    moreover have "share_changed view n w w3"
      using 1 k same by (simp add: share_changed_def)
    moreover have "share_outcome own (view w) (view w3) s (share_with_phase phase reason msg t0 s1)"
      by (rule o) (use 1 in \<open>simp add: fun_eq_iff\<close>)
    ultimately show ?case using s(1) by (auto simp: share_step_def share_at_def)
  next
    case (2 t0 w2 e w3)
    then show ?case using same s(1) v1
      by (simp add: share_step_def share_at_def share_changed_def)
  qed
qed

lemma wp_share_data_plane:
  assumes own: "own_ok own" and w1: "view w1 = view w"
    and s: "view w KShare n = Some (OShare s)" "key_of (OShare s) = n"
    and p: "pool_at (view w) (meta_Namespace (share_Meta s), share_PoolRef (share_Spec s)) = Some p"
      "pool_Mounted (pool_Status p)"
    and s1: "share_Meta s1 = share_Meta s" "share_Spec s1 = share_Spec s"
    and w2: "data_changed view w w2" and st: "\<forall>ob \<in> set (data_plane own s p). stored (view w2) ob"
  shows "wp (setSharePhase cl (share_set_published s1) ''Ready'' ''Published''
    (''Share published via '' @ ShareProtocol_text (share_Protocol (share_Spec s)))) (share_step own view n w) w2"
proof (rule wp_setSharePhase[OF w2 s], goal_cases)
  case (3 now v')
  then have "\<forall>ob \<in> set (data_plane own s p). stored v' ob"
    using st data_plane_kinds by (metis stored_cong)
  then show ?case by (rule share_outcome.ready[OF p]) (simp_all add: s1)
qed (simp_all add: s1)

text \<open>The data plane of the protocol: every error leaves only data-plane objects changed; without an error all
  of them are stored.\<close>

lemma wp_share_protocol:
  assumes own: "own_ok own" and w1: "view w1 = view w"
  shows "wp (case share_Protocol (share_Spec s) of
       ShareProtocolSMB \<Rightarrow> reconcileSMBShare cl own (share_set_subjects xs s) p
     | ShareProtocolNFS \<Rightarrow> reconcileNFSShare cl own (share_set_subjects xs s) p
     | ShareProtocolUnset \<Rightarrow> State_Monad.return (Inr (share_set_subjects xs s)))
     (\<lambda>r w2. data_changed view w w2 \<and> (case r of
        Inl e \<Rightarrow> True
      | Inr s1 \<Rightarrow> share_Meta s1 = share_Meta s \<and> share_Spec s1 = share_Spec s \<and>
          (\<forall>ob \<in> set (data_plane own s p). stored (view w2) ob))) w1"
proof (cases "share_Protocol (share_Spec s)")
  case ShareProtocolSMB
  show ?thesis unfolding ShareProtocolSMB ShareProtocol.case reconcileSMBShare_def
    by (intro wp_publish plain_own[OF own] plain_objects)
      (auto simp: data_changed_def w1 data_plane_def ShareProtocolSMB)
next
  case ShareProtocolNFS
  show ?thesis unfolding ShareProtocolNFS ShareProtocol.case reconcileNFSShare_def
    by (intro wp_publish plain_own[OF own] plain_objects)
      (auto simp: data_changed_def w1 data_plane_def ShareProtocolNFS)
next
  case ShareProtocolUnset
  then show ?thesis using w1 by (simp add: wp data_changed_def data_plane_def)
qed

lemma wp_Share_Reconcile:
  assumes own: "own_ok own"
  shows "wp (Share_Reconcile cl own n) (share_step own view n w) w"
  unfolding Share_Reconcile_def wp
proof (rule wp_get, goal_cases)
  case (1 ob w1)
  then obtain s where ob: "ob = OShare s" by (cases ob) auto
  have s: "view w KShare n = Some (OShare s)" "key_of (OShare s) = n" using 1 ob by simp_all
  have same: "data_changed view w w2" if "view w2 = view w" for w2
    using that by (simp add: data_changed_def)
  show ?case
    unfolding ob as_Share_def sum.case kobject.case wp
  proof (rule wp_get, goal_cases)
    case (1 ob w2)
    then obtain p where p: "ob = OPool p" by (cases ob) auto
    have w2: "view w2 = view w" using 1(1) \<open>view w1 = view w\<close> by simp
    have pool: "pool_at (view w) (meta_Namespace (share_Meta s), share_PoolRef (share_Spec s)) = Some p"
      using 1 \<open>view w1 = view w\<close> p by (simp add: pool_at_def)
    have dec: "as_Pool (Inr ob) = Inr p" by (simp add: p as_Pool_def)
    show ?case
    proof (cases "pool_Mounted (pool_Status p)")
      case False
      then show ?thesis unfolding dec sum.case
        by (simp, intro wp_setSharePhase[OF same[OF w2] s]) (simp_all add: share_outcome.pool_unmounted[OF pool])
    next
      case True
      then have up: "\<not> \<not> pool_Mounted (pool_Status p)" by simp
      have deg: "wp (setSharePhase cl (share_set_subjects [] s) ''Degraded'' ''DataPlaneError'' msg) (share_step own view n w) w3"
        if "data_changed view w w3" for msg w3
        by (rule wp_setSharePhase[OF that s]) (simp_all add: share_outcome.degraded[OF pool True])
      show ?thesis unfolding dec sum.case Let_def share_builders resolveEffectiveSubjects_def if_not_P[OF up]
      proof (rule wp_mono[OF wp_share_protocol[OF own w2]], goal_cases)
        case (1 r w3)
        then show ?case using wp_share_data_plane[OF own w2 s pool True] deg by (cases r) simp_all
      qed
    qed
  next
    case (2 e w2)
    then show ?case using \<open>view w1 = view w\<close> unfolding as_Pool_def sum.case
      by (intro wp_setSharePhase[OF same s]) (simp_all add: share_outcome.pool_unread)
  qed
next
  case (2 e w1)
  then show ?case
    by (auto simp: as_Share_def wp share_step_def share_changed_def share_at_def split: option.split)
qed

end

section \<open>Properties\<close>


text \<open>What a Share that is published after a reconcile call promises.\<close>

definition share_sound :: "owner_fn \<Rightarrow> store \<Rightarrow> store \<Rightarrow> Share \<Rightarrow> bool" where
  "share_sound own v v' s \<longleftrightarrow>
     (\<exists>p. pool_at v (meta_Namespace (share_Meta s), share_PoolRef (share_Spec s)) = Some p \<and>
        pool_Mounted (pool_Status p) \<and> (\<forall>ob \<in> set (data_plane own s p). stored v' ob))"

lemma share_outcome_sound:
  assumes "share_outcome own v v' s s'"
  shows "share_Published (share_Status s') \<longleftrightarrow> share_Phase (share_Status s') = ''Ready''"
    "share_Published (share_Status s') \<Longrightarrow> share_sound own v v' s"
  using assms by (auto elim!: share_outcome.cases simp: share_sound_def)


section \<open>Witnesses\<close>

definition demo_share :: Share where
  "demo_share = \<lparr>share_Meta = ObjectMeta_zero\<lparr>meta_Name := ''media'', meta_Namespace := ''nas'', meta_UID := ''u1''\<rparr>,
     share_Spec = \<lparr>share_PoolRef = ''tank'', share_Path = ''/media'', share_Protocol = ShareProtocolSMB,
       share_Authz = None, share_SMB = None, share_NFS = None\<rparr>,
     share_Status = \<lparr>share_Phase = '''', share_Published = False, share_EffectiveSubjects = [], share_PodName = '''',
       share_ServiceName = '''', share_Conditions = []\<rparr>\<rparr>"

definition share_world :: mem where
  "share_world = pool_world
     \<lparr>mem_objs := (\<lambda>k n. if k = KShare \<and> n = (''nas'', ''media'') then Some (OShare demo_share)
                      else mem_objs pool_world k n)\<rparr>"

definition demo_own :: owner_fn where
  "demo_own s m = m\<lparr>meta_OwnerReferences := meta_OwnerReferences m @
     [\<lparr>owner_APIVersion = ''storage.kubenas.io/v1alpha1'', owner_Kind = ''Share'', owner_Name = meta_Name s,
       owner_UID = meta_UID s, owner_Controller = Some True, owner_BlockOwnerDeletion = Some True\<rparr>]\<rparr>"

lemma demo_own_ok: "own_ok demo_own"
  by (simp add: own_ok_def demo_own_def)

lemma demo_share_at: "share_at (mem_view share_world) (''nas'', ''media'') = Some demo_share"
  by (simp add: share_at_def mem_view_def share_world_def demo_share_def deletion_done_def key_of_def ObjectMeta_zero_def)



end
