(* ===== verification/Failure_Controller.thy ===== *)
theory Failure_Controller
  imports Disk_Controller
begin

text \<open>
  The failure reconciler (\<^verbatim>\<open>FailureReconciler\<close> in
  \<^verbatim>\<open>controllers/placement_failure_controllers.go\<close>): it watches Disks, opens a DiskFailure record
  when a disk is Degraded or Failed, follows the severity, and resolves the record when the disk
  recovers.
\<close>

section \<open>The reconciler\<close>

definition failureName :: "Disk \<Rightarrow> string" where
  "failureName disk = meta_Name (disk_Meta disk) @ ''-failure''"

text \<open>Severity, reason and recommended action for a disk that is Degraded or Failed.\<close>

definition classify :: "Disk \<Rightarrow> DiskFailureSeverity \<times> string \<times> string" where
  "classify disk =
     (if disk_Phase (disk_Status disk) = DiskPhaseFailed
      then (DiskFailureSeverityCritical,
            if flt (disk_HealthScore (disk_Status disk)) (lit (1 / 10)) then ''SMART_FAILURE'' else ''SMART_PREFAIL'',
            ''Replace disk immediately and initiate rebuild from parity'')
      else (DiskFailureSeverityWarning, ''DISK_DEGRADED'', ''Monitor disk health and prepare for replacement''))"

definition newFailure :: "'w env \<Rightarrow> Disk \<Rightarrow> DiskFailure" where
  "newFailure cl disk =
     (case classify disk of (severity, reason, action) \<Rightarrow>
       \<lparr>failure_Meta = ObjectMeta_zero\<lparr>meta_Name := failureName disk, meta_Namespace := operatorNamespace cl\<rparr>,
        failure_Spec = \<lparr>failure_DiskRef = meta_Name (disk_Meta disk), failure_Severity = severity,
          failure_Reason = reason, failure_RecommendedAction = action, failure_ReplacementDiskRef = ''''\<rparr>,
        failure_Status = \<lparr>failure_Phase = DiskFailurePhaseUnset, failure_ResolvedAt = None, failure_Message = ''''\<rparr>\<rparr>)"

definition escalate :: "Disk \<Rightarrow> DiskFailure \<Rightarrow> DiskFailure" where
  "escalate disk f =
     (case classify disk of (severity, reason, action) \<Rightarrow>
       f\<lparr>failure_Spec := (failure_Spec f)\<lparr>failure_Severity := severity, failure_Reason := reason\<rparr>\<rparr>)"

definition resolve_failure :: "Disk \<Rightarrow> time \<Rightarrow> DiskFailure \<Rightarrow> DiskFailure" where
  "resolve_failure disk now f =
     f\<lparr>failure_Status := \<lparr>failure_Phase = DiskFailurePhaseResolved, failure_ResolvedAt = Some now,
        failure_Message = ''Disk '' @ meta_Name (disk_Meta disk) @ '' recovered to phase ''
          @ DiskPhase_text (disk_Phase (disk_Status disk))\<rparr>\<rparr>"

definition resolveOpenFailures :: "'w env \<Rightarrow> Disk \<Rightarrow> ('w, ctrl_Result \<times> error option) state" where
  "resolveOpenFailures cl disk = do {
     r \<leftarrow> env_get cl KDiskFailure (operatorNamespace cl, failureName disk);
     case as_DiskFailure r of
       Inl err \<Rightarrow> State_Monad.return (Result_zero, None)
     | Inr existing \<Rightarrow>
         if failure_Phase (failure_Status existing) \<noteq> DiskFailurePhaseResolved
         then do {
           now \<leftarrow> env_now cl;
           err \<leftarrow> env_status_update cl (ODiskFailure (resolve_failure disk now existing));
           State_Monad.return (case err of
             Some e \<Rightarrow> (Result_zero, Some (WrapError ''resolving disk failure'' e))
           | None \<Rightarrow> (Result_zero, None))
         }
         else State_Monad.return (Result_zero, None)
   }"

definition Failure_Reconcile :: "'w env \<Rightarrow> nskey \<Rightarrow> ('w, ctrl_Result \<times> error option) state" where
  "Failure_Reconcile cl req = do {
     r \<leftarrow> env_get cl KDisk req;
     case as_Disk r of
       Inl err \<Rightarrow> State_Monad.return (Result_zero, if IsNotFound err then None else Some err)
     | Inr disk \<Rightarrow>
         if disk_Phase (disk_Status disk) \<noteq> DiskPhaseDegraded \<and> disk_Phase (disk_Status disk) \<noteq> DiskPhaseFailed
         then resolveOpenFailures cl disk
         else do {
           rf \<leftarrow> env_get cl KDiskFailure (operatorNamespace cl, failureName disk);
           case as_DiskFailure rf of
             Inl err \<Rightarrow>
               if IsNotFound err
               then do {
                 createErr \<leftarrow> env_create cl (ODiskFailure (newFailure cl disk));
                 State_Monad.return (case createErr of
                   Some e \<Rightarrow> (Result_zero, Some (WrapError ''creating disk failure'' e))
                 | None \<Rightarrow> (requeue_after 120, None))
               }
               else State_Monad.return (requeue_after 120, None)
           | Inr existing \<Rightarrow>
               if failure_Severity (failure_Spec existing) \<noteq> fst (classify disk)
               then do {
                 updateErr \<leftarrow> env_update cl (ODiskFailure (escalate disk existing));
                 State_Monad.return (case updateErr of
                   Some e \<Rightarrow> (Result_zero, Some (WrapError ''updating disk failure'' e))
                 | None \<Rightarrow> (requeue_after 120, None))
               }
               else State_Monad.return (requeue_after 120, None)
         }
   }"

section \<open>Lemmas\<close>

definition failure_at :: "store \<Rightarrow> nskey \<Rightarrow> DiskFailure option" where
  "failure_at v n = (case v KDiskFailure n of Some (ODiskFailure f) \<Rightarrow> Some f | _ \<Rightarrow> None)"

definition failing :: "Disk \<Rightarrow> bool" where
  "failing d \<longleftrightarrow> disk_Phase (disk_Status d) = DiskPhaseDegraded \<or> disk_Phase (disk_Status d) = DiskPhaseFailed"

text \<open>Reads fail only for objects that do not exist.\<close>

definition reads_ok :: "'w env \<Rightarrow> bool" where
  "reads_ok cl \<longleftrightarrow> (\<forall>k n w e w'. run_state (env_get cl k n) w = (Inl e, w') \<longrightarrow> IsNotFound e)"

lemma with_rv_ODiskFailure:
  "with_rv rv (ODiskFailure f) = ODiskFailure (failure_Meta_update (meta_ResourceVersion_update (\<lambda>_. rv)) f)"
  "with_uid u (ODiskFailure f) = ODiskFailure (failure_Meta_update (meta_UID_update (\<lambda>_. u)) f)"
  by (simp_all add: with_rv_def with_uid_def)

lemma failure_keys:
  "key_of (ODiskFailure (newFailure cl d)) = (operatorNamespace cl, failureName d)"
  "key_of (ODiskFailure (escalate d f)) = key_of (ODiskFailure f)"
  "key_of (ODiskFailure (resolve_failure d t f)) = key_of (ODiskFailure f)"
  "deletion_done (ODiskFailure (escalate d f)) = deletion_done (ODiskFailure f)"
  by (simp_all add: key_of_def newFailure_def escalate_def resolve_failure_def deletion_done_def split: prod.split)

text \<open>The record that \<open>d\<close> should have: one of the severity of its phase while it is failing, a
  resolved one (or none) otherwise.\<close>

definition tracked :: "'w env \<Rightarrow> store \<Rightarrow> Disk \<Rightarrow> bool" where
  "tracked cl v d \<longleftrightarrow>
     (case failure_at v (operatorNamespace cl, failureName d) of
        None \<Rightarrow> \<not> failing d
      | Some f \<Rightarrow> if failing d then failure_Severity (failure_Spec f) = fst (classify d)
                  else failure_Phase (failure_Status f) = DiskFailurePhaseResolved)"

lemma failure_at_iff: "failure_at v n = Some f \<longleftrightarrow> v KDiskFailure n = Some (ODiskFailure f)"
  by (auto simp: failure_at_def split: option.splits kobject.splits)

lemma failure_new_spec:
  "failure_Severity (failure_Spec (newFailure cl d)) = fst (classify d)"
  "failure_Severity (failure_Spec (escalate d f)) = fst (classify d)"
  "failure_Phase (failure_Status (resolve_failure d t f)) = DiskFailurePhaseResolved"
  by (simp_all add: newFailure_def escalate_def resolve_failure_def split: prod.split)

context kube_api begin

lemma wp_get_reads:
  assumes "reads_ok cl"
    and "\<And>ob w'. view w' = view w \<Longrightarrow> view w k n = Some ob \<Longrightarrow> kind_of ob = k \<Longrightarrow> key_of ob = n
             \<Longrightarrow> \<not> deletion_done ob \<Longrightarrow> Q (Inr ob) w'"
    and "\<And>e w'. view w' = view w \<Longrightarrow> IsNotFound e \<Longrightarrow> view w k n = None \<Longrightarrow> Q (Inl e) w'"
  shows "wp (env_get cl k n) Q w"
proof (rule run_wp)
  fix r w' assume r: "run_state (env_get cl k n) w = (r, w')"
  then have "r = Inl e \<Longrightarrow> IsNotFound e" for e using assms(1) unfolding reads_ok_def by blast
  with get_law[OF r] show "Q r w'" using assms by (cases r) auto
qed

lemma wp_resolveOpenFailures:
  assumes "view w1 = view w" "reads_ok cl" "\<not> failing d"
  shows "wp (resolveOpenFailures cl d) (\<lambda>r w'.
     only_changed view KDiskFailure (operatorNamespace cl, failureName d) w w' \<and>
     (snd r = None \<longrightarrow> tracked cl (view w') d)) w1"
  unfolding resolveOpenFailures_def wp
proof (rule wp_get_reads[OF assms(2)], goal_cases)
  case (1 ob w2)
  then obtain f where f: "ob = ODiskFailure f" by (cases ob) auto
  with 1 assms(1) show ?case
    by (auto simp: as_DiskFailure_def wp only_changed_def tracked_def failure_at_def assms(3) failure_keys
        with_rv_ODiskFailure failure_new_spec intro!: wp_now wp_status_update)
next
  case (2 e w2)
  with assms show ?case
    by (simp add: as_DiskFailure_def wp only_changed_def tracked_def failure_at_def)
qed

lemma wp_Failure_Reconcile:
  assumes "reads_ok cl" and d: "disk_at (view w) n = Some d"
  shows "wp (Failure_Reconcile cl n) (\<lambda>r w'.
     only_changed view KDiskFailure (operatorNamespace cl, failureName d) w w' \<and>
     (snd r = None \<longrightarrow> tracked cl (view w') d)) w"
  unfolding Failure_Reconcile_def wp
proof (rule wp_get_reads[OF assms(1)], goal_cases)
  case (1 ob w1)
  then have ob: "ob = ODisk d" using d by (simp add: disk_at_iff)
  show ?case
  proof (cases "failing d")
    case False
    then show ?thesis using wp_resolveOpenFailures[OF 1(1) assms(1) False]
      by (simp add: ob as_Disk_def failing_def)
  next
    case True
    have getf: "wp (env_get cl KDiskFailure (operatorNamespace cl, failureName d)) Q w1"
      if "\<And>f w2. view w2 = view w \<Longrightarrow> view w KDiskFailure (operatorNamespace cl, failureName d) = Some (ODiskFailure f) \<Longrightarrow>
            key_of (ODiskFailure f) = (operatorNamespace cl, failureName d) \<Longrightarrow>
            \<not> deletion_done (ODiskFailure f) \<Longrightarrow> Q (Inr (ODiskFailure f)) w2"
         "\<And>e w2. view w2 = view w \<Longrightarrow> IsNotFound e \<Longrightarrow>
            view w KDiskFailure (operatorNamespace cl, failureName d) = None \<Longrightarrow> Q (Inl e) w2" for Q
    proof (rule wp_get_reads[OF assms(1)], goal_cases)
      case (1 ob w2)
      then show ?case using \<open>view w1 = view w\<close> that(1) by (cases ob) auto
    qed (use \<open>view w1 = view w\<close> that(2) in simp)
    have c: "(disk_Phase (disk_Status d) \<noteq> DiskPhaseDegraded \<and> disk_Phase (disk_Status d) \<noteq> DiskPhaseFailed) = False"
      using True by (auto simp: failing_def)
    show ?thesis unfolding ob as_Disk_def sum.case kobject.case c if_False wp
      by (rule getf; use True in \<open>auto simp: as_DiskFailure_def wp only_changed_def tracked_def failure_at_def
          failure_keys with_rv_ODiskFailure failure_new_spec intro!: wp_create wp_update\<close>)
  qed
next
  case (2 e w1)
  then show ?case using d by (simp add: disk_at_iff)
qed

end

section \<open>Properties\<close>


text \<open>A record is never reopened: when a failing disk already has a record of its severity - be it
  Resolved from an earlier recovery - the reconcile call changes nothing at all, so the record of the
  disk that is failing again stays Resolved.\<close>

lemma Failure_not_reopened:
  assumes "kube_api cl view" and "disk_at (view w) n = Some d" and "failing d"
    and "failure_at (view w) (operatorNamespace cl, failureName d) = Some f"
    and "failure_Severity (failure_Spec f) = fst (classify d)"
  shows "wp (Failure_Reconcile cl n) (\<lambda>r w'. view w' = view w) w"
  unfolding Failure_Reconcile_def wp
proof (rule kube_api.wp_get[OF assms(1)], goal_cases)
  case (1 ob w1)
  then have ob: "ob = ODisk d" using assms(2) by (simp add: disk_at_iff)
  have c: "(disk_Phase (disk_Status d) \<noteq> DiskPhaseDegraded \<and> disk_Phase (disk_Status d) \<noteq> DiskPhaseFailed) = False"
    using assms(3) by (auto simp: failing_def)
  show ?case unfolding ob as_Disk_def sum.case kobject.case c if_False wp
    by (rule kube_api.wp_get[OF assms(1)])
      (use 1 assms(4,5) in \<open>auto simp: as_DiskFailure_def wp failure_at_iff\<close>)
next
  case (2 e w1)
  then show ?case by (simp add: as_Disk_def wp)
qed

section \<open>Witnesses\<close>

lemma idle_reads_ok: "reads_ok idle_env"
  by (auto simp: reads_ok_def idle_env_def mem_get_def split: option.splits)

definition bad_disk :: Disk where
  "bad_disk = disk_with_phase DiskPhaseFailed ''Reconciled'' ''Disk reconciliation complete'' 1 (demo_disk [diskFinalizer] None)"

definition old_failure :: DiskFailure where
  "old_failure = resolve_failure (demo_disk [] None) 1 (newFailure idle_env bad_disk)"

definition failure_world :: mem where
  "failure_world = mem_empty\<lparr>mem_objs := (\<lambda>k n.
     if k = KDisk \<and> n = ('''', ''sdb'') then Some (ODisk bad_disk)
     else if k = KDiskFailure \<and> n = (''kubenas-system'', ''sdb-failure'') then Some (ODiskFailure old_failure)
     else None)\<rparr>"

lemma failure_world_at:
  "disk_at (mem_view failure_world) ('''', ''sdb'') = Some bad_disk"
  "failure_at (mem_view failure_world) (operatorNamespace idle_env, failureName bad_disk) = Some old_failure"
  "failing bad_disk" "failure_Severity (failure_Spec old_failure) = fst (classify bad_disk)"
  by (simp_all add: disk_at_def failure_at_def mem_view_def failure_world_def bad_disk_def old_failure_def failing_def
      deletion_done_def key_of_def demo_disk_def ObjectMeta_zero_def operatorNamespace_def idle_env_def failureName_def
      disk_with_phase_def newFailure_def resolve_failure_def classify_def)


lemma Failure_not_reopened_witness:
  "wp (Failure_Reconcile idle_env ('''', ''sdb'')) (\<lambda>r w'. mem_view w' = mem_view failure_world) failure_world"
  by (rule Failure_not_reopened[OF idle_kube_api failure_world_at(1,3,2,4)])

end
