(* ===== verification/Rebalance_Controller.thy ===== *)
theory Rebalance_Controller
  imports Pool_Controller
begin

text \<open>
  The rebalance reconciler (\<^verbatim>\<open>controllers/rebalance_controller.go\<close>): the imbalance check over the
  member disks of a pool and the phase machine of a RebalanceJob. \<open>job_trans\<close> is the abstract machine.
\<close>

section \<open>The imbalance check\<close>

text \<open>\<^verbatim>\<open>float64(used) / float64(d.Status.CapacityBytes) * 100\<close>\<close>

definition utilization :: "Disk \<Rightarrow> f64" where
  "utilization d =
     (let used = disk_CapacityBytes (disk_Status d) - disk_AvailableBytes (disk_Status d)
      in fmul (fdiv (of_i64 used) (of_i64 (disk_CapacityBytes (disk_Status d)))) (lit 100))"

definition utilizations :: "Disk list \<Rightarrow> f64 list" where
  "utilizations disks = map utilization (filter (\<lambda>d. 0 < sint (disk_CapacityBytes (disk_Status d))) disks)"

definition isImbalanced :: "Disk list \<Rightarrow> i64 \<Rightarrow> bool" where
  "isImbalanced disks thresholdPercent =
     (if length disks < 2 \<or> sint thresholdPercent \<le> 0 then False
      else (case utilizations disks of
              u0 # u1 # us \<Rightarrow>
                (let mn = foldl (\<lambda>mn u. if flt u mn then u else mn) u0 (u1 # us);
                     mx = foldl (\<lambda>mx u. if flt mx u then u else mx) u0 (u1 # us)
                 in flt (of_i64 thresholdPercent) (fabs (fsub mx mn)))
            | _ \<Rightarrow> False))"

section \<open>The reconciler\<close>

definition terminal :: "RebalanceJobPhase \<Rightarrow> bool" where
  "terminal ph \<longleftrightarrow> ph = RebalanceJobPhaseCompleted \<or> ph = RebalanceJobPhaseFailed"

definition job_with_phase :: "RebalanceJobPhase \<Rightarrow> time \<Rightarrow> time \<Rightarrow> RebalanceJob \<Rightarrow> RebalanceJob" where
  "job_with_phase phase t1 t2 job =
     job\<lparr>job_Status := (job_Status job)
       \<lparr>job_Phase := phase,
        job_StartTime := (if phase = RebalanceJobPhaseRunning \<and> job_StartTime (job_Status job) = None
                          then Some t1 else job_StartTime (job_Status job)),
        job_CompletionTime := (if terminal phase then Some t2 else job_CompletionTime (job_Status job))\<rparr>\<rparr>"

text \<open>The clock is read only where the source reads it; \<open>now\<close> is that reading.\<close>

definition setJobPhase ::
  "'w env \<Rightarrow> RebalanceJob \<Rightarrow> RebalanceJobPhase \<Rightarrow> ('w, ctrl_Result \<times> error option) state" where
  "setJobPhase cl job phase = do {
     now \<leftarrow> (if phase = RebalanceJobPhaseRunning \<and> job_StartTime (job_Status job) = None \<or> terminal phase
            then env_now cl else State_Monad.return 0);
     err \<leftarrow> env_status_update cl (ORebalanceJob (job_with_phase phase now now job));
     State_Monad.return (case err of
       Some e \<Rightarrow> (Result_zero, Some (WrapError ''updating rebalance job status'' e))
     | None \<Rightarrow> if phase = RebalanceJobPhaseRunning then (requeue_after 10, None) else (Result_zero, None))
   }"

fun memberDisks :: "'w env \<Rightarrow> string list \<Rightarrow> ('w, Disk list) state" where
  "memberDisks cl [] = State_Monad.return []"
| "memberDisks cl (diskName # names) = do {
     r \<leftarrow> env_get cl KDisk ('''', diskName);
     rest \<leftarrow> memberDisks cl names;
     State_Monad.return (case as_Disk r of Inl err \<Rightarrow> rest | Inr disk \<Rightarrow> disk # rest)
   }"

definition Rebalance_Reconcile :: "'w env \<Rightarrow> nskey \<Rightarrow> ('w, ctrl_Result \<times> error option) state" where
  "Rebalance_Reconcile cl req = do {
     r \<leftarrow> env_get cl KRebalanceJob req;
     case as_RebalanceJob r of
       Inl err \<Rightarrow> State_Monad.return (Result_zero, if IsNotFound err then None else Some err)
     | Inr job \<Rightarrow>
         if job_Phase (job_Status job) = RebalanceJobPhaseCompleted \<or> job_Phase (job_Status job) = RebalanceJobPhaseFailed
         then State_Monad.return (Result_zero, None)
         else do {
           rp \<leftarrow> env_get cl KPool (meta_Namespace (job_Meta job), job_PoolRef (job_Spec job));
           case as_Pool rp of
             Inl err \<Rightarrow> setJobPhase cl job RebalanceJobPhaseFailed
           | Inr pool \<Rightarrow> do {
               rq \<leftarrow> env_get cl KPlacementPolicy (meta_Namespace (job_Meta job), job_PlacementPolicyRef (job_Spec job));
               case as_PlacementPolicy rq of
                 Inl err \<Rightarrow> setJobPhase cl job RebalanceJobPhaseFailed
               | Inr policy \<Rightarrow> do {
                   disks \<leftarrow> memberDisks cl (pool_MemberDisks (pool_Status pool));
                   if length disks < 2 then setJobPhase cl job RebalanceJobPhaseCompleted
                   else if \<not> isImbalanced disks (job_ImbalanceThresholdPercent (job_Spec job))
                   then setJobPhase cl job RebalanceJobPhaseCompleted
                   else if job_Phase (job_Status job) = RebalanceJobPhasePending
                   then setJobPhase cl job RebalanceJobPhasePlanning
                   else if job_DryRun (job_Spec job) then setJobPhase cl job RebalanceJobPhaseCompleted
                   else setJobPhase cl job RebalanceJobPhaseRunning
                 }
             }
         }
   }"

section \<open>The abstract machine\<close>

definition job_at :: "store \<Rightarrow> nskey \<Rightarrow> RebalanceJob option" where
  "job_at v n = (case v KRebalanceJob n of Some (ORebalanceJob j) \<Rightarrow> Some j | _ \<Rightarrow> None)"

definition set_job_rv :: "string \<Rightarrow> RebalanceJob \<Rightarrow> RebalanceJob" where
  "set_job_rv rv = job_Meta_update (meta_ResourceVersion_update (\<lambda>_. rv))"

text \<open>\<open>imb v j\<close>: the stored member disks of the job's pool are out of balance.\<close>

definition stored_members :: "store \<Rightarrow> string list \<Rightarrow> Disk list \<Rightarrow> bool" where
  "stored_members v names ds \<longleftrightarrow>
     subseq (map (\<lambda>d. meta_Name (disk_Meta d)) ds) names \<and>
     (\<forall>d \<in> set ds. disk_at v ('''', meta_Name (disk_Meta d)) = Some d)"

definition imbalanced_in :: "store \<Rightarrow> RebalanceJob \<Rightarrow> bool" where
  "imbalanced_in v j \<longleftrightarrow>
     (\<exists>p ds. pool_at v (meta_Namespace (job_Meta j), job_PoolRef (job_Spec j)) = Some p \<and>
        stored_members v (pool_MemberDisks (pool_Status p)) ds \<and> 2 \<le> length ds \<and>
        isImbalanced ds (job_ImbalanceThresholdPercent (job_Spec j)))"

inductive job_trans :: "store \<Rightarrow> RebalanceJob \<Rightarrow> RebalanceJobPhase \<Rightarrow> bool" for v j where
  fail: "\<not> terminal (job_Phase (job_Status j)) \<Longrightarrow> job_trans v j RebalanceJobPhaseFailed"
| complete: "\<not> terminal (job_Phase (job_Status j)) \<Longrightarrow>
    pool_at v (meta_Namespace (job_Meta j), job_PoolRef (job_Spec j)) = Some p \<Longrightarrow>
    stored_members v (pool_MemberDisks (pool_Status p)) ds \<Longrightarrow>
    length ds < 2 \<or> \<not> isImbalanced ds (job_ImbalanceThresholdPercent (job_Spec j)) \<or>
      job_DryRun (job_Spec j) \<and> job_Phase (job_Status j) \<noteq> RebalanceJobPhasePending \<Longrightarrow>
    job_trans v j RebalanceJobPhaseCompleted"
| plan: "job_Phase (job_Status j) = RebalanceJobPhasePending \<Longrightarrow> imbalanced_in v j \<Longrightarrow>
    job_trans v j RebalanceJobPhasePlanning"
| run: "\<not> terminal (job_Phase (job_Status j)) \<Longrightarrow> job_Phase (job_Status j) \<noteq> RebalanceJobPhasePending \<Longrightarrow>
    \<not> job_DryRun (job_Spec j) \<Longrightarrow> imbalanced_in v j \<Longrightarrow> job_trans v j RebalanceJobPhaseRunning"

inductive_simps job_trans_simps: "job_trans v j ph"

definition job_step :: "('w \<Rightarrow> store) \<Rightarrow> nskey \<Rightarrow> 'w \<Rightarrow> ctrl_Result \<times> error option \<Rightarrow> 'w \<Rightarrow> bool" where
  "job_step view n w r w' \<longleftrightarrow>
     only_changed view KRebalanceJob n w w' \<and>
     (job_at (view w') n = job_at (view w) n \<and> (snd r \<noteq> None \<or> (\<forall>j. job_at (view w) n = Some j \<longrightarrow> terminal (job_Phase (job_Status j))))
      \<or> (snd r = None \<and> (\<exists>j rv t1 t2 ph. job_at (view w) n = Some j \<and> job_trans (view w) j ph \<and>
          job_at (view w') n = Some (set_job_rv rv (job_with_phase ph t1 t2 j)))))"

lemma with_rv_ORebalanceJob [simp]: "with_rv rv (ORebalanceJob j) = ORebalanceJob (set_job_rv rv j)"
  by (simp add: with_rv_def set_job_rv_def)

lemma job_at_iff: "job_at v n = Some j \<longleftrightarrow> v KRebalanceJob n = Some (ORebalanceJob j)"
  by (auto simp: job_at_def split: option.splits kobject.splits)

lemma job_builders [simp]:
  "job_Spec (job_with_phase ph t1 t2 j) = job_Spec j"
  "job_Meta (job_with_phase ph t1 t2 j) = job_Meta j"
  "job_Spec (set_job_rv rv j) = job_Spec j"
  "job_Status (set_job_rv rv j) = job_Status j"
  "job_Phase (job_Status (job_with_phase ph t1 t2 j)) = ph"
  by (simp_all add: job_with_phase_def set_job_rv_def)

lemma put_job_status: "job_Spec j' = job_Spec j \<Longrightarrow> job_Meta j' = job_Meta j \<Longrightarrow>
    j\<lparr>job_Status := job_Status j'\<rparr> = j'" for j j' :: RebalanceJob
  by (cases j; cases j') simp

context kube_api begin

lemma wp_setJobPhase:
  assumes v: "view w1 = view w" and j: "view w KRebalanceJob n = Some (ORebalanceJob j)" "key_of (ORebalanceJob j) = n"
    and t: "job_trans (view w) j ph"
  shows "wp (setJobPhase cl j ph) (job_step view n w) w1"
proof -
  have k: "key_of (ORebalanceJob (job_with_phase ph t1 t2 j)) = n" for t1 t2
    using j(2) by (simp add: key_of_def)
  have upd: "wp (env_status_update cl (ORebalanceJob (job_with_phase ph t t j)))
     (\<lambda>err. job_step view n w (case err of
       Some e \<Rightarrow> (Result_zero, Some (WrapError ''updating rebalance job status'' e))
     | None \<Rightarrow> if ph = RebalanceJobPhaseRunning then (requeue_after 10, None) else (Result_zero, None))) w2" if "view w2 = view w" for t w2
  proof (rule wp_status_update, goal_cases)
    case (1 old rv w3)
    then have "view w3 KRebalanceJob n = Some (ORebalanceJob (set_job_rv rv (job_with_phase ph t t j)))"
      using k j that by (auto simp: put_job_status)
    moreover have "only_changed view KRebalanceJob n w w3"
      using 1 k that by (simp add: only_changed_def)
    ultimately show ?case using t j(1) by (auto simp: wp job_step_def job_at_def)
  next
    case (2 e w3)
    then show ?case using that by (simp add: wp job_step_def only_changed_def)
  qed
  show ?thesis
    unfolding setJobPhase_def wp_bind wp_if wp_return
  proof (cases "ph = RebalanceJobPhaseRunning \<and> job_StartTime (job_Status j) = None \<or> terminal ph", goal_cases)
    case 1
    show ?case unfolding if_P[OF 1] by (rule wp_now, rule upd) (simp add: v)
  next
    case 2
    show ?case unfolding if_not_P[OF 2] by (rule upd[OF v])
  qed
qed

lemma wp_memberDisks:
  assumes "view w1 = view w"
    and "\<And>ds w'. view w' = view w \<Longrightarrow> stored_members (view w) names ds \<Longrightarrow> Q ds w'"
  shows "wp (memberDisks cl names) Q w1"
  using assms
proof (induction names arbitrary: w1 Q)
  case Nil
  from Nil.prems(2)[OF Nil.prems(1), of "[]"] show ?case by (simp add: wp stored_members_def)
next
  case (Cons name names)
  show ?case
    unfolding memberDisks.simps wp
  proof (rule wp_get, goal_cases)
    case (1 ob w2)
    then obtain d where d: "ob = ODisk d" by (cases ob) auto
    have at: "disk_at (view w) ('''', name) = Some d" "meta_Name (disk_Meta d) = name"
      using 1 Cons.prems(1) by (auto simp: disk_at_def d key_of_def)
    show ?case
      by (rule Cons.IH) (use 1(1) at Cons.prems in \<open>auto simp: d as_Disk_def wp stored_members_def\<close>)
  next
    case (2 e w2)
    show ?case
      by (rule Cons.IH) (use 2(1) Cons.prems in \<open>auto simp: as_Disk_def wp stored_members_def\<close>)
  qed
qed

text \<open>The decision once pool, policy and member disks are read.\<close>

lemma wp_rebalance_decision:
  assumes w1: "view w1 = view w" and j: "view w KRebalanceJob n = Some (ORebalanceJob j)" "key_of (ORebalanceJob j) = n"
    and t: "\<not> terminal (job_Phase (job_Status j))"
    and p: "pool_at (view w) (meta_Namespace (job_Meta j), job_PoolRef (job_Spec j)) = Some p"
  shows "wp (memberDisks cl (pool_MemberDisks (pool_Status p))) (\<lambda>disks.
     wp (if length disks < 2 then setJobPhase cl j RebalanceJobPhaseCompleted
         else if \<not> isImbalanced disks (job_ImbalanceThresholdPercent (job_Spec j))
         then setJobPhase cl j RebalanceJobPhaseCompleted
         else if job_Phase (job_Status j) = RebalanceJobPhasePending
         then setJobPhase cl j RebalanceJobPhasePlanning
         else if job_DryRun (job_Spec j) then setJobPhase cl j RebalanceJobPhaseCompleted
         else setJobPhase cl j RebalanceJobPhaseRunning) (job_step view n w)) w1"
proof (rule wp_memberDisks[OF w1], goal_cases)
  case (1 ds w2)
  note complete = job_trans.complete[OF t p 1(2)]
  have imb: "2 \<le> length ds \<Longrightarrow> isImbalanced ds (job_ImbalanceThresholdPercent (job_Spec j)) \<Longrightarrow> imbalanced_in (view w) j"
    using p 1(2) by (auto simp: imbalanced_in_def)
  show ?case
    using t imb by (auto intro!: wp_setJobPhase[OF 1(1) j] intro: complete job_trans.plan job_trans.run)
qed

lemma wp_Rebalance_Reconcile: "wp (Rebalance_Reconcile cl n) (job_step view n w) w"
  unfolding Rebalance_Reconcile_def wp
proof (rule wp_get, goal_cases)
  case (1 ob w1)
  then obtain j where ob: "ob = ORebalanceJob j" by (cases ob) auto
  have j: "view w KRebalanceJob n = Some (ORebalanceJob j)" "key_of (ORebalanceJob j) = n" using 1 ob by simp_all
  have w1: "view w1 = view w" using 1 by simp
  show ?case
  proof (cases "terminal (job_Phase (job_Status j))")
    case True
    then show ?thesis using w1 j(1)
      by (simp add: ob as_RebalanceJob_def wp terminal_def job_step_def only_changed_def job_at_iff)
  next
    case False
    then have c: "(job_Phase (job_Status j) = RebalanceJobPhaseCompleted \<or> job_Phase (job_Status j) = RebalanceJobPhaseFailed) = False"
      by (simp add: terminal_def)
    have fail: "wp (setJobPhase cl j RebalanceJobPhaseFailed) (job_step view n w) w2" if "view w2 = view w" for w2
      by (rule wp_setJobPhase[OF that j job_trans.fail[OF False]])
    show ?thesis
      unfolding ob as_RebalanceJob_def sum.case kobject.case c if_False wp_bind wp_case_sum
    proof (rule wp_get, goal_cases)
      case (1 ob w2)
      then obtain p where p: "ob = OPool p" by (cases ob) auto
      have pat: "pool_at (view w) (meta_Namespace (job_Meta j), job_PoolRef (job_Spec j)) = Some p"
        using 1 w1 p by (simp add: pool_at_iff)
      have w2: "view w2 = view w" using 1 w1 by simp
      show ?case
        unfolding p as_Pool_def sum.case kobject.case wp_bind wp_case_sum
      proof (rule wp_get, goal_cases)
        case (1 ob w3)
        then obtain q where q: "ob = OPlacementPolicy q" by (cases ob) auto
        have "view w3 = view w" using 1 w2 by simp
        then show ?case unfolding q as_PlacementPolicy_def sum.case kobject.case wp_bind
          by (rule wp_rebalance_decision[OF _ j False pat, unfolded wp_if])
      qed (use w2 fail in \<open>simp add: as_PlacementPolicy_def\<close>)
    qed (use w1 fail in \<open>simp add: as_Pool_def\<close>)
  qed
next
  case (2 e w1)
  then show ?case
    by (auto simp: as_RebalanceJob_def wp job_step_def only_changed_def job_at_def)
qed

end

section \<open>The imbalance check as a specification\<close>

lemma max_float_bigger: "2 ^ 80 \<le> max_float"
proof -
  have "(2::rat) ^ 80 \<le> 2 ^ 971" by (rule power_increasing) simp_all
  also have "\<dots> \<le> of_int (2 ^ 53 - 1) * 2 ^ 971" by simp
  finally show ?thesis by (simp add: max_float_def pow2_def)
qed

lemma lit_100: "lit 100 = Fin 100"
  using rnd_of_int[of 100] max_float_big by (simp add: lit_def fround_def Let_def)

lemma utilization_Fin:
  assumes "0 < sint (disk_CapacityBytes (disk_Status d))"
  shows "\<exists>r. utilization d = Fin r"
proof -
  let ?c = "disk_CapacityBytes (disk_Status d)"
  let ?a = "disk_CapacityBytes (disk_Status d) - disk_AvailableBytes (disk_Status d)"
  define x y where "x = rnd (of_int (sint ?a))" and "y = rnd (of_int (sint ?c))"
  have q: "fdiv (of_i64 ?a) (of_i64 ?c) = Fin (rnd (x / y))"
    unfolding x_def y_def by (rule fdiv_of_i64) (use assms in simp)
  have y: "1 \<le> y" using rnd_int_ge1[OF assms] by (simp add: y_def)
  have "\<bar>x / y\<bar> = \<bar>x\<bar> / y" using y by (simp add: abs_divide)
  also have "\<dots> \<le> \<bar>x\<bar> / 1" using y by (intro divide_left_mono) auto
  also have "\<dots> \<le> 2 ^ 63" using rnd_int_bound[of ?a] by (simp add: x_def)
  finally have b: "\<bar>x / y\<bar> \<le> 2 ^ 63" .
  have p: "rnd (2 ^ 63) = 2 ^ 63"
    by (rule rnd_exact[of _ 1 63]) (simp_all add: pow2_def)
  have "\<bar>rnd (x / y)\<bar> \<le> 2 ^ 63"
    using rnd_mono[of "x / y" "2 ^ 63"] rnd_mono[of "- (x / y)" "2 ^ 63"] abs_le_D1[OF b] abs_le_D2[OF b]
    unfolding p rnd_uminus abs_le_iff by blast
  then have "\<bar>rnd (x / y) * 100\<bar> \<le> 2 ^ 80" by (simp add: abs_mult)
  with max_float_bigger have "fround (rnd (x / y) * 100) = Fin (rnd (rnd (x / y) * 100))"
    by (intro fround_small) (rule order_trans)
  then show ?thesis by (simp add: utilization_def Let_def q lit_100)
qed

lemma utilizations_Fin: "\<exists>rs. utilizations ds = map Fin rs"
proof -
  have "\<forall>u \<in> set (utilizations ds). \<exists>r. u = Fin r"
    by (auto simp: utilizations_def dest: utilization_Fin)
  then show ?thesis by (induction "utilizations ds" arbitrary: ds) (metis ex_map_conv)+
qed

lemma foldl_min:
  "\<exists>m. foldl (\<lambda>mn u. if flt u mn then u else mn) (Fin a) (map Fin rs) = Fin m \<and>
     m \<in> insert a (set rs) \<and> (\<forall>r \<in> insert a (set rs). m \<le> r)"
proof (induction rs arbitrary: a)
  case Nil
  then show ?case by simp
next
  case (Cons r rs)
  from Cons.IH[of "if r < a then r else a"] show ?case by (auto split: if_splits)
qed

lemma foldl_max:
  "\<exists>m. foldl (\<lambda>mx u. if flt mx u then u else mx) (Fin a) (map Fin rs) = Fin m \<and>
     m \<in> insert a (set rs) \<and> (\<forall>r \<in> insert a (set rs). r \<le> m)"
proof (induction rs arbitrary: a)
  case Nil
  then show ?case by simp
next
  case (Cons r rs)
  from Cons.IH[of "if a < r then r else a"] show ?case by (auto split: if_splits)
qed

lemma fsub_Fin: "fsub (Fin x) (Fin y) = fround (x - y)"
  by (simp add: fsub_def)

lemma fabs_fround: "fabs (fround x) = fround \<bar>x\<bar>"
  using rnd_nonneg[of x] rnd_nonneg[of "- x"] max_float_pos
  by (cases "0 \<le> x") (auto simp: fround_def Let_def rnd_uminus)

lemma fround_0: "fround 0 = Fin 0"
  using max_float_pos by (simp add: fround_def Let_def)

lemma of_i64_pos: "0 < sint t \<Longrightarrow> \<not> flt (of_i64 t) (Fin 0)"
  using rnd_int_ge1[of "sint t"] by (simp add: of_i64_Fin)

lemma isImbalanced_spec:
  "isImbalanced ds t \<longleftrightarrow> 2 \<le> length ds \<and> 0 < sint t \<and>
     (\<exists>u \<in> set (utilizations ds). \<exists>v \<in> set (utilizations ds). flt (of_i64 t) (fabs (fsub u v)))"
proof -
  obtain rs where rs: "utilizations ds = map Fin rs" using utilizations_Fin by blast
  consider "rs = []" | r where "rs = [r]" | a b cs where "rs = a # b # cs" by (metis list.exhaust)
  then show ?thesis
  proof cases
    case 1
    then show ?thesis by (simp add: isImbalanced_def rs)
  next
    case 2
    then show ?thesis
      using of_i64_pos[of t] by (auto simp: isImbalanced_def rs fsub_Fin fround_0)
  next
    case 3
    obtain mn where mn: "foldl (\<lambda>mn u. if flt u mn then u else mn) (Fin a) (map Fin (b # cs)) = Fin mn"
      "mn \<in> set rs" "\<forall>r \<in> set rs. mn \<le> r" using foldl_min[of a "b # cs"] 3 by auto
    obtain mx where mx: "foldl (\<lambda>mx u. if flt mx u then u else mx) (Fin a) (map Fin (b # cs)) = Fin mx"
      "mx \<in> set rs" "\<forall>r \<in> set rs. r \<le> mx" using foldl_max[of a "b # cs"] 3 by auto
    have iff: "isImbalanced ds t \<longleftrightarrow> 2 \<le> length ds \<and> 0 < sint t \<and> flt (of_i64 t) (fabs (fsub (Fin mx) (Fin mn)))"
      unfolding isImbalanced_def rs 3 list.map list.case Let_def
      using mn(1) mx(1) unfolding list.map by auto
    have le: "fle (fabs (fsub (Fin x) (Fin y))) (fabs (fsub (Fin mx) (Fin mn)))" if "x \<in> set rs" "y \<in> set rs" for x y
    proof -
      have "mn \<le> x" "x \<le> mx" "mn \<le> y" "y \<le> mx" using mn(3) mx(3) that by blast+
      then have "\<bar>x - y\<bar> \<le> \<bar>mx - mn\<bar>" by linarith
      then show ?thesis unfolding fsub_Fin fabs_fround by (rule fround_mono)
    qed
    show ?thesis
      unfolding iff rs using mn(2) mx(2) le flt_fle_trans by fastforce
  qed
qed

text \<open>The imbalance check is what it says, rounding included: with at least two disks and a positive
  threshold it is true exactly when two disks of known capacity differ in utilization by more than
  the threshold.\<close>

lemma isImbalanced_iff:
  "isImbalanced ds t \<longleftrightarrow> 2 \<le> length ds \<and> 0 < sint t \<and>
     (\<exists>d \<in> set ds. \<exists>e \<in> set ds. 0 < sint (disk_CapacityBytes (disk_Status d)) \<and>
        0 < sint (disk_CapacityBytes (disk_Status e)) \<and>
        flt (of_i64 t) (fabs (fsub (utilization d) (utilization e))))"
  unfolding isImbalanced_spec utilizations_def by fastforce

section \<open>Properties of the job machine\<close>


text \<open>What a run of the queue preserves of a job.\<close>

definition job_kept :: "RebalanceJob \<Rightarrow> RebalanceJob \<Rightarrow> bool" where
  "job_kept j j' \<longleftrightarrow>
     job_Spec j' = job_Spec j \<and>
     (terminal (job_Phase (job_Status j)) \<longrightarrow> j' = j) \<and>
     (job_Phase (job_Status j') = RebalanceJobPhaseRunning \<longrightarrow>
        job_Phase (job_Status j) = RebalanceJobPhaseRunning \<or> \<not> job_DryRun (job_Spec j) \<and> job_StartTime (job_Status j') \<noteq> None) \<and>
     (terminal (job_Phase (job_Status j')) \<longrightarrow> j' = j \<or> job_CompletionTime (job_Status j') \<noteq> None) \<and>
     (job_StartTime (job_Status j) \<noteq> None \<longrightarrow> job_StartTime (job_Status j') = job_StartTime (job_Status j)) \<and>
     job_PlannedMoves (job_Status j') = job_PlannedMoves (job_Status j) \<and>
     job_CompletedMoves (job_Status j') = job_CompletedMoves (job_Status j) \<and>
     job_BytesMoved (job_Status j') = job_BytesMoved (job_Status j)"

lemma job_kept_refl: "job_kept j j"
  by (auto simp: job_kept_def)

lemma job_kept_trans: "job_kept i j \<Longrightarrow> job_kept j k \<Longrightarrow> job_kept i k"
  by (cases "terminal (job_Phase (job_Status j))"; auto simp: job_kept_def)

lemma job_trans_kept: "job_trans v j ph \<Longrightarrow> job_kept j (set_job_rv rv (job_with_phase ph t1 t2 j))"
  by (auto simp: job_trans_simps job_kept_def job_with_phase_def set_job_rv_def terminal_def)

definition jobs_kept :: "store \<Rightarrow> store \<Rightarrow> bool" where
  "jobs_kept v v' \<longleftrightarrow> (\<forall>n j. job_at v n = Some j \<longrightarrow> (\<exists>j'. job_at v' n = Some j' \<and> job_kept j j'))"

lemma job_step_kept:
  assumes "job_step view n w r w'" shows "jobs_kept (view w) (view w')"
  unfolding jobs_kept_def
proof (intro allI impI)
  fix n' j assume j: "job_at (view w) n' = Some j"
  show "\<exists>j'. job_at (view w') n' = Some j' \<and> job_kept j j'"
  proof (cases "n' = n")
    case True
    then show ?thesis using assms j job_kept_refl job_trans_kept by (fastforce simp: job_step_def)
  next
    case False
    then have "view w' KRebalanceJob n' = view w KRebalanceJob n'"
      using assms unfolding job_step_def by (elim conjE) (erule only_changed_other; simp)
    then show ?thesis using j job_kept_refl by (simp add: job_at_def)
  qed
qed

text \<open>Whatever the queue of job requests: a job that is Completed or Failed is never touched again, a
  dry run never becomes Running, a job that becomes Running has a start time and one that becomes
  terminal a completion time - and the counters of planned and completed moves and of bytes moved
  never change, so that no data is ever moved.\<close>

lemma Rebalance_queue_invariant:
  assumes "kube_api cl view"
  shows "wp (run_queue (Rebalance_Reconcile cl) ns) (\<lambda>_ w'. jobs_kept (view w) (view w')) w"
proof (rule wp_run_queue[where I = "\<lambda>w'. jobs_kept (view w) (view w')"])
  fix n w1 assume I: "jobs_kept (view w) (view w1)"
  show "wp (Rebalance_Reconcile cl n) (\<lambda>_ w'. jobs_kept (view w) (view w')) w1"
  proof (rule wp_mono[OF kube_api.wp_Rebalance_Reconcile[OF assms]])
    fix r w2 assume "job_step view n w1 r w2"
    then have "jobs_kept (view w1) (view w2)" by (rule job_step_kept)
    with I show "jobs_kept (view w) (view w2)" unfolding jobs_kept_def by (meson job_kept_trans)
  qed
next
  show "jobs_kept (view w) (view w)" by (auto simp: jobs_kept_def job_kept_refl)
qed

section \<open>Witnesses\<close>

definition demo_job :: "RebalanceJobPhase \<Rightarrow> bool \<Rightarrow> RebalanceJob" where
  "demo_job ph dry = \<lparr>job_Meta = ObjectMeta_zero\<lparr>meta_Name := ''rb'', meta_Namespace := ''nas''\<rparr>,
     job_Spec = \<lparr>job_PoolRef = ''tank'', job_PlacementPolicyRef = ''p'', job_MaxConcurrentMoves = 2, job_DryRun = dry,
       job_ImbalanceThresholdPercent = 20\<rparr>,
     job_Status = \<lparr>job_Phase = ph, job_PlannedMoves = 0, job_CompletedMoves = 0, job_BytesMoved = 0,
       job_StartTime = None, job_CompletionTime = None\<rparr>\<rparr>"

definition job_world :: mem where
  "job_world = pool_world
     \<lparr>mem_objs := (\<lambda>k n. if k = KRebalanceJob \<and> n = (''nas'', ''rb'') then Some (ORebalanceJob (demo_job RebalanceJobPhasePending True))
                      else mem_objs pool_world k n)\<rparr>"

lemma demo_job_at: "job_at (mem_view job_world) (''nas'', ''rb'') = Some (demo_job RebalanceJobPhasePending True)"
  by (simp add: job_at_def mem_view_def job_world_def demo_job_def deletion_done_def key_of_def ObjectMeta_zero_def)


lemma Rebalance_queue_invariant_witness:
  "wp (run_queue (Rebalance_Reconcile idle_env) [(''nas'', ''rb''), (''nas'', ''rb'')]) (\<lambda>_ w'.
     \<exists>j. job_at (mem_view w') (''nas'', ''rb'') = Some j \<and> job_Phase (job_Status j) \<noteq> RebalanceJobPhaseRunning) job_world"
  by (rule wp_mono[OF Rebalance_queue_invariant[OF idle_kube_api]])
    (use demo_job_at in \<open>fastforce simp: jobs_kept_def job_kept_def demo_job_def\<close>)

end
