(* ===== verification/Parity_Controller.thy ===== *)
theory Parity_Controller
  imports Array_Controller
begin

text \<open>
  The ParitySchedule reconciler (\<^verbatim>\<open>controllers/parity_controller.go\<close>): it resolves the ConfigMap with
  \<^verbatim>\<open>snapraid.conf\<close> from the first data disk of the array and keeps one CronJob for each of sync, check
  and scrub. Shown: which CronJobs an error-free call leaves, and that nothing else changes.
\<close>

section \<open>Resolving the configuration\<close>

definition resolveSnapraidConfigName :: "'w env \<Rightarrow> ParitySchedule \<Rightarrow> ('w, error + string) state" where
  "resolveSnapraidConfigName cl ps = do {
     ra \<leftarrow> env_get cl KArray (meta_Namespace (parity_Meta ps), parity_ArrayRef (parity_Spec ps));
     case as_Array ra of
       Inl err \<Rightarrow> State_Monad.return (Inl err)
     | Inr array \<Rightarrow>
         (case array_DataDisks (array_Spec array) of
            [] \<Rightarrow> State_Monad.return (Inl (ErrorString ''array has no data disks''))
          | primary # _ \<Rightarrow> do {
              rd \<leftarrow> env_get cl KDisk ('''', primary);
              case as_Disk rd of
                Inl err \<Rightarrow> State_Monad.return (Inl err)
              | Inr primaryDisk \<Rightarrow>
                  if disk_NodeName (disk_Spec primaryDisk) = ''''
                  then State_Monad.return (Inl (ErrorString
                    (''primary data disk '' @ Quote (meta_Name (disk_Meta primaryDisk)) @ '' has empty nodeName'')))
                  else State_Monad.return (Inr (''kubenas-snapraid-'' @ disk_NodeName (disk_Spec primaryDisk)))
            })
   }"

section \<open>The CronJob of an operation\<close>

definition buildCronJob :: "ParitySchedule \<Rightarrow> string \<Rightarrow> string \<Rightarrow> string \<Rightarrow> string \<Rightarrow> CronJob" where
  "buildCronJob ps name schedule command snapraidConfigName =
     \<lparr>cron_Meta = ObjectMeta_zero
        \<lparr>meta_Name := name,
         meta_Namespace := meta_Namespace (parity_Meta ps),
         meta_Labels := [''app.kubernetes.io/managed-by'' \<mapsto> ''kubenas-operator'',
           ''kubenas.io/array'' \<mapsto> parity_ArrayRef (parity_Spec ps)],
         meta_OwnerReferences :=
           [\<lparr>owner_APIVersion = ''storage.kubenas.io/v1alpha1'',
             owner_Kind = ''ParitySchedule'',
             owner_Name = meta_Name (parity_Meta ps),
             owner_UID = meta_UID (parity_Meta ps),
             owner_Controller = Some True,
             owner_BlockOwnerDeletion = Some True\<rparr>]\<rparr>,
      cron_Spec =
        \<lparr>cron_Schedule = schedule,
         cron_ConcurrencyPolicy = ''Forbid'',
         cron_SuccessfulJobsHistoryLimit = Some 3,
         cron_FailedJobsHistoryLimit = Some 3,
         cron_JobTemplate =
           \<lparr>job_BackoffLimit = Some 2,
            job_Template =
              \<lparr>podspec_RestartPolicy = ''OnFailure'',
               podspec_Containers =
                 [\<lparr>ctr_Name = ''snapraid'',
                   ctr_Image = ''ghcr.io/kubenas/snapraid-runner:latest'',
                   ctr_Command = [''/bin/sh'', ''-c'', command],
                   ctr_Ports = [],
                   ctr_LivenessProbe = None,
                   ctr_ReadinessProbe = None,
                   ctr_Privileged = Some True,
                   ctr_VolumeMounts =
                     [\<lparr>vm_Name = ''host-mnt'', vm_MountPath = ''/mnt'', vm_SubPath = ''''\<rparr>,
                      \<lparr>vm_Name = ''snapraid-conf'', vm_MountPath = ''/etc/snapraid.conf'', vm_SubPath = ''snapraid.conf''\<rparr>]\<rparr>],
               podspec_Volumes =
                 [\<lparr>vol_Name = ''host-mnt'', vol_Source = HostPath ''/mnt''\<rparr>,
                  \<lparr>vol_Name = ''snapraid-conf'', vol_Source = ConfigMapVolume snapraidConfigName\<rparr>]\<rparr>\<rparr>\<rparr>\<rparr>"

definition cronJobName :: "ParitySchedule \<Rightarrow> string \<Rightarrow> string" where
  "cronJobName ps opName = ''kubenas-parity-'' @ meta_Name (parity_Meta ps) @ ''-'' @ opName"

definition cron_with :: "string \<Rightarrow> JobTemplate \<Rightarrow> CronJob \<Rightarrow> CronJob" where
  "cron_with schedule template cj =
     cj\<lparr>cron_Spec := (cron_Spec cj)\<lparr>cron_Schedule := schedule, cron_JobTemplate := template\<rparr>\<rparr>"

definition ensureCronJob ::
  "'w env \<Rightarrow> ParitySchedule \<Rightarrow> string \<Rightarrow> string \<Rightarrow> string \<Rightarrow> string \<Rightarrow> ('w, error option) state" where
  "ensureCronJob cl ps snapraidConfigName opName schedule command = do {
     let desired = buildCronJob ps (cronJobName ps opName) schedule command snapraidConfigName;
     r \<leftarrow> env_get cl KCronJob (meta_Namespace (parity_Meta ps), cronJobName ps opName);
     case as_CronJob r of
       Inl err \<Rightarrow> if IsNotFound err then env_create cl (OCronJob desired) else State_Monad.return (Some err)
     | Inr existing \<Rightarrow>
         env_update cl (OCronJob (cron_with schedule (cron_JobTemplate (cron_Spec desired)) existing))
   }"

definition scrubPct :: "ParitySchedule \<Rightarrow> int" where
  "scrubPct ps = (if parity_ScrubPercentage (parity_Spec ps) > 0 then parity_ScrubPercentage (parity_Spec ps) else 100)"

text \<open>Name, schedule and command of the three operations, in the order of the loop.\<close>

definition parity_ops :: "ParitySchedule \<Rightarrow> (string \<times> string \<times> string) list" where
  "parity_ops ps =
     [(''sync'', parity_SyncCron (parity_Spec ps), ''snapraid sync''),
      (''check'', parity_CheckCron (parity_Spec ps), ''snapraid check''),
      (''scrub'', parity_ScrubCron (parity_Spec ps), ''snapraid scrub -p '' @ show_int (scrubPct ps))]"

fun ensureCronJobs ::
  "'w env \<Rightarrow> ParitySchedule \<Rightarrow> string \<Rightarrow> (string \<times> string \<times> string) list \<Rightarrow> ('w, ctrl_Result \<times> error option) state" where
  "ensureCronJobs cl ps cfg [] = State_Monad.return (requeue_after 300, None)"
| "ensureCronJobs cl ps cfg ((name, schedule, command) # ops) = do {
     e \<leftarrow> ensureCronJob cl ps cfg name schedule command;
     case e of
       Some err \<Rightarrow> State_Monad.return (Result_zero, Some (WrapError (''ensuring '' @ name @ '' cronjob'') err))
     | None \<Rightarrow> ensureCronJobs cl ps cfg ops
   }"

definition Parity_Reconcile :: "'w env \<Rightarrow> nskey \<Rightarrow> ('w, ctrl_Result \<times> error option) state" where
  "Parity_Reconcile cl req = do {
     r \<leftarrow> env_get cl KParitySchedule req;
     case as_ParitySchedule r of
       Inl err \<Rightarrow> State_Monad.return (Result_zero, if IsNotFound err then None else Some err)
     | Inr ps \<Rightarrow> do {
         c \<leftarrow> resolveSnapraidConfigName cl ps;
         case c of
           Inl err \<Rightarrow> State_Monad.return (Result_zero,
             Some (WrapError (''resolving snapraid config for array '' @ Quote (parity_ArrayRef (parity_Spec ps))) err))
         | Inr cfg \<Rightarrow> ensureCronJobs cl ps cfg (parity_ops ps)
       }
   }"

section \<open>Lemmas\<close>

definition parity_at :: "store \<Rightarrow> nskey \<Rightarrow> ParitySchedule option" where
  "parity_at v n = (case v KParitySchedule n of Some (OParitySchedule ps) \<Rightarrow> Some ps | _ \<Rightarrow> None)"

text \<open>The configuration the stored array and its first data disk give.\<close>

definition parity_config :: "store \<Rightarrow> ParitySchedule \<Rightarrow> string option" where
  "parity_config v ps =
     (case array_at v (meta_Namespace (parity_Meta ps), parity_ArrayRef (parity_Spec ps)) of
        None \<Rightarrow> None
      | Some a \<Rightarrow>
          (case array_DataDisks (array_Spec a) of
             [] \<Rightarrow> None
           | primary # _ \<Rightarrow>
               (case disk_at v ('''', primary) of
                  None \<Rightarrow> None
                | Some d \<Rightarrow> if disk_NodeName (disk_Spec d) = '''' then None
                            else Some (''kubenas-snapraid-'' @ disk_NodeName (disk_Spec d)))))"

definition cron_key :: "ParitySchedule \<Rightarrow> string \<Rightarrow> nskey" where
  "cron_key ps opName = (meta_Namespace (parity_Meta ps), cronJobName ps opName)"

definition cron_ok :: "store \<Rightarrow> ParitySchedule \<Rightarrow> string \<Rightarrow> string \<times> string \<times> string \<Rightarrow> bool" where
  "cron_ok v ps cfg op \<longleftrightarrow> (case op of (opName, schedule, command) \<Rightarrow>
     (\<exists>cj. v KCronJob (cron_key ps opName) = Some (OCronJob cj) \<and>
        cron_Schedule (cron_Spec cj) = schedule \<and>
        cron_JobTemplate (cron_Spec cj)
          = cron_JobTemplate (cron_Spec (buildCronJob ps (cronJobName ps opName) schedule command cfg))))"

definition crons_changed :: "('w \<Rightarrow> store) \<Rightarrow> ParitySchedule \<Rightarrow> string set \<Rightarrow> 'w \<Rightarrow> 'w \<Rightarrow> bool" where
  "crons_changed view ps names w w' \<longleftrightarrow>
     (\<forall>k. k \<noteq> KCronJob \<longrightarrow> view w' k = view w k) \<and>
     (\<forall>n. n \<notin> cron_key ps ` names \<longrightarrow> view w' KCronJob n = view w KCronJob n)"

lemma cron_key_inject [simp]: "cron_key ps a = cron_key ps b \<longleftrightarrow> a = b"
  by (simp add: cron_key_def cronJobName_def)

lemma crons_changed_refl: "view w' = view w \<Longrightarrow> crons_changed view ps names w w'"
  by (simp add: crons_changed_def)

lemma crons_changed_set:
  "view w' = store_set (view w) KCronJob (cron_key ps a) x \<Longrightarrow> a \<in> names \<Longrightarrow> crons_changed view ps names w w'"
  by (auto simp: crons_changed_def fun_eq_iff)

lemma crons_changed_trans:
  "crons_changed view ps A w w' \<Longrightarrow> crons_changed view ps B w' w'' \<Longrightarrow> A \<union> B \<subseteq> C \<Longrightarrow> crons_changed view ps C w w''"
  unfolding crons_changed_def by (metis UnCI image_Un sup.absorb_iff2)

lemma cron_ok_kept: "cron_ok (view w) ps cfg (a, s, c) \<Longrightarrow> crons_changed view ps names w w' \<Longrightarrow> a \<notin> names \<Longrightarrow>
    cron_ok (view w') ps cfg (a, s, c)"
  unfolding cron_ok_def crons_changed_def prod.case by (metis cron_key_inject imageE)

lemma cron_with_sel [simp]:
  "cron_Meta (cron_with s t cj) = cron_Meta cj"
  "cron_Schedule (cron_Spec (cron_with s t cj)) = s" "cron_JobTemplate (cron_Spec (cron_with s t cj)) = t"
  by (simp_all add: cron_with_def)

lemma cron_ok_stored:
  "v KCronJob (cron_key ps a) = Some (map_meta f (OCronJob cj)) \<Longrightarrow> cron_Schedule (cron_Spec cj) = s \<Longrightarrow>
   cron_JobTemplate (cron_Spec cj) = cron_JobTemplate (cron_Spec (buildCronJob ps (cronJobName ps a) s c cfg)) \<Longrightarrow>
   cron_ok v ps cfg (a, s, c)"
  by (simp add: cron_ok_def)

lemma key_buildCronJob [simp]: "key_of (OCronJob (buildCronJob ps (cronJobName ps a) s c cfg)) = cron_key ps a"
  by (simp add: key_of_def buildCronJob_def ObjectMeta_zero_def cron_key_def)

lemma Schedule_buildCronJob [simp]: "cron_Schedule (cron_Spec (buildCronJob ps nm s c cfg)) = s"
  by (simp add: buildCronJob_def)

context kube_api begin

lemma wp_resolveSnapraidConfigName:
  assumes "view w = v"
    and "\<And>cfg w'. view w' = v \<Longrightarrow> parity_config v ps = Some cfg \<Longrightarrow> Q (Inr cfg) w'"
    and "\<And>e w'. view w' = v \<Longrightarrow> Q (Inl e) w'"
  shows "wp (resolveSnapraidConfigName cl ps) Q w"
  unfolding resolveSnapraidConfigName_def wp
proof (rule wp_get, goal_cases)
  case (1 ob w1)
  then obtain a where a: "ob = OArray a" by (cases ob) auto
  have at: "array_at v (meta_Namespace (parity_Meta ps), parity_ArrayRef (parity_Spec ps)) = Some a"
    using 1 a assms(1) by (simp add: array_at_def)
  have v1: "view w1 = v" using 1(1) assms(1) by simp
  show ?case
  proof (cases "array_DataDisks (array_Spec a)")
    case Nil
    then show ?thesis using v1 by (simp add: a as_Array_def wp assms(3))
  next
    case (Cons primary rest)
    show ?thesis unfolding a as_Array_def sum.case kobject.case Cons list.case wp
    proof (rule wp_get, goal_cases)
      case (1 ob w2)
      then obtain d where d: "ob = ODisk d" by (cases ob) auto
      have "disk_at v ('''', primary) = Some d" using 1 d v1 by (simp add: disk_at_def)
      then show ?case using 1(1) v1 at Cons
        by (auto simp: d as_Disk_def wp parity_config_def intro: assms)
    next
      case (2 e w2)
      then show ?case using v1 by (simp add: as_Disk_def wp assms(3))
    qed
  qed
next
  case (2 e w1)
  then show ?case using assms by (simp add: as_Array_def wp)
qed

lemma wp_ensureCronJob:
  assumes ok: "\<And>w'. crons_changed view ps {a} w w' \<Longrightarrow> cron_ok (view w') ps cfg (a, s, c) \<Longrightarrow> Q None w'"
    and err: "\<And>e w'. view w' = view w \<Longrightarrow> Q (Some e) w'"
  shows "wp (ensureCronJob cl ps cfg a s c) Q w"
  unfolding ensureCronJob_def Let_def wp cron_key_def[symmetric]
proof (rule wp_get, goal_cases)
  case (1 ob w1)
  then obtain cj where cj: "ob = OCronJob cj" by (cases ob) auto
  let ?new = "cron_with s (cron_JobTemplate (cron_Spec (buildCronJob ps (cronJobName ps a) s c cfg))) cj"
  have k: "key_of (OCronJob ?new) = cron_key ps a" using 1 cj by (simp add: key_of_def)
  have nd: "\<not> deletion_done (OCronJob ?new)" using 1 cj by (simp add: deletion_done_def)
  show ?case unfolding cj as_CronJob_def sum.case kobject.case
  proof (rule wp_update, goal_cases)
    case (1 old rv w2)
    then have "old = OCronJob cj" using \<open>view w1 = view w\<close> \<open>view w KCronJob _ = _\<close> cj k by simp
    then have "view w2 = store_set (view w) KCronJob (cron_key ps a) (Some (with_rv rv (OCronJob ?new)))"
      using 1(2) nd k \<open>view w1 = view w\<close> by simp
    then show ?case
      by (intro ok) (auto intro: crons_changed_set cron_ok_stored simp: with_rv_def)
  next
    case (2 e w2)
    then show ?case using \<open>view w1 = view w\<close> by (simp add: err)
  qed
next
  case (2 e w1)
  show ?case unfolding as_CronJob_def sum.case wp
  proof (simp, intro conjI impI)
    show "wp (env_create cl (OCronJob (buildCronJob ps (cronJobName ps a) s c cfg))) Q w1"
    proof (rule wp_create, goal_cases)
      case (1 rv u w2)
      then have "view w2 = store_set (view w) KCronJob (cron_key ps a)
          (Some (with_uid u (with_rv rv (OCronJob (buildCronJob ps (cronJobName ps a) s c cfg)))))"
        using \<open>view w1 = view w\<close> by simp
      then show ?case
        by (intro ok) (auto intro: crons_changed_set simp: with_rv_def with_uid_def cron_ok_def)
    next
      case (2 e w2)
      then show ?case using \<open>view w1 = view w\<close> by (simp add: err)
    qed
    show "Q (Some e) w1" by (rule err) fact
  qed
qed

lemma wp_ensureCronJobs:
  assumes "distinct (map fst ops)"
  shows "wp (ensureCronJobs cl ps cfg ops) (\<lambda>r w'. crons_changed view ps (fst ` set ops) w w' \<and>
     (snd r = None \<longrightarrow> r = (requeue_after 300, None) \<and> (\<forall>op \<in> set ops. cron_ok (view w') ps cfg op))) w"
  using assms
proof (induction ops arbitrary: w)
  case Nil
  then show ?case by (simp add: wp crons_changed_refl)
next
  case (Cons op ops)
  obtain a s c where op: "op = (a, s, c)" by (cases op)
  show ?case unfolding op ensureCronJobs.simps wp
  proof (rule wp_ensureCronJob, goal_cases)
    case (1 w1)
    show ?case unfolding option.case
    proof (rule wp_mono[OF Cons.IH], goal_cases)
      case (2 r w2)
      moreover have "a \<notin> fst ` set ops" using Cons.prems op by simp
      ultimately show ?case using 1 by (auto intro: crons_changed_trans cron_ok_kept)
    qed (use Cons.prems in simp)
  next
    case (2 e w1)
    then show ?case by (simp add: wp crons_changed_refl)
  qed
qed

end

text \<open>The state a schedule asks for: the three CronJobs, for the configuration of its array.\<close>

definition parity_installed :: "store \<Rightarrow> store \<Rightarrow> ParitySchedule \<Rightarrow> bool" where
  "parity_installed v v' ps \<longleftrightarrow>
     (\<exists>cfg. parity_config v ps = Some cfg \<and>
        cron_ok v' ps cfg (''sync'', parity_SyncCron (parity_Spec ps), ''snapraid sync'') \<and>
        cron_ok v' ps cfg (''check'', parity_CheckCron (parity_Spec ps), ''snapraid check'') \<and>
        cron_ok v' ps cfg (''scrub'', parity_ScrubCron (parity_Spec ps), ''snapraid scrub -p '' @ show_int (scrubPct ps)))"

context kube_api begin

lemma wp_Parity_Reconcile:
  assumes "parity_at (view w) n = Some ps"
  shows "wp (Parity_Reconcile cl n) (\<lambda>r w'. crons_changed view ps {''sync'', ''check'', ''scrub''} w w' \<and>
     (snd r = None \<longrightarrow> r = (requeue_after 300, None) \<and> parity_installed (view w) (view w') ps)) w"
  unfolding Parity_Reconcile_def wp
proof (rule wp_get, goal_cases)
  case (1 ob w1)
  then have ps: "ob = OParitySchedule ps" using assms by (simp add: parity_at_def split: kobject.splits)
  have d: "distinct (map fst (parity_ops ps))" by (simp add: parity_ops_def)
  have s: "fst ` set (parity_ops ps) = {''sync'', ''check'', ''scrub''}" by (auto simp: parity_ops_def)
  show ?case unfolding ps as_ParitySchedule_def sum.case kobject.case wp
  proof (rule wp_resolveSnapraidConfigName[OF 1(1)], goal_cases)
    case (1 cfg w2)
    show ?case unfolding sum.case
      by (rule wp_mono[OF wp_ensureCronJobs[OF d]])
        (use 1 in \<open>auto simp: s crons_changed_def parity_installed_def parity_ops_def\<close>)
  next
    case (2 e w2)
    then show ?case by (simp add: wp crons_changed_refl)
  qed
next
  case (2 e w1)
  then show ?case using assms by (auto simp: as_ParitySchedule_def wp crons_changed_refl parity_at_def)
qed

end

section \<open>Properties\<close>


section \<open>Witnesses\<close>

definition demo_schedule :: ParitySchedule where
  "demo_schedule = \<lparr>parity_Meta = ObjectMeta_zero\<lparr>meta_Name := ''nightly'', meta_Namespace := ''nas''\<rparr>,
     parity_Spec = \<lparr>parity_ArrayRef = ''main'', parity_SyncCron = ''0 1 * * *'', parity_CheckCron = ''0 2 * * 0'',
       parity_ScrubCron = ''0 3 1 * *'', parity_ScrubPercentage = 12\<rparr>,
     parity_Status = \<lparr>parity_LastSyncTime = None, parity_LastCheckTime = None, parity_LastScrubTime = None,
       parity_LastSyncResult = ''''\<rparr>\<rparr>"

definition parity_world :: mem where
  "parity_world = array_world
     \<lparr>mem_objs := (\<lambda>k n. if k = KParitySchedule \<and> n = (''nas'', ''nightly'') then Some (OParitySchedule demo_schedule)
                      else mem_objs array_world k n)\<rparr>"


end
