(* ===== verification/Json_Float.thy ===== *)
theory Json_Float
  imports Json
begin

text \<open>
  Printing a float in JSON, \<^verbatim>\<open>encoding/json\<close>'s \<^verbatim>\<open>floatEncoder\<close> over \<^verbatim>\<open>strconv.AppendFloat(f, fmt, -1, 64)\<close>:
  the shortest decimal that reads back as the same double, in positional notation for
  \<open>1e-6 \<le> |f| < 1e21\<close> and in scientific notation otherwise. The search runs over 1 to 17 digits, which
  are enough for every double; the exact decimal expansion is the last resort of the definition, so that
  reading back what was printed gives the value in every case (\<open>num_f64_print\<close>). The model of doubles
  has one zero, so the text \<^verbatim>\<open>-0\<close> does not occur.
\<close>

section \<open>Shortest decimals\<close>

text \<open>\<open>\<lfloor>log10 x\<rfloor>\<close> for \<open>0 < x\<close>; the fuel bounds the leading zeros of a double below 1.\<close>

fun lead_zeros :: "nat \<Rightarrow> rat \<Rightarrow> nat" where
  "lead_zeros 0 x = 0"
| "lead_zeros (Suc n) x = (if 1 \<le> x then 0 else Suc (lead_zeros n (10 * x)))"

definition ilog10 :: "rat \<Rightarrow> int" where
  "ilog10 x = (if 1 \<le> x then int (length (show_nat (nat \<lfloor>x\<rfloor>))) - 1 else - int (lead_zeros 330 x))"

type_synonym decimal = "nat \<times> int" \<comment> \<open>\<open>(m, e)\<close> is m * 10 ^ e\<close>

definition dec_val :: "decimal \<Rightarrow> rat" where
  "dec_val d = (case d of (m, e) \<Rightarrow> rat_of_nat m * pow10 e)"

definition reads_as :: "rat \<Rightarrow> decimal \<Rightarrow> bool" where
  "reads_as x d \<longleftrightarrow> 0 < fst d \<and> rnd (dec_val d) = x"

text \<open>The two neighbours of \<open>x\<close> among the decimals with \<open>n\<close> digits; the closer one that reads back.\<close>

definition try_digits :: "rat \<Rightarrow> nat \<Rightarrow> decimal option" where
  "try_digits x n =
     (let e = ilog10 x - int n + 1;
          lo = nat \<lfloor>x / pow10 e\<rfloor>;
          ok = filter (reads_as x)
            (if x / pow10 e - of_nat lo \<le> 1 / 2 then [(lo, e), (Suc lo, e)] else [(Suc lo, e), (lo, e)])
      in case ok of [] \<Rightarrow> None | d # _ \<Rightarrow> Some d)"

fun first_some :: "('a \<Rightarrow> 'b option) \<Rightarrow> 'a list \<Rightarrow> 'b option" where
  "first_some f [] = None"
| "first_some f (x # xs) = (case f x of Some y \<Rightarrow> Some y | None \<Rightarrow> first_some f xs)"

text \<open>No double has more decimal places than the smallest one, \<open>2 ^ -1074\<close>.\<close>

definition max_places :: nat where
  "max_places = 1074"

definition exact_decimal :: "rat \<Rightarrow> decimal" where
  "exact_decimal x = (nat \<lfloor>x * 10 ^ max_places\<rfloor>, - int max_places)"

fun strip_zeros :: "nat \<Rightarrow> int \<Rightarrow> decimal" where
  "strip_zeros m e = (if m \<noteq> 0 \<and> m mod 10 = 0 then strip_zeros (m div 10) (e + 1) else (m, e))"

declare strip_zeros.simps [simp del]

definition shortest :: "rat \<Rightarrow> decimal" where
  "shortest x =
     (let d = (case first_some (try_digits x) [1..<18] of Some d \<Rightarrow> d | None \<Rightarrow> exact_decimal x)
      in strip_zeros (fst d) (snd d))"

section \<open>Layout\<close>

definition zeros :: "nat \<Rightarrow> string" where
  "zeros n = replicate n (CHR ''0'')"

text \<open>\<open>%f\<close> and \<open>%e\<close> of the digits \<open>ds\<close> with the decimal point after \<open>dp\<close> of them.\<close>

definition fmt_f :: "string \<Rightarrow> int \<Rightarrow> string" where
  "fmt_f ds dp =
     (let nd = int (length ds);
          ip = (if 0 < dp then take (nat dp) ds @ zeros (nat (dp - nd)) else ''0'');
          fp = (if 0 < dp then drop (nat dp) ds else zeros (nat (- dp)) @ ds)
      in if fp = [] then ip else ip @ CHR ''.'' # fp)"

definition fmt_exp :: "int \<Rightarrow> string" where
  "fmt_exp x = (if x < 0 then ''-'' @ show_nat (nat (- x))
     else ''+'' @ (if x < 10 then ''0'' else []) @ show_nat (nat x))"

definition fmt_e :: "string \<Rightarrow> int \<Rightarrow> string" where
  "fmt_e ds dp =
     take 1 ds @ (if length ds > 1 then CHR ''.'' # drop 1 ds else []) @ CHR ''e'' # fmt_exp (dp - 1)"

definition print_pos :: "rat \<Rightarrow> string" where
  "print_pos x =
     (case shortest x of (m, e) \<Rightarrow>
        (let ds = show_nat m; dp = int (length ds) + e
         in if x < 1 / 10 ^ 6 \<or> 10 ^ 21 \<le> x then fmt_e ds dp else fmt_f ds dp))"

text \<open>\<^verbatim>\<open>json.Marshal\<close> refuses NaN and infinities.\<close>

definition print_f64 :: "f64 \<Rightarrow> string option" where
  "print_f64 x =
     (case x of Fin r \<Rightarrow> Some (if r = 0 then ''0'' else if r < 0 then ''-'' @ print_pos (- r) else print_pos r)
      | _ \<Rightarrow> None)"

section \<open>Reading back\<close>

lemma pow10_powi: "pow10 e = 10 powi e"
  by (simp add: pow10_def power_int_def field_simps)

lemma pow10_add: "pow10 (a + b) = pow10 a * pow10 b"
  by (simp add: pow10_powi power_int_add)

lemma pow10_pos [simp]: "0 < pow10 e"
  by (simp add: pow10_def)

lemma pow10_nat: "pow10 (int n) = 10 ^ n"
  by (simp add: pow10_def)

lemma strip_zeros_ok: "0 < m \<Longrightarrow> dec_val (strip_zeros m e) = dec_val (m, e) \<and> 0 < fst (strip_zeros m e)"
proof (induction m e rule: strip_zeros.induct)
  case (1 m e)
  show ?case
  proof (cases "m mod 10 = 0")
    case True
    then have m: "m = 10 * (m div 10)" by auto
    then have "0 < m div 10" using 1(2) by linarith
    with 1 True have ih: "dec_val (strip_zeros (m div 10) (e + 1)) = dec_val (m div 10, e + 1) \<and>
        0 < fst (strip_zeros (m div 10) (e + 1))" by simp
    have "dec_val (m div 10, e + 1) = rat_of_nat (10 * (m div 10)) * pow10 e"
      by (simp add: dec_val_def pow10_add pow10_def[of 1])
    moreover have "strip_zeros m e = strip_zeros (m div 10) (e + 1)"
      using True 1(2) by (subst strip_zeros.simps) simp
    ultimately show ?thesis using ih m by (simp add: dec_val_def)
  next
    case False
    then have "strip_zeros m e = (m, e)" by (subst strip_zeros.simps) simp
    then show ?thesis using 1(2) by simp
  qed
qed

lemma first_some_Some: "first_some f xs = Some y \<Longrightarrow> \<exists>x \<in> set xs. f x = Some y"
  by (induction xs) (auto split: option.splits)

lemma filter_first: "(case filter P xs of [] \<Rightarrow> None | d # _ \<Rightarrow> Some d) = Some d \<Longrightarrow> P d"
  by (induction xs) (auto split: if_splits)

lemma try_digits_reads: "try_digits x n = Some d \<Longrightarrow> reads_as x d"
  unfolding try_digits_def Let_def by (rule filter_first)

lemma pow2_scaled_10:
  assumes "- int K \<le> e" shows "pow2 e * 10 ^ K = of_int (5 ^ K * 2 ^ nat (int K + e))"
proof -
  have "pow2 (int K) = 2 ^ K" by (simp add: pow2_def)
  then have "pow2 e * 2 ^ K = pow2 (e + int K)" by (simp add: pow2_add)
  also have "\<dots> = of_int (2 ^ nat (int K + e))" using assms by (subst pow2_nat) (simp_all add: add.commute)
  finally have two: "pow2 e * 2 ^ K = of_int (2 ^ nat (int K + e))" .
  have "(10 :: rat) ^ K = 2 ^ K * 5 ^ K"
    by (subst power_mult_distrib[symmetric]) simp
  then have "pow2 e * 10 ^ K = (pow2 e * 2 ^ K) * 5 ^ K"
    by (simp only: mult.assoc)
  then show ?thesis using two by (simp only: of_int_mult of_int_power of_int_numeral mult.commute)
qed

lemma exact_decimal_reads:
  assumes "0 < x" "rnd x = x" shows "reads_as x (exact_decimal x)"
proof -
  obtain n e where ne: "x = of_int n * pow2 e" "- int max_places \<le> e"
    unfolding max_places_def using rnd_form[of x] assms(2) by (metis of_nat_numeral)
  have "x * 10 ^ max_places = of_int (n * (5 ^ max_places * 2 ^ nat (int max_places + e)))"
    using ne(1) pow2_scaled_10[OF ne(2)] by (simp only: of_int_mult mult.assoc)
  then obtain k where k: "x * 10 ^ max_places = of_int k" by blast
  have pos: "0 < k" using assms(1) k by (metis mult_pos_pos of_int_0_less_iff zero_less_numeral zero_less_power)
  have "dec_val (exact_decimal x) = rat_of_int k * pow10 (- int max_places)"
    using pos unfolding dec_val_def exact_decimal_def prod.case k by simp
  also have "\<dots> = rat_of_int k / 10 ^ max_places"
    unfolding pow10_powi by (simp add: power_int_minus divide_inverse)
  also have "\<dots> = x" unfolding k[symmetric] by simp
  finally have "dec_val (exact_decimal x) = x" .
  then show ?thesis using assms(2) pos k by (simp add: reads_as_def exact_decimal_def)
qed

lemma shortest_reads:
  assumes "0 < x" "rnd x = x" shows "reads_as x (shortest x)"
proof -
  obtain d where d: "reads_as x d" "shortest x = strip_zeros (fst d) (snd d)"
    unfolding shortest_def Let_def
    using exact_decimal_reads[OF assms] first_some_Some[of "try_digits x"] try_digits_reads
    by (cases "first_some (try_digits x) [1..<18]") (simp, metis option.simps(5))
  then show ?thesis using strip_zeros_ok[of "fst d" "snd d"] by (simp add: reads_as_def)
qed

text \<open>A literal from its pieces: integer digits, fraction digits (no point when there are none), exponent.\<close>

definition num_text :: "string \<Rightarrow> string \<Rightarrow> string option \<Rightarrow> string" where
  "num_text ip fp ex = ip @ (if fp = [] then [] else CHR ''.'' # fp) @ (case ex of None \<Rightarrow> [] | Some x \<Rightarrow> CHR ''e'' # x)"

lemma not_digit_marks [simp]: "\<not> is_digit (CHR ''.'')" "\<not> is_digit (CHR ''e'')"
  by (simp_all add: is_digit_def)

lemma takeWhile_digits_append:
  "list_all is_digit a \<Longrightarrow> (case r of [] \<Rightarrow> True | c # _ \<Rightarrow> \<not> is_digit c) \<Longrightarrow>
   takeWhile is_digit (a @ r) = a \<and> dropWhile is_digit (a @ r) = r"
  by (induction a) (auto split: list.splits)

lemma num_text_pieces:
  assumes "ip \<noteq> []" "list_all is_digit ip" "list_all is_digit fp"
  shows "num_int (num_text ip fp ex) = ip" "num_frac (num_text ip fp ex) = (if fp = [] then None else Some fp)"
    "num_exp (num_text ip fp ex) = ex" "\<not> HasPrefix (num_text ip fp ex) ''-''"
proof -
  let ?r = "(if fp = [] then [] else CHR ''.'' # fp) @ (case ex of None \<Rightarrow> [] | Some x \<Rightarrow> CHR ''e'' # x)"
  obtain c cs where c: "ip = c # cs" using assms(1) by (cases ip) auto
  then have "is_digit c" using assms(2) by simp
  then have m: "c \<noteq> CHR ''-''" using not_digit_minus by metis
  then have d: "drop_sign ''-'' (num_text ip fp ex) = ip @ ?r"
    by (simp add: num_text_def drop_sign_def c)
  have tw: "takeWhile is_digit (ip @ ?r) = ip \<and> dropWhile is_digit (ip @ ?r) = ?r"
    by (rule takeWhile_digits_append[OF assms(2)]) (auto split: option.split)
  have tf: "takeWhile is_digit (fp @ (case ex of None \<Rightarrow> [] | Some x \<Rightarrow> CHR ''e'' # x)) = fp \<and>
      dropWhile is_digit (fp @ (case ex of None \<Rightarrow> [] | Some x \<Rightarrow> CHR ''e'' # x)) =
        (case ex of None \<Rightarrow> [] | Some x \<Rightarrow> CHR ''e'' # x)"
    by (rule takeWhile_digits_append[OF assms(3)]) (auto split: option.split)
  have a: "after_int (num_text ip fp ex) = ?r" using tw by (simp only: after_int_def d)
  show "num_int (num_text ip fp ex) = ip" using tw by (simp only: num_int_def d)
  show "num_frac (num_text ip fp ex) = (if fp = [] then None else Some fp)"
    unfolding num_frac_def a using tf by (auto split: option.splits)
  show "num_exp (num_text ip fp ex) = ex"
    unfolding num_exp_def a using tf by (auto split: option.splits)
  show "\<not> HasPrefix (num_text ip fp ex) ''-''" using m by (simp add: num_text_def HasPrefix_def c)
qed

lemma num_rat_text:
  assumes "ip \<noteq> []" "list_all is_digit ip" "list_all is_digit fp"
  shows "num_rat (num_text ip fp ex) =
    rat_of_nat (read_nat (ip @ fp)) * pow10 (num_exponent (num_text ip fp ex) - int (length fp))"
  unfolding num_rat_def Let_def using num_text_pieces[OF assms] by simp

lemma num_exponent_text:
  assumes "ip \<noteq> []" "list_all is_digit ip" "list_all is_digit fp"
  shows "num_exponent (num_text ip fp None) = 0" "num_exponent (num_text ip fp (Some (fmt_exp x))) = x"
proof -
  show "num_exponent (num_text ip fp None) = 0"
    by (simp add: num_exponent_def num_text_pieces[OF assms])
  have z: "read_nat (CHR ''0'' # s) = read_nat s" for s by (simp add: read_nat_def)
  show "num_exponent (num_text ip fp (Some (fmt_exp x))) = x"
    by (simp add: num_exponent_def num_text_pieces[OF assms] fmt_exp_def HasPrefix_def drop_sign_def z)
qed

lemma read_nat_zeros: "read_nat (s @ zeros n) = read_nat s * 10 ^ n"
proof (induction n)
  case (Suc n)
  have "zeros (Suc n) = zeros n @ ''0''" by (simp add: zeros_def replicate_append_same)
  then show ?case using Suc read_nat_snoc[of "s @ zeros n" "CHR ''0''"] by simp
qed (simp add: zeros_def)

lemma read_zeros_nat: "read_nat (zeros n @ s) = read_nat s"
  by (induction n) (simp_all add: zeros_def read_nat_def)

lemma zeros_1: "zeros 1 = ''0''"
  by (simp add: zeros_def)

lemma digits_zeros [simp]: "list_all is_digit (zeros n)"
  by (simp add: zeros_def list_all_iff is_digit_def)

lemma show_nat_pieces:
  assumes "0 < m" obtains c r where "show_nat m = c # r" "c \<noteq> CHR ''0''" "is_digit c" "list_all is_digit r"
proof -
  obtain c r where "show_nat m = c # r" "c \<noteq> CHR ''0''" using show_nat_first[OF assms] by blast
  moreover from this have "list_all is_digit (c # r)" using show_nat_digits[of m] by simp
  ultimately show ?thesis by (intro that[of c r]) auto
qed

definition good_text :: "rat \<Rightarrow> string \<Rightarrow> bool" where
  "good_text v s \<longleftrightarrow> (\<exists>ip fp ex. s = num_text ip fp ex \<and> ip \<noteq> [] \<and> list_all is_digit ip \<and> list_all is_digit fp \<and>
     (hd ip = CHR ''0'' \<longrightarrow> length ip = 1) \<and> (ex = None \<or> (\<exists>x. ex = Some (fmt_exp x))) \<and> num_rat s = v)"

lemma good_textI:
  assumes "s = num_text ip fp ex" "ip \<noteq> []" "list_all is_digit ip" "list_all is_digit fp"
    "hd ip = CHR ''0'' \<Longrightarrow> length ip = 1" "ex = None \<and> x = 0 \<or> ex = Some (fmt_exp x)"
    "rat_of_nat (read_nat (ip @ fp)) * pow10 (x - int (length fp)) = v"
  shows "good_text v s"
  unfolding good_text_def
  using assms num_rat_text[OF assms(2-4), of ex] num_exponent_text[OF assms(2-4)]
  by (intro exI[of _ ip] exI[of _ fp] exI[of _ ex]) auto

lemma pow10_sum: "pow10 (int n) * pow10 e = pow10 (int n + e)"
  by (simp add: pow10_add)

text \<open>The three layouts of a decimal: an integer, a point inside the digits, a point before them.\<close>

lemma fmt_f_integer:
  assumes "0 < m" "0 \<le> e"
  shows "good_text (dec_val (m, e)) (fmt_f (show_nat m) (int (length (show_nat m)) + e))"
proof -
  obtain c r where cr: "show_nat m = c # r" "c \<noteq> CHR ''0''" "is_digit c" "list_all is_digit r"
    by (rule show_nat_pieces[OF assms(1)])
  have "fmt_f (show_nat m) (int (length (show_nat m)) + e) = num_text (show_nat m @ zeros (nat e)) [] None"
    using assms(2) cr(1) by (simp add: fmt_f_def num_text_def)
  then show ?thesis
  proof (rule good_textI)
    show "rat_of_nat (read_nat ((show_nat m @ zeros (nat e)) @ [])) * pow10 (0 - int (length ([] :: string))) = dec_val (m, e)"
      unfolding append_Nil2 read_nat_zeros using assms(2) by (simp add: dec_val_def pow10_def)
  qed (use cr in \<open>simp_all add: show_nat_digits\<close>)
qed

lemma fmt_f_point_inside:
  assumes "0 < m" "e < 0" "0 < int (length (show_nat m)) + e"
  shows "good_text (dec_val (m, e)) (fmt_f (show_nat m) (int (length (show_nat m)) + e))"
proof -
  let ?ds = "show_nat m" and ?n = "nat (int (length (show_nat m)) + e)"
  obtain c r where cr: "?ds = c # r" "c \<noteq> CHR ''0''" by (rule show_nat_pieces[OF assms(1)])
  have "fmt_f ?ds (int (length ?ds) + e) = num_text (take ?n ?ds) (drop ?n ?ds) None"
    using assms by (simp add: fmt_f_def num_text_def zeros_def)
  then show ?thesis
  proof (rule good_textI)
    show "take ?n ?ds \<noteq> []" "hd (take ?n ?ds) = CHR ''0'' \<Longrightarrow> length (take ?n ?ds) = 1"
      using assms cr by (simp_all add: take_Cons')
    show "list_all is_digit (take ?n ?ds)" "list_all is_digit (drop ?n ?ds)"
      using show_nat_digits[of m] by (metis append_take_drop_id list_all_append)+
    show "rat_of_nat (read_nat (take ?n ?ds @ drop ?n ?ds)) * pow10 (0 - int (length (drop ?n ?ds))) = dec_val (m, e)"
      using assms by (simp add: dec_val_def of_nat_diff)
  qed simp
qed

lemma fmt_f_point_before:
  assumes "0 < m" "int (length (show_nat m)) + e \<le> 0"
  shows "good_text (dec_val (m, e)) (fmt_f (show_nat m) (int (length (show_nat m)) + e))"
proof -
  let ?ds = "show_nat m" and ?z = "zeros (nat (- (int (length (show_nat m)) + e)))"
  obtain c r where cr: "?ds = c # r" by (rule show_nat_pieces[OF assms(1)])
  have "fmt_f ?ds (int (length ?ds) + e) = num_text ''0'' (?z @ ?ds) None"
    using assms(2) cr by (simp add: fmt_f_def num_text_def)
  then show ?thesis
  proof (rule good_textI)
    have "read_nat (''0'' @ ?z @ ?ds) = m"
      using read_zeros_nat[of 1 "?z @ ?ds"] read_zeros_nat[of _ ?ds] read_show_nat[of m] by (simp only: zeros_1)
    moreover have "0 - int (length (?z @ ?ds)) = e" using assms(2) by (simp add: zeros_def)
    ultimately show "rat_of_nat (read_nat (''0'' @ ?z @ ?ds)) * pow10 (0 - int (length (?z @ ?ds))) = dec_val (m, e)"
      by (simp only: dec_val_def prod.case)
  qed (simp_all add: show_nat_digits is_digit_def)
qed

lemma good_fmt_f:
  assumes "0 < m" shows "good_text (dec_val (m, e)) (fmt_f (show_nat m) (int (length (show_nat m)) + e))"
  using fmt_f_integer[OF assms, of e] fmt_f_point_inside[OF assms, of e] fmt_f_point_before[OF assms, of e]
  by linarith

lemma good_fmt_e:
  assumes "0 < m" shows "good_text (dec_val (m, e)) (fmt_e (show_nat m) (int (length (show_nat m)) + e))"
proof -
  obtain c r where cr: "show_nat m = c # r" "c \<noteq> CHR ''0''" "is_digit c" "list_all is_digit r"
    by (rule show_nat_pieces[OF assms])
  have "fmt_e (show_nat m) (int (length (show_nat m)) + e)
      = num_text [c] r (Some (fmt_exp (int (length r) + e)))"
    by (simp add: fmt_e_def num_text_def cr(1))
  then show ?thesis
  proof (rule good_textI)
    show "rat_of_nat (read_nat ([c] @ r)) * pow10 (int (length r) + e - int (length r)) = dec_val (m, e)"
      using cr(1) read_show_nat[of m] by (simp add: dec_val_def)
  qed (use cr in simp_all)
qed

lemma good_print_pos:
  assumes "0 < x" "rnd x = x"
  obtains v where "good_text v (print_pos x)" "rnd v = x"
proof -
  obtain m e where s: "shortest x = (m, e)" by fastforce
  then have "0 < m" "rnd (dec_val (m, e)) = x" using shortest_reads[OF assms] by (simp_all add: reads_as_def)
  then show ?thesis using good_fmt_f[of m e] good_fmt_e[of m e]
    by (intro that[of "dec_val (m, e)"]) (simp_all add: print_pos_def s Let_def)
qed

lemma fmt_exp_ok: "digits1 (drop_sign ''+-'' (fmt_exp x))" "list_all num_char (fmt_exp x)"
proof -
  have "list_all num_char (show_nat n)" for n
    by (rule list.pred_mono_strong[OF show_nat_digits]) (rule digit_num_char)
  moreover have "is_digit (CHR ''0'')" by (simp add: is_digit_def)
  ultimately show "digits1 (drop_sign ''+-'' (fmt_exp x))" "list_all num_char (fmt_exp x)"
    by (simp_all add: fmt_exp_def drop_sign_def digits1_def show_nat_digits num_char_def)
qed

lemma good_text_valid:
  assumes "good_text v s"
  shows "valid_num s" "valid_num (CHR ''-'' # s)" "num_rat s = v" "num_rat (CHR ''-'' # s) = - v"
proof -
  obtain ip fp ex where s: "s = num_text ip fp ex" "ip \<noteq> []" "list_all is_digit ip" "list_all is_digit fp"
    "hd ip = CHR ''0'' \<longrightarrow> length ip = 1" "ex = None \<or> (\<exists>x. ex = Some (fmt_exp x))" "num_rat s = v"
    using assms unfolding good_text_def by blast
  obtain c cs where c: "s = c # cs" "is_digit c" using s(1-3) by (cases ip) (auto simp: num_text_def)
  then have "c \<noteq> CHR ''-''" using not_digit_minus by metis
  then have d: "drop_sign ''-'' (CHR ''-'' # s) = drop_sign ''-'' s" "\<not> HasPrefix s ''-''"
    by (simp_all add: drop_sign_def c HasPrefix_def)
  have minus: "num_int (CHR ''-'' # s) = num_int s" "num_frac (CHR ''-'' # s) = num_frac s"
    "num_exp (CHR ''-'' # s) = num_exp s" "num_exponent (CHR ''-'' # s) = num_exponent s"
    by (simp_all only: num_int_def num_frac_def num_exp_def num_exponent_def after_int_def d)
  note ex = fmt_exp_ok
  have dc: "list_all is_digit t \<Longrightarrow> list_all num_char t" for t
    by (erule list.pred_mono_strong) (rule digit_num_char)
  have "list_all num_char (case ex of None \<Rightarrow> [] | Some x \<Rightarrow> CHR ''e'' # x)"
    using s(6) ex(2) by (cases ex) (auto simp: num_char_def)
  then have nc: "list_all num_char s"
    unfolding s(1) num_text_def using dc[OF s(3)] dc[OF s(4)] by (simp add: num_char_def)
  have p: "num_int s = ip" "num_frac s = (if fp = [] then None else Some fp)" "num_exp s = ex"
    unfolding s(1) by (rule num_text_pieces[OF s(2-4)])+
  have "case ex of None \<Rightarrow> True | Some x \<Rightarrow> digits1 (drop_sign ''+-'' x)"
    using s(6) ex(1) by (cases ex) auto
  then show "valid_num s" unfolding valid_num_def p using s(2,5) nc by simp
  then show "valid_num (CHR ''-'' # s)" unfolding valid_num_def minus by (simp add: num_char_def)
  show "num_rat s = v" by fact
  then show "num_rat (CHR ''-'' # s) = - v" unfolding num_rat_def minus using d(2) by (simp add: Let_def HasPrefix_def)
qed

text \<open>Whatever is printed is a number literal and reads back as the same double.\<close>

lemma print_f64_reads:
  assumes "is_f64 (Fin r)"
  obtains s where "print_f64 (Fin r) = Some s" "valid_num s" "num_f64 s = Some (Fin r)"
proof -
  have r: "rnd r = r" "\<bar>r\<bar> \<le> max_float" using assms by (simp_all add: is_f64_def)
  then have fin: "fround v = Fin r" if "rnd v = r" for v
    using that by (intro trans[OF fround_Fin]) auto
  consider "r = 0" | "0 < r" | "r < 0" by linarith
  then show ?thesis
  proof cases
    case 1
    have "good_text 0 ''0''"
      by (rule good_textI[of _ "''0''" "[]" None 0]) (simp_all add: num_text_def is_digit_def read_nat_def)
    note good_text_valid[OF this]
    then show ?thesis using 1 fin[of 0] by (intro that[of "''0''"]) (simp_all add: print_f64_def num_f64_def)
  next
    case 2
    obtain v where v: "good_text v (print_pos r)" "rnd v = r" by (rule good_print_pos[OF 2 r(1)])
    then show ?thesis using 2 good_text_valid[OF v(1)] fin
      by (intro that[of "print_pos r"]) (simp_all add: print_f64_def num_f64_def)
  next
    case 3
    then have "0 < - r" "rnd (- r) = - r" using r by (simp_all add: rnd_uminus)
    then obtain v where v: "good_text v (print_pos (- r))" "rnd v = - r" by (rule good_print_pos)
    then show ?thesis using 3 good_text_valid[OF v(1)] fin[of "- v"]
      by (intro that[of "''-'' @ print_pos (- r)"]) (simp_all add: print_f64_def num_f64_def rnd_uminus)
  qed
qed

definition json_f64 :: "f64 \<Rightarrow> json option" where
  "json_f64 x = map_option JNum (print_f64 x)"

lemma json_f64_put:
  assumes "is_f64 (Fin r)"
  obtains s where "json_f64 (Fin r) = Some (JNum s)" "wf_json (JNum s)" "put_f64 upd (JNum s) x = Inr (upd (\<lambda>_. Fin r) x)"
proof (rule print_f64_reads[OF assms])
  fix s assume "print_f64 (Fin r) = Some s" "valid_num s" "num_f64 s = Some (Fin r)"
  then show thesis by (intro that[of s]) (simp_all add: json_f64_def put_f64_def)
qed
end
