(* ===== verification/Policy_Controllers.thy ===== *)
theory Policy_Controllers
  imports Json_Float Disk_Controller
begin

text \<open>
  The two small reconcilers: PlacementPolicy (\<^verbatim>\<open>controllers/placementpolicy_controller.go\<close>), which
  publishes the spec of the policy as JSON in a ConfigMap, and CachePool
  (\<^verbatim>\<open>controllers/cachepool_controller.go\<close>), which only reports that it is not implemented. Shown: what
  the ConfigMap holds after an error-free call, and that the published text decodes to the policy.
\<close>

section \<open>The policy as JSON\<close>

text \<open>The \<^verbatim>\<open>omitempty\<close> members are left out when zero; NaN and infinities cannot be marshalled.\<close>

definition opt_f64 :: "string \<Rightarrow> f64 \<Rightarrow> (string \<times> json) list option" where
  "opt_f64 name x = (if x = Fin 0 then Some [] else map_option (\<lambda>j. [(name, j)]) (json_f64 x))"

definition opt_str :: "string \<Rightarrow> string \<Rightarrow> (string \<times> json) list" where
  "opt_str name s = (if s = '''' then [] else [(name, JStr s)])"

definition weights_json :: "PlacementWeights \<Rightarrow> json option" where
  "weights_json w =
     (case opt_f64 ''freeSpace'' (weight_FreeSpace w) of None \<Rightarrow> None | Some a \<Rightarrow>
      case opt_f64 ''load'' (weight_Load w) of None \<Rightarrow> None | Some b \<Rightarrow>
      case opt_f64 ''health'' (weight_Health w) of None \<Rightarrow> None | Some c \<Rightarrow> Some (JObj (a @ b @ c)))"

definition strategy_text :: "PlacementStrategy \<Rightarrow> string" where
  "strategy_text s = (case s of PlacementStrategyBalanced \<Rightarrow> ''balanced'' | PlacementStrategyLeastUsed \<Rightarrow> ''least-used''
     | PlacementStrategyFillFirst \<Rightarrow> ''fill-first'' | PlacementStrategyTiered \<Rightarrow> ''tiered'' | PlacementStrategyOther t \<Rightarrow> t)"

definition policy_json :: "PlacementPolicySpec \<Rightarrow> json option" where
  "policy_json p =
     (case (case policy_Weights p of None \<Rightarrow> Some []
                | Some w \<Rightarrow> map_option (\<lambda>j. [(''weights'', j)]) (weights_json w)) of
        None \<Rightarrow> None
      | Some ws \<Rightarrow> Some (JObj ([(''strategy'', JStr (strategy_text (policy_Strategy p)))] @ ws
                               @ opt_str ''minFreeSpace'' (policy_MinFreeSpace p))))"

text \<open>\<^verbatim>\<open>b, _ := json.Marshal(policy.Spec)\<close>: the empty text when marshalling fails.\<close>

definition marshal_policy :: "PlacementPolicySpec \<Rightarrow> string" where
  "marshal_policy p = (case policy_json p of None \<Rightarrow> '''' | Some j \<Rightarrow> print_json j)"

section \<open>The reconcilers\<close>

definition policyConfigMapName :: string where
  "policyConfigMapName = ''kubenas-placement-policy''"

definition new_policy_cm :: "string \<Rightarrow> string \<Rightarrow> ConfigMap" where
  "new_policy_cm ns b =
     \<lparr>cm_Meta = ObjectMeta_zero\<lparr>meta_Name := policyConfigMapName, meta_Namespace := ns\<rparr>,
      cm_Data = Some [''policy'' \<mapsto> b, ''generation'' \<mapsto> ''1'']\<rparr>"

definition PlacementPolicy_Reconcile :: "'w env \<Rightarrow> nskey \<Rightarrow> ('w, ctrl_Result \<times> error option) state" where
  "PlacementPolicy_Reconcile cl req = do {
     r \<leftarrow> env_get cl KPlacementPolicy req;
     case as_PlacementPolicy r of
       Inl err \<Rightarrow> State_Monad.return (Result_zero, if IsNotFound err then None else Some err)
     | Inr policy \<Rightarrow> do {
         let b = marshal_policy (policy_Spec policy);
         rc \<leftarrow> env_get cl KConfigMap (fst req, policyConfigMapName);
         case as_ConfigMap rc of
           Inl err \<Rightarrow> do {
             e \<leftarrow> env_create cl (OConfigMap (new_policy_cm (fst req) b));
             State_Monad.return (Result_zero, e)
           }
         | Inr cm \<Rightarrow>
             (case cm_Data cm of
                None \<Rightarrow> State_Monad.return (Result_zero, Some (Panic ''assignment to entry in nil map''))
              | Some data \<Rightarrow> do {
                  e \<leftarrow> env_update cl (OConfigMap (cm\<lparr>cm_Data := Some (data(''policy'' \<mapsto> b))\<rparr>));
                  State_Monad.return (Result_zero, e)
                })
       }
   }"

definition cache_not_implemented :: "CachePool \<Rightarrow> CachePool" where
  "cache_not_implemented cp = cp\<lparr>cache_Status := (cache_Status cp)\<lparr>cache_Phase := ''NotImplemented''\<rparr>\<rparr>"

definition CachePool_Reconcile :: "'w env \<Rightarrow> nskey \<Rightarrow> ('w, ctrl_Result \<times> error option) state" where
  "CachePool_Reconcile cl req = do {
     r \<leftarrow> env_get cl KCachePool req;
     case as_CachePool r of
       Inl err \<Rightarrow> State_Monad.return (Result_zero, if IsNotFound err then None else Some err)
     | Inr cp \<Rightarrow> do {
         err \<leftarrow> env_status_update cl (OCachePool (cache_not_implemented cp));
         State_Monad.return (case err of
           Some e \<Rightarrow> (Result_zero, Some (WrapError ''updating cachepool status'' e))
         | None \<Rightarrow> (requeue_after 300, None))
       }
   }"

section \<open>Decoding the published text\<close>

definition strategy_of_text :: "string \<Rightarrow> PlacementStrategy" where
  "strategy_of_text s = (if s = ''balanced'' then PlacementStrategyBalanced else if s = ''least-used'' then PlacementStrategyLeastUsed
     else if s = ''fill-first'' then PlacementStrategyFillFirst else if s = ''tiered'' then PlacementStrategyTiered
     else PlacementStrategyOther s)"

definition weights_zero :: PlacementWeights where
  "weights_zero = \<lparr>weight_FreeSpace = Fin 0, weight_Load = Fin 0, weight_Health = Fin 0\<rparr>"

definition put_weights :: "string \<Rightarrow> json \<Rightarrow> PlacementWeights \<Rightarrow> error + PlacementWeights" where
  "put_weights k j w =
     (if field_is ''freeSpace'' k then put_f64 weight_FreeSpace_update j w
      else if field_is ''load'' k then put_f64 weight_Load_update j w
      else if field_is ''health'' k then put_f64 weight_Health_update j w
      else Inr w)"

definition put_policy :: "string \<Rightarrow> json \<Rightarrow> PlacementPolicySpec \<Rightarrow> error + PlacementPolicySpec" where
  "put_policy k j p =
     (if field_is ''strategy'' k then put_str (\<lambda>f. policy_Strategy_update (\<lambda>s. strategy_of_text (f (strategy_text s)))) j p
      else if field_is ''weights'' k then
        (if j = JNull then Inr (p\<lparr>policy_Weights := None\<rparr>)
         else case decode_struct put_weights j (case policy_Weights p of None \<Rightarrow> weights_zero | Some w \<Rightarrow> w) of
                Inl e \<Rightarrow> Inl e | Inr w \<Rightarrow> Inr (p\<lparr>policy_Weights := Some w\<rparr>))
      else if field_is ''minFreeSpace'' k then put_str policy_MinFreeSpace_update j p
      else Inr p)"

definition policy_zero :: PlacementPolicySpec where
  "policy_zero = \<lparr>policy_Strategy = PlacementStrategyOther '''', policy_Weights = None, policy_MinFreeSpace = ''''\<rparr>"

section \<open>Lemmas\<close>

definition finite_f64 :: "f64 \<Rightarrow> bool" where
  "finite_f64 x \<longleftrightarrow> is_f64 x \<and> (case x of Fin r \<Rightarrow> True | _ \<Rightarrow> False)"

definition policy_wf :: "PlacementPolicySpec \<Rightarrow> bool" where
  "policy_wf p \<longleftrightarrow> strategy_of_text (strategy_text (policy_Strategy p)) = policy_Strategy p \<and>
     (case policy_Weights p of None \<Rightarrow> True
      | Some w \<Rightarrow> finite_f64 (weight_FreeSpace w) \<and> finite_f64 (weight_Load w) \<and> finite_f64 (weight_Health w))"

lemma decode_members_append:
  "decode_members put (a @ b) x = (case decode_members put a x of Inl e \<Rightarrow> Inl e | Inr y \<Rightarrow> decode_members put b y)"
  by (induction put a x rule: decode_members.induct) (auto split: sum.split)

lemma opt_f64_put:
  assumes "finite_f64 x" "\<And>j. put name j y = put_f64 upd j y" "upd (\<lambda>_. Fin 0) y = y"
  obtains ms where "opt_f64 name x = Some ms" "\<forall>m \<in> set ms. wf_json (snd m)"
    "decode_members put ms y = Inr (upd (\<lambda>_. x) y)"
proof -
  obtain r where r: "x = Fin r" "is_f64 (Fin r)" using assms(1) by (cases x) (auto simp: finite_f64_def)
  show ?thesis
  proof (cases "r = 0")
    case True
    then show ?thesis by (intro that[of "[]"]) (simp_all add: opt_f64_def r assms(3))
  next
    case False
    obtain s where "json_f64 (Fin r) = Some (JNum s)" "wf_json (JNum s)" "put_f64 upd (JNum s) y = Inr (upd (\<lambda>_. Fin r) y)"
      by (rule json_f64_put[OF r(2), of upd y])
    then show ?thesis using False by (intro that[of "[(name, JNum s)]"]) (simp_all add: opt_f64_def r assms(2))
  qed
qed

lemma field_is_weights [simp]:
  "field_is ''freeSpace'' ''freeSpace''" "\<not> field_is ''freeSpace'' ''load''" "\<not> field_is ''freeSpace'' ''health''"
  "field_is ''load'' ''load''" "\<not> field_is ''load'' ''health''" "field_is ''health'' ''health''"
  "field_is ''strategy'' ''strategy''" "\<not> field_is ''strategy'' ''weights''" "\<not> field_is ''strategy'' ''minFreeSpace''"
  "field_is ''weights'' ''weights''" "\<not> field_is ''weights'' ''minFreeSpace''" "field_is ''minFreeSpace'' ''minFreeSpace''"
  by (simp_all add: field_is_def ToLower_def to_lower_def)

lemma weights_json_decodes:
  assumes "finite_f64 (weight_FreeSpace w)" "finite_f64 (weight_Load w)" "finite_f64 (weight_Health w)"
  obtains ms where "weights_json w = Some (JObj ms)" "wf_json (JObj ms)" "decode_members put_weights ms weights_zero = Inr w"
proof -
  let ?z = "weights_zero\<lparr>weight_FreeSpace := weight_FreeSpace w\<rparr>" and ?y = "weights_zero\<lparr>weight_FreeSpace := weight_FreeSpace w, weight_Load := weight_Load w\<rparr>"
  obtain a where a: "opt_f64 ''freeSpace'' (weight_FreeSpace w) = Some a" "\<forall>m \<in> set a. wf_json (snd m)"
      "decode_members put_weights a weights_zero = Inr ?z"
    by (rule opt_f64_put[OF assms(1), of put_weights "''freeSpace''" weights_zero weight_FreeSpace_update])
      (simp_all add: put_weights_def weights_zero_def)
  obtain b where b: "opt_f64 ''load'' (weight_Load w) = Some b" "\<forall>m \<in> set b. wf_json (snd m)"
      "decode_members put_weights b ?z = Inr ?y"
    by (rule opt_f64_put[OF assms(2), of put_weights "''load''" ?z weight_Load_update])
      (simp_all add: put_weights_def weights_zero_def)
  obtain c where c: "opt_f64 ''health'' (weight_Health w) = Some c" "\<forall>m \<in> set c. wf_json (snd m)"
      "decode_members put_weights c ?y = Inr (?y\<lparr>weight_Health := weight_Health w\<rparr>)"
    by (rule opt_f64_put[OF assms(3), of put_weights "''health''" ?y weight_Health_update])
      (simp_all add: put_weights_def weights_zero_def)
  have w: "?y\<lparr>weight_Health := weight_Health w\<rparr> = w" by (cases w) (simp add: weights_zero_def)
  have "decode_members put_weights (a @ b @ c) weights_zero = Inr w"
    unfolding decode_members_append a(3) sum.case b(3) c(3) w ..
  moreover have "weights_json w = Some (JObj (a @ b @ c))" by (simp add: weights_json_def a(1) b(1) c(1))
  ultimately show ?thesis using a(2) b(2) c(2) by (intro that) auto
qed

text \<open>The published text decodes to the policy.\<close>

lemma Unmarshal_marshal_policy:
  assumes "policy_wf p" shows "Unmarshal put_policy (marshal_policy p) policy_zero = Inr p"
proof -
  let ?p1 = "policy_zero\<lparr>policy_Strategy := policy_Strategy p\<rparr>"
  have s: "put_policy ''strategy'' (JStr (strategy_text (policy_Strategy p))) policy_zero = Inr ?p1"
    using assms by (simp add: put_policy_def policy_wf_def policy_zero_def)
  obtain ws where ws: "(case policy_Weights p of None \<Rightarrow> Some [] | Some w \<Rightarrow> map_option (\<lambda>j. [(''weights'', j)]) (weights_json w)) = Some ws"
      "\<forall>m \<in> set ws. wf_json (snd m)" "decode_members put_policy ws ?p1 = Inr (?p1\<lparr>policy_Weights := policy_Weights p\<rparr>)"
  proof (cases "policy_Weights p")
    case None
    then show ?thesis by (intro that[of "[]"]) (simp_all add: policy_zero_def)
  next
    case (Some w)
    obtain ms where "weights_json w = Some (JObj ms)" "wf_json (JObj ms)" "decode_members put_weights ms weights_zero = Inr w"
      using assms Some by (auto simp: policy_wf_def intro: weights_json_decodes)
    then show ?thesis using Some
      by (intro that[of "[(''weights'', JObj ms)]"]) (simp_all add: put_policy_def decode_struct_def policy_zero_def)
  qed
  have m: "decode_members put_policy (opt_str ''minFreeSpace'' (policy_MinFreeSpace p)) (?p1\<lparr>policy_Weights := policy_Weights p\<rparr>) = Inr p"
    by (cases p) (simp add: opt_str_def put_policy_def policy_zero_def)
  have "policy_json p = Some (JObj ([(''strategy'', JStr (strategy_text (policy_Strategy p)))] @ ws
      @ opt_str ''minFreeSpace'' (policy_MinFreeSpace p)))" (is "_ = Some ?j")
    by (simp add: policy_json_def ws(1))
  moreover have "wf_json ?j" using ws(2) by (auto simp: opt_str_def)
  moreover have "decode_struct put_policy ?j policy_zero = Inr p"
    unfolding decode_struct_def json.case decode_members_append decode_members.simps s sum.case ws(3) m ..
  ultimately show ?thesis by (simp only: marshal_policy_def option.case Unmarshal_print)
qed

definition policy_at :: "store \<Rightarrow> nskey \<Rightarrow> PlacementPolicy option" where
  "policy_at v n = (case v KPlacementPolicy n of Some (OPlacementPolicy p) \<Rightarrow> Some p | _ \<Rightarrow> None)"

definition cm_text :: "store \<Rightarrow> nskey \<Rightarrow> string \<Rightarrow> string option" where
  "cm_text v n k = (case v KConfigMap n of Some (OConfigMap cm) \<Rightarrow> (case cm_Data cm of None \<Rightarrow> None | Some d \<Rightarrow> d k) | _ \<Rightarrow> None)"

definition policy_step :: "('w \<Rightarrow> store) \<Rightarrow> nskey \<Rightarrow> 'w \<Rightarrow> ctrl_Result \<times> error option \<Rightarrow> 'w \<Rightarrow> bool" where
  "policy_step view n w r w' \<longleftrightarrow>
     only_at view KConfigMap (fst n, policyConfigMapName) w w' \<and>
     (case policy_at (view w) n of
        None \<Rightarrow> view w' = view w
      | Some p \<Rightarrow> if snd r \<noteq> None then view w' = view w
                  else cm_text (view w') (fst n, policyConfigMapName) ''policy'' = Some (marshal_policy (policy_Spec p)))"

lemma policy_step_stored:
  assumes "view w' = store_set (view w) KConfigMap (fst n, policyConfigMapName) (Some (OConfigMap cm))"
    and "policy_at (view w) n = Some p" "cm_Data cm = Some data" "data ''policy'' = Some (marshal_policy (policy_Spec p))"
  shows "policy_step view n w (Result_zero, None) w'"
  using assms only_at_set[OF assms(1)] by (simp add: policy_step_def cm_text_def)

lemma policy_step_failed: "view w' = view w \<Longrightarrow> policy_step view n w (Result_zero, Some e) w'"
  by (simp add: policy_step_def only_at_refl split: option.split)

context kube_api begin

lemma wp_policy_update:
  assumes cm: "view w' KConfigMap (fst n, policyConfigMapName) = Some (OConfigMap cm)"
      "key_of (OConfigMap cm) = (fst n, policyConfigMapName)" "\<not> deletion_done (OConfigMap cm)"
    and v: "view w' = view w" and p: "policy_at (view w) n = Some p"
    and data: "data ''policy'' = Some (marshal_policy (policy_Spec p))"
  shows "wp (env_update cl (OConfigMap (cm\<lparr>cm_Data := Some data\<rparr>)))
     (\<lambda>r w'. policy_step view n w (Result_zero, r) w') w'"
proof (rule wp_update, goal_cases)
  case (1 old rv w2)
  have k: "key_of (OConfigMap (cm\<lparr>cm_Data := Some data\<rparr>)) = (fst n, policyConfigMapName)"
    and nd: "\<not> deletion_done (OConfigMap (cm\<lparr>cm_Data := Some data\<rparr>))"
    using cm(2,3) by (simp_all add: key_of_def deletion_done_def)
  then obtain cm' where "old = OConfigMap cm'" using 1(1) cm(1) by auto
  then show ?case using 1(2) nd k v
    by (intro policy_step_stored[where view = view and p = p and data = data
        and cm = "cm_Meta_update (meta_ResourceVersion_update (\<lambda>_. rv)) (cm\<lparr>cm_Data := Some data\<rparr>)"])
      (simp_all add: with_rv_def p data)
qed (simp add: v policy_step_failed)

lemma wp_policy_create:
  assumes v: "view w' = view w" and p: "policy_at (view w) n = Some p"
  shows "wp (env_create cl (OConfigMap (new_policy_cm (fst n) (marshal_policy (policy_Spec p)))))
     (\<lambda>r w'. policy_step view n w (Result_zero, r) w') w'"
proof (rule wp_create, goal_cases)
  case (1 rv u w2)
  let ?cm = "new_policy_cm (fst n) (marshal_policy (policy_Spec p))"
  have "key_of (OConfigMap ?cm) = (fst n, policyConfigMapName)"
    by (simp add: key_of_def new_policy_cm_def ObjectMeta_zero_def)
  then show ?case using 1 v
    by (intro policy_step_stored[where view = view and p = p
          and cm = "cm_Meta_update (meta_UID_update (\<lambda>_. u)) (cm_Meta_update (meta_ResourceVersion_update (\<lambda>_. rv)) ?cm)"
          and data = "[''policy'' \<mapsto> marshal_policy (policy_Spec p), ''generation'' \<mapsto> ''1'']"])
      (simp_all add: new_policy_cm_def with_uid_def with_rv_def p)
qed (simp add: v policy_step_failed)

lemma wp_PlacementPolicy_Reconcile: "wp (PlacementPolicy_Reconcile cl n) (policy_step view n w) w"
  unfolding PlacementPolicy_Reconcile_def wp
proof (rule wp_get, goal_cases)
  case (1 ob w1)
  then obtain p where ob: "ob = OPlacementPolicy p" by (cases ob) auto
  have p: "policy_at (view w) n = Some p" using 1 ob by (simp add: policy_at_def)
  show ?case unfolding ob as_PlacementPolicy_def sum.case kobject.case Let_def wp
  proof (rule wp_get, goal_cases)
    case (1 ob w2)
    then obtain cm where cm: "ob = OConfigMap cm" by (cases ob) auto
    have w2: "view w2 = view w" using 1(1) \<open>view w1 = view w\<close> by simp
    show ?case
    proof (cases "cm_Data cm")
      case None
      then show ?thesis using w2 by (simp add: cm as_ConfigMap_def wp policy_step_failed)
    next
      case (Some data)
      have "wp (env_update cl (OConfigMap (cm\<lparr>cm_Data := Some (data(''policy'' \<mapsto> marshal_policy (policy_Spec p)))\<rparr>)))
          (\<lambda>r w'. policy_step view n w (Result_zero, r) w') w2"
        by (rule wp_policy_update[OF _ _ _ w2 p]) (use 1 cm in auto)
      then show ?thesis unfolding cm as_ConfigMap_def sum.case kobject.case Some option.case wp .
    qed
  next
    case (2 e w2)
    then have "view w2 = view w" using \<open>view w1 = view w\<close> by simp
    then show ?case unfolding as_ConfigMap_def sum.case wp by (rule wp_policy_create[OF _ p])
  qed
next
  case (2 e w1)
  then show ?case
    by (auto simp: as_PlacementPolicy_def wp policy_step_def only_at_refl policy_at_def split: option.split)
qed

end

section \<open>Properties\<close>

text \<open>C23. A reconcile call of a PlacementPolicy touches nothing but the policy ConfigMap of its namespace.
  After an error-free call of a stored policy with a known strategy and finite weights, the text under
  the key \<^verbatim>\<open>policy\<close> is JSON that decodes to exactly the spec of the policy.\<close>

theorem PlacementPolicy_published:
  assumes "kube_api cl view" and "policy_at (view w) n = Some p" and "policy_wf (policy_Spec p)"
  shows "wp (PlacementPolicy_Reconcile cl n) (\<lambda>r w'.
     only_at view KConfigMap (fst n, policyConfigMapName) w w' \<and>
     (snd r = None \<longrightarrow> (\<exists>t. cm_text (view w') (fst n, policyConfigMapName) ''policy'' = Some t \<and>
        Unmarshal put_policy t policy_zero = Inr (policy_Spec p)))) w"
  by (rule wp_mono[OF kube_api.wp_PlacementPolicy_Reconcile[OF assms(1), of n w]])
    (use assms(2) Unmarshal_marshal_policy[OF assms(3)] in \<open>auto simp: policy_step_def\<close>)

section \<open>Witnesses\<close>

definition demo_policy :: PlacementPolicy where
  "demo_policy = \<lparr>policy_Meta = ObjectMeta_zero\<lparr>meta_Name := ''default'', meta_Namespace := ''nas''\<rparr>,
     policy_Spec = \<lparr>policy_Strategy = PlacementStrategyBalanced,
       policy_Weights = Some \<lparr>weight_FreeSpace = lit (7 / 10), weight_Load = lit (1 / 5), weight_Health = lit (1 / 10)\<rparr>,
       policy_MinFreeSpace = ''20Gi''\<rparr>\<rparr>"

definition policy_world :: mem where
  "policy_world = mem_empty
     \<lparr>mem_objs := (\<lambda>k n. if k = KPlacementPolicy \<and> n = (''nas'', ''default'') then Some (OPlacementPolicy demo_policy) else None)\<rparr>"

lemma finite_lit: "\<bar>x\<bar> \<le> 1 \<Longrightarrow> finite_f64 (lit x)"
proof -
  assume "\<bar>x\<bar> \<le> 1"
  moreover have "1 \<le> max_float" using max_float_big by simp
  ultimately have "lit x = Fin (rnd x)" by (simp add: lit_def fround_small)
  then show ?thesis using is_f64_fround[of x] by (simp add: finite_f64_def lit_def)
qed

theorem PlacementPolicy_published_witness:
  "wp (PlacementPolicy_Reconcile idle_env (''nas'', ''default'')) (\<lambda>r w'.
     only_at mem_view KConfigMap (''nas'', policyConfigMapName) policy_world w' \<and>
     (snd r = None \<longrightarrow> (\<exists>t. cm_text (mem_view w') (''nas'', policyConfigMapName) ''policy'' = Some t \<and>
        Unmarshal put_policy t policy_zero = Inr (policy_Spec demo_policy)))) policy_world"
proof -
  have "policy_at (mem_view policy_world) (''nas'', ''default'') = Some demo_policy"
    by (simp add: policy_at_def mem_view_def policy_world_def demo_policy_def deletion_done_def key_of_def ObjectMeta_zero_def)
  moreover have "policy_wf (policy_Spec demo_policy)"
    by (simp add: policy_wf_def demo_policy_def finite_lit strategy_of_text_def strategy_text_def)
  ultimately show ?thesis using PlacementPolicy_published[OF idle_kube_api, of policy_world "(''nas'', ''default'')"] by simp
qed

end
