(* ===== verification/Node_Host.thy ===== *)
theory Node_Host
  imports Prelude
begin

text \<open>
  The host of the node agent: the commands it runs and the files it touches are outside the program,
  so they are a record of operations over an unspecified world (\<open>'w host\<close>). The Go library functions
  the agent applies to their output are defined here: the lines of a \<^verbatim>\<open>bufio.Scanner\<close> and
  \<^verbatim>\<open>filepath.Abs\<close>. The locale \<open>node_host\<close> states what \<^verbatim>\<open>mount\<close>, \<^verbatim>\<open>umount -l\<close> and
  \<^verbatim>\<open>mergerfs\<close> do to the mount table and what \<^verbatim>\<open>/proc/mounts\<close> shows of it; a host with a mount table
  and a fstab satisfies it.
\<close>

section \<open>The operations of the host\<close>

text \<open>
  \<open>exec_output\<close> is \<^verbatim>\<open>cmd.Output()\<close> (standard output and error), \<open>exec_run\<close> is \<^verbatim>\<open>cmd.Run()\<close> with
  standard error captured. The flag of a failed \<open>os_ReadFile\<close> is \<^verbatim>\<open>os.IsNotExist(err)\<close>.
\<close>

record 'w host =
  exec_output :: "string list \<Rightarrow> ('w, string \<times> error option) state"
  exec_run :: "string list \<Rightarrow> ('w, string \<times> error option) state"
  exec_LookPath :: "string \<Rightarrow> ('w, error option) state"
  os_MkdirAll :: "string \<Rightarrow> ('w, error option) state"
  os_ReadFile :: "string \<Rightarrow> ('w, (bool \<times> error) + string) state"
  os_OpenAppend :: "string \<Rightarrow> ('w, error option) state"
  os_WriteString :: "string \<Rightarrow> string \<Rightarrow> ('w, error option) state"
  os_Getwd :: "('w, error + string) state"

text \<open>\<^verbatim>\<open>fmt.Errorf("...: %w\nstderr: %s", err, stderr)\<close>: nobody unwraps these errors, so only the text is kept.\<close>

definition stderr_error :: "string \<Rightarrow> error \<Rightarrow> string \<Rightarrow> error" where
  "stderr_error p e s = ErrorString (p @ '': '' @ Error e @ newline @ ''stderr: '' @ s)"

section \<open>Library functions\<close>

text \<open>
  The lines a \<^verbatim>\<open>bufio.Scanner\<close> returns: no empty last line, one trailing carriage return dropped, and
  the scan ends at a line that does not fit the 64 KiB buffer.
\<close>

definition drop_cr :: "string \<Rightarrow> string" where
  "drop_cr s = (if s \<noteq> [] \<and> last s = CHR 0x0D then butlast s else s)"

definition scan_lines :: "string \<Rightarrow> string list" where
  "scan_lines s =
     (let ls = Split s (CHR 0x0A);
          ls' = (if last ls = [] then butlast ls else ls)
      in map drop_cr (takeWhile (\<lambda>l. length l < 65536) ls'))"

text \<open>\<^verbatim>\<open>filepath.Clean\<close> of a rooted path, element by element from the root; \<open>acc\<close> is reversed.\<close>

fun clean_elems :: "string list \<Rightarrow> string list \<Rightarrow> string list" where
  "clean_elems acc [] = rev acc"
| "clean_elems acc (x # xs) =
     (if x = '''' \<or> x = ''.'' then clean_elems acc xs
      else if x = ''..'' then clean_elems (tl acc) xs
      else clean_elems (x # acc) xs)"

definition Clean_rooted :: "string \<Rightarrow> string" where
  "Clean_rooted p = ''/'' @ Join (clean_elems [] (Split p (CHR ''/''))) ''/''"

definition Abs_path :: "'w host \<Rightarrow> string \<Rightarrow> ('w, error + string) state" where
  "Abs_path h p =
     (if HasPrefix p ''/'' then State_Monad.return (Inr (Clean_rooted p))
      else do {
        wd \<leftarrow> os_Getwd h;
        State_Monad.return (case wd of Inl e \<Rightarrow> Inl e | Inr d \<Rightarrow> Inr (Clean_rooted (d @ ''/'' @ p)))
      })"

lemma clean_elems_plain:
  "\<forall>x \<in> set acc \<union> set xs. x \<noteq> '''' \<and> x \<noteq> ''.'' \<and> x \<noteq> ''..'' \<Longrightarrow> clean_elems acc xs = rev acc @ xs"
  by (induction acc xs rule: clean_elems.induct) auto

lemma clean_elems_set:
  assumes "\<forall>x \<in> set acc. x \<noteq> '''' \<and> x \<noteq> ''.'' \<and> x \<noteq> ''..''" "y \<in> set (clean_elems acc xs)"
  shows "y \<noteq> '''' \<and> y \<noteq> ''.'' \<and> y \<noteq> ''..'' \<and> (y \<in> set acc \<or> y \<in> set xs)"
  using assms
proof (induction acc xs rule: clean_elems.induct)
  case (2 acc x xs)
  have "set (tl acc) \<subseteq> set acc" by (cases acc) auto
  with 2 show ?case by (auto split: if_splits)
qed auto

lemma Split_no_char: "x \<in> set (Split s c) \<Longrightarrow> c \<notin> set x"
proof (induction s arbitrary: x)
  case (Cons a s)
  obtain p ps where "Split s c = p # ps" using Split_not_Nil by (metis list.exhaust)
  with Cons show ?case by (auto split: if_splits)
qed simp

text \<open>Cleaning is idempotent.\<close>

lemma Clean_Clean: "Clean_rooted (Clean_rooted p) = Clean_rooted p"
proof -
  let ?xs = "clean_elems [] (Split p (CHR ''/''))"
  have ok: "x \<noteq> '''' \<and> x \<noteq> ''.'' \<and> x \<noteq> ''..'' \<and> CHR ''/'' \<notin> set x" if "x \<in> set ?xs" for x
    using clean_elems_set[of "[]" x "Split p (CHR ''/'')"] that Split_no_char by auto
  have "Split (Clean_rooted p) (CHR ''/'') = [] # (if ?xs = [] then [[]] else ?xs)"
    using ok by (simp add: Clean_rooted_def Split_Join)
  moreover have "clean_elems [] ?xs = ?xs" using ok by (subst clean_elems_plain) auto
  ultimately have "clean_elems [] (Split (Clean_rooted p) (CHR ''/'')) = ?xs" by simp
  then show ?thesis by (simp add: Clean_rooted_def)
qed

section \<open>The contract of the host\<close>

text \<open>An entry of the mount table: source, target (absolute and clean), type; the latest mount is first.\<close>

type_synonym mount = "string \<times> string \<times> string"

definition target :: "mount \<Rightarrow> string" where
  "target m = fst (snd m)"

text \<open>\<^verbatim>\<open>/proc/mounts\<close> lists the mounts from the oldest on and shows blanks and backslashes in octal.\<close>

definition octal_escape :: "string \<Rightarrow> string" where
  "octal_escape s = concat (map (\<lambda>c.
     if c = CHR 0x20 then [CHR 0x5C] @ ''040'' else if c = CHR 0x09 then [CHR 0x5C] @ ''011''
     else if c = CHR 0x0A then [CHR 0x5C] @ ''012'' else if c = CHR 0x5C then [CHR 0x5C] @ ''134'' else [c]) s)"

definition shows_mounts :: "string \<Rightarrow> mount list \<Rightarrow> bool" where
  "shows_mounts c ms \<longleftrightarrow>
     map (\<lambda>l. take 3 (Fields l)) (scan_lines c)
       = map (\<lambda>(s, t, f). [octal_escape s, octal_escape t, octal_escape f]) (rev ms)"

text \<open>\<^verbatim>\<open>umount\<close> takes away the latest mount of the target.\<close>

fun drop_mount :: "string \<Rightarrow> mount list \<Rightarrow> mount list" where
  "drop_mount t [] = []"
| "drop_mount t (m # ms) = (if target m = t then ms else m # drop_mount t ms)"

locale node_host =
  fixes h :: "'w host" and mounts :: "'w \<Rightarrow> mount list" and fstab :: "'w \<Rightarrow> string option"
  assumes read_law:
    "run_state (os_ReadFile h p) w = (r, w') \<Longrightarrow> mounts w' = mounts w \<and> fstab w' = fstab w \<and>
       (case r of
          Inr c \<Rightarrow> (p = ''/proc/mounts'' \<longrightarrow> shows_mounts c (mounts w)) \<and> (p = ''/etc/fstab'' \<longrightarrow> fstab w = Some c)
        | Inl (notExist, e) \<Rightarrow> p = ''/etc/fstab'' \<longrightarrow> notExist \<longrightarrow> fstab w = None)"
  and mkdir_law: "run_state (os_MkdirAll h p) w = (e, w') \<Longrightarrow> mounts w' = mounts w \<and> fstab w' = fstab w"
  and getwd_law: "run_state (os_Getwd h) w = (d, w') \<Longrightarrow> mounts w' = mounts w \<and> fstab w' = fstab w"
  and output_law: "run_state (exec_output h cmd) w = (o2, w') \<Longrightarrow> mounts w' = mounts w \<and> fstab w' = fstab w"
  and look_law: "run_state (exec_LookPath h p) w = (e, w') \<Longrightarrow> mounts w' = mounts w \<and> fstab w' = fstab w"
  and mount_law:
    "run_state (exec_run h (''mount'' # ''-t'' # fs # opts @ [dev, mp])) w = ((s, e), w') \<Longrightarrow> HasPrefix mp ''/'' \<Longrightarrow>
       fstab w' = fstab w \<and>
       (if e = None then \<exists>src. mounts w' = (src, Clean_rooted mp, fs) # mounts w else mounts w' = mounts w)"
  and umount_law:
    "run_state (exec_run h [''umount'', ''-l'', mp]) w = ((s, e), w') \<Longrightarrow> HasPrefix mp ''/'' \<Longrightarrow>
       fstab w' = fstab w \<and>
       mounts w' = (if e = None then drop_mount (Clean_rooted mp) (mounts w) else mounts w)"
  and mergerfs_law:
    "run_state (exec_run h [''mergerfs'', ''-o'', mopts, br, mp]) w = ((s, e), w') \<Longrightarrow> HasPrefix mp ''/'' \<Longrightarrow>
       fstab w' = fstab w \<and>
       (if e = None then \<exists>src. mounts w' = (src, Clean_rooted mp, ''fuse.mergerfs'') # mounts w else mounts w' = mounts w)"
  and open_law:
    "run_state (os_OpenAppend h p) w = (e, w') \<Longrightarrow> mounts w' = mounts w \<and>
       (if p = ''/etc/fstab'' \<and> e = None then fstab w' = Some (case fstab w of None \<Rightarrow> [] | Some c \<Rightarrow> c) else fstab w' = fstab w)"
  and write_law:
    "run_state (os_WriteString h p t) w = (e, w') \<Longrightarrow> mounts w' = mounts w \<and>
       (if p = ''/etc/fstab''
        then \<exists>u v. t = u @ v \<and> fstab w' = map_option (\<lambda>c. c @ u) (fstab w) \<and> (e = None \<longrightarrow> v = [])
        else fstab w' = fstab w)"
begin

definition same_host :: "'w \<Rightarrow> 'w \<Rightarrow> bool" where
  "same_host w w' \<longleftrightarrow> mounts w' = mounts w \<and> fstab w' = fstab w"

lemma wp_read:
  assumes "\<And>c w'. same_host w w' \<Longrightarrow> (p = ''/proc/mounts'' \<Longrightarrow> shows_mounts c (mounts w)) \<Longrightarrow>
             (p = ''/etc/fstab'' \<Longrightarrow> fstab w = Some c) \<Longrightarrow> Q (Inr c) w'"
    and "\<And>n e w'. same_host w w' \<Longrightarrow> (p = ''/etc/fstab'' \<Longrightarrow> n \<Longrightarrow> fstab w = None) \<Longrightarrow> Q (Inl (n, e)) w'"
  shows "wp (os_ReadFile h p) Q w"
proof (rule run_wp)
  fix r w' assume "run_state (os_ReadFile h p) w = (r, w')"
  from read_law[OF this] show "Q r w'"
    by (cases r) (auto simp: same_host_def intro!: assms split: prod.splits)
qed

lemma wp_mkdir: "(\<And>e w'. same_host w w' \<Longrightarrow> Q e w') \<Longrightarrow> wp (os_MkdirAll h p) Q w"
  by (rule run_wp) (auto dest: mkdir_law simp: same_host_def)

lemma wp_getwd: "(\<And>d w'. same_host w w' \<Longrightarrow> Q d w') \<Longrightarrow> wp (os_Getwd h) Q w"
  by (rule run_wp) (auto dest: getwd_law simp: same_host_def)

lemma wp_output: "(\<And>o2 w'. same_host w w' \<Longrightarrow> Q o2 w') \<Longrightarrow> wp (exec_output h cmd) Q w"
  by (rule run_wp) (auto dest: output_law simp: same_host_def)

lemma wp_look: "(\<And>e w'. same_host w w' \<Longrightarrow> Q e w') \<Longrightarrow> wp (exec_LookPath h p) Q w"
  by (rule run_wp) (auto dest: look_law simp: same_host_def)

lemma wp_Abs: "HasPrefix p ''/'' \<Longrightarrow> Q (Inr (Clean_rooted p)) w \<Longrightarrow> wp (Abs_path h p) Q w"
  by (simp add: Abs_path_def wp)

end

section \<open>A host in memory\<close>

text \<open>
  A mount table and a fstab. Every mount works, every unmount of a mounted target works; a table whose
  fields cannot be told apart in \<^verbatim>\<open>/proc/mounts\<close> is not shown.
\<close>

record mem_host =
  mh_mounts :: "mount list"
  mh_fstab :: "string option"

definition mount_text :: "mount \<Rightarrow> string" where
  "mount_text m = (case m of (s, t, f) \<Rightarrow>
     octal_escape s @ '' '' @ octal_escape t @ '' '' @ octal_escape f @ '' rw 0 0'' @ newline)"

definition proc_mounts :: "mem_host \<Rightarrow> string" where
  "proc_mounts m = concat (map mount_text (rev (mh_mounts m)))"

definition os_error :: error where
  "os_error = ErrorString ''exit status 1''"

definition mh_read :: "string \<Rightarrow> mem_host \<Rightarrow> ((bool \<times> error) + string) \<times> mem_host" where
  "mh_read p m =
     (if p = ''/proc/mounts'' then
        (if shows_mounts (proc_mounts m) (mh_mounts m) then Inr (proc_mounts m) else Inl (False, os_error))
      else if p = ''/etc/fstab'' then (case mh_fstab m of Some c \<Rightarrow> Inr c | None \<Rightarrow> Inl (True, os_error))
      else Inl (True, os_error), m)"

definition mh_run :: "string list \<Rightarrow> mem_host \<Rightarrow> (string \<times> error option) \<times> mem_host" where
  "mh_run cmd m =
     (case cmd of
        c # args \<Rightarrow>
          (if c = ''mount'' \<and> 4 \<le> length args then
             ((([]), None), m\<lparr>mh_mounts := (args ! (length args - 2), Clean_rooted (last args), args ! 1) # mh_mounts m\<rparr>)
           else if c = ''umount'' \<and> length args = 2 then
             (([], None), m\<lparr>mh_mounts := drop_mount (Clean_rooted (last args)) (mh_mounts m)\<rparr>)
           else if c = ''mergerfs'' \<and> length args = 4 then
             (([], None), m\<lparr>mh_mounts := (args ! 2, Clean_rooted (last args), ''fuse.mergerfs'') # mh_mounts m\<rparr>)
           else ((''not found'', Some os_error), m))
      | [] \<Rightarrow> ((''not found'', Some os_error), m))"

definition mh_open :: "string \<Rightarrow> mem_host \<Rightarrow> error option \<times> mem_host" where
  "mh_open p m = (None, if p = ''/etc/fstab'' then m\<lparr>mh_fstab := Some (case mh_fstab m of None \<Rightarrow> [] | Some c \<Rightarrow> c)\<rparr> else m)"

definition mh_write :: "string \<Rightarrow> string \<Rightarrow> mem_host \<Rightarrow> error option \<times> mem_host" where
  "mh_write p t m = (None, if p = ''/etc/fstab'' then m\<lparr>mh_fstab := map_option (\<lambda>c. c @ t) (mh_fstab m)\<rparr> else m)"

text \<open>Over any world that has a host as a part: \<open>get\<close> and \<open>put\<close> read and write the part.\<close>

definition on_host :: "('w \<Rightarrow> 'm) \<Rightarrow> ('m \<Rightarrow> 'w \<Rightarrow> 'w) \<Rightarrow> ('m \<Rightarrow> 'a \<times> 'm) \<Rightarrow> ('w, 'a) state" where
  "on_host get put f = State (\<lambda>w. case f (get w) of (r, m) \<Rightarrow> (r, put m w))"

definition memory_host :: "('w \<Rightarrow> mem_host) \<Rightarrow> (mem_host \<Rightarrow> 'w \<Rightarrow> 'w) \<Rightarrow> (string list \<Rightarrow> string \<times> error option) \<Rightarrow> 'w host" where
  "memory_host get put out =
     \<lparr>exec_output = (\<lambda>cmd. on_host get put (\<lambda>m. (out cmd, m))),
      exec_run = (\<lambda>cmd. on_host get put (mh_run cmd)),
      exec_LookPath = (\<lambda>p. on_host get put (\<lambda>m. (None, m))),
      os_MkdirAll = (\<lambda>p. on_host get put (\<lambda>m. (None, m))),
      os_ReadFile = (\<lambda>p. on_host get put (mh_read p)),
      os_OpenAppend = (\<lambda>p. on_host get put (mh_open p)),
      os_WriteString = (\<lambda>p t. on_host get put (mh_write p t)),
      os_Getwd = on_host get put (\<lambda>m. (Inr ''/'', m))\<rparr>"

lemma run_on_host: "run_state (on_host get put f) w = (r, w') \<longleftrightarrow> (\<exists>m. f (get w) = (r, m) \<and> w' = put m w)"
  by (auto simp: on_host_def split: prod.splits)

lemma memory_host_node_host:
  assumes "\<And>m w. get (put m w) = m"
  shows "node_host (memory_host get put out) (\<lambda>w. mh_mounts (get w)) (\<lambda>w. mh_fstab (get w))"
proof (unfold_locales, goal_cases)
  case (1 p w r w')
  then show ?case using assms
    by (auto simp: memory_host_def run_on_host mh_read_def split: if_splits option.splits)
next
  case (6 fs opts dev mp w s e w')
  have "(''-t'' # fs # opts @ [dev, mp]) ! (length (''-t'' # fs # opts @ [dev, mp]) - 2) = dev"
    by (simp add: nth_append nth_Cons split: nat.split)
  then show ?case using 6 assms by (auto simp: memory_host_def run_on_host mh_run_def)
next
  case (9 p w e w')
  then show ?case using assms by (auto simp: memory_host_def run_on_host mh_open_def)
next
  case (10 p t w e w')
  then show ?case using assms by (auto simp: memory_host_def run_on_host mh_write_def)
qed (use assms in \<open>auto simp: memory_host_def run_on_host mh_run_def\<close>)

interpretation mem_node_host: node_host "memory_host id (\<lambda>m _. m) out" "\<lambda>w. mh_mounts (id w)" "\<lambda>w. mh_fstab (id w)"
  for out
  by (rule memory_host_node_host) simp

end
