(* ===== verification/Node_Disk.thy ===== *)
theory Node_Disk
  imports Node_Host Json
begin

text \<open>
  Disk discovery, formatting and mounting on the node (\<^verbatim>\<open>node-agent/pkg/disk/disk.go\<close>).
\<close>

section \<open>Data\<close>

record Device =
  dev_Name :: string
  dev_DevicePath :: string
  dev_SizeBytes :: i64
  dev_Rotational :: bool
  dev_Model :: string
  dev_Serial :: string
  dev_Filesystem :: string
  dev_MountPoint :: string
  dev_Children :: "string list"

datatype lsblkDevice = LsblkDevice (lsblk_Name: string) (lsblk_Size: string) (lsblk_Rota: bool) (lsblk_Model: string)
  (lsblk_Serial: string) (lsblk_Fstype: string) (lsblk_Mountpoint: string) (lsblk_Children: "lsblkDevice list")

definition lsblk_zero :: lsblkDevice where
  "lsblk_zero = LsblkDevice '''' '''' False '''' '''' '''' '''' []"

text \<open>Storing one member of the JSON of a device; the children of a device are decoded recursively.\<close>

fun lsblk_upd :: "string \<Rightarrow> string \<Rightarrow> lsblkDevice \<Rightarrow> lsblkDevice" where
  "lsblk_upd field s (LsblkDevice nm sz ro mo se fs mp ch) =
     (if field = ''size'' then LsblkDevice nm s ro mo se fs mp ch
      else if field = ''model'' then LsblkDevice nm sz ro s se fs mp ch
      else if field = ''serial'' then LsblkDevice nm sz ro mo s fs mp ch
      else if field = ''fstype'' then LsblkDevice nm sz ro mo se s mp ch
      else if field = ''mountpoint'' then LsblkDevice nm sz ro mo se fs s ch
      else LsblkDevice s sz ro mo se fs mp ch)"

fun lsblk_set_rota :: "bool \<Rightarrow> lsblkDevice \<Rightarrow> lsblkDevice" where
  "lsblk_set_rota b (LsblkDevice nm sz ro mo se fs mp ch) = LsblkDevice nm sz b mo se fs mp ch"

fun lsblk_set_children :: "lsblkDevice list \<Rightarrow> lsblkDevice \<Rightarrow> lsblkDevice" where
  "lsblk_set_children cs (LsblkDevice nm sz ro mo se fs mp ch) = LsblkDevice nm sz ro mo se fs mp cs"

definition lsblk_str :: "string \<Rightarrow> json \<Rightarrow> lsblkDevice \<Rightarrow> error + lsblkDevice" where
  "lsblk_str field = put_str (\<lambda>f. lsblk_upd field (f ''''))"

definition lsblk_rota :: "json \<Rightarrow> lsblkDevice \<Rightarrow> error + lsblkDevice" where
  "lsblk_rota = put_bool (\<lambda>f. lsblk_set_rota (f False))"

fun decode_lsblk :: "json \<Rightarrow> lsblkDevice \<Rightarrow> error + lsblkDevice"
  and decode_lsblk_members :: "(string \<times> json) list \<Rightarrow> lsblkDevice \<Rightarrow> error + lsblkDevice"
  and decode_lsblks :: "json list \<Rightarrow> error + lsblkDevice list" where
  "decode_lsblk (JObj ms) d = decode_lsblk_members ms d"
| "decode_lsblk JNull d = Inr d"
| "decode_lsblk _ d = Inl type_error"
| "decode_lsblk_members [] d = Inr d"
| "decode_lsblk_members ((k, j) # ms) d =
     (case (if field_is ''name'' k then lsblk_str ''name'' j d
            else if field_is ''size'' k then lsblk_str ''size'' j d
            else if field_is ''rota'' k then lsblk_rota j d
            else if field_is ''model'' k then lsblk_str ''model'' j d
            else if field_is ''serial'' k then lsblk_str ''serial'' j d
            else if field_is ''fstype'' k then lsblk_str ''fstype'' j d
            else if field_is ''mountpoint'' k then lsblk_str ''mountpoint'' j d
            else if field_is ''children'' k then
              (case j of JArr js \<Rightarrow> (case decode_lsblks js of Inl e \<Rightarrow> Inl e | Inr cs \<Rightarrow> Inr (lsblk_set_children cs d))
               | JNull \<Rightarrow> Inr (lsblk_set_children [] d) | _ \<Rightarrow> Inl type_error)
            else Inr d) of
        Inl e \<Rightarrow> Inl e
      | Inr d' \<Rightarrow> decode_lsblk_members ms d')"
| "decode_lsblks [] = Inr []"
| "decode_lsblks (j # js) =
     (case decode_lsblk j lsblk_zero of
        Inl e \<Rightarrow> Inl e
      | Inr d \<Rightarrow> (case decode_lsblks js of Inl e \<Rightarrow> Inl e | Inr ds \<Rightarrow> Inr (d # ds)))"

definition put_blockdevices :: "string \<Rightarrow> json \<Rightarrow> lsblkDevice list \<Rightarrow> error + lsblkDevice list" where
  "put_blockdevices k j ds =
     (if field_is ''blockdevices'' k then
        (case j of JArr js \<Rightarrow> decode_lsblks js | JNull \<Rightarrow> Inr [] | _ \<Rightarrow> Inl type_error)
      else Inr ds)"

section \<open>Discovery\<close>

definition skip_device :: "lsblkDevice \<Rightarrow> bool" where
  "skip_device d \<longleftrightarrow> HasPrefix (lsblk_Name d) ''loop'' \<or> HasPrefix (lsblk_Name d) ''sr''"

definition to_device :: "lsblkDevice \<Rightarrow> Device" where
  "to_device d =
     \<lparr>dev_Name = lsblk_Name d,
      dev_DevicePath = ''/dev/'' @ lsblk_Name d,
      dev_SizeBytes = ParseInt (lsblk_Size d),
      dev_Rotational = lsblk_Rota d,
      dev_Model = TrimSpace (lsblk_Model d),
      dev_Serial = TrimSpace (lsblk_Serial d),
      dev_Filesystem = lsblk_Fstype d,
      dev_MountPoint = lsblk_Mountpoint d,
      dev_Children = []\<rparr>"

definition lsblk_command :: "string list" where
  "lsblk_command = [''lsblk'', ''--json'', ''--output'', ''NAME,SIZE,ROTA,MODEL,SERIAL,FSTYPE,MOUNTPOINT'', ''--bytes'', ''--nodeps'']"

definition DiscoverDevices :: "'w host \<Rightarrow> ('w, error + Device list) state" where
  "DiscoverDevices h = do {
     (output, err) \<leftarrow> exec_output h lsblk_command;
     State_Monad.return (case err of
       Some e \<Rightarrow> Inl (WrapError ''lsblk failed'' e)
     | None \<Rightarrow>
         (case Unmarshal put_blockdevices output [] of
            Inl e \<Rightarrow> Inl (WrapError ''parsing lsblk output'' e)
          | Inr ds \<Rightarrow> Inr (map to_device (filter (\<lambda>d. \<not> skip_device d) ds))))
   }"

definition GetDeviceFilesystem :: "'w host \<Rightarrow> string \<Rightarrow> ('w, error + string) state" where
  "GetDeviceFilesystem h devicePath = do {
     (output, err) \<leftarrow> exec_output h [''blkid'', ''-s'', ''TYPE'', ''-o'', ''value'', devicePath];
     State_Monad.return (case err of Some e \<Rightarrow> Inr '''' | None \<Rightarrow> Inr (TrimSpace output))
   }"

section \<open>Formatting and mounting\<close>

definition mkfs_command :: "string \<Rightarrow> string \<Rightarrow> string list option" where
  "mkfs_command devicePath filesystem =
     (if filesystem = ''xfs'' then Some [''mkfs.xfs'', ''-f'', devicePath]
      else if filesystem = ''ext4'' then Some [''mkfs.ext4'', ''-F'', devicePath]
      else if filesystem = ''btrfs'' then Some [''mkfs.btrfs'', ''-f'', devicePath]
      else None)"

definition FormatDevice :: "'w host \<Rightarrow> string \<Rightarrow> string \<Rightarrow> ('w, error option) state" where
  "FormatDevice h devicePath filesystem =
     (case mkfs_command devicePath filesystem of
        None \<Rightarrow> State_Monad.return (Some (ErrorString (''unsupported filesystem '' @ Quote filesystem)))
      | Some cmd \<Rightarrow> do {
          (stderr, err) \<leftarrow> exec_run h cmd;
          State_Monad.return (map_option (\<lambda>e. stderr_error (''mkfs '' @ filesystem @ '' on '' @ devicePath) e stderr) err)
        })"

definition IsMounted :: "'w host \<Rightarrow> string \<Rightarrow> ('w, bool) state" where
  "IsMounted h mountPoint = do {
     a \<leftarrow> Abs_path h mountPoint;
     case a of
       Inl err \<Rightarrow> State_Monad.return False
     | Inr absPath \<Rightarrow> do {
         r \<leftarrow> os_ReadFile h ''/proc/mounts'';
         State_Monad.return (case r of
           Inl err \<Rightarrow> False
         | Inr content \<Rightarrow>
             list_ex (\<lambda>line. let fields = Fields line in length fields \<ge> 2 \<and> fields ! 1 = absPath) (scan_lines content))
       }
   }"

definition mount_args :: "string \<Rightarrow> string \<Rightarrow> string \<Rightarrow> string list" where
  "mount_args devicePath mountPoint filesystem =
     [''-t'', filesystem] @ (if filesystem = ''xfs'' then [''-o'', ''noatime,nodiratime''] else [])
     @ [devicePath, mountPoint]"

definition MountDevice :: "'w host \<Rightarrow> string \<Rightarrow> string \<Rightarrow> string \<Rightarrow> ('w, error option) state" where
  "MountDevice h devicePath mountPoint filesystem = do {
     e \<leftarrow> os_MkdirAll h mountPoint;
     case e of
       Some err \<Rightarrow> State_Monad.return (Some (WrapError (''creating mount point '' @ mountPoint) err))
     | None \<Rightarrow> do {
         m \<leftarrow> IsMounted h mountPoint;
         if m then State_Monad.return None
         else do {
           (stderr, err) \<leftarrow> exec_run h (''mount'' # mount_args devicePath mountPoint filesystem);
           State_Monad.return
             (map_option (\<lambda>e. stderr_error (''mounting '' @ devicePath @ '' at '' @ mountPoint) e stderr) err)
         }
       }
   }"

definition UnmountDevice :: "'w host \<Rightarrow> string \<Rightarrow> ('w, error option) state" where
  "UnmountDevice h mountPoint = do {
     m \<leftarrow> IsMounted h mountPoint;
     if \<not> m then State_Monad.return None
     else do {
       (stderr, err) \<leftarrow> exec_run h [''umount'', ''-l'', mountPoint];
       State_Monad.return (map_option (\<lambda>e. stderr_error (''unmounting '' @ mountPoint) e stderr) err)
     }
   }"

definition GetDiskUsage :: "'w host \<Rightarrow> string \<Rightarrow> ('w, error + i64 \<times> i64) state" where
  "GetDiskUsage h mountPoint = do {
     (output, runErr) \<leftarrow> exec_output h [''df'', ''--block-size=1'', ''--output=used,avail'', mountPoint];
     State_Monad.return (case runErr of
       Some e \<Rightarrow> Inl (WrapError (''df on '' @ mountPoint) e)
     | None \<Rightarrow>
         (let lines = Split (TrimSpace output) (CHR 0x0A) in
          if length lines < 2 then Inl (ErrorString (''unexpected df output: '' @ output))
          else let fields = Fields (lines ! 1) in
            if length fields < 2 then Inl (ErrorString (''unexpected df fields: '' @ lines ! 1))
            else Inr (ParseInt (fields ! 0), ParseInt (fields ! 1))))
   }"

definition mergerfs_opts :: "string \<Rightarrow> string \<Rightarrow> string \<Rightarrow> string" where
  "mergerfs_opts createPolicy minFreeSpace extraOpts =
     ''defaults,allow_other,category.create='' @ createPolicy @ '',minfreespace='' @ minFreeSpace @ '',fsname=mergerfs''
     @ (if extraOpts \<noteq> '''' then '','' @ extraOpts else [])"

definition MountMergerFS ::
  "'w host \<Rightarrow> string list \<Rightarrow> string \<Rightarrow> string \<Rightarrow> string \<Rightarrow> string \<Rightarrow> ('w, error option) state" where
  "MountMergerFS h branches mountPoint createPolicy minFreeSpace extraOpts = do {
     e \<leftarrow> os_MkdirAll h mountPoint;
     case e of
       Some err \<Rightarrow> State_Monad.return (Some (WrapError (''creating pool mount point '' @ mountPoint) err))
     | None \<Rightarrow> do {
         m \<leftarrow> IsMounted h mountPoint;
         _ \<leftarrow> (if m then UnmountDevice h mountPoint else State_Monad.return None);
         (stderr, err) \<leftarrow> exec_run h [''mergerfs'', ''-o'', mergerfs_opts createPolicy minFreeSpace extraOpts,
           Join branches '':'', mountPoint];
         State_Monad.return (map_option (\<lambda>e. stderr_error ''mergerfs mount failed'' e stderr) err)
       }
   }"

definition fstab_entry :: "string \<Rightarrow> string \<Rightarrow> string \<Rightarrow> string \<Rightarrow> string" where
  "fstab_entry devicePath mountPoint filesystem options =
     devicePath @ tab @ mountPoint @ tab @ filesystem @ tab @ options @ tab @ ''0'' @ tab @ ''0'' @ newline"

definition EnsureFstabEntry :: "'w host \<Rightarrow> string \<Rightarrow> string \<Rightarrow> string \<Rightarrow> string \<Rightarrow> ('w, error option) state" where
  "EnsureFstabEntry h devicePath mountPoint filesystem options = do {
     r \<leftarrow> os_ReadFile h ''/etc/fstab'';
     case (case r of Inl (notExist, err) \<Rightarrow> if notExist then Inr '''' else Inl err | Inr c \<Rightarrow> Inr c) of
       Inl err \<Rightarrow> State_Monad.return (Some (WrapError ''reading /etc/fstab'' err))
     | Inr content \<Rightarrow>
         if Contains content devicePath then State_Monad.return None
         else do {
           opened \<leftarrow> os_OpenAppend h ''/etc/fstab'';
           case opened of
             Some err \<Rightarrow> State_Monad.return (Some (WrapError ''opening /etc/fstab for writing'' err))
           | None \<Rightarrow> os_WriteString h ''/etc/fstab'' (fstab_entry devicePath mountPoint filesystem options)
         }
   }"

section \<open>Mount table lemmas\<close>

lemma Fields_no_space: "x \<in> set (Fields s) \<Longrightarrow> c \<in> set x \<Longrightarrow> \<not> is_space c"
proof (induction s rule: Fields.induct)
  case (1 s)
  show ?case
  proof (cases "dropWhile is_space s")
    case Nil
    then have "Fields s = []" by (subst Fields.simps) (simp only: list.case)
    then show ?thesis using "1.prems" by simp
  next
    case (Cons a r)
    have a: "\<not> is_space a" using Cons by (metis hd_dropWhile list.distinct(1) list.sel(1))
    have "Fields s = (a # takeWhile (\<lambda>x. \<not> is_space x) r) # Fields (dropWhile (\<lambda>x. \<not> is_space x) r)"
      by (subst Fields.simps) (simp only: Cons list.case)
    with "1.prems"(1) have "x = a # takeWhile (\<lambda>x. \<not> is_space x) r \<or>
        x \<in> set (Fields (dropWhile (\<lambda>x. \<not> is_space x) r))" by simp
    then show ?thesis using a "1.prems"(2) "1.IH"[OF Cons _ "1.prems"(2)] by (auto dest: set_takeWhileD)
  qed
qed

lemma octal_escape_id: "CHR 0x5C \<notin> set (octal_escape t) \<Longrightarrow> octal_escape t = t"
  by (induction t) (auto simp: octal_escape_def split: if_splits)

text \<open>A mount on the path as \<^verbatim>\<open>/proc/mounts\<close> spells it, and on the path itself.\<close>

definition shown_on :: "mount list \<Rightarrow> string \<Rightarrow> bool" where
  "shown_on ms p \<longleftrightarrow> (\<exists>m \<in> set ms. octal_escape (target m) = p)"

definition mounted_on :: "mount list \<Rightarrow> string \<Rightarrow> bool" where
  "mounted_on ms p \<longleftrightarrow> (\<exists>m \<in> set ms. target m = p)"

lemma shown_mounted: "shown_on ms p \<Longrightarrow> CHR 0x5C \<notin> set p \<Longrightarrow> mounted_on ms p"
  unfolding shown_on_def mounted_on_def using octal_escape_id by metis

lemma list_ex_shown:
  assumes "shows_mounts c ms"
  shows "list_ex (\<lambda>line. let fields = Fields line in length fields \<ge> 2 \<and> fields ! 1 = p) (scan_lines c) \<longleftrightarrow> shown_on ms p"
proof -
  let ?P = "\<lambda>fs :: string list. length fs \<ge> 2 \<and> fs ! 1 = p"
  have t3: "?P (take 3 fs) = ?P fs" for fs :: "string list" by auto
  have "list_ex (\<lambda>line. let fields = Fields line in length fields \<ge> 2 \<and> fields ! 1 = p) (scan_lines c)
      = list_ex ?P (map (\<lambda>l. take 3 (Fields l)) (scan_lines c))"
    unfolding list_ex_iff Let_def set_map by (simp only: bex_simps t3)
  also have "\<dots> = list_ex ?P (map (\<lambda>(s, t, f). [octal_escape s, octal_escape t, octal_escape f]) (rev ms))"
    using assms by (simp only: shows_mounts_def)
  also have "\<dots> = shown_on ms p" by (simp add: list_ex_iff shown_on_def target_def case_prod_beta)
  finally show ?thesis .
qed

lemma no_blank_field:
  "is_space c \<Longrightarrow> c \<in> set p \<Longrightarrow>
   \<not> list_ex (\<lambda>line. let fields = Fields line in length fields \<ge> 2 \<and> fields ! 1 = p) ls"
proof
  assume c: "is_space c" "c \<in> set p"
    and "list_ex (\<lambda>line. let fields = Fields line in length fields \<ge> 2 \<and> fields ! 1 = p) ls"
  then obtain line where "length (Fields line) \<ge> 2" "Fields line ! 1 = p" by (auto simp: list_ex_iff Let_def)
  then have "p \<in> set (Fields line)" using nth_mem[of 1 "Fields line"] by simp
  then show False using Fields_no_space c by blast
qed

lemma drop_mount_absent: "\<not> mounted_on ms p \<Longrightarrow> drop_mount p ms = ms"
  by (induction ms) (auto simp: mounted_on_def)

lemma length_drop_mount: "mounted_on ms p \<Longrightarrow> Suc (length (drop_mount p ms)) = length ms"
  by (induction ms) (auto simp: mounted_on_def)

lemma mounted_drop_other: "q \<noteq> p \<Longrightarrow> mounted_on (drop_mount p ms) q = mounted_on ms q"
  by (induction ms) (auto simp: mounted_on_def)

context node_host begin

lemma wp_IsMounted:
  assumes "HasPrefix p ''/''"
    and "\<And>b w'. same_host w w' \<Longrightarrow> (b \<Longrightarrow> shown_on (mounts w) (Clean_rooted p)) \<Longrightarrow>
          (b \<Longrightarrow> list_all (\<lambda>c. \<not> is_space c) (Clean_rooted p)) \<Longrightarrow> Q b w'"
  shows "wp (IsMounted h p) Q w"
  unfolding IsMounted_def wp
proof (rule wp_Abs[OF assms(1)], unfold sum.case wp, rule wp_read, goal_cases)
  case (1 c w')
  then show ?case using list_ex_shown[of c "mounts w" "Clean_rooted p"] no_blank_field[of _ "Clean_rooted p"]
    by (auto intro!: assms(2) simp: list_all_iff)
next
  case (2 n e w')
  then show ?case by (simp add: assms(2))
qed

lemma wp_mount_run:
  assumes p: "HasPrefix mp ''/''"
    and ok: "\<And>src out w'. mounts w' = (src, Clean_rooted mp, fs) # mounts w \<Longrightarrow> fstab w' = fstab w \<Longrightarrow> Q (out, None) w'"
    and err: "\<And>e out w'. same_host w w' \<Longrightarrow> Q (out, Some e) w'"
  shows "wp (exec_run h (''mount'' # mount_args dev mp fs)) Q w"
proof (rule run_wp)
  fix r w' assume r: "run_state (exec_run h (''mount'' # mount_args dev mp fs)) w = (r, w')"
  obtain opts where a: "''mount'' # mount_args dev mp fs = ''mount'' # ''-t'' # fs # opts @ [dev, mp]"
    by (simp add: mount_args_def)
  obtain s e where re: "r = (s, e)" by fastforce
  show "Q r w'"
    using mount_law[OF r[unfolded a re] p] by (cases e) (auto simp: re same_host_def intro: ok err)
qed

lemma wp_MountDevice:
  assumes p: "HasPrefix mp ''/''" "CHR 0x5C \<notin> set (Clean_rooted mp)"
    and ok: "\<And>w'. fstab w' = fstab w \<Longrightarrow> mounted_on (mounts w') (Clean_rooted mp) \<Longrightarrow>
        (\<exists>src. mounts w' = (src, Clean_rooted mp, fs) # mounts w) \<or> mounts w' = mounts w \<Longrightarrow> Q None w'"
    and err: "\<And>e w'. same_host w w' \<Longrightarrow> Q (Some e) w'"
  shows "wp (MountDevice h dev mp fs) Q w"
  unfolding MountDevice_def wp
proof (rule wp_mkdir, goal_cases)
  case (1 e w1)
  show ?case
  proof (cases e)
    case (Some x)
    then show ?thesis using 1 by (simp add: wp err)
  next
    case None
    show ?thesis unfolding None option.case wp
    proof (rule wp_IsMounted[OF p(1)], goal_cases)
      case (1 b w2)
      have w2: "same_host w w2" using 1 \<open>same_host w w1\<close> by (simp add: same_host_def)
      show ?case
      proof (cases b)
        case True
        then have "mounted_on (mounts w2) (Clean_rooted mp)"
          using 1 \<open>same_host w w1\<close> p(2) shown_mounted by (simp add: same_host_def)
        then show ?thesis using True w2 by (auto simp: same_host_def intro!: ok)
      next
        case False
        have "wp (exec_run h (''mount'' # mount_args dev mp fs))
            (\<lambda>r w'. Q (map_option (\<lambda>e. stderr_error (''mounting '' @ dev @ '' at '' @ mp) e (fst r)) (snd r)) w') w2"
          by (rule wp_mount_run[OF p(1)])
            (use w2 in \<open>auto simp: mounted_on_def target_def same_host_def intro!: ok err\<close>)
        then show ?thesis using False by (simp add: wp case_prod_beta wp_def)
      qed
    qed
  qed
qed

lemma wp_UnmountDevice:
  assumes p: "HasPrefix mp ''/''"
    and ok: "\<And>e w'. fstab w' = fstab w \<Longrightarrow> mounts w' = mounts w \<or> e = None \<and>
         mounts w' = drop_mount (Clean_rooted mp) (mounts w) \<and> list_all (\<lambda>c. \<not> is_space c) (Clean_rooted mp)
         \<Longrightarrow> Q e w'"
  shows "wp (UnmountDevice h mp) Q w"
  unfolding UnmountDevice_def wp
proof (rule wp_IsMounted[OF p], goal_cases)
  case (1 b w1)
  show ?case
  proof (cases b)
    case False
    then show ?thesis using 1 by (simp add: ok same_host_def)
  next
    case True
    have "wp (exec_run h [''umount'', ''-l'', mp])
        (\<lambda>r w'. Q (map_option (\<lambda>e. stderr_error (''unmounting '' @ mp) e (fst r)) (snd r)) w') w1"
    proof (rule run_wp)
      fix r w' assume r: "run_state (exec_run h [''umount'', ''-l'', mp]) w1 = (r, w')"
      obtain s e where re: "r = (s, e)" by fastforce
      show "Q (map_option (\<lambda>e. stderr_error (''unmounting '' @ mp) e (fst r)) (snd r)) w'"
        using umount_law[OF r[unfolded re] p] 1 True
        by (intro ok) (auto simp: re same_host_def split: if_splits)
    qed
    then show ?thesis using True by (simp add: wp case_prod_beta wp_def)
  qed
qed

lemma wp_append_fstab:
  assumes "base = (case fstab w of None \<Rightarrow> [] | Some c \<Rightarrow> c)"
  shows "wp (os_OpenAppend h ''/etc/fstab'') (\<lambda>e w1. case e of
       Some err \<Rightarrow> mounts w1 = mounts w
     | None \<Rightarrow> wp (os_WriteString h ''/etc/fstab'' t)
         (\<lambda>r w'. mounts w' = mounts w \<and> (r = None \<longrightarrow> fstab w' = Some (base @ t))) w1) w"
proof (rule run_wp)
  fix e w1 assume e: "run_state (os_OpenAppend h ''/etc/fstab'') w = (e, w1)"
  show "case e of Some err \<Rightarrow> mounts w1 = mounts w
     | None \<Rightarrow> wp (os_WriteString h ''/etc/fstab'' t)
         (\<lambda>r w'. mounts w' = mounts w \<and> (r = None \<longrightarrow> fstab w' = Some (base @ t))) w1"
  proof (cases e)
    case None
    then have w1: "mounts w1 = mounts w" "fstab w1 = Some base" using open_law[OF e] assms by simp_all
    show ?thesis unfolding None option.case
    proof (rule run_wp)
      fix r w2 assume "run_state (os_WriteString h ''/etc/fstab'' t) w1 = (r, w2)"
      from write_law[OF this] show "mounts w2 = mounts w \<and> (r = None \<longrightarrow> fstab w2 = Some (base @ t))"
        using w1 by auto
    qed
  next
    case (Some err)
    then show ?thesis using open_law[OF e] by simp
  qed
qed

definition fstab_post :: "'w \<Rightarrow> string \<Rightarrow> string \<Rightarrow> error option \<Rightarrow> 'w \<Rightarrow> bool" where
  "fstab_post w dev entry r w' \<longleftrightarrow> mounts w' = mounts w \<and>
     (case fstab w of
        None \<Rightarrow> r = None \<longrightarrow> fstab w' = Some entry
      | Some c \<Rightarrow> if Contains c dev then fstab w' = Some c
                  else r = None \<longrightarrow> fstab w' = Some (c @ entry))"

lemma wp_EnsureFstabEntry:
  assumes "dev \<noteq> ''''"
  shows "wp (EnsureFstabEntry h dev mp fs opts) (fstab_post w dev (fstab_entry dev mp fs opts)) w"
proof -
  have nil: "\<not> Contains [] dev" using assms by simp
  have app: "wp (os_OpenAppend h ''/etc/fstab'') (\<lambda>e w'. case e of
       Some err \<Rightarrow> fstab_post w dev (fstab_entry dev mp fs opts) (Some (WrapError ''opening /etc/fstab for writing'' err)) w'
     | None \<Rightarrow> wp (os_WriteString h ''/etc/fstab'' (fstab_entry dev mp fs opts))
         (fstab_post w dev (fstab_entry dev mp fs opts)) w') w1"
    if "same_host w w1" "\<And>c. fstab w = Some c \<Longrightarrow> \<not> Contains c dev" for w1
    by (rule wp_mono[OF wp_append_fstab[of "case fstab w of None \<Rightarrow> [] | Some c \<Rightarrow> c"]])
      (use that in \<open>auto simp: same_host_def fstab_post_def split: option.splits elim!: wp_mono\<close>)
  show ?thesis unfolding EnsureFstabEntry_def wp
  proof (rule wp_read, goal_cases)
    case (1 c w1)
    show ?case
    proof (cases "Contains c dev")
      case True
      then show ?thesis using 1 by (simp add: wp same_host_def fstab_post_def)
    next
      case False
      then show ?thesis unfolding sum.case wp using 1 app[OF 1(1)] by (simp add: wp)
    qed
  next
    case (2 n e w1)
    show ?case
    proof (cases n)
      case True
      then show ?thesis using 2 nil app[OF 2(1)] by (simp add: wp)
    next
      case False
      then show ?thesis using 2(1) by (auto simp: wp same_host_def fstab_post_def split: option.splits)
    qed
  qed
qed

end

section \<open>Discovery lemmas\<close>

lemma lsblk_str_JNum [simp]: "lsblk_str f (JNum n) d = Inl type_error"
  by (simp add: lsblk_str_def put_str_def)

lemma lsblk_size_field [simp]: "field_is ''size'' ''size''" "\<not> field_is ''name'' ''size''"
  by (simp_all add: field_is_def ToLower_def to_lower_def)

lemma decode_numeric_size:
  "(''size'', JNum n) \<in> set ms \<Longrightarrow> \<exists>e. decode_lsblk_members ms d = Inl e"
proof (induction ms arbitrary: d)
  case (Cons m ms)
  obtain k j where m: "m = (k, j)" by (cases m)
  show ?case
  proof (cases "m = (''size'', JNum n)")
    case True
    then show ?thesis by simp
  next
    case False
    then have "(''size'', JNum n) \<in> set ms" using Cons.prems by auto
    then have "\<exists>e. decode_lsblk_members ms d' = Inl e" for d' by (rule Cons.IH)
    then show ?thesis unfolding m decode_lsblk_members.simps by (rule case_sum_Inl)
  qed
qed simp

lemma decode_lsblks_error:
  "JObj ms \<in> set js \<Longrightarrow> (''size'', JNum n) \<in> set ms \<Longrightarrow> \<exists>e. decode_lsblks js = Inl e"
proof (induction js)
  case (Cons j js)
  show ?case
  proof (cases "decode_lsblk j lsblk_zero")
    case (Inr d)
    then have "j \<noteq> JObj ms" using decode_numeric_size[OF Cons.prems(2), of lsblk_zero] by auto
    then show ?thesis using Cons Inr by auto
  qed simp
qed simp

section \<open>Properties\<close>

text \<open>When \<^verbatim>\<open>MountDevice\<close> returns no error the device's mount point is mounted, whether it was before
  or the call mounted it; it adds at most this one mount, on an error it changes no mount, and it never
  touches the fstab. (Absolute paths whose clean form has no backslash.)\<close>

lemma MountDevice_mounts:
  assumes "node_host h mounts fstab" and "HasPrefix mp ''/''" and "CHR 0x5C \<notin> set (Clean_rooted mp)"
  shows "wp (MountDevice h dev mp fs) (\<lambda>r w'. fstab w' = fstab w \<and>
     (if r = None then mounted_on (mounts w') (Clean_rooted mp) \<and>
        ((\<exists>src. mounts w' = (src, Clean_rooted mp, fs) # mounts w) \<or> mounts w' = mounts w)
      else mounts w' = mounts w)) w"
  by (rule node_host.wp_MountDevice[OF assms])
    (simp_all add: node_host.same_host_def[OF assms(1)])

text \<open>A mount point with a blank in its path is never seen as mounted, because \<^verbatim>\<open>/proc/mounts\<close> shows
  blanks in octal and \<^verbatim>\<open>IsMounted\<close> compares the raw fields: \<^verbatim>\<open>UnmountDevice\<close> reports success and
  leaves every mount in place, also the one it was asked to remove.\<close>

lemma UnmountDevice_blank_noop:
  assumes "node_host h mounts fstab" and "HasPrefix mp ''/''" and "CHR '' '' \<in> set (Clean_rooted mp)"
  shows "wp (UnmountDevice h mp) (\<lambda>r w'. r = None \<and> mounts w' = mounts w) w"
proof -
  have "\<not> list_all (\<lambda>c. \<not> is_space c) (Clean_rooted mp)"
    using assms(3) by (auto simp: list_all_iff is_space_def)
  then show ?thesis unfolding UnmountDevice_def wp
    by (intro node_host.wp_IsMounted[OF assms(1,2)]) (auto simp: wp node_host.same_host_def[OF assms(1)])
qed

text \<open>\<^verbatim>\<open>EnsureFstabEntry\<close> never removes anything from the fstab and changes no mount. A file that already
  contains the device path as text is left as it is; otherwise a call without error has appended exactly
  the entry, so a second call changes nothing. The text test also holds when only another device is
  listed whose path extends this one, for example \<^verbatim>\<open>/dev/sdb1\<close> for \<^verbatim>\<open>/dev/sdb\<close>.\<close>

lemma EnsureFstabEntry_appends:
  assumes "node_host h mounts fstab" and "dev \<noteq> ''''"
  shows "wp (EnsureFstabEntry h dev mp fs opts) (\<lambda>r w'. mounts w' = mounts w \<and>
     (case fstab w of
        None \<Rightarrow> r = None \<longrightarrow> fstab w' = Some (fstab_entry dev mp fs opts)
      | Some c \<Rightarrow> if Contains c dev then fstab w' = Some c
                  else r = None \<longrightarrow> fstab w' = Some (c @ fstab_entry dev mp fs opts))) w"
  using node_host.wp_EnsureFstabEntry[OF assms, of mp fs opts w] unfolding node_host.fstab_post_def[OF assms(1)] .

text \<open>Discovery fails as a whole when \<^verbatim>\<open>lsblk\<close> prints the size of one device as a JSON number, as
  current versions do with \<^verbatim>\<open>--bytes\<close>: the field is a Go string, decoding returns an error and no device
  is reported.\<close>

lemma DiscoverDevices_numeric_size:
  assumes "run_state (exec_output h lsblk_command) w = ((print_json (JObj [(''blockdevices'', JArr js)]), None), w1)"
    and "wf_json (JArr js)" and "JObj ms \<in> set js" and "(''size'', JNum n) \<in> set ms"
  shows "\<exists>e. run_state (DiscoverDevices h) w = (Inl (WrapError ''parsing lsblk output'' e), w1)"
proof -
  obtain e where "decode_lsblks js = Inl e" using decode_lsblks_error[OF assms(3,4)] by blast
  then have "Unmarshal put_blockdevices (print_json (JObj [(''blockdevices'', JArr js)])) [] = Inl e"
    using assms(2) by (subst Unmarshal_print) (simp_all add: decode_struct_def put_blockdevices_def field_is_def)
  then show ?thesis by (simp add: DiscoverDevices_def run_simps assms(1))
qed

section \<open>Witnesses\<close>

definition demo_host_state :: mem_host where
  "demo_host_state = \<lparr>mh_mounts = [(''/dev/sda1'', ''/'', ''ext4'')], mh_fstab = Some ''/dev/sdb1 /mnt/old xfs defaults 0 0''\<rparr>"

definition demo_lsblk :: json where
  "demo_lsblk = JObj [(''name'', JStr ''sdb''), (''size'', JNum ''4000787030016''), (''rota'', JBool True)]"

definition demo_output :: "string list \<Rightarrow> string \<times> error option" where
  "demo_output cmd = (if cmd = lsblk_command then (print_json (JObj [(''blockdevices'', JArr [demo_lsblk])]), None)
                      else ([], Some os_error))"

definition demo_host :: "mem_host host" where
  "demo_host = memory_host id (\<lambda>m _. m) demo_output"

lemma demo_node_host: "node_host demo_host (\<lambda>w. mh_mounts (id w)) (\<lambda>w. mh_fstab (id w))"
  unfolding demo_host_def by (rule memory_host_node_host) simp

lemma MountDevice_mounts_witness:
  "wp (MountDevice demo_host ''/dev/sdb'' ''/mnt/disks/sdb/'' ''xfs'') (\<lambda>r w'.
     r = None \<longrightarrow> mounted_on (mh_mounts w') ''/mnt/disks/sdb'') demo_host_state"
  by (rule wp_mono[OF MountDevice_mounts[OF demo_node_host]])
    (auto simp: HasPrefix_def Clean_rooted_def split: if_splits)

lemma UnmountDevice_blank_noop_witness:
  "wp (UnmountDevice demo_host ''/mnt/my disk'') (\<lambda>r w'. r = None \<and> mh_mounts w' = mh_mounts demo_host_state) demo_host_state"
  by (rule wp_mono[OF UnmountDevice_blank_noop[OF demo_node_host]])
    (simp_all add: HasPrefix_def Clean_rooted_def)

lemma EnsureFstabEntry_appends_witness:
  "wp (EnsureFstabEntry demo_host ''/dev/sdb'' ''/mnt/disks/sdb'' ''xfs'' ''defaults'') (\<lambda>r w'.
     mh_fstab w' = Some ''/dev/sdb1 /mnt/old xfs defaults 0 0'') demo_host_state"
  by (rule wp_mono[OF EnsureFstabEntry_appends[OF demo_node_host]])
    (simp_all add: demo_host_state_def HasPrefix_def)

lemma DiscoverDevices_numeric_size_witness:
  "\<exists>e. run_state (DiscoverDevices demo_host) demo_host_state
     = (Inl (WrapError ''parsing lsblk output'' e), demo_host_state)"
proof (rule DiscoverDevices_numeric_size)
  show "run_state (exec_output demo_host lsblk_command) demo_host_state
      = ((print_json (JObj [(''blockdevices'', JArr [demo_lsblk])]), None), demo_host_state)"
    by (simp add: demo_host_def memory_host_def on_host_def demo_output_def)
  show "wf_json (JArr [demo_lsblk])" by (simp add: demo_lsblk_def, code_simp)
  show "JObj [(''name'', JStr ''sdb''), (''size'', JNum ''4000787030016''), (''rota'', JBool True)] \<in> set [demo_lsblk]"
    by (simp add: demo_lsblk_def)
qed simp

end
