(* ===== verification/Node_Smart.thy ===== *)
theory Node_Smart
  imports Node_Host Json
begin

text \<open>
  SMART monitoring on the node (\<^verbatim>\<open>node-agent/pkg/smart/smart.go\<close>): decoding the JSON of
  \<^verbatim>\<open>smartctl\<close> and the health score. Shown: the score is a number in [0, 1], it never improves when a
  counter, the wear or the failure flag gets worse, and a numeric \<^verbatim>\<open>rotation_rate\<close> makes the whole
  query fail.
\<close>

section \<open>Data\<close>

record DiskHealth =
  health_DevicePath :: string
  health_Model :: string
  health_SerialNumber :: string
  health_FirmwareVersion :: string
  health_OverallHealth :: string
  health_Temperature :: i64
  health_PowerOnHours :: i64
  health_Rotational :: bool
  health_SmartFailed :: bool
  health_IOErrors :: i64
  health_ReallocatedSectors :: i64
  health_PendingSectors :: i64
  health_UncorrectableErrors :: i64
  health_SpinRetryCount :: i64
  health_CommandTimeout :: i64
  health_NVMeAvailableSparePercent :: i64
  health_NVMePercentUsed :: i64
  health_NVMeMediaErrors :: i64
  health_HealthScore :: f64

record smart_attr =
  attr_ID :: i64
  attr_Name :: string
  attr_Value :: i64
  attr_Worst :: i64
  attr_RawValue :: i64
  attr_Prefailure :: bool

record smartctlOutput =
  so_DeviceName :: string
  so_DeviceProtocol :: string
  so_ModelName :: string
  so_SerialNumber :: string
  so_FirmwareVersion :: string
  so_RotationRate :: i64
  so_Passed :: bool
  so_TemperatureCurrent :: i64
  so_PowerOnHours :: i64
  so_Table :: "smart_attr list"
  so_AvailableSpare :: i64
  so_AvailableSpareThreshold :: i64
  so_PercentageUsed :: i64
  so_MediaErrors :: i64
  so_NumErrLogEntries :: i64

definition smartctl_zero :: smartctlOutput where
  "smartctl_zero = \<lparr>so_DeviceName = '''', so_DeviceProtocol = '''', so_ModelName = '''', so_SerialNumber = '''',
     so_FirmwareVersion = '''', so_RotationRate = 0, so_Passed = False, so_TemperatureCurrent = 0, so_PowerOnHours = 0,
     so_Table = [], so_AvailableSpare = 0, so_AvailableSpareThreshold = 0, so_PercentageUsed = 0, so_MediaErrors = 0,
     so_NumErrLogEntries = 0\<rparr>"

section \<open>Decoding\<close>

text \<open>The nested anonymous structs of the output are decoded into their fields of the one record.\<close>

definition put_device :: "string \<Rightarrow> json \<Rightarrow> smartctlOutput \<Rightarrow> error + smartctlOutput" where
  "put_device k j x =
     (if field_is ''name'' k then put_str so_DeviceName_update j x
      else if field_is ''protocol'' k then put_str so_DeviceProtocol_update j x else Inr x)"

definition put_field :: "string \<Rightarrow> (json \<Rightarrow> 'a \<Rightarrow> error + 'a) \<Rightarrow> string \<Rightarrow> json \<Rightarrow> 'a \<Rightarrow> error + 'a" where
  "put_field name put k j x = (if field_is name k then put j x else Inr x)"

definition attr_zero :: smart_attr where
  "attr_zero = \<lparr>attr_ID = 0, attr_Name = '''', attr_Value = 0, attr_Worst = 0, attr_RawValue = 0, attr_Prefailure = False\<rparr>"

definition put_attr :: "string \<Rightarrow> json \<Rightarrow> smart_attr \<Rightarrow> error + smart_attr" where
  "put_attr k j x =
     (if field_is ''id'' k then put_i64 attr_ID_update j x
      else if field_is ''name'' k then put_str attr_Name_update j x
      else if field_is ''value'' k then put_i64 attr_Value_update j x
      else if field_is ''worst'' k then put_i64 attr_Worst_update j x
      else if field_is ''raw'' k then decode_struct (put_field ''value'' (put_i64 attr_RawValue_update)) j x
      else if field_is ''flags'' k then decode_struct (put_field ''prefailure'' (put_bool attr_Prefailure_update)) j x
      else Inr x)"

fun decode_attrs :: "json list \<Rightarrow> error + smart_attr list" where
  "decode_attrs [] = Inr []"
| "decode_attrs (j # js) =
     (case decode_struct put_attr j attr_zero of
        Inl e \<Rightarrow> Inl e
      | Inr a \<Rightarrow> (case decode_attrs js of Inl e \<Rightarrow> Inl e | Inr as \<Rightarrow> Inr (a # as)))"

definition put_table :: "json \<Rightarrow> smartctlOutput \<Rightarrow> error + smartctlOutput" where
  "put_table j x =
     (case j of
        JArr js \<Rightarrow> (case decode_attrs js of Inl e \<Rightarrow> Inl e | Inr as \<Rightarrow> Inr (x\<lparr>so_Table := as\<rparr>))
      | JNull \<Rightarrow> Inr (x\<lparr>so_Table := []\<rparr>)
      | _ \<Rightarrow> Inl type_error)"

definition put_nvme :: "string \<Rightarrow> json \<Rightarrow> smartctlOutput \<Rightarrow> error + smartctlOutput" where
  "put_nvme k j x =
     (if field_is ''available_spare'' k then put_i64 so_AvailableSpare_update j x
      else if field_is ''available_spare_threshold'' k then put_i64 so_AvailableSpareThreshold_update j x
      else if field_is ''percentage_used'' k then put_i64 so_PercentageUsed_update j x
      else if field_is ''media_errors'' k then put_i64 so_MediaErrors_update j x
      else if field_is ''num_err_log_entries'' k then put_i64 so_NumErrLogEntries_update j x
      else Inr x)"

definition put_smartctl :: "string \<Rightarrow> json \<Rightarrow> smartctlOutput \<Rightarrow> error + smartctlOutput" where
  "put_smartctl k j x =
     (if field_is ''device'' k then decode_struct put_device j x
      else if field_is ''model_name'' k then put_str so_ModelName_update j x
      else if field_is ''serial_number'' k then put_str so_SerialNumber_update j x
      else if field_is ''firmware_version'' k then put_str so_FirmwareVersion_update j x
      else if field_is ''rotation_rate'' k then decode_struct (put_field ''rate'' (put_i64 so_RotationRate_update)) j x
      else if field_is ''smart_status'' k then decode_struct (put_field ''passed'' (put_bool so_Passed_update)) j x
      else if field_is ''temperature'' k then decode_struct (put_field ''current'' (put_i64 so_TemperatureCurrent_update)) j x
      else if field_is ''power_on_time'' k then decode_struct (put_field ''hours'' (put_i64 so_PowerOnHours_update)) j x
      else if field_is ''ata_smart_attributes'' k then decode_struct (put_field ''table'' put_table) j x
      else if field_is ''nvme_smart_health_information_log'' k then decode_struct put_nvme j x
      else Inr x)"

section \<open>The health score\<close>

definition sub_if :: "bool \<Rightarrow> f64 \<Rightarrow> f64 \<Rightarrow> f64" where
  "sub_if c p score = (if c then fsub score p else score)"

definition penalty :: "rat \<Rightarrow> rat \<Rightarrow> i64 \<Rightarrow> f64" where
  "penalty cap factor n = fmin (lit cap) (fmul (of_i64 n) (lit factor))"

definition ComputeHealthScore :: "DiskHealth \<Rightarrow> f64" where
  "ComputeHealthScore h =
     (let s0 = lit 1;
          s1 = sub_if (health_SmartFailed h) (lit (6 / 10)) s0;
          s2 = sub_if (0 < sint (health_ReallocatedSectors h)) (penalty (3 / 10) (1 / 100) (health_ReallocatedSectors h)) s1;
          s3 = sub_if (0 < sint (health_PendingSectors h)) (penalty (4 / 10) (5 / 100) (health_PendingSectors h)) s2;
          s4 = sub_if (0 < sint (health_UncorrectableErrors h)) (penalty (5 / 10) (1 / 10) (health_UncorrectableErrors h)) s3;
          s5 = sub_if (health_Rotational h \<and> 55 < sint (health_Temperature h))
                 (fmul (of_i64 (health_Temperature h - 55)) (lit (2 / 100))) s4;
          s6 = sub_if (\<not> health_Rotational h \<and> 0 < sint (health_NVMePercentUsed h))
                 (fmul (of_i64 (health_NVMePercentUsed h)) (lit (5 / 1000))) s5
      in fmax (lit 0) (fmin (lit 1) s6))"

section \<open>Querying a disk\<close>

definition apply_attr :: "smart_attr \<Rightarrow> DiskHealth \<Rightarrow> DiskHealth" where
  "apply_attr a h =
     (if attr_ID a = 5 then h\<lparr>health_ReallocatedSectors := attr_RawValue a\<rparr>
      else if attr_ID a = 187 then h\<lparr>health_UncorrectableErrors := attr_RawValue a\<rparr>
      else if attr_ID a = 196 then h
      else if attr_ID a = 197 then h\<lparr>health_PendingSectors := attr_RawValue a\<rparr>
      else if attr_ID a = 198 then
        (if sint (attr_RawValue a) > sint (health_UncorrectableErrors h)
         then h\<lparr>health_UncorrectableErrors := attr_RawValue a\<rparr> else h)
      else if attr_ID a = 10 then h\<lparr>health_SpinRetryCount := attr_RawValue a\<rparr>
      else if attr_ID a = 188 then h\<lparr>health_CommandTimeout := attr_RawValue a\<rparr>
      else h)"

definition health_of :: "string \<Rightarrow> smartctlOutput \<Rightarrow> DiskHealth" where
  "health_of devicePath raw =
     \<lparr>health_DevicePath = devicePath,
      health_Model = so_ModelName raw,
      health_SerialNumber = so_SerialNumber raw,
      health_FirmwareVersion = so_FirmwareVersion raw,
      health_OverallHealth = (if so_Passed raw then ''PASSED'' else ''FAILED''),
      health_Temperature = so_TemperatureCurrent raw,
      health_PowerOnHours = so_PowerOnHours raw,
      health_Rotational = (0 < sint (so_RotationRate raw)),
      health_SmartFailed = (\<not> so_Passed raw),
      health_IOErrors = 0,
      health_ReallocatedSectors = 0, health_PendingSectors = 0, health_UncorrectableErrors = 0,
      health_SpinRetryCount = 0, health_CommandTimeout = 0,
      health_NVMeAvailableSparePercent = 0, health_NVMePercentUsed = 0, health_NVMeMediaErrors = 0,
      health_HealthScore = Fin 0\<rparr>"

definition smart_health :: "string \<Rightarrow> smartctlOutput \<Rightarrow> DiskHealth" where
  "smart_health devicePath raw =
     (let h = fold apply_attr (so_Table raw) (health_of devicePath raw);
          h' = h\<lparr>health_NVMeAvailableSparePercent := so_AvailableSpare raw,
                 health_NVMePercentUsed := so_PercentageUsed raw,
                 health_NVMeMediaErrors := so_MediaErrors raw + so_NumErrLogEntries raw\<rparr>
      in h'\<lparr>health_HealthScore := ComputeHealthScore h'\<rparr>)"

definition smartctl_command :: "string \<Rightarrow> string list" where
  "smartctl_command devicePath = [''smartctl'', ''-a'', ''--json=c'', devicePath]"

definition QueryDisk :: "'w host \<Rightarrow> string \<Rightarrow> ('w, error + DiskHealth) state" where
  "QueryDisk h devicePath = do {
     (output, err) \<leftarrow> exec_output h (smartctl_command devicePath);
     State_Monad.return
       (case (if output = [] then err else None) of
          Some e \<Rightarrow> Inl (WrapError (''smartctl failed with no output for '' @ devicePath) e)
        | None \<Rightarrow>
            (case Unmarshal put_smartctl output smartctl_zero of
               Inl e \<Rightarrow> Inl (WrapError (''parsing smartctl JSON for '' @ devicePath) e)
             | Inr raw \<Rightarrow> Inr (smart_health devicePath raw)))
   }"

definition degree_C :: string where
  "degree_C = [CHR 0xC2, CHR 0xB0, CHR ''C'']"

definition FormatSMARTSummary :: "DiskHealth \<Rightarrow> string" where
  "FormatSMARTSummary h =
     Join ([health_OverallHealth h]
       @ (if 0 < sint (health_Temperature h) then [''temp='' @ show_i64 (health_Temperature h) @ degree_C] else [])
       @ (if 0 < sint (health_ReallocatedSectors h) then [''reallocated='' @ show_i64 (health_ReallocatedSectors h)] else [])
       @ (if 0 < sint (health_PendingSectors h) then [''pending='' @ show_i64 (health_PendingSectors h)] else [])
       @ (if 0 < sint (health_UncorrectableErrors h) then [''uncorrectable='' @ show_i64 (health_UncorrectableErrors h)] else [])
       @ (if 0 < sint (health_NVMeMediaErrors h) then [''nvme-errors='' @ show_i64 (health_NVMeMediaErrors h)] else []))
       '' ''"

definition IsSmartAvailable :: "'w host \<Rightarrow> ('w, bool) state" where
  "IsSmartAvailable h = do { e \<leftarrow> exec_LookPath h ''smartctl''; State_Monad.return (e = None) }"

section \<open>Score lemmas\<close>

text \<open>Finite doubles of bounded size, closed under the subtractions of the score.\<close>

definition sized :: "nat \<Rightarrow> f64 \<Rightarrow> bool" where
  "sized k x \<longleftrightarrow> (\<exists>r. x = Fin r \<and> rnd r = r \<and> \<bar>r\<bar> \<le> 2 ^ k)"

lemma rnd_pow: "rnd (2 ^ k) = 2 ^ k"
  using rnd_exact[of "2 ^ k" 1 "int k"] by (simp add: pow2_def)

lemma pow_le_max_float: "k \<le> 1000 \<Longrightarrow> 2 ^ k \<le> max_float"
proof -
  assume "k \<le> 1000"
  then have "(2 :: rat) ^ k \<le> 2 ^ 1000" by (intro power_increasing) simp_all
  also have "\<dots> = 2 ^ 29 * 2 ^ 971" by (simp only: power_add[symmetric] numeral_plus_numeral add_num_simps)
  also have "\<dots> \<le> of_int (2 ^ 53 - 1) * 2 ^ 971" by (intro mult_right_mono) simp_all
  also have "\<dots> = max_float" by (simp only: max_float_def pow2_def nat_numeral) simp
  finally show ?thesis .
qed

lemma rnd_abs_le: "\<bar>x\<bar> \<le> 2 ^ k \<Longrightarrow> \<bar>rnd x\<bar> \<le> 2 ^ k"
  using rnd_mono[of x "2 ^ k"] rnd_mono[of "- (2 ^ k)" x] by (simp add: rnd_pow rnd_uminus abs_le_iff)

lemma sized_fround: "\<bar>x\<bar> \<le> 2 ^ k \<Longrightarrow> k \<le> 1000 \<Longrightarrow> fround x = Fin (rnd x) \<and> sized k (Fin (rnd x))"
  using pow_le_max_float[of k] rnd_abs_le[of x k] fround_small[of x] by (simp add: sized_def)

lemma sized_mono: assumes "sized k x" "k \<le> n" shows "sized n x"
proof -
  have "(2 :: rat) ^ k \<le> 2 ^ n" using assms(2) by (intro power_increasing) simp_all
  then have "\<bar>r\<bar> \<le> 2 ^ k \<Longrightarrow> \<bar>r\<bar> \<le> 2 ^ n" for r :: rat by (rule order_trans[rotated])
  then show ?thesis using assms(1) by (auto simp: sized_def)
qed

lemma fsub_sized:
  assumes "sized k a" "sized k b" "k \<le> 999"
  shows "sized (Suc k) (fsub a b)"
    and "\<exists>x y. a = Fin x \<and> b = Fin y \<and> fsub a b = Fin (rnd (x - y))"
proof -
  obtain x y where xy: "a = Fin x" "b = Fin y" "\<bar>x\<bar> \<le> 2 ^ k" "\<bar>y\<bar> \<le> 2 ^ k"
    using assms by (auto simp: sized_def)
  then have "\<bar>x - y\<bar> \<le> 2 ^ Suc k" by (simp add: abs_le_iff)
  from sized_fround[OF this] have "sized (Suc k) (Fin (rnd (x - y)))" "fround (x - y) = Fin (rnd (x - y))"
    using assms(3) by simp_all
  moreover have "fsub a b = fround (x - y)" by (simp add: xy fsub_def)
  ultimately show "sized (Suc k) (fsub a b)"
    and "\<exists>x y. a = Fin x \<and> b = Fin y \<and> fsub a b = Fin (rnd (x - y))"
    using xy by simp_all
qed

lemma fsub_antimono:
  assumes "sized k a" "sized k b" "sized k a'" "sized k b'" "k \<le> 999" "fle a a'" "fle b' b"
  shows "fle (fsub a b) (fsub a' b')"
  using fsub_sized(2)[OF assms(1,2,5)] fsub_sized(2)[OF assms(3,4,5)] assms(6,7)
  by (auto intro!: rnd_mono)

lemma fsub_zero: "sized k a \<Longrightarrow> k \<le> 1000 \<Longrightarrow> fsub a (Fin 0) = a"
  by (auto simp: sized_def fsub_def dest: sized_fround[of _ k])

lemma sub_if_fsub: "sized k s \<Longrightarrow> k \<le> 1000 \<Longrightarrow> sub_if c p s = fsub s (if c then p else Fin 0)"
  by (simp add: sub_if_def fsub_zero)

text \<open>A deduction that grows with its counter.\<close>

definition deduct :: "bool \<Rightarrow> f64 \<Rightarrow> f64" where
  "deduct c p = (if c then p else Fin 0)"

lemma sized_zero [simp]: "sized k (Fin 0)"
  by (simp add: sized_def)


lemma lit_unit: assumes "0 \<le> x" "x \<le> 1" shows "\<exists>r. lit x = Fin r \<and> 0 \<le> r \<and> r \<le> 1 \<and> rnd r = r"
  using sized_fround[of x 0] rnd_mono[of x 1] rnd_nonneg[of x] assms by (simp add: lit_def)

lemma scaled:
  assumes "0 \<le> x" "x \<le> 1" "0 \<le> sint n"
  shows "\<exists>r. fmul (of_i64 n) (lit x) = Fin r \<and> 0 \<le> r \<and> sized 63 (Fin r)"
proof -
  obtain c where c: "lit x = Fin c" "0 \<le> c" "c \<le> 1" using lit_unit[OF assms(1,2)] by blast
  have "0 \<le> rnd (of_int (sint n))" using assms(3) by (intro rnd_nonneg) (simp only: of_int_0_le_iff)
  moreover have "rnd (of_int (sint n)) \<le> 2 ^ 63" using rnd_int_bound[of n] by simp
  ultimately have p: "0 \<le> rnd (of_int (sint n)) * c" "rnd (of_int (sint n)) * c \<le> 2 ^ 63 * 1"
    using c by (intro mult_nonneg_nonneg mult_mono; simp)+
  then have "\<bar>rnd (of_int (sint n)) * c\<bar> \<le> 2 ^ 63" by simp
  from sized_fround[OF this] p(1) show ?thesis by (simp add: of_i64_Fin c rnd_nonneg)
qed

lemma scaled_mono:
  assumes "0 \<le> x" "x \<le> 1" "0 \<le> sint m" "sint m \<le> sint n"
  shows "fle (fmul (of_i64 m) (lit x)) (fmul (of_i64 n) (lit x))"
proof -
  obtain c where c: "lit x = Fin c" "0 \<le> c" using lit_unit[OF assms(1,2)] by blast
  have "rnd (of_int (sint m)) \<le> rnd (of_int (sint n))" using assms(4) by (intro rnd_mono) (simp only: of_int_le_iff)
  then show ?thesis unfolding of_i64_Fin c(1) by (intro fmul_mono_left c(2))
qed

text \<open>The score as one chain of subtractions of non-negative deductions.\<close>

definition good_deduction :: "f64 \<Rightarrow> bool" where
  "good_deduction p \<longleftrightarrow> sized 63 p \<and> nonneg_f p"

definition deductions :: "DiskHealth \<Rightarrow> f64 list" where
  "deductions h =
     [deduct (health_SmartFailed h) (lit (6 / 10)),
      deduct (0 < sint (health_ReallocatedSectors h)) (penalty (3 / 10) (1 / 100) (health_ReallocatedSectors h)),
      deduct (0 < sint (health_PendingSectors h)) (penalty (4 / 10) (5 / 100) (health_PendingSectors h)),
      deduct (0 < sint (health_UncorrectableErrors h)) (penalty (5 / 10) (1 / 10) (health_UncorrectableErrors h)),
      deduct (health_Rotational h \<and> 55 < sint (health_Temperature h))
        (fmul (of_i64 (health_Temperature h - 55)) (lit (2 / 100))),
      deduct (\<not> health_Rotational h \<and> 0 < sint (health_NVMePercentUsed h))
        (fmul (of_i64 (health_NVMePercentUsed h)) (lit (5 / 1000)))]"

lemma fmin_Fin [simp]: "fmin (Fin a) (Fin b) = Fin (min a b)"
  by (simp add: fmin_def min_def)

lemma good_lit: "0 \<le> x \<Longrightarrow> x \<le> 1 \<Longrightarrow> good_deduction (lit x)"
proof -
  assume "0 \<le> x" "x \<le> 1"
  then obtain r where r: "lit x = Fin r" "0 \<le> r" "r \<le> 1" "rnd r = r" using lit_unit by blast
  moreover have "\<bar>r\<bar> \<le> 2 ^ 63" using r by simp
  ultimately show ?thesis by (simp add: good_deduction_def sized_def)
qed

lemma good_scaled: "0 \<le> x \<Longrightarrow> x \<le> 1 \<Longrightarrow> 0 \<le> sint n \<Longrightarrow> good_deduction (fmul (of_i64 n) (lit x))"
  using scaled[of x n] by (auto simp: good_deduction_def)

lemma good_fmin: "good_deduction a \<Longrightarrow> good_deduction b \<Longrightarrow> good_deduction (fmin a b)"
  by (auto simp: good_deduction_def sized_def min_def)

lemma good_penalty:
  "0 \<le> c \<Longrightarrow> c \<le> 1 \<Longrightarrow> 0 \<le> x \<Longrightarrow> x \<le> 1 \<Longrightarrow> 0 \<le> sint n \<Longrightarrow> good_deduction (penalty c x n)"
  unfolding penalty_def by (intro good_fmin good_lit good_scaled)

lemma good_deduct: "(c \<Longrightarrow> good_deduction p) \<Longrightarrow> good_deduction (deduct c p)"
  by (simp add: deduct_def good_deduction_def)

lemma fle_min: "good_deduction c \<Longrightarrow> good_deduction a \<Longrightarrow> good_deduction b \<Longrightarrow> fle a b \<Longrightarrow> fle (fmin c a) (fmin c b)"
  by (auto simp: good_deduction_def sized_def)

lemma penalty_mono:
  assumes "0 \<le> c" "c \<le> 1" "0 \<le> x" "x \<le> 1" "0 \<le> sint m" "sint m \<le> sint n"
  shows "fle (penalty c x m) (penalty c x n)"
  unfolding penalty_def using assms by (intro fle_min good_lit good_scaled scaled_mono) simp_all

lemma fle_deduct:
  assumes "c \<Longrightarrow> c'" "c \<Longrightarrow> fle p p'" "c' \<Longrightarrow> good_deduction p'"
  shows "fle (deduct c p) (deduct c' p')"
  using assms by (cases c; cases c') (auto simp: deduct_def good_deduction_def sized_def)

lemma sint_minus_55: "55 < sint (t :: i64) \<Longrightarrow> sint (t - 55) = sint t - 55"
proof -
  assume "55 < sint t"
  moreover have "sint t < 2 ^ 63" using sint_lt[of t] by simp
  ultimately show ?thesis by (simp add: sint_word_ariths signed_take_bit_int_eq_self)
qed

lemma good_deductions: "\<forall>p \<in> set (deductions h). good_deduction p"
  by (auto simp: deductions_def sint_minus_55 intro!: good_deduct good_lit good_penalty good_scaled)

lemma foldl_sub_if:
  "sized k s \<Longrightarrow> 63 \<le> k \<Longrightarrow> k + length cps \<le> 999 \<Longrightarrow> \<forall>cp \<in> set cps. good_deduction (deduct (fst cp) (snd cp)) \<Longrightarrow>
   foldl (\<lambda>s cp. sub_if (fst cp) (snd cp) s) s cps = foldl fsub s (map (\<lambda>cp. deduct (fst cp) (snd cp)) cps)"
proof (induction cps arbitrary: s k)
  case (Cons cp cps)
  have eq: "sub_if (fst cp) (snd cp) s = fsub s (deduct (fst cp) (snd cp))"
    using Cons.prems by (simp add: sub_if_fsub[of k] deduct_def)
  have "sized (Suc k) (fsub s (deduct (fst cp) (snd cp)))"
    using Cons.prems by (intro fsub_sized(1)) (auto simp: good_deduction_def intro: sized_mono)
  then show ?case using Cons.prems by (simp add: eq Cons.IH)
qed simp

lemma lit_1 [simp]: "lit 1 = Fin 1" and lit_0 [simp]: "lit 0 = Fin 0"
  using sized_fround[of 1 0] sized_fround[of 0 0] by (simp_all add: lit_def)

lemma sized_1: "sized 63 (Fin 1)"
  by (simp add: sized_def)

lemma ComputeHealthScore_chain:
  "ComputeHealthScore h = fmax (Fin 0) (fmin (Fin 1) (foldl fsub (Fin 1) (deductions h)))"
proof -
  let ?cps = "[(health_SmartFailed h, lit (6 / 10)),
      (0 < sint (health_ReallocatedSectors h), penalty (3 / 10) (1 / 100) (health_ReallocatedSectors h)),
      (0 < sint (health_PendingSectors h), penalty (4 / 10) (5 / 100) (health_PendingSectors h)),
      (0 < sint (health_UncorrectableErrors h), penalty (5 / 10) (1 / 10) (health_UncorrectableErrors h)),
      (health_Rotational h \<and> 55 < sint (health_Temperature h), fmul (of_i64 (health_Temperature h - 55)) (lit (2 / 100))),
      (\<not> health_Rotational h \<and> 0 < sint (health_NVMePercentUsed h), fmul (of_i64 (health_NVMePercentUsed h)) (lit (5 / 1000)))]"
  have d: "map (\<lambda>cp. deduct (fst cp) (snd cp)) ?cps = deductions h"
    by (simp only: deductions_def list.map fst_conv snd_conv)
  have g: "\<forall>cp \<in> set ?cps. good_deduction (deduct (fst cp) (snd cp))"
    using good_deductions[of h] unfolding d[symmetric] by (simp only: set_map ball_simps)
  have "ComputeHealthScore h = fmax (Fin 0) (fmin (Fin 1) (foldl (\<lambda>s cp. sub_if (fst cp) (snd cp) s) (Fin 1) ?cps))"
    by (simp only: ComputeHealthScore_def Let_def foldl.simps fst_conv snd_conv lit_1 lit_0)
  then show ?thesis using foldl_sub_if[OF sized_1 _ _ g] unfolding d by simp
qed

lemma foldl_fsub_mono:
  assumes "list_all2 fle ps qs" "\<forall>p \<in> set ps. good_deduction p" "\<forall>p \<in> set qs. good_deduction p"
    "sized k s" "sized k t" "fle t s" "63 \<le> k" "k + length ps \<le> 999"
  shows "fle (foldl fsub t qs) (foldl fsub s ps) \<and> sized (k + length ps) (foldl fsub s ps)"
  using assms
proof (induction ps arbitrary: s t k qs)
  case Nil
  then show ?case by simp
next
  case (Cons p ps)
  then obtain q qs' where q: "qs = q # qs'" "fle p q" "list_all2 fle ps qs'" by (cases qs) auto
  have pq: "sized k p" "sized k q" using Cons.prems q(1) by (auto simp: good_deduction_def intro: sized_mono)
  have "sized (Suc k) (fsub s p)" "sized (Suc k) (fsub t q)"
    using Cons.prems pq by (auto intro!: fsub_sized(1))
  moreover have "fle (fsub t q) (fsub s p)"
    using Cons.prems pq q(2) by (intro fsub_antimono[of k]) auto
  ultimately show ?case using Cons.IH[OF q(3), of "Suc k" "fsub s p" "fsub t q"] Cons.prems q(1) by simp
qed

lemma clamp_mono: "fle (Fin a) (Fin b) \<Longrightarrow> fle (fmax (Fin 0) (fmin (Fin 1) (Fin a))) (fmax (Fin 0) (fmin (Fin 1) (Fin b)))"
  by (auto simp: fmax_def min_def)

lemma sized_Fin: "sized k x \<Longrightarrow> \<exists>r. x = Fin r"
  by (auto simp: sized_def)

definition smart_worse :: "DiskHealth \<Rightarrow> DiskHealth \<Rightarrow> bool" where
  "smart_worse h h' \<longleftrightarrow>
     (health_SmartFailed h \<longrightarrow> health_SmartFailed h') \<and> health_Rotational h' = health_Rotational h \<and>
     sint (health_ReallocatedSectors h) \<le> sint (health_ReallocatedSectors h') \<and>
     sint (health_PendingSectors h) \<le> sint (health_PendingSectors h') \<and>
     sint (health_UncorrectableErrors h) \<le> sint (health_UncorrectableErrors h') \<and>
     sint (health_Temperature h) \<le> sint (health_Temperature h') \<and>
     sint (health_NVMePercentUsed h) \<le> sint (health_NVMePercentUsed h')"

lemma fle_good_refl: "good_deduction p \<Longrightarrow> fle p p"
  by (auto simp: good_deduction_def sized_def)

lemma deductions_mono:
  assumes "smart_worse h h'" shows "list_all2 fle (deductions h) (deductions h')"
proof -
  have "55 < sint (health_Temperature h) \<Longrightarrow> sint (health_Temperature h - 55) \<le> sint (health_Temperature h' - 55)"
    using assms by (simp add: sint_minus_55 smart_worse_def)
  then show ?thesis using assms unfolding deductions_def list_all2_Cons list_all2_Nil smart_worse_def
    by (intro conjI fle_deduct good_lit good_penalty good_scaled penalty_mono scaled_mono fle_good_refl TrueI)
      (auto simp: sint_minus_55)
qed

lemma chain_mono:
  assumes "list_all2 fle (deductions h) ps" "\<forall>p \<in> set ps. good_deduction p"
  shows "fle (foldl fsub (Fin 1) ps) (foldl fsub (Fin 1) (deductions h))"
  using foldl_fsub_mono[OF assms(1) good_deductions assms(2) sized_1 sized_1] by (simp add: deductions_def)

lemma chain_sized: "\<exists>r. foldl fsub (Fin 1) (deductions h) = Fin r \<and> rnd r = r"
proof -
  have "list_all2 fle (deductions h) (deductions h)"
    using good_deductions[of h] by (intro list.rel_refl_strong) (simp add: fle_good_refl)
  then show ?thesis
    using foldl_fsub_mono[of "deductions h" "deductions h" 63 "Fin 1" "Fin 1"] good_deductions[of h] sized_1
    by (auto simp: deductions_def sized_def)
qed

text \<open>A failed self-assessment alone costs at least 9/16.\<close>

lemma rnd_16: "\<bar>n\<bar> \<le> 16 \<Longrightarrow> rnd (of_int n / 16) = of_int n / 16"
  by (rule rnd_exact[of _ n "-4"]) (simp_all add: pow2_def)

lemma failed_chain:
  assumes "health_SmartFailed h" shows "fle (foldl fsub (Fin 1) (deductions h)) (Fin (7 / 16))"
proof -
  let ?ps = "[Fin (9 / 16), Fin 0, Fin 0, Fin 0, Fin 0, Fin 0]"
  have nine: "rnd (9 / 16) = 9 / 16" and seven: "rnd (7 / 16) = 7 / 16" using rnd_16[of 9] rnd_16[of 7] by simp_all
  have small: "\<bar>x\<bar> \<le> 1 \<Longrightarrow> rnd x = x \<Longrightarrow> sized 63 (Fin x)" for x by (simp add: sized_def)
  have gd: "good_deduction (Fin (9 / 16))" "good_deduction (Fin 0)"
    using small[of "9 / 16"] nine by (simp_all add: good_deduction_def)
  have "fle (Fin (9 / 16)) (lit (6 / 10))"
    using rnd_mono[of "9 / 16" "6 / 10"] nine sized_fround[of "6 / 10" 0] by (simp add: lit_def)
  moreover have "fle (Fin 0) p" if "good_deduction p" for p
    using that by (auto simp: good_deduction_def sized_def)
  moreover have "deduct (health_SmartFailed h) p = p" for p using assms by (simp add: deduct_def)
  ultimately have all: "list_all2 fle ?ps (deductions h)"
    using good_deductions[of h] unfolding deductions_def list_all2_Cons list_all2_Nil by simp
  have "fsub (Fin 1) (Fin (9 / 16)) = Fin (7 / 16)"
    using sized_fround[of "7 / 16" 0] seven by (simp add: fsub_def)
  then have "foldl fsub (Fin 1) ?ps = Fin (7 / 16)"
    using fsub_zero[OF small[of "7 / 16"]] seven by simp
  moreover have "\<forall>p \<in> set ?ps. good_deduction p" using gd by simp
  ultimately show ?thesis
    using foldl_fsub_mono[OF all _ good_deductions sized_1 sized_1] by simp
qed

definition smart_clean :: "DiskHealth \<Rightarrow> bool" where
  "smart_clean h \<longleftrightarrow> \<not> health_SmartFailed h \<and> sint (health_ReallocatedSectors h) \<le> 0 \<and>
     sint (health_PendingSectors h) \<le> 0 \<and> sint (health_UncorrectableErrors h) \<le> 0 \<and>
     (if health_Rotational h then sint (health_Temperature h) \<le> 55 else sint (health_NVMePercentUsed h) \<le> 0)"

lemma clean_deductions: "smart_clean h \<Longrightarrow> deductions h = replicate 6 (Fin 0)"
  by (auto simp: smart_clean_def deductions_def deduct_def numeral_eq_Suc split: if_splits)

section \<open>Properties\<close>

text \<open>C28. The health score is always a proper number between 0 and 1, whatever the counters are. A disk whose
  SMART self-assessment failed never scores above 7/16, below the 0.5 under which the agent reports it as
  degraded; a disk that passed and has no defect, no heat and no wear scores exactly 1.\<close>

theorem ComputeHealthScore_bounds:
  "\<exists>r. ComputeHealthScore h = Fin r \<and> rnd r = r \<and> 0 \<le> r \<and>
     (if health_SmartFailed h then r \<le> 7 / 16 else r \<le> 1) \<and>
     (if smart_clean h then r = 1 else True)"
proof -
  obtain c where c: "foldl fsub (Fin 1) (deductions h) = Fin c" "rnd c = c" using chain_sized by blast
  let ?r = "max 0 (min 1 c)"
  have r: "ComputeHealthScore h = Fin ?r" by (auto simp: ComputeHealthScore_chain c fmax_def min_def)
  have f: "c \<le> 7 / 16" if "health_SmartFailed h" using failed_chain[OF that] by (simp add: c)
  have one: "c = 1" if "smart_clean h"
    using c(1) unfolding clean_deductions[OF that] by (simp add: numeral_eq_Suc fsub_zero[OF sized_1])
  have "rnd ?r = ?r" using c(2) by (auto simp: max_def min_def)
  then show ?thesis using r f one by (intro exI[of _ ?r]) auto
qed

text \<open>C29. The health score never gets better when a disk gets worse: with the same kind of medium, raising the
  failure flag, a defect counter, the temperature or the wear never raises the score, in spite of the
  rounding of every step.\<close>

theorem ComputeHealthScore_antimono:
  assumes "smart_worse h h'" shows "fle (ComputeHealthScore h') (ComputeHealthScore h)"
proof -
  obtain a b where "foldl fsub (Fin 1) (deductions h) = Fin a" "foldl fsub (Fin 1) (deductions h') = Fin b"
    using chain_sized by metis
  then show ?thesis using chain_mono[OF deductions_mono[OF assms] good_deductions] clamp_mono
    by (simp add: ComputeHealthScore_chain)
qed

text \<open>A \<^verbatim>\<open>rotation_rate\<close> that is a plain number, which is what \<^verbatim>\<open>smartctl --json\<close> prints for every
  rotating disk, makes the whole query fail: the field is a Go struct, decoding returns an error, and the
  failure flag and the counters in the same output are lost.\<close>

lemma QueryDisk_rotation_rate:
  assumes "run_state (exec_output h (smartctl_command d)) w = ((print_json (JObj ms), err), w1)"
    and "wf_json (JObj ms)" and "(''rotation_rate'', JNum n) \<in> set ms"
  shows "\<exists>e. run_state (QueryDisk h d) w = (Inl (WrapError (''parsing smartctl JSON for '' @ d) e), w1)"
proof -
  have "\<exists>e. put_smartctl ''rotation_rate'' (JNum n) x = Inl e" for x
    by (simp add: put_smartctl_def field_is_def ToLower_def to_lower_def decode_struct_def)
  then obtain e where "decode_members put_smartctl ms smartctl_zero = Inl e"
    using decode_members_error[OF assms(3), of put_smartctl smartctl_zero] by auto
  then have "Unmarshal put_smartctl (print_json (JObj ms)) smartctl_zero = Inl e"
    using assms(2) by (subst Unmarshal_print) (simp_all add: decode_struct_def)
  moreover have "print_json (JObj ms) \<noteq> []" by simp
  ultimately show ?thesis by (simp add: QueryDisk_def run_simps assms(1))
qed

section \<open>Witnesses\<close>

definition demo_health :: "i64 \<Rightarrow> i64 \<Rightarrow> DiskHealth" where
  "demo_health realloc temp =
     \<lparr>health_DevicePath = ''/dev/sdb'', health_Model = ''M'', health_SerialNumber = ''S'', health_FirmwareVersion = ''F'',
      health_OverallHealth = ''PASSED'', health_Temperature = temp, health_PowerOnHours = 100, health_Rotational = True,
      health_SmartFailed = False, health_IOErrors = 0, health_ReallocatedSectors = realloc, health_PendingSectors = 0,
      health_UncorrectableErrors = 0, health_SpinRetryCount = 0, health_CommandTimeout = 0,
      health_NVMeAvailableSparePercent = 0, health_NVMePercentUsed = 0, health_NVMeMediaErrors = 0,
      health_HealthScore = Fin 0\<rparr>"

theorem ComputeHealthScore_antimono_witness:
  "fle (ComputeHealthScore (demo_health 8 60)) (ComputeHealthScore (demo_health 2 40))"
  by (rule ComputeHealthScore_antimono) (simp add: smart_worse_def demo_health_def)

definition demo_smart :: "(string \<times> json) list" where
  "demo_smart = [(''model_name'', JStr ''WDC''), (''rotation_rate'', JNum ''7200''),
     (''smart_status'', JObj [(''passed'', JBool False)])]"

definition smart_host :: "mem_host host" where
  "smart_host = memory_host id (\<lambda>m _. m) (\<lambda>cmd. (print_json (JObj demo_smart), None))"

lemma QueryDisk_rotation_rate_witness:
  "\<exists>e. run_state (QueryDisk smart_host ''/dev/sdb'') \<lparr>mh_mounts = [], mh_fstab = None\<rparr>
     = (Inl (WrapError ''parsing smartctl JSON for /dev/sdb'' e), \<lparr>mh_mounts = [], mh_fstab = None\<rparr>)"
proof -
  have "\<exists>e. run_state (QueryDisk smart_host ''/dev/sdb'') \<lparr>mh_mounts = [], mh_fstab = None\<rparr>
     = (Inl (WrapError (''parsing smartctl JSON for '' @ ''/dev/sdb'') e), \<lparr>mh_mounts = [], mh_fstab = None\<rparr>)"
  proof (rule QueryDisk_rotation_rate)
    show "run_state (exec_output smart_host (smartctl_command ''/dev/sdb'')) \<lparr>mh_mounts = [], mh_fstab = None\<rparr>
        = ((print_json (JObj demo_smart), None), \<lparr>mh_mounts = [], mh_fstab = None\<rparr>)"
      by (simp add: smart_host_def memory_host_def on_host_def)
    show "wf_json (JObj demo_smart)" by (simp add: demo_smart_def, code_simp)
    show "(''rotation_rate'', JNum ''7200'') \<in> set demo_smart" by (simp add: demo_smart_def)
  qed
  then show ?thesis by simp
qed

end
