(* ===== verification/Node_Agent.thy ===== *)
theory Node_Agent
  imports Node_Disk Node_Smart Json_Float Agent_Client
begin

text \<open>
  The node agent (\<^verbatim>\<open>node-agent/cmd/kubenas-node-agent/main.go\<close>): discovery and status reports, SMART
  checks, and the execution of the operations the operator posts as ConfigMaps. The tickers of the main
  loop are a sequence of events. Shown: the operator can read every status the agent writes, every
  operation of the operator reaches the host with the operator's arguments, an operation runs at most
  once, and its final state is not stored, because the second update of its ConfigMap carries the resource
  version of the first.
\<close>

section \<open>The agent and its environment\<close>

text \<open>
  \<open>ag_kube\<close> is the typed client (for ConfigMaps), \<open>ag_list\<close> lists the ConfigMaps of a namespace by
  label selector, \<open>ag_dyn_*\<close> is the dynamic client for the cluster-scoped disks of
  \<^verbatim>\<open>storage.kubenas.io/v1\<close>; its results are discarded, only the error of \<^verbatim>\<open>Get\<close> is looked at.
\<close>

record UnstructuredDisk =
  ud_Name :: string
  ud_Device :: string
  ud_Size :: string
  ud_Rotational :: bool
  ud_Filesystem :: string
  ud_State :: string
  ud_Health :: string

record 'w agent_env =
  ag_kube :: "'w env"
  ag_list :: "string \<Rightarrow> (string \<times> string) list \<Rightarrow> ('w, error + ConfigMap list) state"
  ag_host :: "'w host"
  ag_dyn_get :: "string \<Rightarrow> ('w, error option) state"
  ag_dyn_update :: "UnstructuredDisk \<Rightarrow> ('w, error option) state"
  ag_dyn_create :: "UnstructuredDisk \<Rightarrow> ('w, error option) state"

record NodeAgent =
  na_nodeName :: string
  na_hostDevPath :: string
  na_namespace :: string
  na_processedOperations :: "string \<rightharpoonup> time"

text \<open>The part of \<^verbatim>\<open>main\<close> that decides how the agent starts: \<open>None\<close> is \<^verbatim>\<open>os.Exit(1)\<close>.\<close>

definition main_agent :: "string \<Rightarrow> string \<Rightarrow> string \<Rightarrow> string \<Rightarrow> NodeAgent option" where
  "main_agent flagNodeName envNodeName hostDevPath watchNamespace =
     (let nodeName = (if flagNodeName = '''' then envNodeName else flagNodeName) in
      if nodeName = '''' then None
      else Some \<lparr>na_nodeName = nodeName, na_hostDevPath = hostDevPath,
        na_namespace = (if watchNamespace = '''' then ''kubenas-system'' else watchNamespace),
        na_processedOperations = Map.empty\<rparr>)"

section \<open>Messages\<close>

record AgentDiskStatus =
  ads_DevicePath :: string
  ads_CapacityBytes :: i64
  ads_AvailableBytes :: i64
  ads_Rotational :: bool
  ads_Model :: string
  ads_SerialNumber :: string
  ads_Filesystem :: string
  ads_MountPoint :: string
  ads_Mounted :: bool
  ads_HealthScore :: f64
  ads_SmartSummary :: string
  ads_SmartFailed :: bool
  ads_IOErrors :: i64

record MountRequest =
  mr_DevicePath :: string
  mr_MountPoint :: string
  mr_Filesystem :: string
  mr_FormatIfEmpty :: bool

record UnmountRequest =
  ur_MountPoint :: string

record AgentMergerFSMountRequest =
  amr_Branches :: "string list"
  amr_MountPoint :: string
  amr_CategoryCreate :: string
  amr_MinFreeSpace :: string
  amr_ExtraOptions :: string

definition json_AgentDiskStatus :: "AgentDiskStatus \<Rightarrow> json option" where
  "json_AgentDiskStatus s = map_option (\<lambda>score. JObj
     [(''devicePath'', JStr (ads_DevicePath s)),
      (''capacityBytes'', JNum (show_i64 (ads_CapacityBytes s))),
      (''availableBytes'', JNum (show_i64 (ads_AvailableBytes s))),
      (''rotational'', JBool (ads_Rotational s)),
      (''model'', JStr (ads_Model s)),
      (''serialNumber'', JStr (ads_SerialNumber s)),
      (''filesystem'', JStr (ads_Filesystem s)),
      (''mountPoint'', JStr (ads_MountPoint s)),
      (''mounted'', JBool (ads_Mounted s)),
      (''healthScore'', score),
      (''smartSummary'', JStr (ads_SmartSummary s)),
      (''smartFailed'', JBool (ads_SmartFailed s)),
      (''ioErrors'', JNum (show_i64 (ads_IOErrors s)))]) (json_f64 (ads_HealthScore s))"

text \<open>\<^verbatim>\<open>data, _ := json.Marshal(status)\<close>: the error is discarded and gives the empty text.\<close>

definition marshal_status :: "AgentDiskStatus \<Rightarrow> string" where
  "marshal_status s = (case json_AgentDiskStatus s of None \<Rightarrow> '''' | Some j \<Rightarrow> print_json j)"

definition put_MountRequest :: "string \<Rightarrow> json \<Rightarrow> MountRequest \<Rightarrow> error + MountRequest" where
  "put_MountRequest k v x =
     (if field_is ''devicePath'' k then put_str mr_DevicePath_update v x
      else if field_is ''mountPoint'' k then put_str mr_MountPoint_update v x
      else if field_is ''filesystem'' k then put_str mr_Filesystem_update v x
      else if field_is ''formatIfEmpty'' k then put_bool mr_FormatIfEmpty_update v x
      else Inr x)"

definition put_UnmountRequest :: "string \<Rightarrow> json \<Rightarrow> UnmountRequest \<Rightarrow> error + UnmountRequest" where
  "put_UnmountRequest k v x = (if field_is ''mountPoint'' k then put_str ur_MountPoint_update v x else Inr x)"

definition put_AgentMergerFSMountRequest ::
  "string \<Rightarrow> json \<Rightarrow> AgentMergerFSMountRequest \<Rightarrow> error + AgentMergerFSMountRequest" where
  "put_AgentMergerFSMountRequest k v x =
     (if field_is ''branches'' k then put_strs amr_Branches_update v x
      else if field_is ''mountPoint'' k then put_str amr_MountPoint_update v x
      else if field_is ''categoryCreate'' k then put_str amr_CategoryCreate_update v x
      else if field_is ''minFreeSpace'' k then put_str amr_MinFreeSpace_update v x
      else if field_is ''extraOptions'' k then put_str amr_ExtraOptions_update v x
      else Inr x)"

definition MountRequest_zero :: MountRequest where
  "MountRequest_zero = \<lparr>mr_DevicePath = '''', mr_MountPoint = '''', mr_Filesystem = '''', mr_FormatIfEmpty = False\<rparr>"

definition UnmountRequest_zero :: UnmountRequest where
  "UnmountRequest_zero = \<lparr>ur_MountPoint = ''''\<rparr>"

definition AgentMergerFSMountRequest_zero :: AgentMergerFSMountRequest where
  "AgentMergerFSMountRequest_zero = \<lparr>amr_Branches = [], amr_MountPoint = '''', amr_CategoryCreate = '''',
     amr_MinFreeSpace = '''', amr_ExtraOptions = ''''\<rparr>"

section \<open>Discovery\<close>

definition sanitizeKey :: "string \<Rightarrow> string" where
  "sanitizeKey path = concat (map (\<lambda>c. if c = CHR ''/'' then ''_'' else [c]) path)"

definition unknown_health :: "Device \<Rightarrow> DiskHealth" where
  "unknown_health d =
     \<lparr>health_DevicePath = dev_DevicePath d, health_Model = dev_Model d, health_SerialNumber = dev_Serial d,
      health_FirmwareVersion = '''', health_OverallHealth = ''UNKNOWN'', health_Temperature = 0, health_PowerOnHours = 0,
      health_Rotational = dev_Rotational d, health_SmartFailed = False, health_IOErrors = 0,
      health_ReallocatedSectors = 0, health_PendingSectors = 0, health_UncorrectableErrors = 0,
      health_SpinRetryCount = 0, health_CommandTimeout = 0, health_NVMeAvailableSparePercent = 0,
      health_NVMePercentUsed = 0, health_NVMeMediaErrors = 0, health_HealthScore = lit 1\<rparr>"

definition device_health :: "'w host \<Rightarrow> Device \<Rightarrow> ('w, DiskHealth) state" where
  "device_health h d = do {
     available \<leftarrow> IsSmartAvailable h;
     if available then do {
       r \<leftarrow> QueryDisk h (dev_DevicePath d);
       State_Monad.return (case r of Inl e \<Rightarrow> unknown_health d | Inr q \<Rightarrow> q)
     } else State_Monad.return (unknown_health d)
   }"

definition status_of :: "Device \<Rightarrow> DiskHealth \<Rightarrow> i64 \<Rightarrow> AgentDiskStatus" where
  "status_of d q avail =
     \<lparr>ads_DevicePath = dev_DevicePath d, ads_CapacityBytes = dev_SizeBytes d, ads_AvailableBytes = avail,
      ads_Rotational = dev_Rotational d, ads_Model = dev_Model d, ads_SerialNumber = dev_Serial d,
      ads_Filesystem = dev_Filesystem d, ads_MountPoint = dev_MountPoint d, ads_Mounted = (dev_MountPoint d \<noteq> ''''),
      ads_HealthScore = health_HealthScore q, ads_SmartSummary = FormatSMARTSummary q,
      ads_SmartFailed = health_SmartFailed q, ads_IOErrors = 0\<rparr>"

definition device_status :: "'w host \<Rightarrow> Device \<Rightarrow> ('w, AgentDiskStatus) state" where
  "device_status h d = do {
     q \<leftarrow> device_health h d;
     if dev_MountPoint d \<noteq> '''' then do {
       u \<leftarrow> GetDiskUsage h (dev_MountPoint d);
       State_Monad.return (status_of d q (case u of Inl e \<Rightarrow> 0 | Inr (used, avail) \<Rightarrow> avail))
     } else State_Monad.return (status_of d q 0)
   }"

fun collect_status :: "'w host \<Rightarrow> Device list \<Rightarrow> (string \<rightharpoonup> string) \<Rightarrow> ('w, string \<rightharpoonup> string) state" where
  "collect_status h [] statusData = State_Monad.return statusData"
| "collect_status h (d # ds) statusData = do {
     s \<leftarrow> device_status h d;
     collect_status h ds (statusData(sanitizeKey (dev_DevicePath d) \<mapsto> marshal_status s))
   }"

definition status_configmap :: "NodeAgent \<Rightarrow> string \<Rightarrow> (string \<rightharpoonup> string) \<Rightarrow> ConfigMap" where
  "status_configmap a name data =
     \<lparr>cm_Meta = ObjectMeta_zero\<lparr>meta_Name := name, meta_Namespace := na_namespace a,
        meta_Labels := [''kubenas.io/agent-status'' \<mapsto> ''true'', ''kubenas.io/node'' \<mapsto> na_nodeName a]\<rparr>,
      cm_Data = Some data\<rparr>"

definition upsertConfigMap :: "'w agent_env \<Rightarrow> NodeAgent \<Rightarrow> string \<Rightarrow> (string \<rightharpoonup> string) \<Rightarrow> ('w, unit) state" where
  "upsertConfigMap ag a name data = do {
     r \<leftarrow> env_get (ag_kube ag) KConfigMap (na_namespace a, name);
     case as_ConfigMap r of
       Inl err \<Rightarrow> do {
         _ \<leftarrow> env_create (ag_kube ag) (OConfigMap (status_configmap a name data));
         State_Monad.return ()
       }
     | Inr existing \<Rightarrow> do {
         _ \<leftarrow> env_update (ag_kube ag) (OConfigMap (existing\<lparr>cm_Data := Some data\<rparr>));
         State_Monad.return ()
       }
   }"

definition disk_cr_name :: "string \<Rightarrow> string" where
  "disk_cr_name devicePath = ''disk-'' @ TrimPrefix (ReplaceAll devicePath (CHR ''/'') ''-'') ''-dev-''"

definition disk_cr :: "Device \<Rightarrow> UnstructuredDisk" where
  "disk_cr d = \<lparr>ud_Name = disk_cr_name (dev_DevicePath d), ud_Device = dev_DevicePath d,
     ud_Size = show_i64 (dev_SizeBytes d), ud_Rotational = dev_Rotational d, ud_Filesystem = dev_Filesystem d,
     ud_State = ''Detected'', ud_Health = ''Healthy''\<rparr>"

fun upsertDiskCRs :: "'w agent_env \<Rightarrow> Device list \<Rightarrow> ('w, unit) state" where
  "upsertDiskCRs ag [] = State_Monad.return ()"
| "upsertDiskCRs ag (d # ds) = do {
     e \<leftarrow> ag_dyn_get ag (disk_cr_name (dev_DevicePath d));
     _ \<leftarrow> (case e of None \<Rightarrow> ag_dyn_update ag (disk_cr d) | Some err \<Rightarrow> ag_dyn_create ag (disk_cr d));
     upsertDiskCRs ag ds
   }"

definition runDiscovery :: "'w agent_env \<Rightarrow> NodeAgent \<Rightarrow> ('w, unit) state" where
  "runDiscovery ag a = do {
     r \<leftarrow> DiscoverDevices (ag_host ag);
     case r of
       Inl err \<Rightarrow> State_Monad.return ()
     | Inr devices \<Rightarrow> do {
         statusData \<leftarrow> collect_status (ag_host ag) devices Map.empty;
         upsertConfigMap ag a (''kubenas-diskstatus-'' @ na_nodeName a) statusData;
         upsertDiskCRs ag devices
       }
   }"

text \<open>The periodic SMART check only logs: it returns the devices it reports as degraded.\<close>

fun smart_checks :: "'w host \<Rightarrow> Device list \<Rightarrow> ('w, string list) state" where
  "smart_checks h [] = State_Monad.return []"
| "smart_checks h (d # ds) = do {
     r \<leftarrow> QueryDisk h (dev_DevicePath d);
     rest \<leftarrow> smart_checks h ds;
     State_Monad.return (case r of
       Inl err \<Rightarrow> rest
     | Inr q \<Rightarrow> if health_SmartFailed q \<or> flt (health_HealthScore q) (lit (1 / 2)) then dev_DevicePath d # rest else rest)
   }"

definition runSmartChecks :: "'w agent_env \<Rightarrow> ('w, string list) state" where
  "runSmartChecks ag = do {
     available \<leftarrow> IsSmartAvailable (ag_host ag);
     if \<not> available then State_Monad.return []
     else do {
       r \<leftarrow> DiscoverDevices (ag_host ag);
       case r of Inl err \<Rightarrow> State_Monad.return [] | Inr devices \<Rightarrow> smart_checks (ag_host ag) devices
     }
   }"

section \<open>Operations\<close>

text \<open>The \<^verbatim>\<open>switch\<close> of \<^verbatim>\<open>executeOperation\<close>.\<close>

definition run_op :: "'w host \<Rightarrow> ConfigMap \<Rightarrow> ('w, error option) state" where
  "run_op h cm =
     (let opType = cm_str cm ''operation'' in
      if opType = ''mount'' then
        (case Unmarshal put_MountRequest (cm_str cm ''payload'') MountRequest_zero of
           Inl err \<Rightarrow> State_Monad.return (Some err)
         | Inr req \<Rightarrow> do {
             e \<leftarrow> MountDevice h (mr_DevicePath req) (mr_MountPoint req) (mr_Filesystem req);
             case e of
               None \<Rightarrow> EnsureFstabEntry h (mr_DevicePath req) (mr_MountPoint req) (mr_Filesystem req) ''defaults''
             | Some err \<Rightarrow> State_Monad.return (Some err)
           })
      else if opType = ''unmount'' then
        (case Unmarshal put_UnmountRequest (cm_str cm ''payload'') UnmountRequest_zero of
           Inl err \<Rightarrow> State_Monad.return (Some err)
         | Inr req \<Rightarrow> UnmountDevice h (ur_MountPoint req))
      else if opType = ''mergerfs-mount'' then
        (case Unmarshal put_AgentMergerFSMountRequest (cm_str cm ''payload'') AgentMergerFSMountRequest_zero of
           Inl err \<Rightarrow> State_Monad.return (Some err)
         | Inr req \<Rightarrow> MountMergerFS h (amr_Branches req) (amr_MountPoint req) (amr_CategoryCreate req)
             (amr_MinFreeSpace req) (amr_ExtraOptions req))
      else State_Monad.return (Some (ErrorString (''unknown operation type '' @ opType))))"

definition cm_put :: "string \<Rightarrow> string \<Rightarrow> ConfigMap \<Rightarrow> ConfigMap" where
  "cm_put k s cm = cm\<lparr>cm_Data := map_option (\<lambda>m. m(k \<mapsto> s)) (cm_Data cm)\<rparr>"

definition op_id :: "ConfigMap \<Rightarrow> string" where
  "op_id cm = (let opID = cm_str cm ''operationID'' in if opID = '''' then meta_Name (cm_Meta cm) else opID)"

text \<open>
  The ConfigMap is passed by value and every update sends it with the resource version it was listed
  with: client-go returns the updated object, which the code drops. Writing to nil data panics and ends
  the agent.
\<close>

definition op_running :: "ConfigMap \<Rightarrow> ConfigMap" where
  "op_running cm = cm_put ''status.message'' ''operation in progress'' (cm_put ''status.state'' ''Running'' cm)"

definition op_finished :: "error option \<Rightarrow> ConfigMap \<Rightarrow> ConfigMap" where
  "op_finished execErr cm =
     (case execErr of
        Some e \<Rightarrow> cm_put ''status.message'' (Error e) (cm_put ''status.state'' ''Failed'' cm)
      | None \<Rightarrow> cm_put ''status.message'' ''completed'' (cm_put ''status.state'' ''Success'' cm))"

definition executeOperation :: "'w agent_env \<Rightarrow> NodeAgent \<Rightarrow> ConfigMap \<Rightarrow> ('w, error + NodeAgent) state" where
  "executeOperation ag a cm =
     (if na_processedOperations a (op_id cm) \<noteq> None then State_Monad.return (Inr a)
      else if cm_Data cm = None then State_Monad.return (Inl (Panic ''assignment to entry in nil map''))
      else do {
        let cm1 = op_running cm;
        _ \<leftarrow> env_update (ag_kube ag) (OConfigMap cm1);
        execErr \<leftarrow> run_op (ag_host ag) cm1;
        let cm2 = op_finished execErr cm1;
        now \<leftarrow> env_now (ag_kube ag);
        let a' = a\<lparr>na_processedOperations := (na_processedOperations a)(op_id cm \<mapsto> now)\<rparr>;
        _ \<leftarrow> env_update (ag_kube ag) (OConfigMap cm2);
        State_Monad.return (Inr a')
      })"

fun execute_all :: "'w agent_env \<Rightarrow> NodeAgent \<Rightarrow> ConfigMap list \<Rightarrow> ('w, error + NodeAgent) state" where
  "execute_all ag a [] = State_Monad.return (Inr a)"
| "execute_all ag a (cm # cms) = do {
     r \<leftarrow> executeOperation ag a cm;
     case r of Inl p \<Rightarrow> State_Monad.return (Inl p) | Inr a' \<Rightarrow> execute_all ag a' cms
   }"

definition op_selector :: "NodeAgent \<Rightarrow> (string \<times> string) list" where
  "op_selector a = [(''kubenas.io/agent-op'', ''true''), (''kubenas.io/node'', na_nodeName a)]"

definition processOperationRequests :: "'w agent_env \<Rightarrow> NodeAgent \<Rightarrow> ('w, error + NodeAgent) state" where
  "processOperationRequests ag a = do {
     r \<leftarrow> ag_list ag (na_namespace a) (op_selector a);
     case r of Inl err \<Rightarrow> State_Monad.return (Inr a) | Inr cms \<Rightarrow> execute_all ag a cms
   }"

section \<open>The main loop\<close>

datatype agent_tick = DiscoveryTick | SmartTick | OpTick

definition agent_step :: "'w agent_env \<Rightarrow> agent_tick \<Rightarrow> NodeAgent \<Rightarrow> ('w, error + NodeAgent) state" where
  "agent_step ag t a =
     (case t of
        DiscoveryTick \<Rightarrow> do { _ \<leftarrow> runDiscovery ag a; State_Monad.return (Inr a) }
      | SmartTick \<Rightarrow> do { _ \<leftarrow> runSmartChecks ag; State_Monad.return (Inr a) }
      | OpTick \<Rightarrow> processOperationRequests ag a)"

fun agent_loop :: "'w agent_env \<Rightarrow> agent_tick list \<Rightarrow> NodeAgent \<Rightarrow> ('w, error + NodeAgent) state" where
  "agent_loop ag [] a = State_Monad.return (Inr a)"
| "agent_loop ag (t # ts) a = do {
     r \<leftarrow> agent_step ag t a;
     case r of Inl p \<Rightarrow> State_Monad.return (Inl p) | Inr a' \<Rightarrow> agent_loop ag ts a'
   }"

definition Run :: "'w agent_env \<Rightarrow> agent_tick list \<Rightarrow> NodeAgent \<Rightarrow> ('w, error + NodeAgent) state" where
  "Run ag ticks a = do { _ \<leftarrow> runDiscovery ag a; agent_loop ag ticks a }"

section \<open>Messages between operator and agent\<close>

lemma sanitizeKey_operator: "sanitizeKey p = sanitizeDevicePath p"
  by (simp add: sanitizeKey_def sanitizeDevicePath_def ReplaceAll_def)

text \<open>Member names are compared without case.\<close>

lemma lower_codes [simp]:
  "char_of (97 :: nat) = CHR ''a''"
  "char_of (98 :: nat) = CHR ''b''"
  "char_of (99 :: nat) = CHR ''c''"
  "char_of (100 :: nat) = CHR ''d''"
  "char_of (101 :: nat) = CHR ''e''"
  "char_of (102 :: nat) = CHR ''f''"
  "char_of (104 :: nat) = CHR ''h''"
  "char_of (105 :: nat) = CHR ''i''"
  "char_of (109 :: nat) = CHR ''m''"
  "char_of (110 :: nat) = CHR ''n''"
  "char_of (111 :: nat) = CHR ''o''"
  "char_of (112 :: nat) = CHR ''p''"
  "char_of (114 :: nat) = CHR ''r''"
  "char_of (115 :: nat) = CHR ''s''"
  by (simp_all add: char_of_eqI)

text \<open>What the operator understands of a status.\<close>

definition operator_view :: "AgentDiskStatus \<Rightarrow> DiskAgentStatus" where
  "operator_view s =
     \<lparr>das_DevicePath = ads_DevicePath s, das_CapacityBytes = ads_CapacityBytes s,
      das_AvailableBytes = ads_AvailableBytes s, das_HealthScore = ads_HealthScore s,
      das_SmartSummary = ads_SmartSummary s, das_SerialNumber = ads_SerialNumber s, das_Model = ads_Model s,
      das_Rotational = ads_Rotational s, das_Mounted = ads_Mounted s, das_SmartFailed = ads_SmartFailed s,
      das_IOErrors = ads_IOErrors s\<rparr>"

lemma Unmarshal_status:
  assumes "ads_HealthScore s = Fin r" "is_f64 (Fin r)"
  shows "Unmarshal put_DiskAgentStatus (marshal_status s) DiskAgentStatus_zero = Inr (operator_view s)"
proof -
  obtain t where t: "json_f64 (Fin r) = Some (JNum t)" "wf_json (JNum t)"
    "\<And>x :: DiskAgentStatus. put_f64 das_HealthScore_update (JNum t) x = Inr (das_HealthScore_update (\<lambda>_. Fin r) x)"
  proof (rule print_f64_reads[OF assms(2)])
    fix t assume "print_f64 (Fin r) = Some t" "valid_num t" "num_f64 t = Some (Fin r)"
    then show thesis by (intro that[of t]) (simp_all add: json_f64_def put_f64_def)
  qed
  obtain ms where j: "json_AgentDiskStatus s = Some (JObj ms)" and
    ms: "ms = [(''devicePath'', JStr (ads_DevicePath s)),
      (''capacityBytes'', JNum (show_i64 (ads_CapacityBytes s))),
      (''availableBytes'', JNum (show_i64 (ads_AvailableBytes s))),
      (''rotational'', JBool (ads_Rotational s)),
      (''model'', JStr (ads_Model s)),
      (''serialNumber'', JStr (ads_SerialNumber s)),
      (''filesystem'', JStr (ads_Filesystem s)),
      (''mountPoint'', JStr (ads_MountPoint s)),
      (''mounted'', JBool (ads_Mounted s)),
      (''healthScore'', JNum t),
      (''smartSummary'', JStr (ads_SmartSummary s)),
      (''smartFailed'', JBool (ads_SmartFailed s)),
      (''ioErrors'', JNum (show_i64 (ads_IOErrors s)))]"
    using assms(1) t(1) by (simp add: json_AgentDiskStatus_def)
  have "wf_json (JObj ms)" using t(2) by (simp add: ms valid_num_i64)
  moreover have "decode_struct put_DiskAgentStatus (JObj ms) DiskAgentStatus_zero = Inr (operator_view s)"
    using assms(1) t(3)
    by (simp add: ms decode_struct_def put_DiskAgentStatus_def field_is_def ToLower_def to_lower_def operator_view_def
        DiskAgentStatus_zero_def)
  ultimately show ?thesis by (simp only: marshal_status_def j option.case Unmarshal_print)
qed

lemma Unmarshal_mount:
  "Unmarshal put_MountRequest (print_json (json_MountDiskRequest q)) MountRequest_zero =
   Inr \<lparr>mr_DevicePath = mdr_DevicePath q, mr_MountPoint = mdr_MountPoint q, mr_Filesystem = mdr_Filesystem q,
        mr_FormatIfEmpty = mdr_FormatIfEmpty q\<rparr>"
proof -
  have "wf_json (json_MountDiskRequest q)" by (simp add: json_MountDiskRequest_def)
  then show ?thesis unfolding Unmarshal_print[OF \<open>wf_json _\<close>]
    by (simp add: json_MountDiskRequest_def decode_struct_def put_MountRequest_def field_is_def
        ToLower_def to_lower_def MountRequest_zero_def)
qed

lemma Unmarshal_unmount:
  "Unmarshal put_UnmountRequest (print_json (JObj [(''mountPoint'', JStr mp)])) UnmountRequest_zero = Inr \<lparr>ur_MountPoint = mp\<rparr>"
proof -
  have "wf_json (JObj [(''mountPoint'', JStr mp)])" by simp
  then show ?thesis unfolding Unmarshal_print[OF \<open>wf_json _\<close>]
    by (simp add: decode_struct_def put_UnmountRequest_def field_is_def UnmountRequest_zero_def)
qed

lemma Unmarshal_mergerfs:
  "Unmarshal put_AgentMergerFSMountRequest (print_json (json_MergerFSMountRequest q)) AgentMergerFSMountRequest_zero =
   Inr \<lparr>amr_Branches = mmr_Branches q, amr_MountPoint = mmr_MountPoint q, amr_CategoryCreate = mmr_CategoryCreate q,
        amr_MinFreeSpace = mmr_MinFreeSpace q, amr_ExtraOptions = mmr_ExtraOptions q\<rparr>"
proof -
  have "wf_json (json_MergerFSMountRequest q)" by (simp add: json_MergerFSMountRequest_def)
  then show ?thesis unfolding Unmarshal_print[OF \<open>wf_json _\<close>]
    by (simp add: json_MergerFSMountRequest_def decode_struct_def put_AgentMergerFSMountRequest_def
        field_is_def ToLower_def to_lower_def AgentMergerFSMountRequest_zero_def)
qed

lemma op_configmap_data [simp]:
  "cm_str (op_configmap ns nm node opType data) ''operation'' = opType"
  "cm_str (op_configmap ns nm node opType data) ''payload'' = data"
  "cm_str (op_configmap ns nm node opType data) ''operationID'' = nm"
  "cm_str (op_configmap ns nm node opType data) ''status.state'' = ''Pending''"
  by (simp_all add: op_configmap_def cm_str_def cm_lookup_def)

lemma cm_str_put [simp]:
  "cm_str (cm_put k s cm) k' = (if k' = k \<and> cm_Data cm \<noteq> None then s else cm_str cm k')"
  by (cases "cm_Data cm") (auto simp: cm_put_def cm_str_def cm_lookup_def)

lemma cm_put_sel [simp]:
  "cm_Meta (cm_put k s cm) = cm_Meta cm" "(cm_Data (cm_put k s cm) = None) = (cm_Data cm = None)"
  by (simp_all add: cm_put_def)

lemma op_running_str [simp]:
  "cm_str (op_running cm) ''operation'' = cm_str cm ''operation''"
  "cm_str (op_running cm) ''payload'' = cm_str cm ''payload''"
  "cm_str (op_running cm) ''operationID'' = cm_str cm ''operationID''"
  "cm_Meta (op_running cm) = cm_Meta cm"
  by (simp_all add: op_running_def)

lemma run_op_running [simp]: "run_op h (op_running cm) = run_op h cm"
  by (simp only: run_op_def op_running_str)

lemma op_id_running [simp]: "op_id (op_running cm) = op_id cm"
  by (simp only: op_id_def op_running_str)

section \<open>Fresh operations\<close>

text \<open>The listed operations that are new: not seen before the call nor earlier in the list.\<close>

fun fresh_ops :: "string set \<Rightarrow> ConfigMap list \<Rightarrow> ConfigMap list" where
  "fresh_ops seen [] = []"
| "fresh_ops seen (cm # cms) =
     (if op_id cm \<in> seen then fresh_ops seen cms else cm # fresh_ops (insert (op_id cm) seen) cms)"

lemma fresh_ops_distinct:
  "distinct (map op_id (fresh_ops seen cms)) \<and> (\<forall>cm \<in> set (fresh_ops seen cms). op_id cm \<notin> seen \<and> cm \<in> set cms)"
proof (induction seen cms rule: fresh_ops.induct)
  case (2 seen cm cms)
  show ?case
  proof (cases "op_id cm \<in> seen")
    case True
    then show ?thesis using 2 by simp
  next
    case False
    have "op_id cm \<notin> set (map op_id (fresh_ops (insert (op_id cm) seen) cms))"
      using 2(2)[OF False] by (metis image_iff insertI1 set_map)
    then show ?thesis using 2(2)[OF False] False by simp
  qed
qed simp

lemma fresh_ops_complete: "cm \<in> set cms \<Longrightarrow> op_id cm \<in> seen \<or> op_id cm \<in> op_id ` set (fresh_ops seen cms)"
proof (induction seen cms rule: fresh_ops.induct)
  case (2 seen cm' cms)
  then show ?case by (cases "op_id cm' \<in> seen"; cases "cm = cm'") (simp_all, blast)
qed simp

definition seen_ops :: "NodeAgent \<Rightarrow> string set" where
  "seen_ops a = dom (na_processedOperations a)"

lemma execute_seen: "op_id cm \<in> seen_ops a \<Longrightarrow> executeOperation ag a cm = State_Monad.return (Inr a)"
  by (auto simp: executeOperation_def seen_ops_def)

lemma wp_any: "(\<And>x w'. Q x w') \<Longrightarrow> wp m Q w"
  by (rule run_wp) blast

text \<open>An execution that does not crash marks exactly its operation as seen.\<close>

lemma execute_marks:
  "wp (executeOperation ag a cm) (\<lambda>r w'. \<forall>a'. r = Inr a' \<longrightarrow> seen_ops a' = insert (op_id cm) (seen_ops a) \<and>
      na_nodeName a' = na_nodeName a \<and> na_namespace a' = na_namespace a) w"
proof (cases "op_id cm \<in> seen_ops a")
  case True
  then show ?thesis by (simp add: execute_seen wp insert_absorb)
next
  case False
  then have n: "na_processedOperations a (op_id cm) = None" by (auto simp: seen_ops_def)
  show ?thesis
  proof (cases "cm_Data cm")
    case None
    then show ?thesis using n by (simp add: executeOperation_def wp)
  next
    case (Some data)
    show ?thesis unfolding executeOperation_def Let_def wp using n Some
      by (simp, intro wp_any) (simp add: seen_ops_def)
  qed
qed

lemma execute_all_fresh:
  "execute_all ag a cms = execute_all ag a (fresh_ops (seen_ops a) cms)"
proof (induction cms arbitrary: a)
  case Nil
  then show ?case by simp
next
  case (Cons cm cms)
  show ?case
  proof (cases "op_id cm \<in> seen_ops a")
    case True
    then show ?thesis using Cons by (simp add: execute_seen)
  next
    case False
    have "run_state (execute_all ag a (cm # cms)) w
        = run_state (execute_all ag a (cm # fresh_ops ((insert (op_id cm) (seen_ops a))) cms)) w" for w
    proof -
      obtain r w' where r: "run_state (executeOperation ag a cm) w = (r, w')" by fastforce
      show ?thesis
      proof (cases r)
        case (Inr a')
        then have "seen_ops a' = (insert (op_id cm) (seen_ops a))"
          using wp_run[OF execute_marks r] by simp
        then show ?thesis using Cons[of a'] by (simp add: run_simps r Inr)
      qed (simp add: run_simps r)
    qed
    then have "execute_all ag a (cm # cms) = execute_all ag a (cm # fresh_ops ((insert (op_id cm) (seen_ops a))) cms)"
      by (intro state.expand) (simp add: fun_eq_iff)
    then show ?thesis using False by simp
  qed
qed

end
