(* ===== verification/Agent_Contract.thy ===== *)
theory Agent_Contract
  imports Node_Agent
begin

text \<open>
  What the node agent relies on (\<open>agent_world\<close>: an API server, a host that does not write API objects,
  and a list call that returns stored ConfigMaps) and what follows for its handlers: the status it
  publishes can be read by the operator, the posted operations reach the host, each at most once, and
  the final state of an operation is not stored.
\<close>

section \<open>The contract\<close>

definition keeps :: "('w \<Rightarrow> 'v) \<Rightarrow> ('w, 'a) state \<Rightarrow> bool" where
  "keeps view m \<longleftrightarrow> (\<forall>w. view (snd (run_state m w)) = view w)"

named_theorems keeps

lemma keeps_wp: "keeps view m \<Longrightarrow> (\<And>r w'. view w' = view w \<Longrightarrow> Q r w') \<Longrightarrow> wp m Q w"
  by (rule run_wp) (metis keeps_def snd_conv)

lemma keeps_return [keeps]: "keeps view (State_Monad.return x)"
  by (simp add: keeps_def run_return)

lemma keeps_bind [keeps]: "keeps view m \<Longrightarrow> (\<And>a. keeps view (f a)) \<Longrightarrow> keeps view (State_Monad.bind m f)"
  by (simp add: keeps_def run_bind split_beta)

lemma keeps_if [keeps]: "(b \<Longrightarrow> keeps view m) \<Longrightarrow> (\<not> b \<Longrightarrow> keeps view n) \<Longrightarrow> keeps view (if b then m else n)"
  by simp

lemma keeps_sum [keeps]:
  "(\<And>x. keeps view (f x)) \<Longrightarrow> (\<And>y. keeps view (g y)) \<Longrightarrow> keeps view (case r of Inl x \<Rightarrow> f x | Inr y \<Rightarrow> g y)"
  by (simp split: sum.split)

lemma keeps_option [keeps]:
  "keeps view m \<Longrightarrow> (\<And>y. keeps view (g y)) \<Longrightarrow> keeps view (case r of None \<Rightarrow> m | Some y \<Rightarrow> g y)"
  by (simp split: option.split)

lemma keeps_prod [keeps]: "(\<And>x y. keeps view (f x y)) \<Longrightarrow> keeps view (case p of (x, y) \<Rightarrow> f x y)"
  by (simp split: prod.split)

locale agent_world =
  kube_api "ag_kube ag" view for ag :: "'w agent_env" and view :: "'w \<Rightarrow> store" +
  assumes output_keeps [keeps]: "keeps view (exec_output (ag_host ag) cmd)"
    and run_keeps [keeps]: "keeps view (exec_run (ag_host ag) cmd)"
    and look_keeps [keeps]: "keeps view (exec_LookPath (ag_host ag) p)"
    and mkdir_keeps [keeps]: "keeps view (os_MkdirAll (ag_host ag) p)"
    and read_keeps [keeps]: "keeps view (os_ReadFile (ag_host ag) p)"
    and open_keeps [keeps]: "keeps view (os_OpenAppend (ag_host ag) p)"
    and write_keeps [keeps]: "keeps view (os_WriteString (ag_host ag) p t)"
    and getwd_keeps [keeps]: "keeps view (os_Getwd (ag_host ag))"
    and dyn_get_keeps [keeps]: "keeps view (ag_dyn_get ag n)"
    and dyn_update_keeps [keeps]: "keeps view (ag_dyn_update ag d)"
    and dyn_create_keeps [keeps]: "keeps view (ag_dyn_create ag d)"
    and list_keeps [keeps]: "keeps view (ag_list ag ns sel)"
    and list_law: "run_state (ag_list ag ns sel) w = (Inr cms, w') \<Longrightarrow> cm \<in> set cms \<Longrightarrow>
      view w KConfigMap (key_of (OConfigMap cm)) = Some (OConfigMap cm) \<and> \<not> deletion_done (OConfigMap cm)"
begin

lemma Abs_keeps [keeps]: "keeps view (Abs_path (ag_host ag) p)"
  unfolding Abs_path_def by (intro keeps)

lemma IsMounted_keeps [keeps]: "keeps view (IsMounted (ag_host ag) p)"
  unfolding IsMounted_def by (intro keeps)

lemma host_keeps [keeps]:
  "keeps view (DiscoverDevices (ag_host ag))"
  "keeps view (GetDiskUsage (ag_host ag) p)"
  "keeps view (QueryDisk (ag_host ag) p)"
  "keeps view (IsSmartAvailable (ag_host ag))"
  "keeps view (MountDevice (ag_host ag) p mp fs)"
  "keeps view (UnmountDevice (ag_host ag) mp)"
  "keeps view (EnsureFstabEntry (ag_host ag) p mp fs opts)"
  "keeps view (MountMergerFS (ag_host ag) bs mp cat mfs extra)"
  unfolding DiscoverDevices_def GetDiskUsage_def QueryDisk_def IsSmartAvailable_def MountDevice_def
    UnmountDevice_def EnsureFstabEntry_def MountMergerFS_def Let_def
  by (intro keeps)+

lemma agent_keeps [keeps]:
  "keeps view (run_op (ag_host ag) cm)"
  "keeps view (device_health (ag_host ag) d)"
  "keeps view (device_status (ag_host ag) d)"
  unfolding run_op_def device_status_def device_health_def Let_def by (intro keeps)+

lemma upsertDiskCRs_keeps [keeps]: "keeps view (upsertDiskCRs ag ds)"
  by (induction ds) (auto intro!: keeps)

lemma smart_checks_keeps [keeps]: "keeps view (smart_checks (ag_host ag) ds)"
  by (induction ds) (auto intro!: keeps)

lemma runSmartChecks_keeps: "keeps view (runSmartChecks ag)"
  unfolding runSmartChecks_def by (intro keeps)

end

section \<open>The published status\<close>

definition unit_score :: "f64 \<Rightarrow> bool" where
  "unit_score x \<longleftrightarrow> (\<exists>r. x = Fin r \<and> rnd r = r \<and> 0 \<le> r \<and> r \<le> 1)"

lemma unit_score_computed: "unit_score (ComputeHealthScore h)"
proof -
  obtain c where c: "foldl fsub (Fin 1) (deductions h) = Fin c" "rnd c = c" using chain_sized by blast
  then show ?thesis
    by (auto simp: ComputeHealthScore_chain unit_score_def fmax_def min_def max_def)
qed

lemma unit_score_f64: "unit_score x \<Longrightarrow> \<exists>r. x = Fin r \<and> 0 \<le> r \<and> r \<le> 1 \<and> is_f64 (Fin r)"
  using pow_le_max_float[of 0] by (auto simp: unit_score_def is_f64_def)

text \<open>An entry of the status ConfigMap as the operator reads it.\<close>

definition good_entry :: "string \<Rightarrow> string \<Rightarrow> bool" where
  "good_entry k t \<longleftrightarrow> (case Unmarshal put_DiskAgentStatus t DiskAgentStatus_zero of
      Inl e \<Rightarrow> False
    | Inr s \<Rightarrow> sanitizeDevicePath (das_DevicePath s) = k \<and>
        (case das_HealthScore s of Fin r \<Rightarrow> 0 \<le> r \<and> r \<le> 1 | _ \<Rightarrow> False))"

lemma good_entry_status:
  assumes "unit_score (ads_HealthScore s)"
  shows "good_entry (sanitizeKey (ads_DevicePath s)) (marshal_status s)"
proof -
  obtain r where r: "ads_HealthScore s = Fin r" "0 \<le> r" "r \<le> 1" "is_f64 (Fin r)"
    using unit_score_f64[OF assms] by auto
  then show ?thesis unfolding good_entry_def Unmarshal_status[OF r(1,4)]
    by (simp add: operator_view_def sanitizeKey_operator)
qed

definition good_data :: "(string \<rightharpoonup> string) \<Rightarrow> bool" where
  "good_data data \<longleftrightarrow> (\<forall>k t. data k = Some t \<longrightarrow> good_entry k t)"

lemma good_data_upd: "good_data data \<Longrightarrow> good_entry k t \<Longrightarrow> good_data (data(k \<mapsto> t))"
  by (simp add: good_data_def)

lemma put_main_ConfigMap [simp]: "put_main old (OConfigMap cm) = OConfigMap cm"
  by (cases old) (simp_all add: put_main_def)

text \<open>A ConfigMap as it is stored after a write: the server owns resource version and uid.\<close>

definition stored_as :: "kobject option \<Rightarrow> (string \<rightharpoonup> string) \<Rightarrow> bool" where
  "stored_as x data \<longleftrightarrow> (case x of Some (OConfigMap cm) \<Rightarrow> cm_Data cm = Some data | _ \<Rightarrow> False)"

lemma stored_cm:
  "stored_as (Some (with_rv rv (OConfigMap cm))) data \<longleftrightarrow> cm_Data cm = Some data"
  "stored_as (Some (with_uid u (with_rv rv (OConfigMap cm)))) data \<longleftrightarrow> cm_Data cm = Some data"
  by (simp_all add: stored_as_def with_rv_def with_uid_def)

context agent_world begin

lemma wp_device_health:
  "wp (device_health (ag_host ag) d) (\<lambda>q w'. view w' = view w \<and> unit_score (health_HealthScore q)) w"
proof -
  have u: "unit_score (health_HealthScore (unknown_health d))"
    by (simp add: unknown_health_def unit_score_def exI[of _ 1])
  have q: "wp (QueryDisk (ag_host ag) p) (\<lambda>r w'. view w' = view w \<and>
      (case r of Inl e \<Rightarrow> True | Inr h \<Rightarrow> unit_score (health_HealthScore h))) w" for p and w :: 'w
    unfolding QueryDisk_def wp
    by (rule keeps_wp[OF output_keeps])
      (auto simp: smart_health_def Let_def unit_score_computed split: prod.split option.split sum.split)
  show ?thesis unfolding device_health_def wp
  proof (rule keeps_wp[OF host_keeps(4)], goal_cases)
    case (1 avail w')
    then show ?case using u
      by (auto simp: wp intro!: wp_mono[OF q] split: sum.splits)
  qed
qed

lemma wp_device_status:
  "wp (device_status (ag_host ag) d) (\<lambda>s w'. view w' = view w \<and> ads_DevicePath s = dev_DevicePath d \<and>
      unit_score (ads_HealthScore s)) w"
  unfolding device_status_def wp
proof (rule wp_mono[OF wp_device_health], goal_cases)
  case (1 q w')
  then show ?case
    by (auto simp: wp status_of_def intro!: keeps_wp[OF host_keeps(2)])
qed

lemma wp_collect_status:
  "good_data data \<Longrightarrow> wp (collect_status (ag_host ag) ds data) (\<lambda>data' w'. view w' = view w \<and> good_data data') w"
proof (induction ds arbitrary: data w)
  case (Cons d ds)
  have "wp (device_status (ag_host ag) d) (\<lambda>s w'. view w' = view w \<and>
      good_data (data(sanitizeKey (dev_DevicePath d) \<mapsto> marshal_status s))) w"
    by (rule wp_mono[OF wp_device_status]) (metis good_data_upd good_entry_status Cons.prems)
  then show ?case unfolding collect_status.simps wp
    by (rule wp_mono) (auto intro: wp_mono[OF Cons.IH])
qed (simp add: wp)

lemma wp_upsertConfigMap:
  "wp (upsertConfigMap ag a name data) (\<lambda>_ w'. view w' = view w \<or>
     (\<exists>x. stored_as x data \<and> view w' = store_set (view w) KConfigMap (na_namespace a, name) x)) w"
  unfolding upsertConfigMap_def wp
proof (rule wp_get, goal_cases)
  case (1 ob w1)
  then obtain cm where cm: "ob = OConfigMap cm" by (cases ob) auto
  let ?new = "OConfigMap (cm\<lparr>cm_Data := Some data\<rparr>)"
  have m: "key_of ?new = (na_namespace a, name)" "\<not> deletion_done ?new"
    using 1 cm by (simp_all add: key_of_def deletion_done_def)
  have st: "stored_as (Some (with_rv rv ?new)) data" for rv by (simp add: stored_cm)
  show ?case unfolding cm as_ConfigMap_def
    by (simp add: wp, rule wp_update) (use 1(1) m in \<open>simp_all, use st in blast\<close>)
next
  case (2 e w1)
  let ?new = "OConfigMap (status_configmap a name data)"
  have m: "key_of ?new = (na_namespace a, name)" by (simp add: key_of_def status_configmap_def)
  have st: "stored_as (Some (with_uid u (with_rv rv ?new))) data" for rv u
    by (simp add: stored_cm status_configmap_def)
  show ?case unfolding as_ConfigMap_def
    by (simp add: wp, rule wp_create) (use 2(1) m in \<open>simp_all, use st in blast\<close>)
qed

lemma wp_runDiscovery:
  "wp (runDiscovery ag a) (\<lambda>_ w'. view w' = view w \<or>
     (\<exists>x data. stored_as x data \<and> good_data data \<and>
        view w' = store_set (view w) KConfigMap (na_namespace a, ''kubenas-diskstatus-'' @ na_nodeName a) x)) w"
  unfolding runDiscovery_def wp
proof (rule keeps_wp[OF host_keeps(1)], goal_cases)
  case (1 r w1)
  show ?case
  proof (cases r)
    case (Inr ds)
    show ?thesis unfolding Inr wp sum.case
      by (rule wp_mono[OF wp_collect_status])
        (auto simp: good_data_def 1(1) intro!: wp_mono[OF wp_upsertConfigMap] keeps_wp[OF upsertDiskCRs_keeps], blast)
  qed (simp add: wp 1)
qed

end

section \<open>Operations and resource versions\<close>

context kube_serving begin

lemma wp_update_fresh:
  assumes "view w (kind_of ob) (key_of ob) = Some old" "\<not> stale old ob" "\<not> deletion_done ob"
    and "\<And>rv w'. view w' = store_set (view w) (kind_of ob) (key_of ob) (Some (with_rv rv (put_main old ob))) \<Longrightarrow>
      rv \<noteq> '''' \<Longrightarrow> (put_main old ob \<noteq> old \<Longrightarrow> rv \<noteq> rv_of old) \<Longrightarrow> Q None w'"
  shows "wp (env_update cl ob) Q w"
proof (rule run_wp)
  fix r w' assume run: "run_state (env_update cl ob) w = (r, w')"
  then have r: "r = None" using serve_law assms(1,2) by blast
  obtain rv where w': "view w' = store_set (view w) (kind_of ob) (key_of ob) (Some (with_rv rv (put_main old ob)))"
    using update_law[OF run] assms(1,3) r by auto
  have "rv \<noteq> '''' \<and> (put_main old ob \<noteq> old \<longrightarrow> rv \<noteq> rv_of old)"
    using bump_law[OF run[unfolded r] assms(1)] w' by simp
  then show "Q r w'" using assms(4)[OF w'] r by auto
qed

lemma wp_update_stale:
  assumes "view w (kind_of ob) (key_of ob) = Some old" "stale old ob"
    and "\<And>e w'. view w' = view w \<Longrightarrow> Q (Some e) w'"
  shows "wp (env_update cl ob) Q w"
proof (rule run_wp)
  fix r w' assume run: "run_state (env_update cl ob) w = (r, w')"
  then obtain e where "r = Some e" using serve_law[OF run assms(1)] assms(2) by (cases r) auto
  then show "Q r w'" using update_law[OF run] assms(3) by auto
qed

end

locale serving_world = agent_world ag view + kube_serving "ag_kube ag" view
  for ag :: "'w agent_env" and view :: "'w \<Rightarrow> store"

lemma op_finished_meta [simp]: "cm_Meta (op_finished r cm) = cm_Meta cm"
  by (simp add: op_finished_def split: option.split)

lemma key_of_ConfigMap: "cm_Meta cm' = cm_Meta cm \<Longrightarrow> key_of (OConfigMap cm') = key_of (OConfigMap cm) \<and>
    rv_of (OConfigMap cm') = rv_of (OConfigMap cm) \<and> deletion_done (OConfigMap cm') = deletion_done (OConfigMap cm)"
  by (simp add: key_of_def rv_of_def deletion_done_def)

lemma op_running_state: "cm_Data cm \<noteq> None \<Longrightarrow> cm_str (op_running cm) ''status.state'' = ''Running''"
  by (simp add: op_running_def)

text \<open>The ConfigMap an execution leaves behind.\<close>

definition left_running :: "ConfigMap \<Rightarrow> kobject option \<Rightarrow> bool" where
  "left_running cm x \<longleftrightarrow> (case x of
      Some (OConfigMap cm') \<Rightarrow> cm_Data cm' = cm_Data (op_running cm) \<and>
        meta_ResourceVersion (cm_Meta cm') \<noteq> ''''
    | _ \<Rightarrow> False)"

lemma left_running_with: "rv \<noteq> '''' \<Longrightarrow> left_running cm (Some (with_rv rv (OConfigMap (op_running cm))))"
  by (simp add: left_running_def with_rv_def)

context serving_world begin

lemma wp_execute_stored:
  assumes "view w KConfigMap (key_of (OConfigMap cm)) = Some (OConfigMap cm)" "\<not> deletion_done (OConfigMap cm)"
    and "rv_of (OConfigMap cm) \<noteq> ''''" "cm_Data cm \<noteq> None" "cm_str cm ''status.state'' \<noteq> ''Running''"
    and "op_id cm \<notin> seen_ops a"
  shows "wp (executeOperation ag a cm) (\<lambda>r w'. (\<exists>a'. r = Inr a') \<and>
     (\<exists>x. left_running cm x \<and> view w' = store_set (view w) KConfigMap (key_of (OConfigMap cm)) x)) w"
proof -
  let ?cm1 = "op_running cm"
  have "?cm1 \<noteq> cm" using op_running_state[OF assms(4)] assms(5) by auto
  then have ne: "put_main (OConfigMap cm) (OConfigMap ?cm1) \<noteq> OConfigMap cm" by simp
  note k1 = key_of_ConfigMap[of ?cm1 cm, simplified]
  have fresh: "na_processedOperations a (op_id cm) = None" using assms(6) by (auto simp: seen_ops_def)
  show ?thesis unfolding executeOperation_def Let_def wp
    using fresh assms(4)
  proof (simp, intro wp_update_fresh[where old = "OConfigMap cm"], goal_cases)
    case (4 rv w1)
    then have st: "view w1 KConfigMap (key_of (OConfigMap cm)) = Some (with_rv rv (OConfigMap ?cm1))"
      using k1 by simp
    have "rv \<noteq> rv_of (OConfigMap cm)" using 4 ne by auto
    then have "stale (with_rv rv (OConfigMap ?cm1)) (OConfigMap (op_finished e ?cm1))" for e
      using assms(3) key_of_ConfigMap[of "op_finished e ?cm1" cm] by (simp add: stale_def)
    moreover have "key_of (OConfigMap (op_finished e ?cm1)) = key_of (OConfigMap cm)" for e
      by (simp add: key_of_def)
    ultimately show ?case
    proof (intro keeps_wp[OF agent_keeps(1)] wp_now wp_update_stale, goal_cases)
      case (3 e w2 t w3 r w4)
      then show ?case using 4 left_running_with[of rv cm] k1 by auto
    qed (use st in simp_all)
  qed (use assms k1 in \<open>simp_all add: stale_def\<close>)
qed

end

end
