(* ===== verification/Operator_Agent.thy ===== *)
theory Operator_Agent
  imports Agent_Contract
begin

text \<open>
  Operator and node agent in one cluster: while the operator waits for an operation, the agent's loop
  runs on the same API server. The invariant of a posted operation is that its ConfigMap is Pending, or
  Running and already executed; it never becomes final, so every operation the operator posts ends in
  an error.
\<close>

section \<open>The invariant of a posted operation\<close>

definition unconfirmed :: "string \<Rightarrow> NodeAgent option \<Rightarrow> kobject option \<Rightarrow> bool" where
  "unconfirmed nm agent x \<longleftrightarrow> (case x of
      Some (OConfigMap cm) \<Rightarrow>
        cm_Data cm \<noteq> None \<and> cm_str cm ''operationID'' = nm \<and> meta_ResourceVersion (cm_Meta cm) \<noteq> '''' \<and>
        (cm_str cm ''status.state'' = ''Pending'' \<or>
         cm_str cm ''status.state'' = ''Running'' \<and> (case agent of None \<Rightarrow> True | Some a \<Rightarrow> nm \<in> seen_ops a))
    | _ \<Rightarrow> False)"

lemma unconfirmed_mono:
  "unconfirmed nm (Some a) x \<Longrightarrow> seen_ops a \<subseteq> seen_ops a' \<Longrightarrow> unconfirmed nm (Some a') x"
  by (auto simp: unconfirmed_def split: option.splits kobject.splits)

lemma unconfirmed_dead: "unconfirmed nm agent x \<Longrightarrow> unconfirmed nm None x"
  by (auto simp: unconfirmed_def split: option.splits kobject.splits)

lemma unconfirmed_cm:
  assumes "unconfirmed nm agent x"
  obtains cm where "x = Some (OConfigMap cm)" "cm_Data cm \<noteq> None" "cm_str cm ''operationID'' = nm"
    "rv_of (OConfigMap cm) \<noteq> ''''" "cm_str cm ''status.state'' = ''Pending'' \<or> cm_str cm ''status.state'' = ''Running''"
    "cm_str cm ''status.state'' = ''Running'' \<Longrightarrow> (case agent of None \<Rightarrow> True | Some a \<Rightarrow> nm \<in> seen_ops a)"
  using assms by (auto simp: unconfirmed_def rv_of_def split: option.splits kobject.splits)

lemma cm_str_data: "cm_Data cm = cm_Data cm' \<Longrightarrow> cm_str cm k = cm_str cm' k"
  by (simp add: cm_str_def cm_lookup_def)

lemma unconfirmed_left_running:
  assumes "left_running cm x" "cm_Data cm \<noteq> None" "cm_str cm ''operationID'' = nm" "nm \<in> seen_ops a"
  shows "unconfirmed nm (Some a) x"
proof -
  obtain cm' where cm': "x = Some (OConfigMap cm')" "cm_Data cm' = cm_Data (op_running cm)"
    "meta_ResourceVersion (cm_Meta cm') \<noteq> ''''"
    using assms(1) by (auto simp: left_running_def split: option.splits kobject.splits)
  have "cm_Data (op_running cm) \<noteq> None" using assms(2) by (simp add: op_running_def)
  then show ?thesis using cm' assms(2-4) op_running_state[OF assms(2)]
    by (simp add: unconfirmed_def cm_str_data[OF cm'(2)] op_running_str del: cm_str_put)
qed

lemma only_at_other: "only_at view k n w w' \<Longrightarrow> n' \<noteq> n \<Longrightarrow> view w' k n' = view w k n'"
  unfolding only_at_def by blast

context serving_world begin

text \<open>An execution writes only the ConfigMap of its operation.\<close>

lemma wp_update_at: "wp (env_update (ag_kube ag) ob) (\<lambda>r w'. only_at view (kind_of ob) (key_of ob) w w') w"
  by (rule wp_update) (auto intro: only_at_set only_at_refl)

lemma only_at_trans: "only_at view k n w w1 \<Longrightarrow> only_at view k n w1 w' \<Longrightarrow> only_at view k n w w'"
  by (simp add: only_at_def)

lemma wp_execute_only: "wp (executeOperation ag a cm) (\<lambda>r w'. only_at view KConfigMap (key_of (OConfigMap cm)) w w') w"
proof -
  let ?k = "key_of (OConfigMap cm)"
  have at: "wp (env_update (ag_kube ag) (OConfigMap cm')) (\<lambda>r w'. only_at view KConfigMap ?k w w') w1"
    if "only_at view KConfigMap ?k w w1" "cm_Meta cm' = cm_Meta cm" for cm' w1
    using that by (intro wp_mono[OF wp_update_at]) (auto simp: key_of_def intro: only_at_trans)
  have keep: "only_at view KConfigMap ?k w w2" if "view w2 = view w1" "only_at view KConfigMap ?k w w1" for w1 w2
    using that by (simp add: only_at_def)
  have "wp (env_update (ag_kube ag) (OConfigMap (op_running cm))) (\<lambda>_. wp (run_op (ag_host ag) cm)
      (\<lambda>r. wp (env_now (ag_kube ag)) (\<lambda>t. wp (env_update (ag_kube ag) (OConfigMap (op_finished r (op_running cm))))
        (\<lambda>_ w'. only_at view KConfigMap ?k w w')))) w"
  proof (rule wp_mono[OF at])
    fix r :: "error option" and w1 assume "only_at view KConfigMap ?k w w1"
    then show "wp (run_op (ag_host ag) cm) (\<lambda>r. wp (env_now (ag_kube ag)) (\<lambda>t.
        wp (env_update (ag_kube ag) (OConfigMap (op_finished r (op_running cm)))) (\<lambda>_ w'. only_at view KConfigMap ?k w w'))) w1"
      by (intro keeps_wp[OF agent_keeps(1)] wp_now at) (auto intro: keep)
  qed (simp_all add: only_at_refl)
  then show ?thesis unfolding executeOperation_def Let_def wp by (simp add: only_at_refl)
qed

lemma wp_execute_step:
  assumes inv: "unconfirmed nm (Some a) (view w KConfigMap k)" and nm: "nm \<noteq> ''''"
    and ok: "\<not> deletion_done (OConfigMap cm)"
    and snap: "key_of (OConfigMap cm) = k \<Longrightarrow>
      cm_str cm ''operationID'' = nm \<and> (nm \<in> seen_ops a \<or> view w KConfigMap k = Some (OConfigMap cm))"
  shows "wp (executeOperation ag a cm) (\<lambda>r w'.
     (case r of Inl _ \<Rightarrow> unconfirmed nm None (view w' KConfigMap k)
      | Inr a' \<Rightarrow> unconfirmed nm (Some a') (view w' KConfigMap k) \<and>
          (nm \<in> seen_ops a' \<or> view w' KConfigMap k = view w KConfigMap k))) w"
proof (cases "key_of (OConfigMap cm) = k")
  case False
  show ?thesis
  proof (rule wp_mono[OF wp_conj[OF wp_execute_only execute_marks]], goal_cases)
    case (1 r w')
    then have "view w' KConfigMap k = view w KConfigMap k" using False by (metis only_at_other)
    moreover have "seen_ops a \<subseteq> seen_ops a'" if "r = Inr a'" for a' using 1 that by auto
    ultimately show ?case
      using unconfirmed_dead[OF inv] unconfirmed_mono[OF inv] by (cases r) simp_all
  qed
next
  case True
  note s = snap[OF True]
  then have id: "op_id cm = nm" using nm by (simp add: op_id_def)
  show ?thesis
  proof (cases "nm \<in> seen_ops a")
    case seen: True
    show ?thesis using execute_seen[of cm a ag] seen id inv by (simp add: wp)
  next
    case False
    then have st: "view w KConfigMap k = Some (OConfigMap cm)" using s by simp
    obtain "cm_Data cm \<noteq> None" "rv_of (OConfigMap cm) \<noteq> ''''" "cm_str cm ''status.state'' \<noteq> ''Running''"
      using inv False unfolding st by (rule_tac unconfirmed_cm) auto
    note ex = wp_execute_stored[OF st[folded True] ok this(2,1,3)]
    show ?thesis
    proof (rule wp_mono[OF wp_conj[OF ex execute_marks]], goal_cases)
      case (2 r w')
      then obtain a' x where r: "r = Inr a'" "left_running cm x" "view w' = store_set (view w) KConfigMap k x"
        and "seen_ops a' = insert (op_id cm) (seen_ops a)"
        unfolding True by blast
      then have "nm \<in> seen_ops a'" using id by simp
      then show ?case using unconfirmed_left_running[OF r(2) \<open>cm_Data cm \<noteq> None\<close>] s r by simp
    qed (use False id in simp)
  qed
qed

end

section \<open>The agent's loop keeps the invariant\<close>

definition alive :: "error + NodeAgent \<Rightarrow> NodeAgent option" where
  "alive r = (case r of Inl _ \<Rightarrow> None | Inr a \<Rightarrow> Some a)"

lemma alive_simps [simp]: "alive (Inl e) = None" "alive (Inr a) = Some a"
  by (simp_all add: alive_def)

lemma status_name_not_op: "HasPrefix (''kubenas-diskstatus-'' @ n) agentOpPrefix = False"
  by (simp add: HasPrefix_def agentOpPrefix_def)

context serving_world begin

lemma wp_execute_all_step:
  assumes "unconfirmed nm (Some a) (view w KConfigMap k)" "nm \<noteq> ''''"
    and "\<forall>cm \<in> set cms. \<not> deletion_done (OConfigMap cm) \<and> (key_of (OConfigMap cm) = k \<longrightarrow>
      cm_str cm ''operationID'' = nm \<and> (nm \<in> seen_ops a \<or> view w KConfigMap k = Some (OConfigMap cm)))"
  shows "wp (execute_all ag a cms) (\<lambda>r w'. unconfirmed nm (alive r) (view w' KConfigMap k)) w"
  using assms
proof (induction cms arbitrary: a w)
  case (Cons cm cms)
  show ?case unfolding execute_all.simps wp
  proof (rule wp_mono[OF wp_conj[OF wp_execute_step[OF Cons.prems(1,2)] execute_marks]], goal_cases)
    case (3 r w')
    show ?case
    proof (cases r)
      case (Inr a')
      have "wp (execute_all ag a' cms) (\<lambda>r w'. unconfirmed nm (alive r) (view w' KConfigMap k)) w'"
      proof (rule Cons.IH)
        note * = 3[unfolded Inr sum.case]
        have "seen_ops a' = insert (op_id cm) (seen_ops a)" using * by blast
        then have seen: "nm \<in> seen_ops a \<Longrightarrow> nm \<in> seen_ops a'" by blast
        have stored: "nm \<in> seen_ops a' \<or> view w' KConfigMap k = view w KConfigMap k" using * by blast
        show "unconfirmed nm (Some a') (view w' KConfigMap k)" using * by blast
        show "nm \<noteq> ''''" by fact
        show "\<forall>cm \<in> set cms. \<not> deletion_done (OConfigMap cm) \<and> (key_of (OConfigMap cm) = k \<longrightarrow>
            cm_str cm ''operationID'' = nm \<and> (nm \<in> seen_ops a' \<or> view w' KConfigMap k = Some (OConfigMap cm)))"
        proof
          fix cm' assume "cm' \<in> set cms"
          then have "\<not> deletion_done (OConfigMap cm') \<and> (key_of (OConfigMap cm') = k \<longrightarrow>
              cm_str cm' ''operationID'' = nm \<and> (nm \<in> seen_ops a \<or> view w KConfigMap k = Some (OConfigMap cm')))"
            using Cons.prems(3) by simp
          then show "\<not> deletion_done (OConfigMap cm') \<and> (key_of (OConfigMap cm') = k \<longrightarrow>
              cm_str cm' ''operationID'' = nm \<and> (nm \<in> seen_ops a' \<or> view w' KConfigMap k = Some (OConfigMap cm')))"
            using seen stored by metis
        qed
      qed
      then show ?thesis by (simp add: Inr)
    qed (use 3 in \<open>simp add: wp\<close>)
  qed (use Cons.prems(3) in \<open>force+\<close>)
qed (simp add: wp)

lemma wp_process_step:
  assumes "unconfirmed nm (Some a) (view w KConfigMap k)" "nm \<noteq> ''''"
  shows "wp (processOperationRequests ag a) (\<lambda>r w'. unconfirmed nm (alive r) (view w' KConfigMap k)) w"
  unfolding processOperationRequests_def wp
proof (rule run_wp, goal_cases)
  case (1 r w1)
  have v: "view w1 = view w"
    using keeps_wp[OF list_keeps, where Q = "\<lambda>_ w'. view w' = view w"] wp_run[OF _ 1] by blast
  show ?case
  proof (cases r)
    case (Inr cms)
    have "\<not> deletion_done (OConfigMap cm) \<and> (key_of (OConfigMap cm) = k \<longrightarrow>
        cm_str cm ''operationID'' = nm \<and> view w1 KConfigMap k = Some (OConfigMap cm))" if "cm \<in> set cms" for cm
      using list_law[OF 1[unfolded Inr] that] assms(1) v by (auto elim!: unconfirmed_cm)
    then show ?thesis unfolding Inr sum.case
      by (intro wp_execute_all_step) (use assms v in auto)
  qed (simp add: wp v assms)
qed

lemma wp_agent_step:
  assumes "unconfirmed nm (Some a) (view w KConfigMap k)" "HasPrefix nm agentOpPrefix" "snd k = nm"
  shows "wp (agent_step ag t a) (\<lambda>r w'. unconfirmed nm (alive r) (view w' KConfigMap k)) w"
proof (cases t)
  case DiscoveryTick
  have k: "k \<noteq> (na_namespace a, ''kubenas-diskstatus-'' @ na_nodeName a)"
    using status_name_not_op[of "na_nodeName a"] assms(2,3) by auto
  show ?thesis unfolding DiscoveryTick agent_step_def agent_tick.case wp
    by (rule wp_mono[OF wp_runDiscovery]) (use assms(1) k in auto)
next
  case SmartTick
  show ?thesis unfolding SmartTick agent_step_def agent_tick.case wp
    by (rule keeps_wp[OF runSmartChecks_keeps]) (use assms(1) in simp)
next
  case OpTick
  have "nm \<noteq> ''''" using assms(2) by (auto simp: HasPrefix_def agentOpPrefix_def)
  then show ?thesis unfolding OpTick agent_step_def agent_tick.case
    by (rule wp_process_step[OF assms(1)])
qed

lemma wp_agent_loop:
  assumes "unconfirmed nm (Some a) (view w KConfigMap k)" "HasPrefix nm agentOpPrefix" "snd k = nm"
  shows "wp (agent_loop ag ts a) (\<lambda>r w'. unconfirmed nm (alive r) (view w' KConfigMap k)) w"
  using assms(1)
proof (induction ts arbitrary: a w)
  case (Cons t ts)
  show ?case unfolding agent_loop.simps wp
  proof (rule wp_mono[OF wp_agent_step[OF Cons.prems assms(2,3)]], goal_cases)
    case (1 r w')
    then show ?case using Cons.IH by (cases r) (simp_all add: wp)
  qed
qed (simp add: wp)

end

section \<open>The operator waits while the agent runs\<close>

text \<open>
  Both processes use the same API server. \<open>agent w\<close> is the agent's state, \<open>None\<close> once it has ended; while
  the operator waits, the agent's main loop takes any number of steps. The agent is not restarted.
\<close>

locale operator_agent = serving_world ag view + op: kube_serving cl view
  for ag :: "'w agent_env" and view :: "'w \<Rightarrow> store" and cl :: "'w env" +
  fixes agent :: "'w \<Rightarrow> NodeAgent option"
  assumes get_agent: "keeps agent (env_get cl k n)"
    and wait_agent: "run_state (env_wait cl) w = (r, w') \<Longrightarrow>
      (case agent w of
         None \<Rightarrow> view w' = view w \<and> agent w' = None
       | Some a \<Rightarrow> \<exists>ticks w0 res w1. view w0 = view w \<and> run_state (agent_loop ag ticks a) w0 = (res, w1) \<and>
           view w' = view w1 \<and> agent w' = alive res)"
begin

definition posted :: "string \<Rightarrow> 'w \<Rightarrow> bool" where
  "posted nm w \<longleftrightarrow> unconfirmed nm (agent w) (view w KConfigMap (operatorNamespace cl, nm))"

lemma wp_wait_posted:
  assumes "posted nm w" "HasPrefix nm agentOpPrefix"
  shows "wp (env_wait cl) (\<lambda>_ w'. posted nm w') w"
proof (rule run_wp)
  fix r w' assume run: "run_state (env_wait cl) w = (r, w')"
  show "posted nm w'"
  proof (cases "agent w")
    case None
    then show ?thesis using wait_agent[OF run] assms(1) by (simp add: posted_def)
  next
    case (Some a)
    then obtain ticks w0 res w1 where w0: "view w0 = view w" and l: "run_state (agent_loop ag ticks a) w0 = (res, w1)"
      and w': "view w' = view w1" "agent w' = alive res"
      using wait_agent[OF run] by auto
    have "unconfirmed nm (alive res) (view w1 KConfigMap (operatorNamespace cl, nm))"
      by (rule wp_run[OF wp_agent_loop l]) (use assms Some w0 in \<open>simp_all add: posted_def\<close>)
    then show ?thesis by (simp add: posted_def w')
  qed
qed

lemma wp_get_posted:
  assumes "posted nm w"
    and "\<And>cm w'. posted nm w' \<Longrightarrow> cm_str cm ''status.state'' \<notin> {''Success'', ''Failed''} \<Longrightarrow> Q (Inr cm) w'"
    and "\<And>e w'. \<not> IsNotFound e \<Longrightarrow> Q (Inl e) w'"
  shows "wp (get_cm cl nm) Q w"
proof -
  have ag: "wp (get_cm cl nm) (\<lambda>r w'. agent w' = agent w) w"
    unfolding get_cm_def wp by (rule keeps_wp[OF get_agent])
  show ?thesis
  proof (rule wp_mono[OF wp_conj[OF ag op.wp_get_cm[where Q = "\<lambda>r w'. view w' = view w \<and>
      (case r of Inr cm \<Rightarrow> view w KConfigMap (operatorNamespace cl, nm) = Some (OConfigMap cm)
       | Inl e \<Rightarrow> \<not> IsNotFound e)"]]], goal_cases)
    case (3 r w')
    show ?case
    proof (cases r)
      case (Inr cm)
      have "posted nm w'" using 3 assms(1) by (simp add: posted_def)
      moreover have "cm_str cm ''status.state'' \<notin> {''Success'', ''Failed''}"
        using assms(1) 3 Inr unfolding posted_def by (auto elim!: unconfirmed_cm)
      ultimately show ?thesis using assms(2) Inr by simp
    qed (use 3 assms(3) in simp)
  qed (use assms(1) in \<open>auto simp: posted_def elim!: unconfirmed_cm\<close>)
qed

lemma wp_polls_posted:
  assumes "posted nm w" "HasPrefix nm agentOpPrefix"
  shows "wp (wait_polls i cl nm) (\<lambda>r w'. snd r \<noteq> None) w"
  using assms(1)
proof (induction i arbitrary: w)
  case (Suc i)
  show ?case unfolding wait_polls.simps wp Let_def
  proof (rule wp_get_posted[OF Suc.prems], goal_cases)
    case (1 cm w1)
    then show ?case
      by (simp add: wp, intro wp_mono[OF wp_wait_posted[OF _ assms(2)]])
        (auto split: option.split simp: Suc.IH[simplified] wp)
  qed (simp add: wp)
qed (simp add: wp)

end

section \<open>Posted operations end in errors\<close>

context operator_agent begin

lemma wp_post_posted:
  "wp (postAgentOp cl node opType payload) (\<lambda>r w'. HasPrefix (fst r) agentOpPrefix \<and> (snd r = None \<longrightarrow> posted (fst r) w')) w"
  unfolding postAgentOp_def Let_def wp
proof (rule op.wp_now, rule run_wp, goal_cases)
  case (1 t w1 e w2)
  let ?nm = "agentOpPrefix @ node @ ''-'' @ show_int (t div 1000000)"
  let ?cm = "op_configmap (operatorNamespace cl) ?nm node opType (print_json payload)"
  have k: "key_of (OConfigMap ?cm) = (operatorNamespace cl, ?nm)" by (simp add: key_of_def op_configmap_def)
  have "posted ?nm w2" if e: "e = None"
  proof -
    obtain rv u where x: "view w2 KConfigMap (key_of (OConfigMap ?cm)) = Some (with_uid u (with_rv rv (OConfigMap ?cm)))"
      using op.create_law[OF 1(2), unfolded e option.case] by force
    have "rv \<noteq> ''''" using op.create_rv_law[OF 1(2)[unfolded e]] x by simp
    moreover have "cm_Data ?cm \<noteq> None" by (simp add: op_configmap_def)
    ultimately show ?thesis unfolding posted_def using x k
      by (simp add: unconfirmed_def with_uid_def with_rv_def cm_str_data[where cm' = ?cm])
  qed
  then show ?case by simp
qed

lemma wp_post_wait_posted: "wp (post_and_wait cl node opType payload) (\<lambda>r w'. r \<noteq> None) w"
  unfolding post_and_wait_def wp
proof (rule wp_mono[OF wp_post_posted], goal_cases)
  case (1 r w')
  obtain nm e where r: "r = (nm, e)" by (cases r)
  show ?case
  proof (cases e)
    case None
    then have "posted nm w'" "HasPrefix nm agentOpPrefix" using 1 r by auto
    from wp_polls_posted[OF this] show ?thesis unfolding r None waitForOperationState_def
      by (simp add: wp split_beta)
  qed (simp add: r wp)
qed

lemma wp_mergerfs_posted: "wp (EnsureMergerFSMount cl node q) (\<lambda>r w'. \<exists>e. r = Inl e) w"
  unfolding EnsureMergerFSMount_def wp
proof (rule wp_mono[OF wp_post_posted], goal_cases)
  case (1 r w')
  obtain nm e where r: "r = (nm, e)" by (cases r)
  show ?case
  proof (cases e)
    case None
    then have "posted nm w'" "HasPrefix nm agentOpPrefix" using 1 r by auto
    note polls = wp_polls_posted[OF this]
    show ?thesis unfolding r None waitForOperationState_def
      by (simp add: wp split_beta) (rule wp_mono[OF polls], auto)
  qed (simp add: r wp)
qed

end

end
