(* ===== verification/Cluster.thy ===== *)
theory Cluster
  imports Operator_Agent
begin

text \<open>
  A cluster in memory: one API server, one host with its mount table, and the agent of that node, which
  takes a turn whenever the operator waits. It satisfies the contracts of operator and agent, and the
  properties that span both are stated here.
\<close>

section \<open>The agent writes only ConfigMaps\<close>

context serving_world begin

lemma wp_execute_all_crs: "wp (execute_all ag a cms) (\<lambda>r w'. crs_same view w w') w"
proof (induction cms arbitrary: a w)
  case (Cons cm cms)
  show ?case unfolding execute_all.simps wp
  proof (rule wp_mono[OF wp_execute_only], goal_cases)
    case (1 r w')
    then have "crs_same view w w'" by (simp add: crs_same_def only_at_def fun_eq_iff)
    then show ?case
      by (cases r) (auto simp: wp intro: wp_mono[OF Cons.IH] crs_same_trans)
  qed
qed (simp add: wp)

lemma wp_agent_step_crs: "wp (agent_step ag t a) (\<lambda>r w'. crs_same view w w') w"
proof (cases t)
  case DiscoveryTick
  show ?thesis unfolding DiscoveryTick agent_step_def agent_tick.case wp
    by (rule wp_mono[OF wp_runDiscovery]) (auto simp: crs_same_def)
next
  case SmartTick
  show ?thesis unfolding SmartTick agent_step_def agent_tick.case wp
    by (rule keeps_wp[OF runSmartChecks_keeps]) simp
next
  case OpTick
  show ?thesis unfolding OpTick agent_step_def agent_tick.case processOperationRequests_def wp
  proof (rule keeps_wp[OF list_keeps], goal_cases)
    case (1 r w1)
    then have "crs_same view w w1" by simp
    then show ?case by (cases r) (auto simp: wp intro: wp_mono[OF wp_execute_all_crs] crs_same_trans)
  qed
qed

lemma wp_agent_loop_crs: "wp (agent_loop ag ts a) (\<lambda>r w'. crs_same view w w') w"
proof (induction ts arbitrary: a w)
  case (Cons t ts)
  show ?case unfolding agent_loop.simps wp
  proof (rule wp_mono[OF wp_agent_step_crs], goal_cases)
    case (1 r w')
    then show ?case by (cases r) (auto simp: wp intro: wp_mono[OF Cons.IH] crs_same_trans)
  qed
qed (simp add: wp)

end

section \<open>An API server as a part of a larger world\<close>

lemma projected_serving:
  assumes e: "kube_serving e v"
    and "\<And>k n w r w'. run_state (env_get e' k n) w = (r, w') \<Longrightarrow> run_state (env_get e k n) (p w) = (r, p w')"
    and "\<And>ob w r w'. run_state (env_create e' ob) w = (r, w') \<Longrightarrow> run_state (env_create e ob) (p w) = (r, p w')"
    and "\<And>ob w r w'. run_state (env_update e' ob) w = (r, w') \<Longrightarrow> run_state (env_update e ob) (p w) = (r, p w')"
    and "\<And>ob w r w'. run_state (env_status_update e' ob) w = (r, w') \<Longrightarrow>
      run_state (env_status_update e ob) (p w) = (r, p w')"
    and "\<And>ob w r w'. run_state (env_delete e' ob) w = (r, w') \<Longrightarrow> run_state (env_delete e ob) (p w) = (r, p w')"
    and "\<And>w r w'. run_state (env_now e') w = (r, w') \<Longrightarrow> run_state (env_now e) (p w) = (r, p w')"
    and "\<And>w r w' k. run_state (env_wait e') w = (r, w') \<Longrightarrow> k \<noteq> KConfigMap \<Longrightarrow> v (p w') k = v (p w) k"
  shows "kube_serving e' (\<lambda>w. v (p w))"
proof -
  note a = kube_serving.axioms(1)[OF e]
  note laws = assms(2)[THEN kube_api.get_law[OF a]] assms(3)[THEN kube_api.create_law[OF a]]
    assms(4)[THEN kube_api.update_law[OF a]] assms(5)[THEN kube_api.status_update_law[OF a]]
    assms(6)[THEN kube_api.delete_law[OF a]] assms(7)[THEN kube_api.now_law[OF a]] assms(8)
    assms(4)[THEN kube_serving.serve_law[OF e]] assms(4)[THEN kube_serving.bump_law[OF e]]
    assms(3)[THEN kube_serving.create_rv_law[OF e]]
  show ?thesis by unfold_locales (fact laws)+
qed

section \<open>The cluster\<close>

record cluster =
  cl_mem :: mem
  cl_names :: "nskey list"
  cl_host :: mem_host
  cl_agent :: "NodeAgent option"

definition on_mem :: "(mem, 'a) state \<Rightarrow> (cluster, 'a) state" where
  "on_mem m = on_host cl_mem (\<lambda>x w. w\<lparr>cl_mem := x\<rparr>) (run_state m)"

text \<open>The server also keeps the keys of everything that was created, for the list call.\<close>

definition server :: "mem env" where
  "server = mem_env '''' (\<lambda>_ _. None) (\<lambda>m. m)"

definition cluster_create :: "kobject \<Rightarrow> (cluster, error option) state" where
  "cluster_create ob = do {
     e \<leftarrow> on_mem (env_create server ob);
     _ \<leftarrow> on_host cl_names (\<lambda>x w. w\<lparr>cl_names := x\<rparr>) (\<lambda>ns. ((), ns @ [key_of ob]));
     State_Monad.return e
   }"

definition cluster_env :: "string \<Rightarrow> (cluster, error option) state \<Rightarrow> cluster env" where
  "cluster_env ns wait =
     \<lparr>env_get = (\<lambda>k n. on_mem (env_get server k n)),
      env_create = cluster_create,
      env_update = (\<lambda>ob. on_mem (env_update server ob)),
      env_status_update = (\<lambda>ob. on_mem (env_status_update server ob)),
      env_delete = (\<lambda>ob. on_mem (env_delete server ob)),
      env_now = on_mem (env_now server),
      env_wait = wait,
      env_namespace = ns\<rparr>"

definition has_labels :: "(string \<times> string) list \<Rightarrow> ConfigMap \<Rightarrow> bool" where
  "has_labels sel cm = list_all (\<lambda>(k, v). meta_Labels (cm_Meta cm) k = Some v) sel"

fun listed :: "store \<Rightarrow> string \<Rightarrow> (string \<times> string) list \<Rightarrow> nskey list \<Rightarrow> ConfigMap list" where
  "listed v ns sel [] = []"
| "listed v ns sel (n # names) =
     (case v KConfigMap n of
        Some (OConfigMap cm) \<Rightarrow>
          (if fst n = ns \<and> has_labels sel cm then cm # listed v ns sel names else listed v ns sel names)
      | _ \<Rightarrow> listed v ns sel names)"

definition cluster_view :: "cluster \<Rightarrow> store" where
  "cluster_view w = mem_view (cl_mem w)"

definition cluster_agent :: "(string list \<Rightarrow> string \<times> error option) \<Rightarrow> cluster agent_env" where
  "cluster_agent out =
     \<lparr>ag_kube = cluster_env '''' (on_mem (env_wait server)),
      ag_list = (\<lambda>ns sel. State (\<lambda>w. (Inr (listed (cluster_view w) ns sel (remdups (cl_names w))), w))),
      ag_host = memory_host cl_host (\<lambda>x w. w\<lparr>cl_host := x\<rparr>) out,
      ag_dyn_get = (\<lambda>n. State_Monad.return None),
      ag_dyn_update = (\<lambda>d. State_Monad.return None),
      ag_dyn_create = (\<lambda>d. State_Monad.return None)\<rparr>"

text \<open>While the operator waits for two seconds, the agent's operation ticker fires once.\<close>

definition agent_turn :: "(string list \<Rightarrow> string \<times> error option) \<Rightarrow> (cluster, error option) state" where
  "agent_turn out = State (\<lambda>w.
     case cl_agent w of
       None \<Rightarrow> run_state (on_mem (env_wait server)) w
     | Some a \<Rightarrow>
         (case run_state (on_mem (env_wait server)) w of (e, w0) \<Rightarrow>
          case run_state (agent_loop (cluster_agent out) [OpTick] a) w0 of (r, w1) \<Rightarrow>
            (None, w1\<lparr>cl_agent := alive r\<rparr>)))"

definition operator_env :: "string \<Rightarrow> (string list \<Rightarrow> string \<times> error option) \<Rightarrow> cluster env" where
  "operator_env ns out = cluster_env ns (agent_turn out)"

lemma server_serving: "kube_serving server mem_view"
  unfolding server_def by (rule mem_kube_serving) simp

lemma run_on_mem: "run_state (on_mem m) w = (r, w') \<longleftrightarrow> (\<exists>x. run_state m (cl_mem w) = (r, x) \<and> w' = w\<lparr>cl_mem := x\<rparr>)"
  by (simp add: on_mem_def run_on_host)

lemma cluster_serving:
  assumes "\<And>w r w' k. run_state wait w = (r, w') \<Longrightarrow> k \<noteq> KConfigMap \<Longrightarrow> cluster_view w' k = cluster_view w k"
  shows "kube_serving (cluster_env ns wait) cluster_view"
proof -
  have "kube_serving (cluster_env ns wait) (\<lambda>w. mem_view (cl_mem w))"
    by (rule projected_serving[OF server_serving])
      (use assms in \<open>auto simp: cluster_env_def run_on_mem cluster_create_def run_simps run_on_host cluster_view_def
         on_host_def on_mem_def split: prod.splits\<close>)
  then show ?thesis by (simp add: cluster_view_def[abs_def])
qed

lemma server_wait: "run_state (on_mem (env_wait server)) w = (r, w') \<Longrightarrow> cluster_view w' = cluster_view w \<and> cl_agent w' = cl_agent w"
  by (auto simp: run_on_mem server_def cluster_view_def)

lemma listed_stored:
  assumes "cm \<in> set (listed (mem_view m) ns sel names)"
  shows "mem_view m KConfigMap (key_of (OConfigMap cm)) = Some (OConfigMap cm) \<and> \<not> deletion_done (OConfigMap cm)"
  using assms
proof (induction names)
  case (Cons n names)
  then show ?case
    by (cases "mem_view m KConfigMap n") (auto split: kobject.splits if_splits dest: mem_view_Some)
qed simp

lemma host_keeps_view: "keeps cluster_view (on_host cl_host (\<lambda>x w. w\<lparr>cl_host := x\<rparr>) f)"
  by (auto simp: keeps_def on_host_def cluster_view_def split: prod.split)

lemma cluster_agent_serving: "kube_serving (ag_kube (cluster_agent out)) cluster_view"
  by (simp add: cluster_agent_def, rule cluster_serving) (simp add: server_wait)

lemma cluster_agent_world: "agent_world (cluster_agent out) cluster_view"
proof (rule agent_world.intro[OF kube_serving.axioms(1)[OF cluster_agent_serving]], unfold_locales, goal_cases)
  case (13 ns sel w cms w' cm)
  then show ?case by (auto simp: cluster_agent_def cluster_view_def intro!: listed_stored dest: listed_stored)
qed (simp_all add: cluster_agent_def memory_host_def host_keeps_view keeps_return, simp add: keeps_def)

lemma cluster_serving_world: "serving_world (cluster_agent out) cluster_view"
  by (intro serving_world.intro cluster_agent_world cluster_agent_serving)

lemma agent_turn_law:
  assumes "run_state (agent_turn out) w = (r, w')"
  shows "case cl_agent w of
      None \<Rightarrow> cluster_view w' = cluster_view w \<and> cl_agent w' = None
    | Some a \<Rightarrow> \<exists>ticks w0 res w1. cluster_view w0 = cluster_view w \<and>
        run_state (agent_loop (cluster_agent out) ticks a) w0 = (res, w1) \<and>
        cluster_view w' = cluster_view w1 \<and> cl_agent w' = alive res"
proof (cases "cl_agent w")
  case None
  then show ?thesis using assms server_wait[of w r w'] by (simp add: agent_turn_def)
next
  case (Some a)
  obtain e w0 where w0: "run_state (on_mem (env_wait server)) w = (e, w0)" by fastforce
  obtain res w1 where w1: "run_state (agent_loop (cluster_agent out) [OpTick] a) w0 = (res, w1)" by fastforce
  have "w' = w1\<lparr>cl_agent := alive res\<rparr>" using assms Some w0 w1 by (simp add: agent_turn_def del: agent_loop.simps)
  then show ?thesis using server_wait[OF w0] w1 Some
    by (simp add: cluster_view_def del: agent_loop.simps) blast
qed

lemma agent_turn_crs:
  assumes run: "run_state (agent_turn out) w = (r, w')" and "k \<noteq> KConfigMap"
  shows "cluster_view w' k = cluster_view w k"
proof (cases "cl_agent w")
  case None
  then show ?thesis using agent_turn_law[OF run] by simp
next
  case (Some a)
  then obtain ticks w0 res w1 where v: "cluster_view w0 = cluster_view w" "cluster_view w' = cluster_view w1"
    and l: "run_state (agent_loop (cluster_agent out) ticks a) w0 = (res, w1)"
    using agent_turn_law[OF run] by auto
  have "crs_same cluster_view w0 w1"
    by (rule wp_run[OF serving_world.wp_agent_loop_crs[OF cluster_serving_world] l])
  then show ?thesis using v assms(2) by (simp add: crs_same_def)
qed

lemma operator_env_serving: "kube_serving (operator_env ns out) cluster_view"
  unfolding operator_env_def by (rule cluster_serving) (rule agent_turn_crs)

lemma cluster_operator_agent: "operator_agent (cluster_agent out) cluster_view (operator_env ns out) cl_agent"
proof (intro operator_agent.intro cluster_serving_world operator_env_serving operator_agent_axioms.intro)
  show "keeps cl_agent (env_get (operator_env ns out) k n)" for k n
    by (auto simp: operator_env_def cluster_env_def keeps_def on_mem_def on_host_def split: prod.split)
  show "case cl_agent w of
      None \<Rightarrow> cluster_view w' = cluster_view w \<and> cl_agent w' = None
    | Some a \<Rightarrow> \<exists>ticks w0 res w1. cluster_view w0 = cluster_view w \<and>
        run_state (agent_loop (cluster_agent out) ticks a) w0 = (res, w1) \<and>
        cluster_view w' = cluster_view w1 \<and> cl_agent w' = alive res"
    if "run_state (env_wait (operator_env ns out)) w = (r, w')" for w r w'
    using that by (intro agent_turn_law) (simp add: operator_env_def cluster_env_def)
qed

interpretation demo_agent: agent_world "cluster_agent out" cluster_view for out
  by (rule cluster_agent_world)

interpretation demo_serving: serving_world "cluster_agent out" cluster_view for out
  by (rule cluster_serving_world)

interpretation demo_cluster: operator_agent "cluster_agent out" cluster_view "operator_env ns out" cl_agent for ns out
  by (rule cluster_operator_agent)

section \<open>Properties\<close>

text \<open>C24. An operation the operator posts reaches the host with the operator's arguments: the agent decodes the
  payload (the member names differ in case only) and mounts the device and registers it in the fstab, or
  unmounts, or mounts the pool. The parity operations that \<^verbatim>\<open>RunParityOperation\<close> posts are not known to the
  agent: it runs nothing and fails them.\<close>

theorem posted_operation_dispatch:
  "run_op h (op_configmap ns nm node ''mount'' (print_json (json_MountDiskRequest q))) = do {
     e \<leftarrow> MountDevice h (mdr_DevicePath q) (mdr_MountPoint q) (mdr_Filesystem q);
     case e of
       None \<Rightarrow> EnsureFstabEntry h (mdr_DevicePath q) (mdr_MountPoint q) (mdr_Filesystem q) ''defaults''
     | Some err \<Rightarrow> State_Monad.return (Some err)
   } \<and>
   run_op h (op_configmap ns nm node ''unmount'' (print_json (JObj [(''mountPoint'', JStr mp)]))) = UnmountDevice h mp \<and>
   run_op h (op_configmap ns nm node ''mergerfs-mount'' (print_json (json_MergerFSMountRequest mq))) =
     MountMergerFS h (mmr_Branches mq) (mmr_MountPoint mq) (mmr_CategoryCreate mq) (mmr_MinFreeSpace mq)
       (mmr_ExtraOptions mq) \<and>
   run_op h (op_configmap ns nm node (''parity-'' @ operation) (print_json JNull)) =
     State_Monad.return (Some (ErrorString (''unknown operation type parity-'' @ operation)))"
  by (simp add: run_op_def Unmarshal_mount Unmarshal_unmount[simplified] Unmarshal_mergerfs)

text \<open>C25. Discovery either leaves every stored object as it is, or it writes the one ConfigMap the operator looks
  for and every entry of it is what the operator expects: it decodes on the operator's side, it is stored
  under the key of its own device path, and its health score is a number between 0 and 1.\<close>

theorem discovery_publishes_readable:
  assumes "agent_world ag view"
  shows "wp (runDiscovery ag a) (\<lambda>_ w'. view w' = view w \<or>
     (\<exists>cm. view w' = store_set (view w) KConfigMap (na_namespace a, agentStatusPrefix @ na_nodeName a) (Some (OConfigMap cm)) \<and>
        (\<forall>k t. cm_lookup cm k = Some t \<longrightarrow> good_entry k t))) w"
proof (rule wp_mono[OF agent_world.wp_runDiscovery[OF assms]], goal_cases)
  case (1 u w')
  have "\<exists>cm. x = Some (OConfigMap cm) \<and> (\<forall>k t. cm_lookup cm k = Some t \<longrightarrow> good_entry k t)"
    if "stored_as x data" "good_data data" for x data
    using that by (auto simp: stored_as_def good_data_def cm_lookup_def split: option.splits kobject.splits)
  then show ?case using 1 unfolding agentStatusPrefix_def by metis
qed


text \<open>The agent never reports an operation as finished: both updates of \<^verbatim>\<open>executeOperation\<close> carry the
  resource version the ConfigMap was listed with, the first one changes it, so the second is a conflict,
  whose error is dropped. On a server that accepts every valid update the stored state stays
  \<^verbatim>\<open>Running\<close>, whatever the operation did on the host.\<close>

lemma final_state_not_stored:
  assumes "serving_world ag view"
    and "view w KConfigMap (key_of (OConfigMap cm)) = Some (OConfigMap cm)" and "\<not> deletion_done (OConfigMap cm)"
    and "rv_of (OConfigMap cm) \<noteq> ''''" and "cm_Data cm \<noteq> None" and "cm_str cm ''status.state'' \<noteq> ''Running''"
    and "op_id cm \<notin> seen_ops a"
  shows "wp (executeOperation ag a cm) (\<lambda>r w'. \<exists>a' cm'. r = Inr a' \<and> op_id cm \<in> seen_ops a' \<and>
     view w' = store_set (view w) KConfigMap (key_of (OConfigMap cm)) (Some (OConfigMap cm')) \<and>
     cm_Data cm' = cm_Data (op_running cm)) w"
proof (rule wp_mono[OF wp_conj[OF serving_world.wp_execute_stored[OF assms] execute_marks]], goal_cases)
  case (1 r w')
  then obtain a' x where a: "r = Inr a'" "left_running cm x" "seen_ops a' = insert (op_id cm) (seen_ops a)"
    "view w' = store_set (view w) KConfigMap (key_of (OConfigMap cm)) x"
    by blast
  then obtain cm' where "x = Some (OConfigMap cm')" "cm_Data cm' = cm_Data (op_running cm)"
    by (auto simp: left_running_def split: option.splits kobject.splits)
  with a show ?case by blast
qed

text \<open>C3. Together, with one API server, an agent whose main loop runs while the operator waits and no restart of the
  agent: no mount, unmount or pool mount of the operator ever succeeds, whatever the host does. Every one
  ends in an error, at the latest after the 24 polls, because no poll ever sees a final state.\<close>

theorem operations_never_confirmed:
  assumes "operator_agent ag view cl agent"
  shows "wp (MountDisk cl node q) (\<lambda>r w'. r \<noteq> None) w \<and>
         wp (UnmountDisk cl node mp) (\<lambda>r w'. r \<noteq> None) w \<and>
         wp (EnsureMergerFSMount cl node mq) (\<lambda>r w'. \<exists>e. r = Inl e) w"
  unfolding MountDisk_def UnmountDisk_def
  using operator_agent.wp_post_wait_posted[OF assms] operator_agent.wp_mergerfs_posted[OF assms] by blast

section \<open>Witnesses\<close>

definition demo_op :: ConfigMap where
  "demo_op = (op_configmap ''kubenas-system'' ''kubenas-agentop-n1-7'' ''n1'' ''unmount''
     (print_json (JObj [(''mountPoint'', JStr ''/mnt/a'')])))
     \<lparr>cm_Meta := ObjectMeta_zero\<lparr>meta_Name := ''kubenas-agentop-n1-7'', meta_Namespace := ''kubenas-system'',
        meta_ResourceVersion := ''3''\<rparr>\<rparr>"

definition demo_node_agent :: NodeAgent where
  "demo_node_agent = \<lparr>na_nodeName = ''n1'', na_hostDevPath = ''/dev'', na_namespace = ''kubenas-system'',
     na_processedOperations = Map.empty\<rparr>"

definition demo_state :: cluster where
  "demo_state = \<lparr>cl_mem = \<lparr>mem_objs = store_set (\<lambda>_ _. None) KConfigMap (''kubenas-system'', ''kubenas-agentop-n1-7'')
        (Some (OConfigMap demo_op)), mem_now = 0, mem_next = 4\<rparr>,
     cl_names = [(''kubenas-system'', ''kubenas-agentop-n1-7'')],
     cl_host = \<lparr>mh_mounts = [(''/dev/sda1'', ''/'', ''ext4'')], mh_fstab = None\<rparr>, cl_agent = Some demo_node_agent\<rparr>"

definition demo_out :: "string list \<Rightarrow> string \<times> error option" where
  "demo_out cmd = (print_json (JObj [(''blockdevices'', JArr [JObj [(''name'', JStr ''/dev/sdb''), (''size'', JStr ''4096''),
     (''type'', JStr ''disk'')]])]), None)"

lemma demo_op_key: "key_of (OConfigMap demo_op) = (''kubenas-system'', ''kubenas-agentop-n1-7'')"
  "\<not> deletion_done (OConfigMap demo_op)"
  by (simp_all add: demo_op_def key_of_def deletion_done_def ObjectMeta_zero_def)

lemma demo_op_stored: "cluster_view demo_state KConfigMap (key_of (OConfigMap demo_op)) = Some (OConfigMap demo_op)"
  using demo_op_key by (simp add: cluster_view_def demo_state_def mem_view_def)

lemma demo_op_fields:
  "cm_Data demo_op \<noteq> None" "cm_str demo_op ''status.state'' = ''Pending''" "rv_of (OConfigMap demo_op) = ''3''"
  by (simp_all add: demo_op_def op_configmap_def rv_of_def cm_str_def cm_lookup_def)

theorem discovery_publishes_readable_witness:
  "wp (runDiscovery (cluster_agent demo_out) demo_node_agent) (\<lambda>_ w'.
     cluster_view w' KPool = cluster_view demo_state KPool) demo_state"
  by (rule wp_mono[OF discovery_publishes_readable[OF cluster_agent_world]]) auto

lemma final_state_not_stored_witness:
  "wp (executeOperation (cluster_agent demo_out) demo_node_agent demo_op) (\<lambda>r w'. \<exists>cm'.
     cluster_view w' KConfigMap (''kubenas-system'', ''kubenas-agentop-n1-7'') = Some (OConfigMap cm') \<and>
     cm_str cm' ''status.state'' = ''Running'') demo_state"
proof (rule wp_mono[OF final_state_not_stored[OF cluster_serving_world demo_op_stored demo_op_key(2)]])
  show "op_id demo_op \<notin> seen_ops demo_node_agent" by (simp add: seen_ops_def demo_node_agent_def)
  fix r w' assume "\<exists>a' cm'. r = Inr a' \<and> op_id demo_op \<in> seen_ops a' \<and> cluster_view w' =
      store_set (cluster_view demo_state) KConfigMap (key_of (OConfigMap demo_op)) (Some (OConfigMap cm')) \<and>
      cm_Data cm' = cm_Data (op_running demo_op)"
  then show "\<exists>cm'. cluster_view w' KConfigMap (''kubenas-system'', ''kubenas-agentop-n1-7'') = Some (OConfigMap cm') \<and>
      cm_str cm' ''status.state'' = ''Running''"
    using cm_str_data[of _ "op_running demo_op" "''status.state''"] op_running_state[OF demo_op_fields(1)]
    unfolding demo_op_key(1) by auto
qed (simp_all add: demo_op_fields[simplified])

theorem operations_never_confirmed_witness:
  "wp (MountDisk (operator_env '''' demo_out) ''n1'' \<lparr>mdr_DevicePath = ''/dev/sdb'', mdr_MountPoint = ''/mnt/disks/sdb'',
      mdr_Filesystem = ''xfs'', mdr_FormatIfEmpty = False\<rparr>) (\<lambda>r w'. r \<noteq> None) demo_state"
  using operations_never_confirmed[OF cluster_operator_agent] by blast

end
