(* ===== verification/Storage.thy ===== *)
theory Storage
  imports Node_Disk Agent_Client "HOL-Library.Multiset"
begin

text \<open>
  The standalone storage packages: the SnapRAID configuration (\<^verbatim>\<open>storage/snapraid\<close>), mergerfs
  (\<^verbatim>\<open>storage/mergerfs\<close>), the mount wrappers of the agent (\<^verbatim>\<open>node-agent/mount\<close>) and the CSI driver
  (\<^verbatim>\<open>kubenas/csi\<close>). Shown: this renderer and the operator's write the same configuration lines, whatever
  the iteration order of the Go map, and which directories the CSI driver reaches.
\<close>

section \<open>SnapRAID configuration\<close>

record SnapConfig =
  sc_Parity :: "string list"
  sc_Data :: "string \<rightharpoonup> string"
  sc_Content :: "string list"
  sc_Exclude :: "string list"

text \<open>Go iterates over a map in an arbitrary order: \<open>order\<close> is the sequence of its entries.\<close>

definition enumerates :: "(string \<times> string) list \<Rightarrow> (string \<rightharpoonup> string) \<Rightarrow> bool" where
  "enumerates order m \<longleftrightarrow> distinct (map fst order) \<and> map_of order = m"

definition render_lines :: "(string \<times> string) list \<Rightarrow> SnapConfig \<Rightarrow> string list" where
  "render_lines order cfg =
     map (\<lambda>(i, p). if i = 0 then ''parity '' @ p else show_nat (i + 1) @ ''-parity '' @ p) (enumerate 0 (sc_Parity cfg))
     @ map (\<lambda>(label, path). ''data '' @ label @ '' '' @ path) order
     @ map (\<lambda>c. ''content '' @ c) (sc_Content cfg)
     @ map (\<lambda>e. ''exclude '' @ e) (sc_Exclude cfg)"

definition Render :: "(string \<times> string) list \<Rightarrow> SnapConfig \<Rightarrow> string" where
  "Render order cfg = Join (render_lines order cfg) newline @ newline"

text \<open>\<^verbatim>\<open>os.WriteFile\<close> and \<^verbatim>\<open>cmd.CombinedOutput()\<close> are operations of the host.\<close>

record 'w storage_env =
  st_WriteFile :: "string \<Rightarrow> string \<Rightarrow> ('w, error option) state"
  st_Combined :: "string list \<Rightarrow> ('w, string \<times> error option) state"
  st_MkdirAll :: "string \<Rightarrow> ('w, error option) state"
  st_RemoveAll :: "string \<Rightarrow> ('w, error option) state"

definition storage_WriteConfig :: "'w storage_env \<Rightarrow> (string \<times> string) list \<Rightarrow> string \<Rightarrow> SnapConfig \<Rightarrow> ('w, error option) state" where
  "storage_WriteConfig st order path cfg = st_WriteFile st path (Render order cfg)"

definition combined_error :: "string \<Rightarrow> error \<Rightarrow> string \<Rightarrow> error" where
  "combined_error p err out = ErrorString (p @ '': '' @ Error err @ '' ('' @ out @ '')'')"

definition snapraid_Run :: "'w storage_env \<Rightarrow> string \<Rightarrow> ('w, error option) state" where
  "snapraid_Run st cmdName =
     (if cmdName \<notin> {''sync'', ''scrub'', ''fix''}
      then State_Monad.return (Some (ErrorString (''unsupported snapraid command: '' @ cmdName)))
      else do {
        (out, err) \<leftarrow> st_Combined st [''snapraid'', cmdName];
        State_Monad.return (map_option (\<lambda>e. combined_error (''snapraid '' @ cmdName @ '' failed'') e out) err)
      })"

section \<open>mergerfs\<close>

definition BuildMountOptions :: "string \<Rightarrow> string \<Rightarrow> string \<Rightarrow> string" where
  "BuildMountOptions categoryCreate minFreeSpace extra =
     Join ([''defaults'', ''allow_other'']
       @ (if categoryCreate \<noteq> '''' then [''category.create='' @ categoryCreate] else [])
       @ (if minFreeSpace \<noteq> '''' then [''minfreespace='' @ minFreeSpace] else [])
       @ (if extra \<noteq> '''' then [extra] else [])) '',''"

definition MountPool :: "'w storage_env \<Rightarrow> string \<Rightarrow> string \<Rightarrow> ('w, error option) state" where
  "MountPool st sourceGlob pool = do {
     (out, err) \<leftarrow> st_Combined st [''mergerfs'', sourceGlob, pool, ''-o'', ''category.create=mfs,minfreespace=10G''];
     State_Monad.return (map_option (\<lambda>e. combined_error ''mergerfs mount failed'' e out) err)
   }"

section \<open>Mount wrappers of the agent\<close>

definition mount_Device :: "'w host \<Rightarrow> string \<Rightarrow> string \<Rightarrow> string \<Rightarrow> ('w, error option) state" where
  "mount_Device h devicePath mountPoint fs = MountDevice h devicePath mountPoint fs"

definition mount_Unmount :: "'w host \<Rightarrow> string \<Rightarrow> ('w, error option) state" where
  "mount_Unmount h mountPoint = UnmountDevice h mountPoint"

definition mount_MergerFS ::
  "'w host \<Rightarrow> string list \<Rightarrow> string \<Rightarrow> string \<Rightarrow> string \<Rightarrow> string \<Rightarrow> ('w, error option) state" where
  "mount_MergerFS h branches mountPoint categoryCreate minFreeSpace extra =
     MountMergerFS h branches mountPoint categoryCreate minFreeSpace extra"

section \<open>The CSI driver\<close>

text \<open>
  \<^verbatim>\<open>filepath.Clean\<close>: in a path that is not rooted leading \<^verbatim>\<open>..\<close> elements stay, and an empty result is
  \<^verbatim>\<open>"."\<close>. \<^verbatim>\<open>filepath.Join\<close> skips leading empty elements and cleans the rest.
\<close>

fun clean_rel :: "string list \<Rightarrow> string list \<Rightarrow> string list" where
  "clean_rel acc [] = rev acc"
| "clean_rel acc (x # xs) =
     (if x = '''' \<or> x = ''.'' then clean_rel acc xs
      else if x = ''..'' then (if acc = [] \<or> hd acc = ''..'' then clean_rel (x # acc) xs else clean_rel (tl acc) xs)
      else clean_rel (x # acc) xs)"

definition Clean :: "string \<Rightarrow> string" where
  "Clean p =
     (if HasPrefix p ''/'' then Clean_rooted p
      else (let s = Join (clean_rel [] (Split p (CHR ''/''))) ''/'' in if s = '''' then ''.'' else s))"

definition filepath_Join :: "string list \<Rightarrow> string" where
  "filepath_Join elems = (case dropWhile (\<lambda>e. e = '''') elems of [] \<Rightarrow> '''' | es \<Rightarrow> Clean (Join es ''/''))"

record Driver =
  dr_PoolRoot :: string

definition NewDriver :: Driver where
  "NewDriver = \<lparr>dr_PoolRoot = ''/mnt/kubenas/pools''\<rparr>"

definition CreateVolume :: "'w storage_env \<Rightarrow> Driver \<Rightarrow> string \<Rightarrow> string \<Rightarrow> ('w, error + string) state" where
  "CreateVolume st d pool path = do {
     let volPath = filepath_Join [dr_PoolRoot d, pool, path];
     e \<leftarrow> st_MkdirAll st volPath;
     State_Monad.return (case e of Some err \<Rightarrow> Inl err | None \<Rightarrow> Inr volPath)
   }"

definition DeleteVolume :: "'w storage_env \<Rightarrow> Driver \<Rightarrow> string \<Rightarrow> string \<Rightarrow> ('w, error option) state" where
  "DeleteVolume st d pool path = st_RemoveAll st (filepath_Join [dr_PoolRoot d, pool, path])"

definition NodePublishVolume :: "'w storage_env \<Rightarrow> Driver \<Rightarrow> string \<Rightarrow> string \<Rightarrow> string \<Rightarrow> ('w, error option) state" where
  "NodePublishVolume st d pool path targetPath = do {
     let source = filepath_Join [dr_PoolRoot d, pool, path];
     e \<leftarrow> st_MkdirAll st targetPath;
     case e of
       Some err \<Rightarrow> State_Monad.return (Some err)
     | None \<Rightarrow> do {
         (out, err) \<leftarrow> st_Combined st [''mount'', ''--bind'', source, targetPath];
         State_Monad.return (map_option (\<lambda>e. combined_error ''bind mount failed'' e out) err)
       }
   }"

definition NodeUnpublishVolume :: "'w storage_env \<Rightarrow> Driver \<Rightarrow> string \<Rightarrow> ('w, error option) state" where
  "NodeUnpublishVolume st d targetPath = do {
     (out, err) \<leftarrow> st_Combined st [''umount'', targetPath];
     State_Monad.return (map_option (\<lambda>e. combined_error ''unmount failed'' e out) err)
   }"

section \<open>Lemmas on the configuration\<close>

definition storage_config :: "SnapraidConfig \<Rightarrow> SnapConfig" where
  "storage_config c =
     \<lparr>sc_Parity = map (\<lambda>p. spe_MountPoint p @ ''/snapraid.parity'') (src_ParityEntries c),
      sc_Data = map_of (map (\<lambda>d. (sde_Label d, sde_MountPoint d)) (src_DataEntries c)),
      sc_Content = src_ContentFiles c, sc_Exclude = src_ExcludePatterns c\<rparr>"

definition directives :: "string \<Rightarrow> string multiset" where
  "directives s = mset (filter (\<lambda>l. l \<noteq> '''' \<and> hd l \<noteq> CHR ''#'') (Split s (CHR 0x0A)))"

lemma enumerates_mset:
  assumes "enumerates xs m" "enumerates ys m" shows "mset xs = mset ys"
proof -
  have "set xs = set ys"
    using assms by (auto simp: enumerates_def) (metis map_of_is_SomeI map_of_SomeD)+
  moreover have "distinct xs" "distinct ys" using assms by (auto simp: enumerates_def distinct_map)
  ultimately show ?thesis by (simp add: set_eq_iff_mset_eq_distinct)
qed

lemma Join_newline: "ls \<noteq> [] \<Longrightarrow> Join ls newline @ newline = concat (map (\<lambda>l. l @ newline) ls)"
  by (induction ls rule: induct_list012) simp_all

lemma directives_lines:
  assumes "\<And>l. l \<in> set ls \<Longrightarrow> one_line l" "ls \<noteq> []"
  shows "directives (concat (map (\<lambda>l. l @ newline) ls)) = mset (filter (\<lambda>l. l \<noteq> '''' \<and> hd l \<noteq> CHR ''#'') ls)"
  using Split_lines[OF assms(1)] by (simp add: directives_def)

lemma parity_lines_agree:
  assumes "map spe_Index ps = map int [Suc k..<Suc k + length ps]"
  shows "map parity_line ps = map (\<lambda>(i, p). if i = 0 then ''parity '' @ p else show_nat (i + 1) @ ''-parity '' @ p)
           (enumerate k (map (\<lambda>p. spe_MountPoint p @ ''/snapraid.parity'') ps))"
  using assms
proof (induction ps arbitrary: k)
  case (Cons p ps)
  have k: "[Suc k..<Suc k + length (p # ps)] = Suc k # [Suc (Suc k)..<Suc (Suc k) + length ps]"
    by (simp add: upt_conv_Cons del: upt_Suc)
  have "spe_Index p = int (Suc k)" "map spe_Index ps = map int [Suc (Suc k)..<Suc (Suc k) + length ps]"
    using Cons.prems unfolding k by simp_all
  then show ?case using Cons.IH[of "Suc k"]
    by (simp add: parity_line_def show_int_def nat_add_distrib del: upt_Suc)
qed simp

lemma parity_line_directive:
  assumes "1 \<le> spe_Index p" shows "parity_line p \<noteq> '''' \<and> hd (parity_line p) \<noteq> CHR ''#''"
proof (cases "spe_Index p = 1")
  case False
  then obtain c r where cr: "show_int (spe_Index p) = c # r" "is_digit c"
    using assms hd_show_nat[of _ "nat (spe_Index p)"] by (cases "show_nat (nat (spe_Index p))") (auto simp: show_int_def)
  then have "c \<noteq> CHR ''#''" by (auto simp: is_digit_def)
  then show ?thesis using False cr by (simp add: parity_line_def)
qed (simp add: parity_line_def)

lemma one_line_append [simp]: "one_line (s @ t) \<longleftrightarrow> one_line s \<and> one_line t"
  by (auto simp: one_line_def)

lemma one_line_show [simp]: "one_line (show_nat n)" "one_line (show_int i)"
  by (simp_all add: one_line_def show_nat_one_line show_int_one_line)

lemma directives_operator:
  assumes "clean_conf c" "\<forall>p \<in> set (src_ParityEntries c). 1 \<le> spe_Index p"
  shows "directives (renderSnapraidConf c) = mset (map parity_line (src_ParityEntries c)
     @ map (\<lambda>d. ''data '' @ sde_Label d @ '' '' @ sde_MountPoint d) (src_DataEntries c)
     @ map (\<lambda>cf. ''content '' @ cf) (src_ContentFiles c) @ map (\<lambda>ex. ''exclude '' @ ex) (src_ExcludePatterns c))"
proof -
  have "one_line l" if "l \<in> set (conf_lines c)" for l
    using that assms(1) by (auto simp: conf_lines_def clean_conf_def parity_line_def one_line_def show_int_one_line split: if_splits)
  then have "directives (renderSnapraidConf c) = mset (filter (\<lambda>l. l \<noteq> '''' \<and> hd l \<noteq> CHR ''#'') (conf_lines c))"
    unfolding renderSnapraidConf_concat using directives_lines[of "conf_lines c"] by (simp add: conf_lines_def)
  moreover have "filter (\<lambda>l. l \<noteq> '''' \<and> hd l \<noteq> CHR ''#'') (map parity_line (src_ParityEntries c)) = map parity_line (src_ParityEntries c)"
    using parity_line_directive assms(2) by (auto simp: filter_id_conv)
  moreover have "filter (\<lambda>l. l \<noteq> '''' \<and> hd l \<noteq> CHR ''#'') (map (\<lambda>x. (d # f x)) xs) = map (\<lambda>x. d # f x) xs"
    if "d \<noteq> CHR ''#''" for d :: char and f :: "'x \<Rightarrow> string" and xs
    using that by (auto simp: filter_id_conv)
  ultimately show ?thesis by (simp add: conf_lines_def)
qed

lemma directives_storage:
  assumes "enumerates order (sc_Data (storage_config c))" "clean_conf c" "distinct (map sde_Label (src_DataEntries c))"
  shows "directives (Render order (storage_config c)) = mset (render_lines (map (\<lambda>d. (sde_Label d, sde_MountPoint d)) (src_DataEntries c)) (storage_config c))"
proof -
  let ?data = "map (\<lambda>d. (sde_Label d, sde_MountPoint d)) (src_DataEntries c)"
  have "enumerates ?data (sc_Data (storage_config c))"
    using assms(3) by (simp add: enumerates_def storage_config_def comp_def)
  then have m: "mset order = mset ?data" using assms(1) enumerates_mset by blast
  then have s: "set order = set ?data" by (metis set_mset_mset)
  have line: "one_line l \<and> l \<noteq> '''' \<and> hd l \<noteq> CHR ''#''" if "l \<in> set (render_lines order (storage_config c))" for l
  proof -
    have nat_hd: "hd (show_nat n @ t) \<noteq> CHR ''#'' \<and> show_nat n @ t \<noteq> []" for n t
    proof -
      obtain d r where "show_nat n = d # r" by (metis show_nat_not_Nil list.exhaust)
      then show ?thesis using hd_show_nat[of d n] by (auto simp: is_digit_def)
    qed
    show ?thesis using that assms(2) nat_hd s
      by (auto simp: render_lines_def storage_config_def clean_conf_def one_line_def show_nat_one_line in_set_enumerate_eq
          split: if_splits)
  qed
  have "directives (Render order (storage_config c)) = mset (render_lines order (storage_config c))"
  proof (cases "render_lines order (storage_config c) = []")
    case True
    then show ?thesis by (simp add: Render_def directives_def)
  next
    case False
    have "filter (\<lambda>l. l \<noteq> '''' \<and> hd l \<noteq> CHR ''#'') (render_lines order (storage_config c)) = render_lines order (storage_config c)"
      using line by (simp add: filter_id_conv)
    then show ?thesis unfolding Render_def Join_newline[OF False] using directives_lines[OF _ False] line by simp
  qed
  also have "\<dots> = mset (render_lines ?data (storage_config c))"
    using arg_cong[OF m, of "image_mset (\<lambda>(label, path). ''data '' @ label @ '' '' @ path)"]
    by (simp add: render_lines_def flip: mset_map)
  finally show ?thesis .
qed

section \<open>Lemmas on paths\<close>

lemma clean_elems_append: "clean_elems acc (xs @ ys) = clean_elems (rev (clean_elems acc xs)) ys"
  by (induction acc xs rule: clean_elems.induct) auto

lemma length_clean_elems: "length (clean_elems acc xs) \<le> length acc + length xs"
  by (induction acc xs rule: clean_elems.induct) auto

lemma clean_elems_up: "length acc \<le> n \<Longrightarrow> clean_elems acc (replicate n ''..'' @ ys) = clean_elems [] ys"
proof (induction n arbitrary: acc)
  case (Suc n)
  then show ?case by (cases acc) simp_all
qed simp

lemma clean_elems_down:
  "''..'' \<notin> set xs \<Longrightarrow> clean_elems acc xs = rev acc @ filter (\<lambda>x. x \<noteq> '''' \<and> x \<noteq> ''.'') xs"
  by (induction acc xs rule: clean_elems.induct) auto

lemma Split_append_char: "Split (s @ c # t) c = Split s c @ Split t c"
proof (induction s)
  case (Cons x s)
  obtain p ps where "Split s c = p # ps" using Split_not_Nil by (metis list.exhaust)
  then show ?case using Cons by simp
qed simp

lemma Split_ups: "Split (concat (replicate n ''../'') @ t) (CHR ''/'') = replicate n ''..'' @ Split t (CHR ''/'')"
  by (induction n) simp_all

lemma volume_path:
  assumes "HasPrefix poolRoot ''/''"
  shows "filepath_Join [poolRoot, pool, path] = ''/'' @ Join (clean_elems []
     (Split poolRoot (CHR ''/'') @ Split pool (CHR ''/'') @ Split path (CHR ''/''))) ''/''"
proof -
  have "poolRoot \<noteq> ''''" "HasPrefix (poolRoot @ ''/'' @ pool @ ''/'' @ path) ''/''"
    using assms by (auto simp: HasPrefix_iff)
  then show ?thesis by (simp add: filepath_Join_def Clean_def Clean_rooted_def Split_append_char)
qed

section \<open>Properties\<close>

text \<open>The operator's renderer and the standalone one write the same configuration: read line by line without
  comments and empty lines, both files hold the same directives with the same multiplicity, whatever order
  Go's map iteration takes - for a configuration whose parity disks are numbered 1, 2, ... and whose data
  labels are distinct, which is what the operator builds, and whose fields have no line break.\<close>

lemma renderers_agree:
  assumes "clean_conf c"
    and "map spe_Index (src_ParityEntries c) = map int [1..<Suc (length (src_ParityEntries c))]"
    and "distinct (map sde_Label (src_DataEntries c))"
    and "enumerates order (sc_Data (storage_config c))"
  shows "directives (renderSnapraidConf c) = directives (Render order (storage_config c))"
proof -
  have "\<forall>p \<in> set (src_ParityEntries c). 1 \<le> spe_Index p"
  proof
    fix p assume "p \<in> set (src_ParityEntries c)"
    then have "spe_Index p \<in> set (map int [1..<Suc (length (src_ParityEntries c))])"
      unfolding assms(2)[symmetric] by simp
    then show "1 \<le> spe_Index p" by auto
  qed
  moreover have "map parity_line (src_ParityEntries c)
      = map (\<lambda>(i, p). if i = 0 then ''parity '' @ p else show_nat (i + 1) @ ''-parity '' @ p) (enumerate 0 (sc_Parity (storage_config c)))"
    using parity_lines_agree[of "src_ParityEntries c" 0] assms(2) by (simp add: storage_config_def)
  moreover have "(@) (x # s) = (\<lambda>t. x # s @ t)" for x :: char and s by auto
  ultimately show ?thesis
    unfolding directives_operator[OF assms(1) \<open>\<forall>p \<in> _. _\<close>] directives_storage[OF assms(4,1,3)]
    by (simp add: render_lines_def storage_config_def comp_def)
qed

text \<open>C39. A volume whose pool and path have no \<^verbatim>\<open>..\<close> element lies below the pool root: its directory is the root
  followed by exactly the named elements of pool and path, and it is this directory that is deleted later.\<close>

theorem volume_contained:
  assumes "HasPrefix (dr_PoolRoot d) ''/''" and "''..'' \<notin> set (Split pool (CHR ''/''))" and "''..'' \<notin> set (Split path (CHR ''/''))"
  shows "wp (CreateVolume st d pool path) (\<lambda>r w'. case r of Inl e \<Rightarrow> True
     | Inr p \<Rightarrow> p = ''/'' @ Join (clean_elems [] (Split (dr_PoolRoot d) (CHR ''/''))
           @ filter (\<lambda>x. x \<noteq> '''' \<and> x \<noteq> ''.'') (Split pool (CHR ''/'') @ Split path (CHR ''/''))) ''/'' \<and>
         HasPrefix p (Clean_rooted (dr_PoolRoot d)) \<and> DeleteVolume st d pool path = st_RemoveAll st p) w"
proof -
  let ?root = "clean_elems [] (Split (dr_PoolRoot d) (CHR ''/''))"
  let ?rest = "filter (\<lambda>x. x \<noteq> '''' \<and> x \<noteq> ''.'') (Split pool (CHR ''/'') @ Split path (CHR ''/''))"
  have v: "filepath_Join [dr_PoolRoot d, pool, path] = ''/'' @ Join (?root @ ?rest) ''/''"
    unfolding volume_path[OF assms(1)] clean_elems_append[of "[]" "Split (dr_PoolRoot d) (CHR ''/'')"]
    using assms(2,3) by (subst clean_elems_down) auto
  have "HasPrefix (''/'' @ Join (?root @ ?rest) ''/'') (Clean_rooted (dr_PoolRoot d))"
  proof (cases "?root = [] \<or> ?rest = []")
    case True
    then show ?thesis by (auto simp: Clean_rooted_def HasPrefix_def)
  next
    case False
    then show ?thesis unfolding Clean_rooted_def HasPrefix_iff by (simp add: Join_append del: filter_append)
  qed
  then show ?thesis unfolding CreateVolume_def DeleteVolume_def wp v Let_def
    by (intro run_wp) (auto split: option.split)
qed

text \<open>Without that restriction the pool root is no boundary: for every pool and every absolute path there is a
  volume path for which \<^verbatim>\<open>DeleteVolume\<close> removes that path with everything below it.\<close>

lemma DeleteVolume_escapes:
  assumes "HasPrefix (dr_PoolRoot d) ''/''" and "HasPrefix victim ''/''" and "Clean_rooted victim = victim"
  shows "\<exists>path. DeleteVolume st d pool path = st_RemoveAll st victim"
proof -
  obtain t where t: "victim = ''/'' @ t" using assms(2) by (auto simp: HasPrefix_iff)
  let ?xs = "Split (dr_PoolRoot d) (CHR ''/'') @ Split pool (CHR ''/'')"
  let ?path = "concat (replicate (length ?xs) ''../'') @ t"
  have "clean_elems [] (?xs @ Split ?path (CHR ''/'')) = clean_elems [] (Split t (CHR ''/''))"
    unfolding Split_ups clean_elems_append[of "[]" ?xs]
    using length_clean_elems[of "[]" ?xs] by (intro clean_elems_up) simp
  then have "filepath_Join [dr_PoolRoot d, pool, ?path] = Clean_rooted victim"
    unfolding volume_path[OF assms(1)] t by (simp add: Clean_rooted_def)
  then show ?thesis unfolding DeleteVolume_def assms(3) by metis
qed

section \<open>Witnesses\<close>

definition demo_conf :: SnapraidConfig where
  "demo_conf = \<lparr>src_ParityEntries = [\<lparr>spe_Index = 1, spe_DevicePath = ''/dev/sdd'', spe_MountPoint = ''/mnt/p''\<rparr>],
     src_DataEntries = [\<lparr>sde_Label = ''d1'', sde_DevicePath = ''/dev/sdb'', sde_MountPoint = ''/mnt/a''\<rparr>,
       \<lparr>sde_Label = ''d2'', sde_DevicePath = ''/dev/sdc'', sde_MountPoint = ''/mnt/b''\<rparr>],
     src_ContentFiles = [''/var/c''], src_ExcludePatterns = [''*.tmp'']\<rparr>"

lemma renderers_agree_witness:
  "directives (renderSnapraidConf demo_conf)
     = directives (Render [(''d2'', ''/mnt/b''), (''d1'', ''/mnt/a'')] (storage_config demo_conf))"
  by (rule renderers_agree)
    (auto simp: demo_conf_def clean_conf_def one_line_def enumerates_def storage_config_def fun_eq_iff)

definition demo_storage :: "unit storage_env" where
  "demo_storage = \<lparr>st_WriteFile = (\<lambda>_ _. State_Monad.return None), st_Combined = (\<lambda>_. State_Monad.return ('''', None)),
     st_MkdirAll = (\<lambda>_. State_Monad.return None), st_RemoveAll = (\<lambda>_. State_Monad.return None)\<rparr>"

theorem volume_contained_witness:
  "wp (CreateVolume demo_storage NewDriver ''media'' ''films/./new/'') (\<lambda>r w'.
     case r of Inl e \<Rightarrow> True | Inr p \<Rightarrow> p = ''/mnt/kubenas/pools/media/films/new'') ()"
  by (rule wp_mono[OF volume_contained]) (auto simp: NewDriver_def HasPrefix_def split: sum.splits)

lemma DeleteVolume_escapes_witness:
  "\<exists>path. DeleteVolume demo_storage NewDriver ''media'' path = st_RemoveAll demo_storage ''/etc''"
  by (rule DeleteVolume_escapes) (simp_all add: NewDriver_def HasPrefix_def Clean_rooted_def)

end
