(* ===== verification/Node_Snapraid.thy ===== *)
theory Node_Snapraid
  imports Node_Host Api_Types
begin

text \<open>
  The SnapRAID wrapper of the node agent (\<^verbatim>\<open>node-agent/pkg/parity/parity.go\<close>) and the package over it
  (\<^verbatim>\<open>node-agent/snapraid/snapraid.go\<close>). The \<^verbatim>\<open>snapraid\<close> command and the files are operations of the
  host. Shown: which command lines are run, that the error counts the command prints are summed, and what
  \<^verbatim>\<open>WriteConfig\<close> leaves in the file, with the panic on a path without a slash.
\<close>

section \<open>The host\<close>

text \<open>
  \<open>sn_exec\<close> is \<^verbatim>\<open>cmd.Run()\<close> with both streams captured; \<open>ex_code\<close> is \<open>None\<close> when the process did not
  start (\<^verbatim>\<open>cmd.ProcessState == nil\<close>). \<open>sn_truncate\<close> opens a file for writing, creating or truncating it.
\<close>

record exec_result =
  ex_stdout :: string
  ex_stderr :: string
  ex_code :: "i64 option"
  ex_err :: "error option"

record 'w snap_env =
  sn_host :: "'w host"
  sn_exec :: "string list \<Rightarrow> ('w, exec_result) state"
  sn_now :: "('w, time) state"
  sn_truncate :: "string \<Rightarrow> ('w, error option) state"

record OperationResult =
  or_Operation :: string
  or_StartTime :: time
  or_EndTime :: time
  or_ExitCode :: i64
  or_Stdout :: string
  or_Stderr :: string
  or_Success :: bool
  or_ErrorCount :: i64

definition defaultConfPath :: string where
  "defaultConfPath = ''/etc/snapraid/snapraid.conf''"

section \<open>Reading the output\<close>

text \<open>
  \<^verbatim>\<open>fmt.Sscanf(line, "found %d error", &n)\<close>: the literal, at least one blank for each blank of the format,
  an optional sign, decimal digits that fit an \<^verbatim>\<open>int64\<close>, and the second literal; what follows is not read.
\<close>

definition scan_int :: "string \<Rightarrow> (i64 \<times> string) option" where
  "scan_int s =
     (let neg = (case s of [] \<Rightarrow> False | c # _ \<Rightarrow> c = CHR ''-'');
          r = (case s of [] \<Rightarrow> [] | c # t \<Rightarrow> if c = CHR ''-'' \<or> c = CHR ''+'' then t else s);
          ds = takeWhile is_digit r;
          v = (if neg then - int (read_nat ds) else int (read_nat ds))
      in if ds = [] \<or> v < - (2 ^ 63) \<or> 2 ^ 63 \<le> v then None
         else Some (word_of_int v, dropWhile is_digit r))"

definition scan_blank :: "string \<Rightarrow> string option" where
  "scan_blank s = (case s of [] \<Rightarrow> None | c # t \<Rightarrow> if is_space c then Some (dropWhile is_space t) else None)"

definition scan_found :: "string \<Rightarrow> i64 option" where
  "scan_found line =
     (if \<not> HasPrefix line ''found'' then None
      else (case scan_blank (drop 5 line) of
              None \<Rightarrow> None
            | Some s \<Rightarrow> (case scan_int s of
                None \<Rightarrow> None
              | Some (n, t) \<Rightarrow> (case scan_blank t of
                  None \<Rightarrow> None
                | Some u \<Rightarrow> if HasPrefix u ''error'' then Some n else None))))"

fun count_errors :: "i64 \<Rightarrow> string list \<Rightarrow> i64" where
  "count_errors count [] = count"
| "count_errors count (line # ls) =
     (let l = ToLower line in
      if Contains l ''error'' \<and> Contains l ''found''
      then (case scan_found l of Some n \<Rightarrow> count_errors (count + n) ls | None \<Rightarrow> count_errors count ls)
      else count_errors count ls)"

definition parseErrorCount :: "string \<Rightarrow> i64" where
  "parseErrorCount output = count_errors 0 (Split output (CHR 0x0A))"

section \<open>Commands\<close>

definition snapraid_command :: "string \<Rightarrow> string \<Rightarrow> string list \<Rightarrow> string list" where
  "snapraid_command confPath command extraArgs =
     [''snapraid'', ''-c'', if confPath = '''' then defaultConfPath else confPath, command] @ extraArgs"

text \<open>The result is returned together with the error.\<close>

definition operation_result :: "string \<Rightarrow> time \<Rightarrow> time \<Rightarrow> exec_result \<Rightarrow> OperationResult" where
  "operation_result command start end_t x =
     \<lparr>or_Operation = command, or_StartTime = start, or_EndTime = end_t,
      or_ExitCode = (case ex_code x of None \<Rightarrow> 0 | Some c \<Rightarrow> c),
      or_Stdout = ex_stdout x, or_Stderr = ex_stderr x, or_Success = (ex_err x = None),
      or_ErrorCount = parseErrorCount (ex_stdout x)\<rparr>"

definition runSnapraid ::
  "'w snap_env \<Rightarrow> string \<Rightarrow> string \<Rightarrow> string list \<Rightarrow> ('w, OperationResult \<times> error option) state" where
  "runSnapraid sn confPath command extraArgs = do {
     start \<leftarrow> sn_now sn;
     x \<leftarrow> sn_exec sn (snapraid_command confPath command extraArgs);
     end_t \<leftarrow> sn_now sn;
     let result = operation_result command start end_t x;
     State_Monad.return (result, case ex_err x of
       None \<Rightarrow> None
     | Some e \<Rightarrow> Some (ErrorString (''snapraid '' @ command @ '' exited '' @ show_i64 (or_ExitCode result) @ '': '' @ ex_stderr x)))
   }"

definition Sync :: "'w snap_env \<Rightarrow> string \<Rightarrow> ('w, OperationResult \<times> error option) state" where
  "Sync sn confPath = runSnapraid sn confPath ''sync'' []"

definition Check :: "'w snap_env \<Rightarrow> string \<Rightarrow> ('w, OperationResult \<times> error option) state" where
  "Check sn confPath = runSnapraid sn confPath ''check'' []"

definition Scrub :: "'w snap_env \<Rightarrow> string \<Rightarrow> i64 \<Rightarrow> ('w, OperationResult \<times> error option) state" where
  "Scrub sn confPath percentBlock =
     (let p = (if sint percentBlock \<le> 0 \<or> 100 < sint percentBlock then 100 else percentBlock)
      in runSnapraid sn confPath ''scrub'' [''-p'', show_i64 p])"

definition Fix :: "'w snap_env \<Rightarrow> string \<Rightarrow> string \<Rightarrow> ('w, OperationResult \<times> error option) state" where
  "Fix sn confPath diskLabel = runSnapraid sn confPath ''fix'' [''-d'', diskLabel]"

definition Status :: "'w snap_env \<Rightarrow> string \<Rightarrow> ('w, OperationResult \<times> error option) state" where
  "Status sn confPath = runSnapraid sn confPath ''status'' []"

definition Diff :: "'w snap_env \<Rightarrow> string \<Rightarrow> ('w, OperationResult \<times> error option) state" where
  "Diff sn confPath = runSnapraid sn confPath ''diff'' []"

definition IsSnapraidAvailable :: "'w snap_env \<Rightarrow> ('w, bool) state" where
  "IsSnapraidAvailable sn = do { e \<leftarrow> exec_LookPath (sn_host sn) ''snapraid''; State_Monad.return (e = None) }"

text \<open>\<^verbatim>\<open>confPath[:strings.LastIndex(confPath, "/")]\<close>; \<open>None\<close> is the index -1, where the slice panics.\<close>

definition parent_dir :: "string \<Rightarrow> string option" where
  "parent_dir p = (if CHR ''/'' \<in> set p then Some (rev (tl (dropWhile (\<lambda>c. c \<noteq> CHR ''/'') (rev p)))) else None)"

definition WriteConfig :: "'w snap_env \<Rightarrow> string \<Rightarrow> string \<Rightarrow> ('w, error option) state" where
  "WriteConfig sn confPath content =
     (case parent_dir confPath of
        None \<Rightarrow> State_Monad.return (Some (Panic ''slice bounds out of range [:-1]''))
      | Some d \<Rightarrow> do {
          let dir = (if d = '''' then ''/etc/snapraid'' else d);
          (s, e) \<leftarrow> exec_run (sn_host sn) [''mkdir'', ''-p'', dir];
          case e of
            Some err \<Rightarrow> State_Monad.return (Some (WrapError (''creating config dir '' @ dir) err))
          | None \<Rightarrow> do {
              e2 \<leftarrow> sn_truncate sn confPath;
              case e2 of
                Some err \<Rightarrow> State_Monad.return (Some err)
              | None \<Rightarrow> os_WriteString (sn_host sn) confPath content
            }
        })"

section \<open>The package \<^verbatim>\<open>node-agent/snapraid\<close>\<close>

definition snapraid_Sync :: "'w snap_env \<Rightarrow> string \<Rightarrow> ('w, error option) state" where
  "snapraid_Sync sn configPath = do { (_, err) \<leftarrow> Sync sn configPath; State_Monad.return err }"

definition snapraid_Scrub :: "'w snap_env \<Rightarrow> string \<Rightarrow> ('w, error option) state" where
  "snapraid_Scrub sn configPath = do { (_, err) \<leftarrow> Scrub sn configPath 100; State_Monad.return err }"

definition snapraid_Fix :: "'w snap_env \<Rightarrow> string \<Rightarrow> string \<Rightarrow> ('w, error option) state" where
  "snapraid_Fix sn configPath diskLabel = do { (_, err) \<leftarrow> Fix sn configPath diskLabel; State_Monad.return err }"

definition snapraid_Status :: "'w snap_env \<Rightarrow> string \<Rightarrow> ('w, error + string) state" where
  "snapraid_Status sn configPath = do {
     (result, err) \<leftarrow> Status sn configPath;
     State_Monad.return (case err of Some e \<Rightarrow> Inl e | None \<Rightarrow> Inr (or_Stdout result))
   }"

section \<open>Lemmas\<close>

lemma digits_takeWhile:
  assumes "list_all is_digit ds" "t = [] \<or> \<not> is_digit (hd t)"
  shows "takeWhile is_digit (ds @ t) = ds" "dropWhile is_digit (ds @ t) = t"
  using assms by (induction ds) (cases t; auto)+

lemma scan_int_show:
  assumes "t = [] \<or> \<not> is_digit (hd t)"
  shows "scan_int (show_i64 n @ t) = Some (n, t)"
proof -
  have lo: "- (2 ^ 63) \<le> sint n" and hi: "sint n < 2 ^ 63"
    using sint_ge[of n] sint_lt[of n] by simp_all
  note d = digits_takeWhile[OF show_nat_digits assms]
  show ?thesis
  proof (cases "sint n < 0")
    case True
    then show ?thesis using lo d[of "nat (- sint n)"] by (simp add: scan_int_def show_i64_def show_int_def Let_def)
  next
    case False
    obtain c r where cr: "show_nat (nat (sint n)) = c # r" by (metis show_nat_not_Nil list.exhaust)
    then have "is_digit c" using hd_show_nat[of c "nat (sint n)"] by simp
    then have c: "c \<noteq> CHR ''-''" "c \<noteq> CHR ''+''" using not_digit_minus by metis+
    have "scan_int (show_nat (nat (sint n)) @ t) = Some (word_of_int (sint n), t)"
      using False lo hi c d[of "nat (sint n)"] read_show_nat[of "nat (sint n)"]
      unfolding scan_int_def cr by (simp add: Let_def)
    then show ?thesis using False by (simp add: show_i64_def show_int_def)
  qed
qed

lemma not_digit_blank [simp]: "\<not> is_digit (CHR '' '')"
  by (simp add: is_digit_def)

lemma lower_digit: "is_digit c \<Longrightarrow> to_lower c = c"
  by (simp add: to_lower_def is_digit_def Let_def)

lemma ToLower_show_nat: "ToLower (show_nat n) = show_nat n"
  using show_nat_digits[of n] by (auto simp: ToLower_def list_all_iff lower_digit intro: map_idI)

lemma ToLower_append [simp]: "ToLower (s @ t) = ToLower s @ ToLower t"
  by (simp add: ToLower_def)

lemma ToLower_show_i64: "ToLower (show_i64 n) = show_i64 n"
proof -
  have "ToLower ''-'' = ''-''" by (simp add: ToLower_def to_lower_def Let_def)
  moreover have "show_i64 n = show_nat (nat (sint n)) \<or> show_i64 n = ''-'' @ show_nat (nat (- sint n))"
    by (simp add: show_i64_def show_int_def)
  ultimately show ?thesis by (metis ToLower_append ToLower_show_nat)
qed

definition found_line :: "i64 \<times> string \<Rightarrow> string" where
  "found_line x = ''Found '' @ show_i64 (fst x) @ '' error'' @ snd x"

lemma ToLower_found: "ToLower (found_line x) = ''found '' @ show_i64 (fst x) @ '' error'' @ ToLower (snd x)"
proof -
  have "ToLower ''Found '' = ''found ''" "ToLower '' error'' = '' error''"
    by code_simp+
  then show ?thesis by (simp only: found_line_def ToLower_append ToLower_show_i64)
qed

lemma show_i64_not_space: "\<exists>c r. show_i64 n = c # r \<and> \<not> is_space c"
proof -
  have "\<exists>c r. show_nat m = c # r \<and> \<not> is_space c" for m
  proof -
    obtain c r where cr: "show_nat m = c # r" by (metis show_nat_not_Nil list.exhaust)
    then have "is_digit c" using hd_show_nat[of c m] by simp
    then have "\<not> is_space c" by (auto simp: is_digit_def is_space_def)
    with cr show ?thesis by simp
  qed
  then show ?thesis by (auto simp: show_i64_def show_int_def is_space_def)
qed

lemma scan_found_line: "scan_found (ToLower (found_line x)) = Some (fst x)"
proof -
  obtain c r where c: "show_i64 (fst x) = c # r" "\<not> is_space c" using show_i64_not_space by blast
  have "scan_blank ('' '' @ show_i64 (fst x) @ '' error'' @ t) = Some (show_i64 (fst x) @ '' error'' @ t)" for t
    using c by (simp add: scan_blank_def is_space_def)
  moreover have "scan_blank ('' error'' @ t) = Some (''error'' @ t)" for t
    by (simp add: scan_blank_def is_space_def)
  moreover have "scan_int (show_i64 (fst x) @ '' error'' @ t) = Some (fst x, '' error'' @ t)" for t
    by (rule scan_int_show) simp
  ultimately show ?thesis unfolding ToLower_found scan_found_def
    by (simp add: HasPrefix_def)
qed

lemma found_line_matches:
  "Contains (ToLower (found_line x)) ''error''" "Contains (ToLower (found_line x)) ''found''"
proof -
  have "ToLower (found_line x) = (''found '' @ show_i64 (fst x) @ '' '') @ ''error'' @ ToLower (snd x)"
    "ToLower (found_line x) = [] @ ''found'' @ ('' '' @ show_i64 (fst x) @ '' error'' @ ToLower (snd x))"
    by (simp_all add: ToLower_found)
  then show "Contains (ToLower (found_line x)) ''error''" "Contains (ToLower (found_line x)) ''found''"
    unfolding Contains_iff by blast+
qed

definition quiet_line :: "string \<Rightarrow> bool" where
  "quiet_line l \<longleftrightarrow> \<not> (Contains (ToLower l) ''error'' \<and> Contains (ToLower l) ''found'')"

lemma count_errors_report:
  "\<forall>l \<in> set ls. case l of Inl q \<Rightarrow> quiet_line q | Inr x \<Rightarrow> True \<Longrightarrow>
   count_errors n (map (case_sum id found_line) ls) = n + sum_list (map (case_sum (\<lambda>_. 0) fst) ls)"
proof (induction ls arbitrary: n)
  case (Cons l ls)
  show ?case
  proof (cases l)
    case (Inl q)
    then show ?thesis using Cons by (auto simp: quiet_line_def Let_def)
  next
    case (Inr x)
    then show ?thesis using Cons by (simp add: Let_def found_line_matches scan_found_line add.assoc)
  qed
qed simp

text \<open>The share of the blocks that a scrub checks is always between 1 and 100 percent.\<close>

lemma Scrub_percent:
  "\<exists>n. 1 \<le> n \<and> n \<le> 100 \<and> Scrub sn confPath p = runSnapraid sn confPath ''scrub'' [''-p'', show_int n] \<and>
     (if 1 \<le> sint p \<and> sint p \<le> 100 then n = sint p else n = 100)"
proof (cases "sint p \<le> 0 \<or> 100 < sint p")
  case True
  then show ?thesis by (intro exI[of _ 100]) (auto simp: Scrub_def show_i64_def)
next
  case False
  then show ?thesis by (intro exI[of _ "sint p"]) (auto simp: Scrub_def show_i64_def)
qed

section \<open>The contract of the file system\<close>

locale snap_files =
  fixes sn :: "'w snap_env" and files_of :: "'w \<Rightarrow> string \<rightharpoonup> string"
  assumes mkdir_file: "run_state (exec_run (sn_host sn) [''mkdir'', ''-p'', d]) w = (r, w') \<Longrightarrow> files_of w' = files_of w"
    and truncate_file: "run_state (sn_truncate sn p) w = (e, w') \<Longrightarrow>
      files_of w' = (if e = None then (files_of w)(p \<mapsto> '''') else files_of w)"
    and write_file: "run_state (os_WriteString (sn_host sn) p t) w = (e, w') \<Longrightarrow> files_of w p = Some c \<Longrightarrow>
      \<exists>u v. t = u @ v \<and> files_of w' = (files_of w)(p \<mapsto> c @ u) \<and> (e = None \<longrightarrow> v = '''')"
begin

lemma wp_WriteConfig:
  assumes "CHR ''/'' \<in> set p"
  shows "wp (WriteConfig sn p content) (\<lambda>r w'. (\<forall>q. q \<noteq> p \<longrightarrow> files_of w' q = files_of w q) \<and>
     (r = None \<longrightarrow> files_of w' p = Some content)) w"
proof -
  obtain d where d: "parent_dir p = Some d" using assms by (simp add: parent_dir_def)
  have wr: "wp (os_WriteString (sn_host sn) p content) (\<lambda>r w'. (\<forall>q. q \<noteq> p \<longrightarrow> files_of w' q = files_of w q) \<and>
      (r = None \<longrightarrow> files_of w' p = Some content)) w2" if "files_of w2 = (files_of w)(p \<mapsto> '''')" for w2
    by (rule run_wp) (use that in \<open>auto dest!: write_file[where c = "''''"]\<close>)
  have tr: "wp (sn_truncate sn p) (\<lambda>e w'. wp (case e of None \<Rightarrow> os_WriteString (sn_host sn) p content
      | Some err \<Rightarrow> State_Monad.return (Some err)) (\<lambda>r w'. (\<forall>q. q \<noteq> p \<longrightarrow> files_of w' q = files_of w q) \<and>
      (r = None \<longrightarrow> files_of w' p = Some content)) w') w1" if "files_of w1 = files_of w" for w1
    by (rule run_wp) (use that in \<open>auto dest!: truncate_file simp: wp wr split: option.split\<close>)
  show ?thesis unfolding WriteConfig_def d option.case wp Let_def
    by (rule run_wp) (auto dest!: mkdir_file simp: wp split: option.split,
      rule wp_mono[OF tr[unfolded wp]], auto split: option.splits)
qed

end

section \<open>Files in memory\<close>

record mem_files =
  mf_files :: "string \<rightharpoonup> string"
  mf_now :: time

definition files_env :: "(string list \<Rightarrow> exec_result) \<Rightarrow> mem_files snap_env" where
  "files_env out =
     \<lparr>sn_host = (memory_host (\<lambda>_. \<lparr>mh_mounts = [], mh_fstab = None\<rparr>) (\<lambda>_ w. w) (\<lambda>cmd. ('''', None)))
        \<lparr>exec_run := (\<lambda>cmd. State_Monad.return ('''', None)),
         os_WriteString := (\<lambda>p t. State (\<lambda>w. (None, w\<lparr>mf_files := (mf_files w)(p := map_option (\<lambda>c. c @ t) (mf_files w p))\<rparr>)))\<rparr>,
      sn_exec = (\<lambda>cmd. State (\<lambda>w. (out cmd, w\<lparr>mf_now := mf_now w + 1\<rparr>))),
      sn_now = State (\<lambda>w. (mf_now w, w)),
      sn_truncate = (\<lambda>p. State (\<lambda>w. (None, w\<lparr>mf_files := (mf_files w)(p \<mapsto> '''')\<rparr>)))\<rparr>"

lemma files_contract: "snap_files (files_env out) mf_files"
  by unfold_locales (auto simp: files_env_def run_return)

interpretation mem_snap_files: snap_files "files_env out" mf_files for out
  by (rule files_contract)

section \<open>Properties\<close>

text \<open>The error count of an operation is the wrapping sum of the counts the command reports: over an output
  whose lines are \<^verbatim>\<open>Found <n> error...\<close> (in any letter case of these words) or do not mention both words,
  every count is read back exactly, also negative ones and ones at the bounds of an \<^verbatim>\<open>int64\<close>.\<close>

lemma parseErrorCount_sums:
  assumes "ls \<noteq> []" and "\<forall>l \<in> set ls. CHR 0x0A \<notin> set (case_sum id found_line l)"
    and "\<forall>l \<in> set ls. case l of Inl q \<Rightarrow> quiet_line q | Inr x \<Rightarrow> True"
  shows "parseErrorCount (Join (map (case_sum id found_line) ls) newline) = sum_list (map (case_sum (\<lambda>_. 0) fst) ls)"
proof -
  have "Split (Join (map (case_sum id found_line) ls) newline) (CHR 0x0A) = map (case_sum id found_line) ls"
    by (rule Split_Join) (use assms(1,2) in auto)
  then show ?thesis using count_errors_report[OF assms(3), of 0] by (simp add: parseErrorCount_def)
qed

text \<open>\<^verbatim>\<open>WriteConfig\<close> without error leaves exactly the given text in the file, whatever was there before, and
  it never touches another file; a path without a slash ends in a panic before anything is done.\<close>

lemma WriteConfig_file:
  assumes "snap_files sn files_of"
  shows "wp (WriteConfig sn p content) (\<lambda>r w'. (\<forall>q. q \<noteq> p \<longrightarrow> files_of w' q = files_of w q) \<and>
     (if CHR ''/'' \<in> set p then r = None \<longrightarrow> files_of w' p = Some content
      else r = Some (Panic ''slice bounds out of range [:-1]'') \<and> w' = w)) w"
proof (cases "CHR ''/'' \<in> set p")
  case True
  then show ?thesis using snap_files.wp_WriteConfig[OF assms True] by simp
next
  case False
  then show ?thesis by (simp add: WriteConfig_def parent_dir_def wp)
qed

section \<open>Witnesses\<close>

lemma parseErrorCount_sums_witness:
  "parseErrorCount (Join [''Self test...'', ''Found 3 errors during sync'', ''Found 4 error'', ''done''] newline) = 7"
proof -
  have "parseErrorCount (Join (map (case_sum id found_line) [Inl ''Self test...'', Inr (3, ''s during sync''), Inr (4, ''''), Inl ''done'']) newline)
      = sum_list (map (case_sum (\<lambda>_. 0) fst) [Inl ''Self test...'', Inr (3, ''s during sync''), Inr (4, ''''), Inl ''done''])"
    by (rule parseErrorCount_sums) (simp, code_simp, code_simp)
  moreover have "map (case_sum id found_line) [Inl ''Self test...'', Inr (3, ''s during sync''), Inr (4, ''''), Inl ''done'']
      = [''Self test...'', ''Found 3 errors during sync'', ''Found 4 error'', ''done'']"
    by code_simp
  ultimately show ?thesis by (simp only:) simp
qed

lemma WriteConfig_file_witness:
  "wp (WriteConfig (files_env (\<lambda>_. \<lparr>ex_stdout = [], ex_stderr = [], ex_code = Some 0, ex_err = None\<rparr>)) ''/etc/snapraid/snapraid.conf'' ''parity /mnt/p'') (\<lambda>r w'.
     r = None \<longrightarrow> mf_files w' ''/etc/snapraid/snapraid.conf'' = Some ''parity /mnt/p'') \<lparr>mf_files = Map.empty, mf_now = 0\<rparr>"
  by (rule wp_mono[OF WriteConfig_file[OF files_contract]]) simp

end
