(* ===== verification/Api_V1.thy ===== *)
theory Api_V1
  imports Kube
begin

text \<open>
  The API group \<^verbatim>\<open>storage.kubenas.io/v1\<close> (\<^verbatim>\<open>api/v1/types.go\<close>): one record per Go struct, the kinds as
  one datatype \<open>v1_object\<close>, their metadata, and the message of a disk transition. The list types only
  carry what a list call returns; nothing in the program uses them.
\<close>

type_synonym DiskLifecycleState = string

definition DiskStateDetected :: DiskLifecycleState where "DiskStateDetected = ''Detected''"
definition DiskStateUnmanaged :: DiskLifecycleState where "DiskStateUnmanaged = ''Unmanaged''"
definition DiskStateUnassigned :: DiskLifecycleState where "DiskStateUnassigned = ''Unassigned''"
definition DiskStateClaimed :: DiskLifecycleState where "DiskStateClaimed = ''Claimed''"
definition DiskStateActive :: DiskLifecycleState where "DiskStateActive = ''Active''"
definition DiskStateDegraded :: DiskLifecycleState where "DiskStateDegraded = ''Degraded''"
definition DiskStateFailed :: DiskLifecycleState where "DiskStateFailed = ''Failed''"
definition DiskStateRebuilding :: DiskLifecycleState where "DiskStateRebuilding = ''Rebuilding''"
definition DiskStateRecovered :: DiskLifecycleState where "DiskStateRecovered = ''Recovered''"

section \<open>Kinds\<close>

record V1DiskSpec =
  vdisk_Device :: string
  vdisk_Size :: string
  vdisk_Rotational :: bool
  vdisk_Filesystem :: string
  vdisk_Labels :: "string \<rightharpoonup> string"
  vdisk_Health :: string
  vdisk_State :: DiskLifecycleState

record V1DiskStatus =
  vdisk_StatusState :: DiskLifecycleState
  vdisk_StatusHealth :: string

record V1Disk =
  vdisk_Meta :: ObjectMeta
  vdisk_Spec :: V1DiskSpec
  vdisk_Status :: V1DiskStatus

record V1DiskClaimSpec =
  vclaim_Disk :: string
  vclaim_Pool :: string

record V1DiskClaim =
  vclaim_Meta :: ObjectMeta
  vclaim_Spec :: V1DiskClaimSpec

record V1UnassignedDiskSpec =
  vud_Disk :: string
  vud_MountPoint :: string
  vud_Filesystem :: string

record V1UnassignedDisk =
  vud_Meta :: ObjectMeta
  vud_Spec :: V1UnassignedDiskSpec

record V1StoragePoolSpec =
  vpool_DiskSelector :: "string \<rightharpoonup> string"
  vpool_ParityDisks :: "string list"
  vpool_SplitLevel :: int

record V1StoragePool =
  vpool_Meta :: ObjectMeta
  vpool_Spec :: V1StoragePoolSpec

record V1FilesystemSpec =
  vfs_Pool :: string
  vfs_Mountpoint :: string

record V1Filesystem =
  vfs_Meta :: ObjectMeta
  vfs_Spec :: V1FilesystemSpec

record V1ShareSpec =
  vshare_Filesystem :: string
  vshare_Path :: string

record V1Share =
  vshare_Meta :: ObjectMeta
  vshare_Spec :: V1ShareSpec

record V1VolumeSpec =
  vvol_Share :: string
  vvol_Path :: string

record V1Volume =
  vvol_Meta :: ObjectMeta
  vvol_Spec :: V1VolumeSpec

record V1TierPolicySpec =
  vtier_SourcePool :: string
  vtier_TargetPool :: string
  vtier_MoveAfter :: string

record V1TierPolicy =
  vtier_Meta :: ObjectMeta
  vtier_Spec :: V1TierPolicySpec

record V1DiskLockSpec =
  vlock_Disk :: string
  vlock_Reason :: string

record V1DiskLock =
  vlock_Meta :: ObjectMeta
  vlock_Spec :: V1DiskLockSpec

record V1PoolHealthSpec =
  vhealth_Pool :: string

record V1PoolHealth =
  vhealth_Meta :: ObjectMeta
  vhealth_Spec :: V1PoolHealthSpec

record V1FilesystemIntegritySpec =
  vint_Filesystem :: string

record V1FilesystemIntegrity =
  vint_Meta :: ObjectMeta
  vint_Spec :: V1FilesystemIntegritySpec

datatype v1_object =
    V1ODisk V1Disk
  | V1ODiskClaim V1DiskClaim
  | V1OUnassignedDisk V1UnassignedDisk
  | V1OStoragePool V1StoragePool
  | V1OFilesystem V1Filesystem
  | V1OShare V1Share
  | V1OVolume V1Volume
  | V1OTierPolicy V1TierPolicy
  | V1ODiskLock V1DiskLock
  | V1OPoolHealth V1PoolHealth
  | V1OFilesystemIntegrity V1FilesystemIntegrity

datatype v1_kind =
    V1KDisk
  | V1KDiskClaim
  | V1KUnassignedDisk
  | V1KStoragePool
  | V1KFilesystem
  | V1KShare
  | V1KVolume
  | V1KTierPolicy
  | V1KDiskLock
  | V1KPoolHealth
  | V1KFilesystemIntegrity

fun v1_kind_of :: "v1_object \<Rightarrow> v1_kind" where
  "v1_kind_of (V1ODisk x) = V1KDisk"
| "v1_kind_of (V1ODiskClaim x) = V1KDiskClaim"
| "v1_kind_of (V1OUnassignedDisk x) = V1KUnassignedDisk"
| "v1_kind_of (V1OStoragePool x) = V1KStoragePool"
| "v1_kind_of (V1OFilesystem x) = V1KFilesystem"
| "v1_kind_of (V1OShare x) = V1KShare"
| "v1_kind_of (V1OVolume x) = V1KVolume"
| "v1_kind_of (V1OTierPolicy x) = V1KTierPolicy"
| "v1_kind_of (V1ODiskLock x) = V1KDiskLock"
| "v1_kind_of (V1OPoolHealth x) = V1KPoolHealth"
| "v1_kind_of (V1OFilesystemIntegrity x) = V1KFilesystemIntegrity"

fun v1_meta :: "v1_object \<Rightarrow> ObjectMeta" where
  "v1_meta (V1ODisk x) = vdisk_Meta x"
| "v1_meta (V1ODiskClaim x) = vclaim_Meta x"
| "v1_meta (V1OUnassignedDisk x) = vud_Meta x"
| "v1_meta (V1OStoragePool x) = vpool_Meta x"
| "v1_meta (V1OFilesystem x) = vfs_Meta x"
| "v1_meta (V1OShare x) = vshare_Meta x"
| "v1_meta (V1OVolume x) = vvol_Meta x"
| "v1_meta (V1OTierPolicy x) = vtier_Meta x"
| "v1_meta (V1ODiskLock x) = vlock_Meta x"
| "v1_meta (V1OPoolHealth x) = vhealth_Meta x"
| "v1_meta (V1OFilesystemIntegrity x) = vint_Meta x"

fun v1_map_meta :: "(ObjectMeta \<Rightarrow> ObjectMeta) \<Rightarrow> v1_object \<Rightarrow> v1_object" where
  "v1_map_meta f (V1ODisk x) = V1ODisk (vdisk_Meta_update f x)"
| "v1_map_meta f (V1ODiskClaim x) = V1ODiskClaim (vclaim_Meta_update f x)"
| "v1_map_meta f (V1OUnassignedDisk x) = V1OUnassignedDisk (vud_Meta_update f x)"
| "v1_map_meta f (V1OStoragePool x) = V1OStoragePool (vpool_Meta_update f x)"
| "v1_map_meta f (V1OFilesystem x) = V1OFilesystem (vfs_Meta_update f x)"
| "v1_map_meta f (V1OShare x) = V1OShare (vshare_Meta_update f x)"
| "v1_map_meta f (V1OVolume x) = V1OVolume (vvol_Meta_update f x)"
| "v1_map_meta f (V1OTierPolicy x) = V1OTierPolicy (vtier_Meta_update f x)"
| "v1_map_meta f (V1ODiskLock x) = V1ODiskLock (vlock_Meta_update f x)"
| "v1_map_meta f (V1OPoolHealth x) = V1OPoolHealth (vhealth_Meta_update f x)"
| "v1_map_meta f (V1OFilesystemIntegrity x) = V1OFilesystemIntegrity (vint_Meta_update f x)"

definition v1_key :: "v1_object \<Rightarrow> nskey" where
  "v1_key ob = (meta_Namespace (v1_meta ob), meta_Name (v1_meta ob))"

definition v1_with_rv :: "string \<Rightarrow> v1_object \<Rightarrow> v1_object" where
  "v1_with_rv rv = v1_map_meta (meta_ResourceVersion_update (\<lambda>_. rv))"

text \<open>
  An update of the main resource keeps the stored status, an update of the status subresource keeps
  everything else; of these kinds only the disk has a status.
\<close>

definition v1_put_main :: "v1_object \<Rightarrow> v1_object \<Rightarrow> v1_object" where
  "v1_put_main old new = (case (old, new) of
     (V1ODisk x, V1ODisk y) \<Rightarrow> V1ODisk (y\<lparr>vdisk_Status := vdisk_Status x\<rparr>) | _ \<Rightarrow> new)"

definition v1_put_status :: "v1_object \<Rightarrow> v1_object \<Rightarrow> v1_object" where
  "v1_put_status old new = (case (old, new) of
     (V1ODisk x, V1ODisk y) \<Rightarrow> V1ODisk (x\<lparr>vdisk_Status := vdisk_Status y\<rparr>) | _ \<Rightarrow> old)"

lemma v1_map_meta_simps [simp]:
  "v1_kind_of (v1_map_meta f ob) = v1_kind_of ob" "v1_meta (v1_map_meta f ob) = f (v1_meta ob)"
  by (cases ob; simp)+

lemma v1_map_meta_comp: "v1_map_meta f (v1_map_meta g ob) = v1_map_meta (f \<circ> g) ob"
  by (cases ob) simp_all

lemma v1_with_rv_simps [simp]:
  "v1_kind_of (v1_with_rv rv ob) = v1_kind_of ob" "v1_key (v1_with_rv rv ob) = v1_key ob"
  by (simp_all add: v1_with_rv_def v1_key_def)

lemma v1_put_simps [simp]:
  "v1_kind_of (v1_put_main old ob) = v1_kind_of ob" "v1_meta (v1_put_main old ob) = v1_meta ob"
  "v1_kind_of (v1_put_status old ob) = v1_kind_of old" "v1_meta (v1_put_status old ob) = v1_meta old"
  by (auto simp: v1_put_main_def v1_put_status_def split: v1_object.split)

section \<open>Transitions\<close>

definition RebuildDiskFlowMessage :: "DiskLifecycleState \<Rightarrow> DiskLifecycleState \<Rightarrow> string" where
  "RebuildDiskFlowMessage oldState newState = ''disk transition: '' @ oldState @ '' -> '' @ newState"

end
