(* ===== verification/V1_Memory.thy ===== *)
theory V1_Memory
  imports Api_V1
begin

text \<open>
  Objects of \<^verbatim>\<open>storage.kubenas.io/v1\<close> in the memory of the operator, with Go's references explicit: a map is an
  address, a slice a window of a backing array, and a struct assignment \<^verbatim>\<open>*out = *in\<close> copies addresses. On it the
  copy methods of \<^verbatim>\<open>api/v1/zz_generated.deepcopy.go\<close>, which the repository writes by hand. Shown: a copy has
  the value of its original and its own spec, but it shares the maps and slices of the metadata.
\<close>

section \<open>Memory\<close>

type_synonym addr = nat

record slice =
  sl_arr :: addr
  sl_off :: nat
  sl_len :: nat

text \<open>\<open>'i\<close> is the type of the items of the one list an operation handles.\<close>

record 'i heap =
  h_maps :: "addr \<rightharpoonup> (string \<rightharpoonup> string)"
  h_strs :: "addr \<rightharpoonup> string list"
  h_owners :: "addr \<rightharpoonup> OwnerReference list"
  h_items :: "addr \<rightharpoonup> 'i list"
  h_next :: addr

definition map_at :: "'i heap \<Rightarrow> addr \<Rightarrow> string \<rightharpoonup> string" where
  "map_at h a = (case h_maps h a of None \<Rightarrow> Map.empty | Some m \<Rightarrow> m)"

definition window :: "(addr \<rightharpoonup> 'a list) \<Rightarrow> slice \<Rightarrow> 'a list" where
  "window arrs s = (case arrs (sl_arr s) of None \<Rightarrow> [] | Some xs \<Rightarrow> take (sl_len s) (drop (sl_off s) xs))"

definition whole :: "addr \<Rightarrow> 'a list \<Rightarrow> slice" where
  "whole a xs = \<lparr>sl_arr = a, sl_off = 0, sl_len = length xs\<rparr>"

definition map_write :: "addr \<Rightarrow> (string \<rightharpoonup> string) \<Rightarrow> 'i heap \<Rightarrow> 'i heap" where
  "map_write a m h = h\<lparr>h_maps := (h_maps h)(a \<mapsto> m)\<rparr>"

definition alloc_map :: "(string \<rightharpoonup> string) \<Rightarrow> ('i heap, addr) state" where
  "alloc_map m = State (\<lambda>h. (h_next h, (map_write (h_next h) m h)\<lparr>h_next := Suc (h_next h)\<rparr>))"

definition alloc_strs :: "string list \<Rightarrow> ('i heap, slice) state" where
  "alloc_strs xs = State (\<lambda>h. (whole (h_next h) xs, h\<lparr>h_strs := (h_strs h)(h_next h \<mapsto> xs), h_next := Suc (h_next h)\<rparr>))"

definition alloc_items :: "'i list \<Rightarrow> ('i heap, slice) state" where
  "alloc_items xs = State (\<lambda>h. (whole (h_next h) xs, h\<lparr>h_items := (h_items h)(h_next h \<mapsto> xs), h_next := Suc (h_next h)\<rparr>))"

definition read_heap :: "('i heap \<Rightarrow> 'a) \<Rightarrow> ('i heap, 'a) state" where
  "read_heap f = State (\<lambda>h. (f h, h))"

definition write_heap :: "('i heap \<Rightarrow> 'i heap) \<Rightarrow> ('i heap, unit) state" where
  "write_heap f = State (\<lambda>h. ((), f h))"

section \<open>Objects\<close>

record mmeta =
  mm_Name :: string
  mm_Namespace :: string
  mm_UID :: string
  mm_ResourceVersion :: string
  mm_Labels :: "addr option"
  mm_Annotations :: "addr option"
  mm_Finalizers :: "slice option"
  mm_DeletionTimestamp :: "time option"
  mm_OwnerReferences :: "slice option"

record mdisk_spec =
  mds_Device :: string
  mds_Size :: string
  mds_Rotational :: bool
  mds_Filesystem :: string
  mds_Labels :: "addr option"
  mds_Health :: string
  mds_State :: DiskLifecycleState

record mpool_spec =
  mps_DiskSelector :: "addr option"
  mps_ParityDisks :: "slice option"
  mps_SplitLevel :: int

text \<open>The other kinds have specs without references, so their value is the struct.\<close>

record 's mobj =
  mo_Meta :: mmeta
  mo_Spec :: 's

record mdisk =
  md_Meta :: mmeta
  md_Spec :: mdisk_spec
  md_Status :: V1DiskStatus


record ListMeta =
  lm_ResourceVersion :: string
  lm_Continue :: string
  lm_RemainingItemCount :: "int option"

record mlist =
  ml_Meta :: ListMeta
  ml_Items :: "slice option"

section \<open>The copy methods\<close>

text \<open>The loop of \<^verbatim>\<open>copyStringMap\<close> enters every entry of the source, so Go's order of iteration does not matter.\<close>

definition copyStringMap :: "addr option \<Rightarrow> ('i heap, addr option) state" where
  "copyStringMap inp =
     (case inp of
        None \<Rightarrow> State_Monad.return None
      | Some a \<Rightarrow> do {
          out \<leftarrow> alloc_map Map.empty;
          m \<leftarrow> read_heap (\<lambda>h. map_at h a);
          _ \<leftarrow> write_heap (map_write out m);
          State_Monad.return (Some out)
        })"

text \<open>\<^verbatim>\<open>append([]T(nil), xs...)\<close>: nil when there is nothing to append, else a new array.\<close>

definition append_strs :: "slice \<Rightarrow> ('i heap, slice option) state" where
  "append_strs s = do {
     xs \<leftarrow> read_heap (\<lambda>h. window (h_strs h) s);
     if xs = [] then State_Monad.return None else do { t \<leftarrow> alloc_strs xs; State_Monad.return (Some t) }
   }"

definition append_items :: "slice \<Rightarrow> ('i heap, slice option) state" where
  "append_items s = do {
     xs \<leftarrow> read_heap (\<lambda>h. window (h_items h) s);
     if xs = [] then State_Monad.return None else do { t \<leftarrow> alloc_items xs; State_Monad.return (Some t) }
   }"

text \<open>The loop \<^verbatim>\<open>for i := range in.Items { in.Items[i].DeepCopyInto(&out.Items[i]) }\<close> over a new array, item by item.\<close>

fun copy_items :: "('i \<Rightarrow> ('i heap, 'i) state) \<Rightarrow> addr \<Rightarrow> nat \<Rightarrow> 'i list \<Rightarrow> ('i heap, unit) state" where
  "copy_items into dst i [] = State_Monad.return ()"
| "copy_items into dst i (x # xs) = do {
     y \<leftarrow> into x;
     _ \<leftarrow> write_heap (\<lambda>h. h\<lparr>h_items := (h_items h)(dst := map_option (\<lambda>ys. ys[i := y]) (h_items h dst))\<rparr>);
     copy_items into dst (Suc i) xs
   }"

definition make_items :: "('i \<Rightarrow> ('i heap, 'i) state) \<Rightarrow> 'i \<Rightarrow> slice \<Rightarrow> ('i heap, slice option) state" where
  "make_items into zero s = do {
     xs \<leftarrow> read_heap (\<lambda>h. window (h_items h) s);
     t \<leftarrow> alloc_items (replicate (length xs) zero);
     _ \<leftarrow> copy_items into (sl_arr t) 0 xs;
     State_Monad.return (Some t)
   }"

text \<open>Every \<^verbatim>\<open>DeepCopy\<close> returns nil for nil and else fills a new struct.\<close>

definition new_copy :: "('a \<Rightarrow> ('i heap, 'a) state) \<Rightarrow> 'a option \<Rightarrow> ('i heap, 'a option) state" where
  "new_copy into inp =
     (case inp of None \<Rightarrow> State_Monad.return None | Some x \<Rightarrow> do { out \<leftarrow> into x; State_Monad.return (Some out) })"

definition copy_list :: "(slice \<Rightarrow> ('i heap, slice option) state) \<Rightarrow> mlist \<Rightarrow> ('i heap, mlist) state" where
  "copy_list items inp =
     (case ml_Items inp of
        None \<Rightarrow> State_Monad.return inp
      | Some s \<Rightarrow> do { t \<leftarrow> items s; State_Monad.return (inp\<lparr>ml_Items := t\<rparr>) })"

definition mmeta_zero :: mmeta where
  "mmeta_zero = \<lparr>mm_Name = '''', mm_Namespace = '''', mm_UID = '''', mm_ResourceVersion = '''', mm_Labels = None,
     mm_Annotations = None, mm_Finalizers = None, mm_DeletionTimestamp = None, mm_OwnerReferences = None\<rparr>"

definition mdisk_zero :: mdisk where
  "mdisk_zero = \<lparr>md_Meta = mmeta_zero, md_Spec = \<lparr>mds_Device = '''', mds_Size = '''', mds_Rotational = False,
     mds_Filesystem = '''', mds_Labels = None, mds_Health = '''', mds_State = ''''\<rparr>,
     md_Status = \<lparr>vdisk_StatusState = '''', vdisk_StatusHealth = ''''\<rparr>\<rparr>"

definition mpool_zero :: "mpool_spec mobj" where
  "mpool_zero = \<lparr>mo_Meta = mmeta_zero, mo_Spec = \<lparr>mps_DiskSelector = None, mps_ParityDisks = None, mps_SplitLevel = 0\<rparr>\<rparr>"

definition Disk_DeepCopyInto :: "mdisk \<Rightarrow> ('i heap, mdisk) state" where
  "Disk_DeepCopyInto inp = do {
     labels \<leftarrow> copyStringMap (mds_Labels (md_Spec inp));
     State_Monad.return (inp\<lparr>md_Spec := (md_Spec inp)\<lparr>mds_Labels := labels\<rparr>\<rparr>)
   }"

definition Disk_DeepCopy :: "(mdisk) option \<Rightarrow> ('i heap, (mdisk) option) state" where
  "Disk_DeepCopy = new_copy Disk_DeepCopyInto"

definition DiskList_DeepCopyInto :: "mlist \<Rightarrow> ((mdisk) heap, mlist) state" where
  "DiskList_DeepCopyInto = copy_list (make_items Disk_DeepCopyInto mdisk_zero)"

definition DiskList_DeepCopy :: "mlist option \<Rightarrow> ((mdisk) heap, mlist option) state" where
  "DiskList_DeepCopy = new_copy DiskList_DeepCopyInto"

definition DiskClaim_DeepCopyInto :: "V1DiskClaimSpec mobj \<Rightarrow> ('i heap, V1DiskClaimSpec mobj) state" where
  "DiskClaim_DeepCopyInto inp = State_Monad.return inp"

definition DiskClaim_DeepCopy :: "(V1DiskClaimSpec mobj) option \<Rightarrow> ('i heap, (V1DiskClaimSpec mobj) option) state" where
  "DiskClaim_DeepCopy = new_copy DiskClaim_DeepCopyInto"

definition DiskClaimList_DeepCopyInto :: "mlist \<Rightarrow> ((V1DiskClaimSpec mobj) heap, mlist) state" where
  "DiskClaimList_DeepCopyInto = copy_list append_items"

definition DiskClaimList_DeepCopy :: "mlist option \<Rightarrow> ((V1DiskClaimSpec mobj) heap, mlist option) state" where
  "DiskClaimList_DeepCopy = new_copy DiskClaimList_DeepCopyInto"

definition UnassignedDisk_DeepCopyInto :: "V1UnassignedDiskSpec mobj \<Rightarrow> ('i heap, V1UnassignedDiskSpec mobj) state" where
  "UnassignedDisk_DeepCopyInto inp = State_Monad.return inp"

definition UnassignedDisk_DeepCopy :: "(V1UnassignedDiskSpec mobj) option \<Rightarrow> ('i heap, (V1UnassignedDiskSpec mobj) option) state" where
  "UnassignedDisk_DeepCopy = new_copy UnassignedDisk_DeepCopyInto"

definition UnassignedDiskList_DeepCopyInto :: "mlist \<Rightarrow> ((V1UnassignedDiskSpec mobj) heap, mlist) state" where
  "UnassignedDiskList_DeepCopyInto = copy_list append_items"

definition UnassignedDiskList_DeepCopy :: "mlist option \<Rightarrow> ((V1UnassignedDiskSpec mobj) heap, mlist option) state" where
  "UnassignedDiskList_DeepCopy = new_copy UnassignedDiskList_DeepCopyInto"

definition StoragePool_DeepCopyInto :: "mpool_spec mobj \<Rightarrow> ('i heap, mpool_spec mobj) state" where
  "StoragePool_DeepCopyInto inp = do {
     sel \<leftarrow> copyStringMap (mps_DiskSelector (mo_Spec inp));
     let out = inp\<lparr>mo_Spec := (mo_Spec inp)\<lparr>mps_DiskSelector := sel\<rparr>\<rparr>;
     case mps_ParityDisks (mo_Spec inp) of
       None \<Rightarrow> State_Monad.return out
     | Some s \<Rightarrow> do {
         ps \<leftarrow> append_strs s;
         State_Monad.return (out\<lparr>mo_Spec := (mo_Spec out)\<lparr>mps_ParityDisks := ps\<rparr>\<rparr>)
       }
   }"

definition StoragePool_DeepCopy :: "(mpool_spec mobj) option \<Rightarrow> ('i heap, (mpool_spec mobj) option) state" where
  "StoragePool_DeepCopy = new_copy StoragePool_DeepCopyInto"

definition StoragePoolList_DeepCopyInto :: "mlist \<Rightarrow> ((mpool_spec mobj) heap, mlist) state" where
  "StoragePoolList_DeepCopyInto = copy_list (make_items StoragePool_DeepCopyInto mpool_zero)"

definition StoragePoolList_DeepCopy :: "mlist option \<Rightarrow> ((mpool_spec mobj) heap, mlist option) state" where
  "StoragePoolList_DeepCopy = new_copy StoragePoolList_DeepCopyInto"

definition Filesystem_DeepCopyInto :: "V1FilesystemSpec mobj \<Rightarrow> ('i heap, V1FilesystemSpec mobj) state" where
  "Filesystem_DeepCopyInto inp = State_Monad.return inp"

definition Filesystem_DeepCopy :: "(V1FilesystemSpec mobj) option \<Rightarrow> ('i heap, (V1FilesystemSpec mobj) option) state" where
  "Filesystem_DeepCopy = new_copy Filesystem_DeepCopyInto"

definition FilesystemList_DeepCopyInto :: "mlist \<Rightarrow> ((V1FilesystemSpec mobj) heap, mlist) state" where
  "FilesystemList_DeepCopyInto = copy_list append_items"

definition FilesystemList_DeepCopy :: "mlist option \<Rightarrow> ((V1FilesystemSpec mobj) heap, mlist option) state" where
  "FilesystemList_DeepCopy = new_copy FilesystemList_DeepCopyInto"

definition Share_DeepCopyInto :: "V1ShareSpec mobj \<Rightarrow> ('i heap, V1ShareSpec mobj) state" where
  "Share_DeepCopyInto inp = State_Monad.return inp"

definition Share_DeepCopy :: "(V1ShareSpec mobj) option \<Rightarrow> ('i heap, (V1ShareSpec mobj) option) state" where
  "Share_DeepCopy = new_copy Share_DeepCopyInto"

definition ShareList_DeepCopyInto :: "mlist \<Rightarrow> ((V1ShareSpec mobj) heap, mlist) state" where
  "ShareList_DeepCopyInto = copy_list append_items"

definition ShareList_DeepCopy :: "mlist option \<Rightarrow> ((V1ShareSpec mobj) heap, mlist option) state" where
  "ShareList_DeepCopy = new_copy ShareList_DeepCopyInto"

definition Volume_DeepCopyInto :: "V1VolumeSpec mobj \<Rightarrow> ('i heap, V1VolumeSpec mobj) state" where
  "Volume_DeepCopyInto inp = State_Monad.return inp"

definition Volume_DeepCopy :: "(V1VolumeSpec mobj) option \<Rightarrow> ('i heap, (V1VolumeSpec mobj) option) state" where
  "Volume_DeepCopy = new_copy Volume_DeepCopyInto"

definition VolumeList_DeepCopyInto :: "mlist \<Rightarrow> ((V1VolumeSpec mobj) heap, mlist) state" where
  "VolumeList_DeepCopyInto = copy_list append_items"

definition VolumeList_DeepCopy :: "mlist option \<Rightarrow> ((V1VolumeSpec mobj) heap, mlist option) state" where
  "VolumeList_DeepCopy = new_copy VolumeList_DeepCopyInto"

definition TierPolicy_DeepCopyInto :: "V1TierPolicySpec mobj \<Rightarrow> ('i heap, V1TierPolicySpec mobj) state" where
  "TierPolicy_DeepCopyInto inp = State_Monad.return inp"

definition TierPolicy_DeepCopy :: "(V1TierPolicySpec mobj) option \<Rightarrow> ('i heap, (V1TierPolicySpec mobj) option) state" where
  "TierPolicy_DeepCopy = new_copy TierPolicy_DeepCopyInto"

definition TierPolicyList_DeepCopyInto :: "mlist \<Rightarrow> ((V1TierPolicySpec mobj) heap, mlist) state" where
  "TierPolicyList_DeepCopyInto = copy_list append_items"

definition TierPolicyList_DeepCopy :: "mlist option \<Rightarrow> ((V1TierPolicySpec mobj) heap, mlist option) state" where
  "TierPolicyList_DeepCopy = new_copy TierPolicyList_DeepCopyInto"

definition DiskLock_DeepCopyInto :: "V1DiskLockSpec mobj \<Rightarrow> ('i heap, V1DiskLockSpec mobj) state" where
  "DiskLock_DeepCopyInto inp = State_Monad.return inp"

definition DiskLock_DeepCopy :: "(V1DiskLockSpec mobj) option \<Rightarrow> ('i heap, (V1DiskLockSpec mobj) option) state" where
  "DiskLock_DeepCopy = new_copy DiskLock_DeepCopyInto"

definition DiskLockList_DeepCopyInto :: "mlist \<Rightarrow> ((V1DiskLockSpec mobj) heap, mlist) state" where
  "DiskLockList_DeepCopyInto = copy_list append_items"

definition DiskLockList_DeepCopy :: "mlist option \<Rightarrow> ((V1DiskLockSpec mobj) heap, mlist option) state" where
  "DiskLockList_DeepCopy = new_copy DiskLockList_DeepCopyInto"

definition PoolHealth_DeepCopyInto :: "V1PoolHealthSpec mobj \<Rightarrow> ('i heap, V1PoolHealthSpec mobj) state" where
  "PoolHealth_DeepCopyInto inp = State_Monad.return inp"

definition PoolHealth_DeepCopy :: "(V1PoolHealthSpec mobj) option \<Rightarrow> ('i heap, (V1PoolHealthSpec mobj) option) state" where
  "PoolHealth_DeepCopy = new_copy PoolHealth_DeepCopyInto"

definition PoolHealthList_DeepCopyInto :: "mlist \<Rightarrow> ((V1PoolHealthSpec mobj) heap, mlist) state" where
  "PoolHealthList_DeepCopyInto = copy_list append_items"

definition PoolHealthList_DeepCopy :: "mlist option \<Rightarrow> ((V1PoolHealthSpec mobj) heap, mlist option) state" where
  "PoolHealthList_DeepCopy = new_copy PoolHealthList_DeepCopyInto"

definition FilesystemIntegrity_DeepCopyInto :: "V1FilesystemIntegritySpec mobj \<Rightarrow> ('i heap, V1FilesystemIntegritySpec mobj) state" where
  "FilesystemIntegrity_DeepCopyInto inp = State_Monad.return inp"

definition FilesystemIntegrity_DeepCopy :: "(V1FilesystemIntegritySpec mobj) option \<Rightarrow> ('i heap, (V1FilesystemIntegritySpec mobj) option) state" where
  "FilesystemIntegrity_DeepCopy = new_copy FilesystemIntegrity_DeepCopyInto"

definition FilesystemIntegrityList_DeepCopyInto :: "mlist \<Rightarrow> ((V1FilesystemIntegritySpec mobj) heap, mlist) state" where
  "FilesystemIntegrityList_DeepCopyInto = copy_list append_items"

definition FilesystemIntegrityList_DeepCopy :: "mlist option \<Rightarrow> ((V1FilesystemIntegritySpec mobj) heap, mlist option) state" where
  "FilesystemIntegrityList_DeepCopy = new_copy FilesystemIntegrityList_DeepCopyInto"

section \<open>All kinds\<close>

datatype mem_object =
    MODisk mdisk
  | MODiskClaim "V1DiskClaimSpec mobj"
  | MOUnassignedDisk "V1UnassignedDiskSpec mobj"
  | MOStoragePool "mpool_spec mobj"
  | MOFilesystem "V1FilesystemSpec mobj"
  | MOShare "V1ShareSpec mobj"
  | MOVolume "V1VolumeSpec mobj"
  | MOTierPolicy "V1TierPolicySpec mobj"
  | MODiskLock "V1DiskLockSpec mobj"
  | MOPoolHealth "V1PoolHealthSpec mobj"
  | MOFilesystemIntegrity "V1FilesystemIntegritySpec mobj"

fun mem_kind :: "mem_object \<Rightarrow> v1_kind" where
  "mem_kind (MODisk x) = V1KDisk"
| "mem_kind (MODiskClaim x) = V1KDiskClaim"
| "mem_kind (MOUnassignedDisk x) = V1KUnassignedDisk"
| "mem_kind (MOStoragePool x) = V1KStoragePool"
| "mem_kind (MOFilesystem x) = V1KFilesystem"
| "mem_kind (MOShare x) = V1KShare"
| "mem_kind (MOVolume x) = V1KVolume"
| "mem_kind (MOTierPolicy x) = V1KTierPolicy"
| "mem_kind (MODiskLock x) = V1KDiskLock"
| "mem_kind (MOPoolHealth x) = V1KPoolHealth"
| "mem_kind (MOFilesystemIntegrity x) = V1KFilesystemIntegrity"

fun mem_meta :: "mem_object \<Rightarrow> mmeta" where
  "mem_meta (MODisk x) = md_Meta x"
| "mem_meta (MODiskClaim x) = mo_Meta x"
| "mem_meta (MOUnassignedDisk x) = mo_Meta x"
| "mem_meta (MOStoragePool x) = mo_Meta x"
| "mem_meta (MOFilesystem x) = mo_Meta x"
| "mem_meta (MOShare x) = mo_Meta x"
| "mem_meta (MOVolume x) = mo_Meta x"
| "mem_meta (MOTierPolicy x) = mo_Meta x"
| "mem_meta (MODiskLock x) = mo_Meta x"
| "mem_meta (MOPoolHealth x) = mo_Meta x"
| "mem_meta (MOFilesystemIntegrity x) = mo_Meta x"

fun mem_map_meta :: "(mmeta \<Rightarrow> mmeta) \<Rightarrow> mem_object \<Rightarrow> mem_object" where
  "mem_map_meta f (MODisk x) = MODisk (md_Meta_update f x)"
| "mem_map_meta f (MODiskClaim x) = MODiskClaim (mo_Meta_update f x)"
| "mem_map_meta f (MOUnassignedDisk x) = MOUnassignedDisk (mo_Meta_update f x)"
| "mem_map_meta f (MOStoragePool x) = MOStoragePool (mo_Meta_update f x)"
| "mem_map_meta f (MOFilesystem x) = MOFilesystem (mo_Meta_update f x)"
| "mem_map_meta f (MOShare x) = MOShare (mo_Meta_update f x)"
| "mem_map_meta f (MOVolume x) = MOVolume (mo_Meta_update f x)"
| "mem_map_meta f (MOTierPolicy x) = MOTierPolicy (mo_Meta_update f x)"
| "mem_map_meta f (MODiskLock x) = MODiskLock (mo_Meta_update f x)"
| "mem_map_meta f (MOPoolHealth x) = MOPoolHealth (mo_Meta_update f x)"
| "mem_map_meta f (MOFilesystemIntegrity x) = MOFilesystemIntegrity (mo_Meta_update f x)"

text \<open>The method of the interface \<^verbatim>\<open>runtime.Object\<close>.\<close>

fun DeepCopyObject :: "mem_object \<Rightarrow> ('i heap, mem_object) state" where
  "DeepCopyObject (MODisk x) = do { y \<leftarrow> Disk_DeepCopyInto x; State_Monad.return (MODisk y) }"
| "DeepCopyObject (MODiskClaim x) = do { y \<leftarrow> DiskClaim_DeepCopyInto x; State_Monad.return (MODiskClaim y) }"
| "DeepCopyObject (MOUnassignedDisk x) = do { y \<leftarrow> UnassignedDisk_DeepCopyInto x; State_Monad.return (MOUnassignedDisk y) }"
| "DeepCopyObject (MOStoragePool x) = do { y \<leftarrow> StoragePool_DeepCopyInto x; State_Monad.return (MOStoragePool y) }"
| "DeepCopyObject (MOFilesystem x) = do { y \<leftarrow> Filesystem_DeepCopyInto x; State_Monad.return (MOFilesystem y) }"
| "DeepCopyObject (MOShare x) = do { y \<leftarrow> Share_DeepCopyInto x; State_Monad.return (MOShare y) }"
| "DeepCopyObject (MOVolume x) = do { y \<leftarrow> Volume_DeepCopyInto x; State_Monad.return (MOVolume y) }"
| "DeepCopyObject (MOTierPolicy x) = do { y \<leftarrow> TierPolicy_DeepCopyInto x; State_Monad.return (MOTierPolicy y) }"
| "DeepCopyObject (MODiskLock x) = do { y \<leftarrow> DiskLock_DeepCopyInto x; State_Monad.return (MODiskLock y) }"
| "DeepCopyObject (MOPoolHealth x) = do { y \<leftarrow> PoolHealth_DeepCopyInto x; State_Monad.return (MOPoolHealth y) }"
| "DeepCopyObject (MOFilesystemIntegrity x) = do { y \<leftarrow> FilesystemIntegrity_DeepCopyInto x; State_Monad.return (MOFilesystemIntegrity y) }"

section \<open>Values\<close>

definition map_value :: "'i heap \<Rightarrow> addr option \<Rightarrow> string \<rightharpoonup> string" where
  "map_value h r = (case r of None \<Rightarrow> Map.empty | Some a \<Rightarrow> map_at h a)"

definition slice_value :: "(addr \<rightharpoonup> 'a list) \<Rightarrow> slice option \<Rightarrow> 'a list" where
  "slice_value arrs r = (case r of None \<Rightarrow> [] | Some s \<Rightarrow> window arrs s)"

definition meta_value :: "'i heap \<Rightarrow> mmeta \<Rightarrow> ObjectMeta" where
  "meta_value h m = \<lparr>meta_Name = mm_Name m, meta_Namespace = mm_Namespace m, meta_UID = mm_UID m,
     meta_ResourceVersion = mm_ResourceVersion m, meta_Labels = map_value h (mm_Labels m),
     meta_Annotations = map_option (map_at h) (mm_Annotations m), meta_Finalizers = slice_value (h_strs h) (mm_Finalizers m),
     meta_DeletionTimestamp = mm_DeletionTimestamp m, meta_OwnerReferences = slice_value (h_owners h) (mm_OwnerReferences m)\<rparr>"

fun mem_value :: "'i heap \<Rightarrow> mem_object \<Rightarrow> v1_object" where
  "mem_value h (MODisk x) = V1ODisk (let s = md_Spec x in \<lparr>vdisk_Meta = meta_value h (md_Meta x),
     vdisk_Spec = \<lparr>vdisk_Device = mds_Device s, vdisk_Size = mds_Size s, vdisk_Rotational = mds_Rotational s,
       vdisk_Filesystem = mds_Filesystem s, vdisk_Labels = map_value h (mds_Labels s), vdisk_Health = mds_Health s,
       vdisk_State = mds_State s\<rparr>, vdisk_Status = md_Status x\<rparr>)"
| "mem_value h (MODiskClaim x) = V1ODiskClaim \<lparr>vclaim_Meta = meta_value h (mo_Meta x), vclaim_Spec = mo_Spec x\<rparr>"
| "mem_value h (MOUnassignedDisk x) = V1OUnassignedDisk \<lparr>vud_Meta = meta_value h (mo_Meta x), vud_Spec = mo_Spec x\<rparr>"
| "mem_value h (MOStoragePool x) = V1OStoragePool (let s = mo_Spec x in \<lparr>vpool_Meta = meta_value h (mo_Meta x),
     vpool_Spec = \<lparr>vpool_DiskSelector = map_value h (mps_DiskSelector s),
       vpool_ParityDisks = slice_value (h_strs h) (mps_ParityDisks s), vpool_SplitLevel = mps_SplitLevel s\<rparr>\<rparr>)"
| "mem_value h (MOFilesystem x) = V1OFilesystem \<lparr>vfs_Meta = meta_value h (mo_Meta x), vfs_Spec = mo_Spec x\<rparr>"
| "mem_value h (MOShare x) = V1OShare \<lparr>vshare_Meta = meta_value h (mo_Meta x), vshare_Spec = mo_Spec x\<rparr>"
| "mem_value h (MOVolume x) = V1OVolume \<lparr>vvol_Meta = meta_value h (mo_Meta x), vvol_Spec = mo_Spec x\<rparr>"
| "mem_value h (MOTierPolicy x) = V1OTierPolicy \<lparr>vtier_Meta = meta_value h (mo_Meta x), vtier_Spec = mo_Spec x\<rparr>"
| "mem_value h (MODiskLock x) = V1ODiskLock \<lparr>vlock_Meta = meta_value h (mo_Meta x), vlock_Spec = mo_Spec x\<rparr>"
| "mem_value h (MOPoolHealth x) = V1OPoolHealth \<lparr>vhealth_Meta = meta_value h (mo_Meta x), vhealth_Spec = mo_Spec x\<rparr>"
| "mem_value h (MOFilesystemIntegrity x) = V1OFilesystemIntegrity \<lparr>vint_Meta = meta_value h (mo_Meta x), vint_Spec = mo_Spec x\<rparr>"

text \<open>The addresses an object holds.\<close>

definition meta_refs :: "mmeta \<Rightarrow> addr set" where
  "meta_refs m = set_option (mm_Labels m) \<union> set_option (mm_Annotations m) \<union> sl_arr ` set_option (mm_Finalizers m) \<union>
     sl_arr ` set_option (mm_OwnerReferences m)"

fun spec_refs :: "mem_object \<Rightarrow> addr set" where
  "spec_refs (MODisk x) = set_option (mds_Labels (md_Spec x))"
| "spec_refs (MOStoragePool x) = set_option (mps_DiskSelector (mo_Spec x)) \<union> sl_arr ` set_option (mps_ParityDisks (mo_Spec x))"
| "spec_refs _ = {}"

definition live :: "'i heap \<Rightarrow> mem_object \<Rightarrow> bool" where
  "live h ob \<longleftrightarrow> (\<forall>a \<in> meta_refs (mem_meta ob) \<union> spec_refs ob. a < h_next h)"

text \<open>Everything that was allocated keeps its content.\<close>

definition kept :: "'i heap \<Rightarrow> 'i heap \<Rightarrow> bool" where
  "kept h h' \<longleftrightarrow> h_next h \<le> h_next h' \<and> (\<forall>a < h_next h. h_maps h' a = h_maps h a \<and> h_strs h' a = h_strs h a \<and>
     h_owners h' a = h_owners h a \<and> h_items h' a = h_items h a)"

section \<open>What a copy is\<close>

lemma kept_refl [simp]: "kept h h"
  by (simp add: kept_def)

lemma kept_trans: "kept h h' \<Longrightarrow> kept h' h'' \<Longrightarrow> kept h h''"
  by (auto simp: kept_def)

lemma kept_next: "kept h h' \<Longrightarrow> h_next h \<le> h_next h'"
  by (simp add: kept_def)

lemma map_value_kept: "kept h h' \<Longrightarrow> \<forall>a \<in> set_option r. a < h_next h \<Longrightarrow> map_value h' r = map_value h r"
  by (cases r) (auto simp: map_value_def map_at_def kept_def)

lemma slice_value_kept:
  assumes "kept h h'" and "\<forall>s \<in> set_option r. sl_arr s < h_next h"
  shows "slice_value (h_strs h') r = slice_value (h_strs h) r" "slice_value (h_owners h') r = slice_value (h_owners h) r"
    "slice_value (h_items h') r = slice_value (h_items h) r"
  using assms by (cases r; auto simp: slice_value_def window_def kept_def)+

lemma meta_value_kept:
  assumes "kept h h'" and "\<forall>a \<in> meta_refs m. a < h_next h"
  shows "meta_value h' m = meta_value h m"
proof -
  have r: "\<forall>a \<in> set_option (mm_Labels m). a < h_next h" "\<forall>a \<in> set_option (mm_Annotations m). a < h_next h"
    "\<forall>s \<in> set_option (mm_Finalizers m). sl_arr s < h_next h" "\<forall>s \<in> set_option (mm_OwnerReferences m). sl_arr s < h_next h"
    using assms(2) unfolding meta_refs_def by blast+
  have "map_option (map_at h') (mm_Annotations m) = map_option (map_at h) (mm_Annotations m)"
    using assms(1) r(2) by (cases "mm_Annotations m") (auto simp: map_at_def kept_def)
  then show ?thesis
    unfolding meta_value_def map_value_kept[OF assms(1) r(1)] slice_value_kept(1)[OF assms(1) r(3)] slice_value_kept(2)[OF assms(1) r(4)]
    by simp
qed

lemma mem_value_kept:
  assumes "kept h h'" and "live h ob"
  shows "mem_value h' ob = mem_value h ob"
proof -
  have m: "meta_value h' (mem_meta ob) = meta_value h (mem_meta ob)" and s: "\<forall>a \<in> spec_refs ob. a < h_next h"
    using assms by (auto simp: live_def intro: meta_value_kept)
  then show ?thesis using assms(1) by (cases ob) (simp_all add: Let_def map_value_kept slice_value_kept ball_Un)
qed

lemma live_kept: "live h ob \<Longrightarrow> kept h h' \<Longrightarrow> live h' ob"
  unfolding live_def kept_def by (auto intro: less_le_trans)

lemma annotations_after_write:
  assumes "mm_Annotations (mem_meta ob) = Some a"
  shows "meta_Annotations (v1_meta (mem_value (map_write a m h) ob)) = Some m"
  using assms by (cases ob) (simp_all add: Let_def meta_value_def map_at_def map_write_def)

lemma wp_read_heap [wp]: "wp (read_heap f) Q h = Q (f h) h"
  and wp_write_heap [wp]: "wp (write_heap g) R h = R () (g h)"
  by (simp_all add: wp_def read_heap_def write_heap_def)

lemma wp_alloc [wp]:
  "wp (alloc_map m) P h = P (h_next h) ((map_write (h_next h) m h)\<lparr>h_next := Suc (h_next h)\<rparr>)"
  "wp (alloc_strs xs) Q h = Q (whole (h_next h) xs) (h\<lparr>h_strs := (h_strs h)(h_next h \<mapsto> xs), h_next := Suc (h_next h)\<rparr>)"
  "wp (alloc_items ys) R h = R (whole (h_next h) ys) (h\<lparr>h_items := (h_items h)(h_next h \<mapsto> ys), h_next := Suc (h_next h)\<rparr>)"
  by (simp_all add: wp_def alloc_map_def alloc_strs_def alloc_items_def)

lemma window_whole [simp]: "arrs (sl_arr (whole a xs)) = Some xs \<Longrightarrow> window arrs (whole a xs) = xs"
  by (simp add: window_def whole_def)

lemma whole_arr [simp]: "sl_arr (whole a xs) = a"
  by (simp add: whole_def)

lemma wp_copyStringMap:
  assumes "\<forall>a \<in> set_option r. a < h_next h"
  shows "wp (copyStringMap r) (\<lambda>r' h'. kept h h' \<and> map_value h' r' = map_value h r \<and>
     (\<forall>a \<in> set_option r'. h_next h \<le> a \<and> a < h_next h')) h"
  using assms by (cases r) (auto simp: copyStringMap_def wp kept_def map_value_def map_at_def map_write_def)

lemma wp_append_strs:
  "wp (append_strs s) (\<lambda>r h'. kept h h' \<and> slice_value (h_strs h') r = window (h_strs h) s \<and>
     (\<forall>t \<in> set_option r. h_next h \<le> sl_arr t \<and> sl_arr t < h_next h')) h"
  by (auto simp: append_strs_def wp kept_def slice_value_def)

lemma wp_append_items:
  "wp (append_items s) (\<lambda>r h'. kept h h' \<and> slice_value (h_items h') r = window (h_items h) s) h"
  by (auto simp: append_items_def wp kept_def slice_value_def)

definition copied :: "'i heap \<Rightarrow> mem_object \<Rightarrow> mem_object \<Rightarrow> 'i heap \<Rightarrow> bool" where
  "copied h ob r h' \<longleftrightarrow> kept h h' \<and> mem_value h' r = mem_value h ob \<and> mem_kind r = mem_kind ob \<and> mem_meta r = mem_meta ob \<and>
     (\<forall>a \<in> spec_refs r. h_next h \<le> a \<and> a < h_next h')"

lemma copied_live: "copied h ob r h' \<Longrightarrow> live h ob \<Longrightarrow> live h' r"
  unfolding copied_def live_def kept_def by (auto intro: less_le_trans)

lemma meta_value_live: "live h ob \<Longrightarrow> kept h h' \<Longrightarrow> meta_value h' (mem_meta ob) = meta_value h (mem_meta ob)"
  by (auto simp: live_def intro: meta_value_kept)

lemma wp_Disk_DeepCopyInto:
  assumes "live h (MODisk x)"
  shows "wp (Disk_DeepCopyInto x) (\<lambda>y h'. copied h (MODisk x) (MODisk y) h') h"
proof -
  have l: "\<forall>a \<in> set_option (mds_Labels (md_Spec x)). a < h_next h" using assms by (simp add: live_def ball_Un)
  show ?thesis unfolding Disk_DeepCopyInto_def wp
  proof (rule wp_mono[OF wp_copyStringMap[OF l]], elim conjE, goal_cases)
    case (1 r h')
    have "meta_value h' (md_Meta x) = meta_value h (md_Meta x)" using meta_value_live[OF assms 1(1)] by simp
    then show ?case unfolding copied_def by (simp add: Let_def 1)
  qed
qed

lemma wp_StoragePool_DeepCopyInto:
  assumes "live h (MOStoragePool x)"
  shows "wp (StoragePool_DeepCopyInto x) (\<lambda>y h'. copied h (MOStoragePool x) (MOStoragePool y) h') h"
proof -
  let ?p = "mps_ParityDisks (mo_Spec x)"
  have l: "\<forall>a \<in> set_option (mps_DiskSelector (mo_Spec x)). a < h_next h" "\<forall>s \<in> set_option ?p. sl_arr s < h_next h"
    using assms by (simp_all add: live_def ball_Un)
  show ?thesis unfolding StoragePool_DeepCopyInto_def wp Let_def
  proof (rule wp_mono[OF wp_copyStringMap[OF l(1)]], elim conjE, goal_cases)
    case (1 r h1)
    show ?case
    proof (cases ?p)
      case None
      have "meta_value h1 (mo_Meta x) = meta_value h (mo_Meta x)" using meta_value_live[OF assms 1(1)] by simp
      then show ?thesis unfolding None option.case copied_def by (simp add: Let_def slice_value_def None 1)
    next
      case (Some s)
      have w: "window (h_strs h1) s = window (h_strs h) s"
        using slice_value_kept(1)[of h h1 ?p] 1 l(2) by (simp add: Some slice_value_def)
      show ?thesis unfolding Some option.case
      proof (rule wp_mono[OF wp_append_strs], elim conjE, goal_cases)
        case (1 ps h2)
        have k: "kept h h2" by (rule kept_trans[OF \<open>kept h h1\<close> 1(1)])
        have "meta_value h2 (mo_Meta x) = meta_value h (mo_Meta x)" using meta_value_live[OF assms k] by simp
        moreover have "map_value h2 r = map_value h (mps_DiskSelector (mo_Spec x))"
          using map_value_kept[OF 1(1), of r] \<open>\<forall>a \<in> set_option r. _\<close> \<open>map_value h1 r = _\<close> by simp
        moreover have "\<forall>a \<in> set_option r. h_next h \<le> a \<and> a < h_next h2" "\<forall>t \<in> set_option ps. h_next h \<le> sl_arr t \<and> sl_arr t < h_next h2"
          using \<open>\<forall>a \<in> set_option r. _\<close> 1 kept_next[OF \<open>kept h h1\<close>] kept_next[OF 1(1)] by fastforce+
        moreover have "slice_value (h_strs h2) ps = slice_value (h_strs h) ?p"
          unfolding Some using 1(2) w by (simp add: slice_value_def[of _ "Some s"])
        ultimately show ?case unfolding copied_def using k by (simp add: Let_def 1 ball_Un)
      qed
    qed
  qed
qed

lemma wp_DeepCopyObject: "live h ob \<Longrightarrow> wp (DeepCopyObject ob) (copied h ob) h"
proof (cases ob)
  case (MODisk x)
  assume "live h ob"
  then show ?thesis unfolding MODisk DeepCopyObject.simps wp_bind wp_return_fun by (rule wp_Disk_DeepCopyInto)
next
  case (MOStoragePool x)
  assume "live h ob"
  then show ?thesis unfolding MOStoragePool DeepCopyObject.simps wp_bind wp_return_fun by (rule wp_StoragePool_DeepCopyInto)
qed (simp_all add: wp copied_def DiskClaim_DeepCopyInto_def UnassignedDisk_DeepCopyInto_def Filesystem_DeepCopyInto_def
    Share_DeepCopyInto_def Volume_DeepCopyInto_def TierPolicy_DeepCopyInto_def DiskLock_DeepCopyInto_def
    PoolHealth_DeepCopyInto_def FilesystemIntegrity_DeepCopyInto_def)

section \<open>Lists\<close>

definition items_value :: "('i \<Rightarrow> mem_object) \<Rightarrow> 'i heap \<Rightarrow> mlist \<Rightarrow> v1_object list" where
  "items_value c h l = map (\<lambda>x. mem_value h (c x)) (slice_value (h_items h) (ml_Items l))"

lemma map_at_items [simp]: "map_at (h\<lparr>h_items := f\<rparr>) = map_at h"
  by (rule ext) (simp add: map_at_def)

lemma mem_value_items [simp]: "mem_value (h\<lparr>h_items := f\<rparr>) ob = mem_value h ob"
  by (cases ob) (simp_all add: meta_value_def map_value_def[abs_def])

text \<open>The slots \<open>i\<close> to \<open>i + length xs\<close> of the new array at \<open>dst\<close> hold copies of \<open>xs\<close>; nothing below
  \<open>base\<close> has changed.\<close>

definition filled :: "('i \<Rightarrow> mem_object) \<Rightarrow> addr \<Rightarrow> addr \<Rightarrow> nat \<Rightarrow> 'i list \<Rightarrow> 'i list \<Rightarrow> 'i heap \<Rightarrow> 'i heap \<Rightarrow> bool" where
  "filled c base dst i xs ys h h' \<longleftrightarrow>
     (\<forall>a < base. h_maps h' a = h_maps h a \<and> h_strs h' a = h_strs h a \<and>
        h_owners h' a = h_owners h a \<and> h_items h' a = h_items h a) \<and> h_next h \<le> h_next h' \<and>
     (\<forall>ob. live h ob \<longrightarrow> mem_value h' ob = mem_value h ob) \<and>
     (\<exists>zs. h_items h' dst = Some (take i ys @ zs @ drop (i + length xs) ys) \<and>
        map (\<lambda>z. mem_value h' (c z)) zs = map (\<lambda>x. mem_value h (c x)) xs)"

text \<open>The heap after one round of the loop.\<close>

definition put_item :: "addr \<Rightarrow> nat \<Rightarrow> 'i \<Rightarrow> 'i heap \<Rightarrow> 'i heap" where
  "put_item dst i y h = h\<lparr>h_items := (h_items h)(dst := map_option (\<lambda>ys. ys[i := y]) (h_items h dst))\<rparr>"

lemma put_item_simps [simp]:
  "mem_value (put_item dst i y h) ob = mem_value h ob" "live (put_item dst i y h) ob = live h ob"
  "h_next (put_item dst i y h) = h_next h" "h_maps (put_item dst i y h) = h_maps h"
  "h_strs (put_item dst i y h) = h_strs h" "h_owners (put_item dst i y h) = h_owners h"
  by (simp_all add: put_item_def live_def)

lemma filled_Cons:
  assumes x: "live h (c x)" "\<forall>x \<in> set xs. live h (c x)" and y: "copied h (c x) (c y) h1"
    and dst: "base \<le> dst" "dst < h_next h" "h_items h dst = Some ys" "i < length ys"
    and rest: "filled c base dst (Suc i) xs (ys[i := y]) (put_item dst i y h1) h2"
  shows "filled c base dst i (x # xs) ys h h2"
proof -
  have k: "kept h h1" using y by (simp add: copied_def)
  have keep: "mem_value h2 ob = mem_value h ob" if "live h ob" for ob
    using rest live_kept[OF that k] mem_value_kept[OF k that] by (simp add: filled_def)
  obtain zs where zs: "h_items h2 dst = Some (take (Suc i) (ys[i := y]) @ zs @ drop (Suc i + length xs) (ys[i := y]))"
    "map (\<lambda>z. mem_value h2 (c z)) zs = map (\<lambda>x. mem_value h1 (c x)) xs"
    using rest by (auto simp: filled_def)
  have "mem_value h2 (c y) = mem_value h (c x)"
    using rest copied_live[OF y x(1)] y by (simp add: filled_def copied_def)
  moreover have "map (\<lambda>x. mem_value h1 (c x)) xs = map (\<lambda>x. mem_value h (c x)) xs"
    using mem_value_kept[OF k] x(2) by simp
  moreover have "take (Suc i) (ys[i := y]) = take i ys @ [y]" using dst(4) by (simp add: take_Suc_conv_app_nth)
  ultimately have "\<exists>zs. h_items h2 dst = Some (take i ys @ zs @ drop (i + length (x # xs)) ys) \<and>
      map (\<lambda>z. mem_value h2 (c z)) zs = map (\<lambda>x. mem_value h (c x)) (x # xs)"
    using zs by (intro exI[of _ "y # zs"]) simp
  then show ?thesis using rest k dst(1,2) keep
    by (simp add: filled_def kept_def) (simp add: put_item_def)
qed

lemma wp_copy_items:
  assumes into: "\<And>x h. live h (c x) \<Longrightarrow> wp (into x) (\<lambda>y h'. copied h (c x) (c y) h') h"
  shows "\<forall>x \<in> set xs. live h (c x) \<Longrightarrow> base \<le> dst \<Longrightarrow> dst < h_next h \<Longrightarrow> h_items h dst = Some ys \<Longrightarrow>
     i + length xs \<le> length ys \<Longrightarrow> wp (copy_items into dst i xs) (\<lambda>_ h'. filled c base dst i xs ys h h') h"
proof (induction xs arbitrary: h ys i)
  case Nil
  then show ?case by (simp add: wp filled_def)
next
  case (Cons x xs)
  then have x: "live h (c x)" by simp
  show ?case unfolding copy_items.simps wp put_item_def[symmetric]
  proof (rule wp_mono[OF into[OF x]])
    fix y h1
    assume y: "copied h (c x) (c y) h1"
    then have k: "kept h h1" by (simp add: copied_def)
    have "wp (copy_items into dst (Suc i) xs) (\<lambda>_ h'. filled c base dst (Suc i) xs (ys[i := y]) (put_item dst i y h1) h')
        (put_item dst i y h1)"
      by (rule Cons.IH) (use Cons.prems live_kept[OF _ k] k in \<open>auto simp: kept_def put_item_def live_def\<close>)
    then show "wp (copy_items into dst (Suc i) xs) (\<lambda>_ h'. filled c base dst i (x # xs) ys h h') (put_item dst i y h1)"
      by (rule wp_mono) (rule filled_Cons[OF x _ y], use Cons.prems in auto)
  qed
qed

text \<open>What a copy method of a list does: the copy has equal items in an array of its own, the original stays.\<close>

definition list_copied :: "('i \<Rightarrow> mem_object) \<Rightarrow> 'i heap \<Rightarrow> mlist \<Rightarrow> mlist \<Rightarrow> 'i heap \<Rightarrow> bool" where
  "list_copied c h l l' h' \<longleftrightarrow> kept h h' \<and> ml_Meta l' = ml_Meta l \<and> items_value c h' l' = items_value c h l \<and>
     (\<forall>s \<in> set_option (ml_Items l'). h_next h \<le> sl_arr s)"

lemma wp_make_items:
  assumes into: "\<And>x h. live h (c x) \<Longrightarrow> wp (into x) (\<lambda>y h'. copied h (c x) (c y) h') h"
    and "ml_Items l = Some s" and "\<forall>x \<in> set (window (h_items h) s). live h (c x)"
  shows "wp (make_items into zero s) (\<lambda>t h'. list_copied c h l (l\<lparr>ml_Items := t\<rparr>) h') h"
proof -
  let ?xs = "window (h_items h) s" and ?a = "h_next h"
  let ?z = "replicate (length ?xs) zero"
  let ?h = "h\<lparr>h_items := (h_items h)(?a \<mapsto> ?z), h_next := Suc ?a\<rparr>"
  have live: "live ?h ob" if "live h ob" for ob using that by (auto simp: live_def less_Suc_eq)
  have val: "mem_value ?h ob = mem_value h ob" if "live h ob" for ob
    by (rule mem_value_kept[OF _ that]) (simp add: kept_def)
  have *: "wp (copy_items into ?a 0 ?xs) (\<lambda>_ h'. filled c ?a ?a 0 ?xs ?z ?h h') ?h"
    by (rule wp_copy_items[OF into]) (use assms(3) live in auto)
  show ?thesis unfolding make_items_def wp whole_arr
  proof (rule wp_mono[OF *], unfold filled_def, elim conjE exE, goal_cases)
    case (1 u h' zs)
    then have z: "h_items h' ?a = Some zs" by simp
    have "length zs = length ?xs" using 1(5) by (metis length_map)
    then have "slice_value (h_items h') (Some (whole ?a ?z)) = zs" using z by (simp add: slice_value_def window_def whole_def)
    moreover have "map (\<lambda>x. mem_value ?h (c x)) ?xs = map (\<lambda>x. mem_value h (c x)) ?xs" using val assms(3) by simp
    ultimately show ?case using 1 assms(2) by (auto simp: list_copied_def items_value_def kept_def slice_value_def[of _ "Some s"])
  qed
qed

lemma wp_append_list:
  assumes "ml_Items l = Some s" and "\<forall>x \<in> set (window (h_items h) s). live h (c x)"
  shows "wp (append_items s) (\<lambda>t h'. list_copied c h l (l\<lparr>ml_Items := t\<rparr>) h') h"
proof (rule run_wp)
  fix t h' assume r: "run_state (append_items s) h = (t, h')"
  have k: "kept h h'" "slice_value (h_items h') t = window (h_items h) s"
    using wp_run[OF wp_append_items r] by auto
  have "\<forall>s \<in> set_option t. h_next h \<le> sl_arr s"
    using r by (auto simp: append_items_def read_heap_def alloc_items_def State_Monad.bind_def State_Monad.return_def split: if_splits)
  moreover have "map (\<lambda>x. mem_value h' (c x)) (window (h_items h) s) = map (\<lambda>x. mem_value h (c x)) (window (h_items h) s)"
    using assms(2) mem_value_kept[OF k(1)] by simp
  ultimately show "list_copied c h l (l\<lparr>ml_Items := t\<rparr>) h'"
    using k assms(1) by (simp add: list_copied_def items_value_def slice_value_def[of _ "Some s"])
qed

lemma wp_copy_list:
  assumes "\<And>s. ml_Items l = Some s \<Longrightarrow> wp (items s) (\<lambda>t h'. list_copied c h l (l\<lparr>ml_Items := t\<rparr>) h') h"
  shows "wp (copy_list items l) (\<lambda>l' h'. list_copied c h l l' h') h"
proof (cases "ml_Items l")
  case None
  then show ?thesis by (simp add: copy_list_def wp list_copied_def)
next
  case (Some s)
  then show ?thesis using assms[OF Some] by (simp add: copy_list_def wp wp_return_fun)
qed

end
