(* ===== verification/Go_Time.thy ===== *)
theory Go_Time
  imports Api_Types
begin

text \<open>
  \<^verbatim>\<open>time.Time.UTC().Format(time.RFC3339)\<close>, by the calendar algorithm of Go's \<^verbatim>\<open>time\<close> package: cycles of
  400, 100, 4 and 1 years, then the table of the days before each month. Two times have the
  same text exactly when they lie in the same second.
\<close>

section \<open>Dates\<close>

text \<open>Years and days of the year from the days since 0001-01-01; the last century and the last year of a cycle are longer.\<close>

definition year_yday :: "int \<Rightarrow> int \<times> int" where
  "year_yday D =
     (let a = D div 146097; d400 = D mod 146097;
          b = min 3 (d400 div 36524); d100 = d400 - 36524 * b;
          c = d100 div 1461; d4 = d100 mod 1461;
          e = min 3 (d4 div 365)
      in (400 * a + 100 * b + 4 * c + e + 1, d4 - 365 * e))"

definition is_leap :: "int \<Rightarrow> bool" where
  "is_leap y \<longleftrightarrow> y mod 4 = 0 \<and> (y mod 100 \<noteq> 0 \<or> y mod 400 = 0)"

definition days_before :: "nat list" where
  "days_before = [0, 31, 59, 90, 120, 151, 181, 212, 243, 273, 304, 334]"

definition month_day :: "bool \<Rightarrow> nat \<Rightarrow> nat \<times> nat" where
  "month_day leap yday =
     (if leap \<and> yday = 59 then (2, 29)
      else (let d = (if leap \<and> 59 < yday then yday - 1 else yday);
                k = length (takeWhile (\<lambda>x. x \<le> d) (tl days_before))
            in (k + 1, d - days_before ! k + 1)))"

definition pad :: "nat \<Rightarrow> nat \<Rightarrow> string" where
  "pad w n = replicate (w - length (show_nat n)) (CHR ''0'') @ show_nat n"

definition show_year :: "int \<Rightarrow> string" where
  "show_year y = (if y < 0 then ''-'' @ pad 4 (nat (- y)) else pad 4 (nat y))"

text \<open>719162 days from 0001-01-01 to 1970-01-01.\<close>

definition RFC3339 :: "time \<Rightarrow> string" where
  "RFC3339 t =
     (let secs = t div 1000000000; sod = nat (secs mod 86400);
          (y, yday) = year_yday (secs div 86400 + 719162);
          (m, d) = month_day (is_leap y) (nat yday)
      in show_year y @ ''-'' @ pad 2 m @ ''-'' @ pad 2 d @ ''T'' @ pad 2 (sod div 3600) @ '':''
         @ pad 2 (sod div 60 mod 60) @ '':'' @ pad 2 (sod mod 60) @ ''Z'')"

section \<open>Dates determine days\<close>

text \<open>The entry of the table that a day of a year without a leap day falls in.\<close>

lemma days_before_entry:
  assumes "x < 365" "k = length (takeWhile (\<lambda>y. y \<le> x) (tl days_before))"
  shows "k \<le> 11" "days_before ! k \<le> x" "x \<le> days_before ! k + 30" "2 \<le> k \<longleftrightarrow> 59 \<le> x"
proof -
  have len: "length (tl days_before) = 11" by (simp add: days_before_def)
  show k: "k \<le> 11" using length_takeWhile_le[of "\<lambda>y. y \<le> x" "tl days_before"] unfolding assms(2) len .
  show le: "days_before ! k \<le> x"
  proof (cases k)
    case 0
    then show ?thesis by (simp add: days_before_def)
  next
    case (Suc j)
    then have "takeWhile (\<lambda>y. y \<le> x) (tl days_before) ! j \<le> x"
      using nth_mem[of j "takeWhile (\<lambda>y. y \<le> x) (tl days_before)"] assms(2) set_takeWhileD[of _ "\<lambda>y. y \<le> x" "tl days_before"] by auto
    then have "tl days_before ! j \<le> x" using Suc assms(2) by (simp add: takeWhile_nth)
    then show ?thesis using Suc k len by (simp add: nth_tl)
  qed
  have gt: "x < days_before ! Suc k" if "k < 11"
    using nth_length_takeWhile[of "\<lambda>y. y \<le> x" "tl days_before"] that len unfolding assms(2)[symmetric]
    by (simp add: nth_tl)
  have "k = 0 \<or> k = 1 \<or> k = 2 \<or> k = 3 \<or> k = 4 \<or> k = 5 \<or> k = 6 \<or> k = 7 \<or> k = 8 \<or> k = 9 \<or> k = 10 \<or> k = 11"
    using k by presburger
  then show "x \<le> days_before ! k + 30" "2 \<le> k \<longleftrightarrow> 59 \<le> x"
    using le gt assms(1) by (elim disjE; simp add: days_before_def)+
qed

lemma month_day_inverse:
  assumes "month_day leap yday = (m, d)" "yday \<le> 365"
  shows "yday = days_before ! (m - 1) + d - 1 + (if leap \<and> 2 < m then 1 else 0)" "m \<le> 12" "d \<le> 32"
proof -
  define x where "x = (if leap \<and> 59 < yday then yday - 1 else yday)"
  define k where "k = length (takeWhile (\<lambda>y. y \<le> x) (tl days_before))"
  have "yday = days_before ! (m - 1) + d - 1 + (if leap \<and> 2 < m then 1 else 0) \<and> m \<le> 12 \<and> d \<le> 32"
  proof (cases "leap \<and> yday = 59")
    case True
    then show ?thesis using assms(1) by (simp add: month_day_def days_before_def)
  next
    case False
    then have md: "m = k + 1" "d = x - days_before ! k + 1" using assms(1) by (auto simp: month_day_def Let_def x_def k_def)
    show ?thesis
    proof (cases "x < 365")
      case True
      note days_before_entry[OF True k_def]
      then show ?thesis using False md by (auto simp: x_def split: if_splits)
    next
      case long: False
      then have "x = 365" "\<not> leap" using assms(2) by (auto simp: x_def split: if_splits)
      moreover from this have "k = 11" by (simp add: k_def days_before_def)
      ultimately show ?thesis using md by (simp add: x_def days_before_def)
    qed
  qed
  then show "yday = days_before ! (m - 1) + d - 1 + (if leap \<and> 2 < m then 1 else 0)" "m \<le> 12" "d \<le> 32" by simp_all
qed

lemma year_yday_inverse:
  assumes "year_yday D = (y, yday)"
  shows "D = 365 * (y - 1) + (y - 1) div 4 - (y - 1) div 100 + (y - 1) div 400 + yday" "0 \<le> yday" "yday \<le> 365"
proof -
  define a d400 where ad: "a = D div 146097" "d400 = D mod 146097"
  define b where b: "b = min 3 (d400 div 36524)"
  define d100 where d100: "d100 = d400 - 36524 * b"
  define c d4 where cd: "c = d100 div 1461" "d4 = d100 mod 1461"
  define e where e: "e = min 3 (d4 div 365)"
  have "year_yday D = (400 * a + 100 * b + 4 * c + e + 1, d4 - 365 * e)"
    by (simp only: year_yday_def Let_def ad b d100 cd e)
  then have y: "y - 1 = 400 * a + 100 * b + 4 * c + e" and yday: "yday = d4 - 365 * e" using assms by simp_all
  have r400: "0 \<le> d400" "d400 < 146097" and D: "D = 146097 * a + d400" by (simp_all add: ad)
  have b3: "0 \<le> b" "b \<le> 3" using r400 by (auto simp: b pos_imp_zdiv_nonneg_iff)
  have r100: "0 \<le> d100" "d100 \<le> 36524" using r400 by (auto simp: d100 b min_def)
  have c24: "0 \<le> c" "c \<le> 24" and r4: "0 \<le> d4" "d4 < 1461" "d100 = 1461 * c + d4" using r100 by (auto simp: cd)
  have e3: "0 \<le> e" "e \<le> 3" using r4 by (auto simp: e pos_imp_zdiv_nonneg_iff)
  show "0 \<le> yday" "yday \<le> 365" using r4 by (auto simp: yday e min_def)
  have "(y - 1) div 4 = 100 * a + 25 * b + c" "(y - 1) div 100 = 4 * a + b" "(y - 1) div 400 = a"
    using b3 c24 e3 unfolding y by (auto intro!: int_div_pos_eq[where r = e] int_div_pos_eq[where r = "4 * c + e"]
        int_div_pos_eq[where r = "100 * b + 4 * c + e"])
  then show "D = 365 * (y - 1) + (y - 1) div 4 - (y - 1) div 100 + (y - 1) div 400 + yday"
    unfolding y yday D using r4 d100 by simp
qed

section \<open>Texts determine dates\<close>

lemma length_show_nat: "1 \<le> w \<Longrightarrow> n < 10 ^ w \<Longrightarrow> length (show_nat n) \<le> w"
proof (induction n arbitrary: w rule: show_nat.induct)
  case (1 n)
  show ?case
  proof (cases "n < 10")
    case True
    then show ?thesis using 1 by (subst show_nat.simps) simp
  next
    case False
    then obtain v where v: "w = Suc v" "1 \<le> v" using 1(2,3) by (cases w; cases "w - 1") auto
    then have "n div 10 < 10 ^ v" using 1(3) by (simp add: less_mult_imp_div_less mult.commute)
    then show ?thesis using 1(1)[OF False v(2)] False v by (subst show_nat.simps) simp
  qed
qed

lemma length_pad: "1 \<le> w \<Longrightarrow> n < 10 ^ w \<Longrightarrow> length (pad w n) = w"
  using length_show_nat[of w n] by (simp add: pad_def)

lemma read_pad: "read_nat (pad w n) = n"
proof -
  have "read_nat (replicate k (CHR ''0'') @ s) = read_nat s" for k s
    by (induction k) (simp_all add: read_nat_def)
  then show ?thesis by (simp add: pad_def)
qed

lemma pad_inject:
  assumes "1 \<le> w" "m < 10 ^ w" "n < 10 ^ w"
  shows "pad w m @ s = pad w n @ t \<longleftrightarrow> m = n \<and> s = t"
proof
  assume "pad w m @ s = pad w n @ t"
  then have "pad w m = pad w n \<and> s = t" using length_pad[OF assms(1,2)] length_pad[OF assms(1,3)] by (simp add: append_eq_append_conv)
  then show "m = n \<and> s = t" by (metis read_pad)
qed simp

lemma pad_eq: "pad w m = pad w n \<longleftrightarrow> m = n"
  by (metis read_pad)

lemma pad_digits: "list_all is_digit (pad w n)"
  using show_nat_digits[of n] by (auto simp: pad_def list_all_iff is_digit_def)

lemma pad_dash_inject: "pad w m @ ''-'' @ s = pad w n @ ''-'' @ t \<longleftrightarrow> m = n \<and> s = t"
proof
  assume eq: "pad w m @ ''-'' @ s = pad w n @ ''-'' @ t"
  have "takeWhile is_digit (pad w k @ ''-'' @ u) = pad w k" for k u
    using pad_digits[of w k] by (simp add: takeWhile_append list_all_iff)
  then have "pad w m = pad w n" using eq by metis
  with eq show "m = n \<and> s = t" by (simp add: pad_eq)
qed simp

lemma pad_not_dash: "pad w n @ s \<noteq> ''-'' @ t"
proof -
  obtain c r where c: "pad w n = c # r" by (metis pad_def append_is_Nil_conv show_nat_not_Nil list.exhaust)
  then have "is_digit c" using pad_digits[of w n] by simp
  then show ?thesis using c by auto
qed

lemma show_year_inject: "show_year y @ ''-'' @ s = show_year z @ ''-'' @ t \<longleftrightarrow> y = z \<and> s = t"
proof (cases "y < 0 \<longleftrightarrow> z < 0")
  case True
  then show ?thesis using pad_dash_inject[of 4 "nat (- y)" s "nat (- z)" t] pad_dash_inject[of 4 "nat y" s "nat z" t]
    by (auto simp: show_year_def eq_nat_nat_iff)
next
  case False
  then show ?thesis using pad_not_dash[of 4 "nat y" "''-'' @ s" "pad 4 (nat (- z)) @ ''-'' @ t"]
      pad_not_dash[of 4 "nat z" "''-'' @ t" "pad 4 (nat (- y)) @ ''-'' @ s"]
    by (auto simp: show_year_def)
qed

text \<open>A second of the day is given by its hour, minute and second.\<close>

lemma clock_inject:
  fixes m n :: nat
  assumes "m div 3600 = n div 3600" "m div 60 mod 60 = n div 60 mod 60" "m mod 60 = n mod 60"
  shows "m = n"
proof -
  have "k = 3600 * (k div 3600) + 60 * (k div 60 mod 60) + k mod 60" for k :: nat
  proof -
    have "k div 3600 = k div 60 div 60" by (simp flip: div_mult2_eq)
    then show ?thesis using mult_div_mod_eq[of 60 k] mult_div_mod_eq[of 60 "k div 60"] by linarith
  qed
  then show ?thesis using assms by metis
qed

lemma pad2_inject: "a < 100 \<Longrightarrow> b < 100 \<Longrightarrow> pad 2 a @ s = pad 2 b @ t \<longleftrightarrow> a = b \<and> s = t"
  using pad_inject[of 2 a b s t] by simp

lemma clock_text_inject:
  assumes "u < 86400" "v < 86400"
    and "pad 2 (u div 3600) @ '':'' @ pad 2 (u div 60 mod 60) @ '':'' @ pad 2 (u mod 60) @ ''Z''
       = pad 2 (v div 3600) @ '':'' @ pad 2 (v div 60 mod 60) @ '':'' @ pad 2 (v mod 60) @ ''Z''"
  shows "u = v"
proof (rule clock_inject)
  have hours: "u div 3600 < 100" "v div 3600 < 100" using assms(1,2) by (simp_all add: less_mult_imp_div_less)
  have sixty: "k mod 60 < 100" for k :: nat using mod_less_divisor[of 60 k] by linarith
  note eq = assms(3)[unfolded pad2_inject[OF hours] append.simps list.inject pad2_inject[OF sixty sixty]]
  show "u div 3600 = v div 3600" "u div 60 mod 60 = v div 60 mod 60" "u mod 60 = v mod 60"
    using eq by simp_all
qed

text \<open>Times with the same text lie in the same second.\<close>

lemma RFC3339_second:
  assumes "RFC3339 s = RFC3339 t"
  shows "s div 1000000000 = t div 1000000000"
proof -
  define S where "S = s div 1000000000"
  define T where "T = t div 1000000000"
  obtain y yd where y: "year_yday (S div 86400 + 719162) = (y, yd)" by fastforce
  obtain y' yd' where y': "year_yday (T div 86400 + 719162) = (y', yd')" by fastforce
  obtain m d where m: "month_day (is_leap y) (nat yd) = (m, d)" by fastforce
  obtain m' d' where m': "month_day (is_leap y') (nat yd') = (m', d')" by fastforce
  note Y = year_yday_inverse[OF y] and Y' = year_yday_inverse[OF y']
  have M: "nat yd = days_before ! (m - 1) + d - 1 + (if is_leap y \<and> 2 < m then 1 else 0)" "m \<le> 12" "d \<le> 32"
    using month_day_inverse[OF m] Y(2,3) by simp_all
  have M': "nat yd' = days_before ! (m' - 1) + d' - 1 + (if is_leap y' \<and> 2 < m' then 1 else 0)" "m' \<le> 12" "d' \<le> 32"
    using month_day_inverse[OF m'] Y'(2,3) by simp_all
  define u where "u = nat (S mod 86400)"
  define v where "v = nat (T mod 86400)"
  have small: "m < 100" "m' < 100" "d < 100" "d' < 100" using M(2,3) M'(2,3) by simp_all
  have eq: "show_year y @ ''-'' @ pad 2 m @ ''-'' @ pad 2 d @ ''T'' @ pad 2 (u div 3600) @ '':''
         @ pad 2 (u div 60 mod 60) @ '':'' @ pad 2 (u mod 60) @ ''Z''
      = show_year y' @ ''-'' @ pad 2 m' @ ''-'' @ pad 2 d' @ ''T'' @ pad 2 (v div 3600) @ '':''
         @ pad 2 (v div 60 mod 60) @ '':'' @ pad 2 (v mod 60) @ ''Z''"
    using assms by (simp add: RFC3339_def Let_def y[unfolded S_def] y'[unfolded T_def] m m' S_def T_def u_def v_def)
  note eqs = eq[unfolded show_year_inject pad2_inject[OF small(1,2)],
      unfolded append.simps list.inject pad2_inject[OF small(1,2)] pad2_inject[OF small(3,4)] simp_thms]
  then have "u = v" by (intro clock_text_inject) (simp_all add: u_def v_def nat_less_iff)
  have "nat yd = nat yd'" using M(1) M'(1) eqs by simp
  then have "yd = yd'" using Y(2) Y'(2) by simp
  then have "S div 86400 = T div 86400" using Y(1) Y'(1) eqs by simp
  moreover have "S mod 86400 = T mod 86400" using \<open>u = v\<close> by (simp add: u_def v_def nat_eq_iff)
  ultimately have "S = T" by (metis div_mult_mod_eq)
  then show ?thesis by (simp add: S_def T_def)
qed

text \<open>The text depends on the second only; a date with a leap day.\<close>

lemma RFC3339_same_second: "s div 1000000000 = t div 1000000000 \<Longrightarrow> RFC3339 s = RFC3339 t"
  by (simp add: RFC3339_def)

lemma RFC3339_leap_day: "RFC3339 1709210096000000000 = ''2024-02-29T12:34:56Z''"
proof -
  have "year_yday 738944 = (2024, 59)" by (simp add: year_yday_def Let_def)
  moreover have "is_leap 2024" by (simp add: is_leap_def)
  moreover have "month_day True 59 = (2, 29)" by (simp add: month_day_def)
  moreover have "pad 4 2024 = ''2024''" "pad 2 2 = ''02''" "pad 2 29 = ''29''" "pad 2 12 = ''12''" "pad 2 34 = ''34''"
    "pad 2 56 = ''56''"
    by (simp_all add: pad_def show_nat.simps char_of_def bit_0)
  ultimately show ?thesis by (simp add: RFC3339_def show_year_def)
qed

end
