(* ===== verification/V1_Controllers.thy ===== *)
theory V1_Controllers
  imports Api_V1 Go_Time
begin

text \<open>
  The controllers of \<^verbatim>\<open>storage.kubenas.io/v1\<close> (\<^verbatim>\<open>controllers/new_arch_controllers.go\<close>): each fetches its
  object and writes the time of the call, to the second, into an annotation. Shown: they change nothing
  but this annotation and the first status of a disk, and they never settle, because every write of the
  annotation is a new event for the same controller. The clients decode the server's answer into the
  object, so a second write in the same call carries the new resource version.
\<close>

section \<open>The controllers\<close>

record 'w v1_env =
  v1_Get :: "v1_kind \<Rightarrow> nskey \<Rightarrow> ('w, error + v1_object) state"
  v1_Update :: "v1_object \<Rightarrow> ('w, error + v1_object) state"
  v1_StatusUpdate :: "v1_object \<Rightarrow> ('w, error + v1_object) state"
  v1_now :: "('w, time) state"

definition reconcileAnnotation :: string where
  "reconcileAnnotation = ''kubenas.io/last-reconciled''"

definition v1_annotations :: "v1_object \<Rightarrow> string \<rightharpoonup> string" where
  "v1_annotations ob = (case meta_Annotations (v1_meta ob) of None \<Rightarrow> Map.empty | Some m \<Rightarrow> m)"

definition v1_annotate :: "string \<Rightarrow> v1_object \<Rightarrow> v1_object" where
  "v1_annotate s ob = v1_map_meta (meta_Annotations_update (\<lambda>_. Some ((v1_annotations ob)(reconcileAnnotation \<mapsto> s)))) ob"

definition reconcileObject :: "'w v1_env \<Rightarrow> v1_object \<Rightarrow> ('w, ctrl_Result \<times> error option) state" where
  "reconcileObject cl obj = do {
     t \<leftarrow> v1_now cl;
     let now = RFC3339 t;
     if (case v1_annotations obj reconcileAnnotation of None \<Rightarrow> '''' | Some s \<Rightarrow> s) = now
     then State_Monad.return (Result_zero, None)
     else do {
       r \<leftarrow> v1_Update cl (v1_annotate now obj);
       State_Monad.return (case r of Inl err \<Rightarrow> (Result_zero, Some err) | Inr new \<Rightarrow> (requeue_after 300, None))
     }
   }"

text \<open>\<^verbatim>\<open>r.Get\<close> with the shared treatment of its errors.\<close>

definition v1_fetch ::
  "'w v1_env \<Rightarrow> v1_kind \<Rightarrow> nskey \<Rightarrow> (v1_object \<Rightarrow> ('w, ctrl_Result \<times> error option) state)
     \<Rightarrow> ('w, ctrl_Result \<times> error option) state" where
  "v1_fetch cl k n f = do {
     r \<leftarrow> v1_Get cl k n;
     case r of
       Inl err \<Rightarrow> State_Monad.return (Result_zero, if IsNotFound err then None else Some err)
     | Inr obj \<Rightarrow> f obj
   }"

definition v1_default_status :: "V1Disk \<Rightarrow> V1Disk" where
  "v1_default_status d = d\<lparr>vdisk_Status := \<lparr>vdisk_StatusState = DiskStateUnassigned, vdisk_StatusHealth = ''Healthy''\<rparr>\<rparr>"

definition DiskController_Reconcile :: "'w v1_env \<Rightarrow> nskey \<Rightarrow> ('w, ctrl_Result \<times> error option) state" where
  "DiskController_Reconcile cl n = v1_fetch cl V1KDisk n (\<lambda>obj.
     case obj of
       V1ODisk d \<Rightarrow>
         if vdisk_StatusState (vdisk_Status d) = '''' then do {
           r \<leftarrow> v1_StatusUpdate cl (V1ODisk (v1_default_status d));
           reconcileObject cl (case r of Inl err \<Rightarrow> V1ODisk (v1_default_status d) | Inr new \<Rightarrow> new)
         } else reconcileObject cl (V1ODisk d)
     | _ \<Rightarrow> State_Monad.return (Result_zero, Some decode_error))"

definition DiskClaimController_Reconcile :: "'w v1_env \<Rightarrow> nskey \<Rightarrow> ('w, ctrl_Result \<times> error option) state" where
  "DiskClaimController_Reconcile cl n = v1_fetch cl V1KDiskClaim n (reconcileObject cl)"

definition UnassignedDiskController_Reconcile :: "'w v1_env \<Rightarrow> nskey \<Rightarrow> ('w, ctrl_Result \<times> error option) state" where
  "UnassignedDiskController_Reconcile cl n = v1_fetch cl V1KUnassignedDisk n (reconcileObject cl)"

definition PoolController_Reconcile :: "'w v1_env \<Rightarrow> nskey \<Rightarrow> ('w, ctrl_Result \<times> error option) state" where
  "PoolController_Reconcile cl n = v1_fetch cl V1KStoragePool n (reconcileObject cl)"

definition FilesystemController_Reconcile :: "'w v1_env \<Rightarrow> nskey \<Rightarrow> ('w, ctrl_Result \<times> error option) state" where
  "FilesystemController_Reconcile cl n = v1_fetch cl V1KFilesystem n (reconcileObject cl)"

definition ShareControllerV1_Reconcile :: "'w v1_env \<Rightarrow> nskey \<Rightarrow> ('w, ctrl_Result \<times> error option) state" where
  "ShareControllerV1_Reconcile cl n = v1_fetch cl V1KShare n (reconcileObject cl)"

definition VolumeController_Reconcile :: "'w v1_env \<Rightarrow> nskey \<Rightarrow> ('w, ctrl_Result \<times> error option) state" where
  "VolumeController_Reconcile cl n = v1_fetch cl V1KVolume n (reconcileObject cl)"

definition TierController_Reconcile :: "'w v1_env \<Rightarrow> nskey \<Rightarrow> ('w, ctrl_Result \<times> error option) state" where
  "TierController_Reconcile cl n = v1_fetch cl V1KTierPolicy n (reconcileObject cl)"

text \<open>The controller of a kind; the three safeguard kinds have none.\<close>

fun v1_controller :: "'w v1_env \<Rightarrow> v1_kind \<Rightarrow> (nskey \<Rightarrow> ('w, ctrl_Result \<times> error option) state) option" where
  "v1_controller cl V1KDisk = Some (DiskController_Reconcile cl)"
| "v1_controller cl V1KDiskClaim = Some (DiskClaimController_Reconcile cl)"
| "v1_controller cl V1KUnassignedDisk = Some (UnassignedDiskController_Reconcile cl)"
| "v1_controller cl V1KStoragePool = Some (PoolController_Reconcile cl)"
| "v1_controller cl V1KFilesystem = Some (FilesystemController_Reconcile cl)"
| "v1_controller cl V1KShare = Some (ShareControllerV1_Reconcile cl)"
| "v1_controller cl V1KVolume = Some (VolumeController_Reconcile cl)"
| "v1_controller cl V1KTierPolicy = Some (TierController_Reconcile cl)"
| "v1_controller cl _ = None"

lemmas simple_controllers = DiskClaimController_Reconcile_def UnassignedDiskController_Reconcile_def
  PoolController_Reconcile_def FilesystemController_Reconcile_def ShareControllerV1_Reconcile_def
  VolumeController_Reconcile_def TierController_Reconcile_def

section \<open>The contract of the API server\<close>

type_synonym v1_store = "v1_kind \<Rightarrow> nskey \<Rightarrow> v1_object option"

definition v1_set :: "v1_store \<Rightarrow> v1_object \<Rightarrow> v1_object option \<Rightarrow> v1_store" where
  "v1_set v ob x = (\<lambda>k n. if k = v1_kind_of ob \<and> n = v1_key ob then x else v k n)"

definition v1_rv :: "v1_object \<Rightarrow> string" where
  "v1_rv ob = meta_ResourceVersion (v1_meta ob)"

locale v1_api =
  fixes cl :: "'w v1_env" and view :: "'w \<Rightarrow> v1_store" and clock :: "'w \<Rightarrow> time"
  assumes get_law: "run_state (v1_Get cl k n) w = (r, w') \<Longrightarrow> view w' = view w \<and> clock w \<le> clock w' \<and>
       (case r of Inr ob \<Rightarrow> view w k n = Some ob \<and> v1_kind_of ob = k \<and> v1_key ob = n
                | Inl e \<Rightarrow> IsNotFound e \<longrightarrow> view w k n = None)"
    and update_law: "run_state (v1_Update cl ob) w = (r, w') \<Longrightarrow> clock w \<le> clock w' \<and>
       (case r of Inl e \<Rightarrow> view w' = view w
        | Inr new \<Rightarrow> \<exists>old rv. view w (v1_kind_of ob) (v1_key ob) = Some old \<and>
            new = v1_with_rv rv (v1_put_main old ob) \<and> view w' = v1_set (view w) ob (Some new))"
    and status_law: "run_state (v1_StatusUpdate cl ob) w = (r, w') \<Longrightarrow> clock w \<le> clock w' \<and>
       (case r of Inl e \<Rightarrow> view w' = view w
        | Inr new \<Rightarrow> \<exists>old rv. view w (v1_kind_of ob) (v1_key ob) = Some old \<and>
            new = v1_with_rv rv (v1_put_status old ob) \<and> view w' = v1_set (view w) ob (Some new))"
    and now_law: "run_state (v1_now cl) w = (t, w') \<Longrightarrow> view w' = view w \<and> clock w \<le> t \<and> t \<le> clock w'"

text \<open>A server that admits every update whose resource version is the stored one.\<close>

locale v1_serving = v1_api cl view clock
  for cl :: "'w v1_env" and view :: "'w \<Rightarrow> v1_store" and clock :: "'w \<Rightarrow> time" +
  assumes serve_law: "run_state (v1_Update cl ob) w = (r, w') \<Longrightarrow> view w (v1_kind_of ob) (v1_key ob) = Some old \<Longrightarrow>
      v1_rv ob = v1_rv old \<Longrightarrow> \<exists>new. r = Inr new"

section \<open>What the controllers write\<close>

lemma v1_set_same [simp]: "v1_set v ob x (v1_kind_of ob) (v1_key ob) = x"
  by (simp add: v1_set_def)

lemma v1_set_other: "k \<noteq> v1_kind_of ob \<Longrightarrow> v1_set v ob x k = v k"
  by (simp add: v1_set_def fun_eq_iff)

lemma v1_annotate_simps [simp]:
  "v1_kind_of (v1_annotate s ob) = v1_kind_of ob" "v1_key (v1_annotate s ob) = v1_key ob" "v1_rv (v1_annotate s ob) = v1_rv ob"
  by (simp_all add: v1_annotate_def v1_key_def v1_rv_def)

lemma v1_annotations_annotate [simp]:
  "v1_annotations (v1_annotate s ob) = (v1_annotations ob)(reconcileAnnotation \<mapsto> s)"
  by (simp add: v1_annotate_def v1_annotations_def)

lemma v1_annotations_keep [simp]:
  "v1_annotations (v1_with_rv rv ob) = v1_annotations ob" "v1_annotations (v1_put_main old ob) = v1_annotations ob"
  "v1_annotations (v1_put_status ob new) = v1_annotations ob"
  by (simp_all add: v1_annotations_def v1_with_rv_def)

lemma v1_keys_keep [simp]: "v1_key (v1_put_main old ob) = v1_key ob" "v1_key (v1_put_status ob new) = v1_key ob"
  "v1_rv (v1_put_status ob new) = v1_rv ob"
  by (simp_all add: v1_key_def v1_rv_def)

text \<open>The object with the first status of a disk.\<close>

definition v1_started :: "v1_object \<Rightarrow> v1_object" where
  "v1_started ob = (case ob of V1ODisk d \<Rightarrow>
      V1ODisk (if vdisk_StatusState (vdisk_Status d) = '''' then v1_default_status d else d) | _ \<Rightarrow> ob)"

definition v1_touched :: "v1_object \<Rightarrow> v1_object \<Rightarrow> bool" where
  "v1_touched ob ob' \<longleftrightarrow> ob' = ob \<or> (\<exists>rv s. ob' = v1_with_rv rv (v1_annotate s ob)) \<or>
     (\<exists>rv. ob' = v1_with_rv rv (v1_started ob)) \<or> (\<exists>rv s. ob' = v1_with_rv rv (v1_annotate s (v1_started ob)))"

lemma v1_put_main_self [simp]: "v1_put_main ob (v1_annotate s ob) = v1_annotate s ob"
  by (cases ob) (simp_all add: v1_put_main_def v1_annotate_def)

lemma v1_with_rv_annotate: "v1_with_rv rv (v1_annotate s (v1_with_rv rv' ob)) = v1_with_rv rv (v1_annotate s ob)"
  by (cases ob) (simp_all add: v1_with_rv_def v1_annotate_def v1_annotations_def)

lemma v1_touchedI:
  "v1_touched ob ob" "v1_touched ob (v1_with_rv rv (v1_annotate s ob))" "v1_touched ob (v1_with_rv rv (v1_started ob))"
  "v1_touched ob (v1_with_rv rv (v1_annotate s (v1_started ob)))"
  unfolding v1_touched_def by blast+

context v1_api begin

lemma wp_reconcileObject:
  assumes "view w (v1_kind_of obj) (v1_key obj) = Some old"
  shows "wp (reconcileObject cl obj) (\<lambda>r w'. view w' = view w \<or>
     (\<exists>rv s. view w' = v1_set (view w) obj (Some (v1_with_rv rv (v1_put_main old (v1_annotate s obj)))))) w"
  unfolding reconcileObject_def wp Let_def
proof (rule run_wp, goal_cases)
  case (1 t w1)
  have up: "wp (v1_Update cl (v1_annotate s obj)) (\<lambda>r w'. view w' = view w \<or>
      (\<exists>rv s. view w' = v1_set (view w) obj (Some (v1_with_rv rv (v1_put_main old (v1_annotate s obj)))))) w1" for s
  proof (rule run_wp)
    fix r w' assume "run_state (v1_Update cl (v1_annotate s obj)) w1 = (r, w')"
    from update_law[OF this] now_law[OF 1] assms
    show "view w' = view w \<or> (\<exists>rv s. view w' = v1_set (view w) obj (Some (v1_with_rv rv (v1_put_main old (v1_annotate s obj)))))"
      by (cases r) (auto simp: v1_set_def)
  qed
  show ?case using now_law[OF 1] up by auto
qed

lemma wp_v1_fetch:
  assumes "\<And>ob w'. view w' = view w \<Longrightarrow> clock w \<le> clock w' \<Longrightarrow> view w k n = Some ob \<Longrightarrow> v1_kind_of ob = k \<Longrightarrow> v1_key ob = n \<Longrightarrow>
      wp (f ob) Q w'"
    and "\<And>w' e. view w' = view w \<Longrightarrow> (e = None \<Longrightarrow> view w k n = None) \<Longrightarrow> Q (Result_zero, e) w'"
  shows "wp (v1_fetch cl k n f) Q w"
  unfolding v1_fetch_def wp
proof (rule run_wp, goal_cases)
  case (1 r w')
  from get_law[OF 1] show ?case by (cases r) (auto intro: assms)
qed

definition touched_at :: "v1_kind \<Rightarrow> nskey \<Rightarrow> 'w \<Rightarrow> 'w \<Rightarrow> bool" where
  "touched_at k n w w' \<longleftrightarrow> view w' = view w \<or>
     (\<exists>ob ob'. view w k n = Some ob \<and> v1_kind_of ob = k \<and> v1_key ob = n \<and> v1_touched ob ob' \<and>
        view w' = v1_set (view w) ob (Some ob'))"

lemma wp_plain: "wp (v1_fetch cl k n (reconcileObject cl)) (\<lambda>r w'. touched_at k n w w') w"
proof (rule wp_v1_fetch, goal_cases)
  case (1 ob w1)
  then have v: "view w1 (v1_kind_of ob) (v1_key ob) = Some ob" by simp
  show ?case
  proof (rule wp_mono[OF wp_reconcileObject[OF v]], elim disjE exE, goal_cases)
    case (2 r w' rv s)
    then show ?case using 1 v1_touchedI(2)[of ob rv s] unfolding touched_at_def v1_put_main_self by auto
  qed (use 1 in \<open>simp add: touched_at_def\<close>)
qed (simp add: touched_at_def)

lemma v1_started_disk:
  assumes "vdisk_StatusState (vdisk_Status d) = ''''"
  shows "v1_started (V1ODisk d) = V1ODisk (v1_default_status d)"
    "v1_put_status (V1ODisk d) (V1ODisk (v1_default_status d)) = v1_started (V1ODisk d)"
    "v1_put_main (V1ODisk d) (v1_annotate s (V1ODisk (v1_default_status d))) = v1_annotate s (V1ODisk d)"
  using assms by (simp_all add: v1_started_def v1_put_status_def v1_put_main_def v1_default_status_def v1_annotate_def v1_annotations_def)

text \<open>The heartbeat after the first status was refused, and after it was stored.\<close>

lemma wp_heartbeat_refused:
  assumes d: "vdisk_StatusState (vdisk_Status d) = ''''" and v: "view w (v1_kind_of (V1ODisk d)) (v1_key (V1ODisk d)) = Some (V1ODisk d)"
    and w1: "view w1 = view w"
  shows "wp (reconcileObject cl (V1ODisk (v1_default_status d))) (\<lambda>r w'. view w' = view w \<or>
     (\<exists>ob'. v1_touched (V1ODisk d) ob' \<and> view w' = v1_set (view w) (V1ODisk d) (Some ob'))) w1"
proof -
  let ?d = "V1ODisk (v1_default_status d)"
  have same: "v1_kind_of ?d = v1_kind_of (V1ODisk d)" "v1_key ?d = v1_key (V1ODisk d)"
    by (simp_all add: v1_key_def v1_default_status_def)
  have v1: "view w1 (v1_kind_of ?d) (v1_key ?d) = Some (V1ODisk d)" using v w1 same by simp
  show ?thesis
  proof (rule wp_mono[OF wp_reconcileObject[OF v1]], elim disjE exE, goal_cases)
    case (2 r w' rv s)
    then have "view w' = v1_set (view w) (V1ODisk d) (Some (v1_with_rv rv (v1_annotate s (V1ODisk d))))"
      using w1 same by (simp add: v1_set_def v1_started_disk[OF d])
    then show ?case using v1_touchedI(2) by blast
  qed (use w1 in simp)
qed

lemma wp_heartbeat_started:
  assumes d: "vdisk_StatusState (vdisk_Status d) = ''''"
    and new: "new = v1_with_rv rv (v1_started (V1ODisk d))" "view w1 = v1_set (view w) (V1ODisk d) (Some new)"
  shows "wp (reconcileObject cl new) (\<lambda>r w'. \<exists>ob'. v1_touched (V1ODisk d) ob' \<and> view w' = v1_set (view w) (V1ODisk d) (Some ob')) w1"
proof -
  have "v1_key (V1ODisk (v1_default_status d)) = v1_key (V1ODisk d)" by (simp add: v1_key_def v1_default_status_def)
  then have nk: "v1_kind_of new = v1_kind_of (V1ODisk d)" "v1_key new = v1_key (V1ODisk d)"
    by (simp_all add: new(1) v1_started_disk[OF d])
  then have v1: "view w1 (v1_kind_of new) (v1_key new) = Some new" using new(2) by (simp add: v1_set_def)
  show ?thesis
  proof (rule wp_mono[OF wp_reconcileObject[OF v1]], elim disjE exE, goal_cases)
    case (1 a w')
    then show ?case using new v1_touchedI(3) by auto
  next
    case (2 a w' rv' s)
    then have "view w' = v1_set (view w) (V1ODisk d) (Some (v1_with_rv rv' (v1_annotate s (v1_started (V1ODisk d)))))"
      using new nk by (simp add: v1_set_def v1_with_rv_annotate fun_eq_iff)
    then show ?case using v1_touchedI(4) by blast
  qed
qed

lemma wp_disk: "wp (DiskController_Reconcile cl n) (\<lambda>r w'. touched_at V1KDisk n w w') w"
  unfolding DiskController_Reconcile_def
proof (rule wp_v1_fetch, goal_cases)
  case (1 ob w1)
  then obtain d where d: "ob = V1ODisk d" by (cases ob) auto
  have v: "view w (v1_kind_of ob) (v1_key ob) = Some ob" and v1: "view w1 (v1_kind_of ob) (v1_key ob) = Some ob" using 1 by simp_all
  have here: "touched_at V1KDisk n w w'" if "view w' = view w \<or> (\<exists>ob'. v1_touched ob ob' \<and> view w' = v1_set (view w) ob (Some ob'))" for w'
    using that 1 unfolding touched_at_def by blast
  show ?case
  proof (cases "vdisk_StatusState (vdisk_Status d) = ''''")
    case False
    have "wp (reconcileObject cl ob) (\<lambda>r w'. touched_at V1KDisk n w w') w1"
    proof (rule wp_mono[OF wp_reconcileObject[OF v1]], elim disjE exE, goal_cases)
      case (2 r w' rv s)
      then show ?case using 1(1) v1_touchedI(2)[of ob rv s] by (intro here disjI2) (auto simp only: v1_put_main_self)
    qed (use 1(1) in \<open>simp add: touched_at_def\<close>)
    then show ?thesis unfolding d using False by simp
  next
    case True
    let ?d = "V1ODisk (v1_default_status d)"
    have same: "v1_kind_of ?d = v1_kind_of ob" "v1_key ?d = v1_key ob" by (simp_all add: d v1_key_def v1_default_status_def)
    show ?thesis unfolding d v1_object.case if_P[OF True] wp
    proof (rule run_wp, goal_cases)
      case (1 r w2)
      have "run_state (v1_StatusUpdate cl ?d) w1 = (r, w2)" using 1 by simp
      note law = status_law[OF this]
      show ?case
      proof (cases r)
        case (Inl e)
        then have "view w2 = view w" using law \<open>view w1 = view w\<close> by simp
        from wp_heartbeat_refused[OF True v[unfolded d] this] show ?thesis
          unfolding Inl sum.case by (rule wp_mono) (rule here[unfolded d])
      next
        case (Inr new)
        then obtain rv where "new = v1_with_rv rv (v1_started (V1ODisk d))" "view w2 = v1_set (view w) (V1ODisk d) (Some new)"
          using law v \<open>view w1 = view w\<close> same by (auto simp: d v1_started_disk[OF True] v1_set_def)
        from wp_heartbeat_started[OF True this] show ?thesis
          unfolding Inr sum.case by (rule wp_mono) (rule here[unfolded d], blast)
      qed
    qed
  qed
qed (simp add: touched_at_def)

end

text \<open>The object carries the heartbeat of a time at or after \<open>now\<close>.\<close>

definition beat_after :: "time \<Rightarrow> v1_object option \<Rightarrow> bool" where
  "beat_after now x \<longleftrightarrow> (\<exists>ob t. x = Some ob \<and> now \<le> t \<and> v1_annotations ob reconcileAnnotation = Some (RFC3339 t))"

lemma beat_after_mono: "beat_after b x \<Longrightarrow> a \<le> b \<Longrightarrow> beat_after a x"
  unfolding beat_after_def by (metis order_trans)

lemma RFC3339_not_Nil [simp]: "RFC3339 t \<noteq> []"
  by (simp add: RFC3339_def Let_def split: prod.split)

context v1_serving begin

lemma wp_reconcile_beats:
  assumes "view w (v1_kind_of obj) (v1_key obj) = Some old" "v1_rv obj = v1_rv old"
    and "v1_annotations obj reconcileAnnotation = Some (RFC3339 s)" "s div 1000000000 < clock w div 1000000000"
  shows "wp (reconcileObject cl obj) (\<lambda>r w'. r = (requeue_after 300, None) \<and>
     beat_after (clock w) (view w' (v1_kind_of obj) (v1_key obj))) w"
  unfolding reconcileObject_def wp Let_def
proof (rule run_wp, goal_cases)
  case (1 t w1)
  note now = now_law[OF 1]
  have "clock w div 1000000000 \<le> t div 1000000000" using now by (simp add: zdiv_mono1)
  then have ne: "RFC3339 s \<noteq> RFC3339 t" using RFC3339_second[of s t] assms(4) by auto
  have "wp (v1_Update cl (v1_annotate (RFC3339 t) obj)) (\<lambda>r w'. (case r of Inl err \<Rightarrow> (Result_zero, Some err)
      | Inr new \<Rightarrow> (requeue_after 300, None)) = (requeue_after 300, None) \<and>
      beat_after (clock w) (view w' (v1_kind_of obj) (v1_key obj))) w1"
  proof (rule run_wp)
    fix r w' assume run: "run_state (v1_Update cl (v1_annotate (RFC3339 t) obj)) w1 = (r, w')"
    have v1: "view w1 (v1_kind_of (v1_annotate (RFC3339 t) obj)) (v1_key (v1_annotate (RFC3339 t) obj)) = Some old"
      using assms(1) now by simp
    obtain new where r: "r = Inr new" using serve_law[OF run v1] assms(2) by auto
    have "view w' (v1_kind_of obj) (v1_key obj) = Some new" "v1_annotations new reconcileAnnotation = Some (RFC3339 t)"
      using update_law[OF run] v1 r by (auto simp: v1_set_def)
    then show "(case r of Inl err \<Rightarrow> (Result_zero, Some err) | Inr new \<Rightarrow> (requeue_after 300, None)) = (requeue_after 300, None) \<and>
        beat_after (clock w) (view w' (v1_kind_of obj) (v1_key obj))"
      using r now unfolding beat_after_def by auto
  qed
  then show ?case using ne assms(3) by auto
qed

definition beaten :: "v1_kind \<Rightarrow> nskey \<Rightarrow> 'w \<Rightarrow> ctrl_Result \<times> error option \<Rightarrow> 'w \<Rightarrow> bool" where
  "beaten k n w r w' \<longleftrightarrow> (if snd r = None then beat_after (clock w) (view w' k n) else view w' = view w)"

lemma wp_plain_beats:
  assumes "view w k n = Some ob" "v1_annotations ob reconcileAnnotation = Some (RFC3339 s)"
    and "s div 1000000000 < clock w div 1000000000"
  shows "wp (v1_fetch cl k n (reconcileObject cl)) (beaten k n w) w"
proof (rule wp_v1_fetch, goal_cases)
  case (1 ob' w1)
  then have ob: "ob' = ob" and v: "view w1 (v1_kind_of ob) (v1_key ob) = Some ob" using assms(1) by auto
  have s: "s div 1000000000 < clock w1 div 1000000000"
    using assms(3) zdiv_mono1[OF 1(2), of 1000000000] by simp
  show ?case unfolding ob
    by (rule wp_mono[OF wp_reconcile_beats[OF v refl assms(2) s]])
      (use 1 ob in \<open>auto simp: beaten_def intro: beat_after_mono\<close>)
qed (use assms(1) in \<open>auto simp: beaten_def\<close>)

lemma wp_disk_beats:
  assumes "view w V1KDisk n = Some ob" "v1_annotations ob reconcileAnnotation = Some (RFC3339 s)"
    and "s div 1000000000 < clock w div 1000000000"
  shows "wp (DiskController_Reconcile cl n) (beaten V1KDisk n w) w"
  unfolding DiskController_Reconcile_def
proof (rule wp_v1_fetch, goal_cases)
  case (1 ob' w1)
  then have ob: "ob' = ob" and v: "view w1 (v1_kind_of ob) (v1_key ob) = Some ob"
    and k: "v1_kind_of ob = V1KDisk" "v1_key ob = n"
    using assms(1) by auto
  have s: "s div 1000000000 < c div 1000000000" if "clock w1 \<le> c" for c
    using assms(3) zdiv_mono1[of "clock w" c 1000000000] 1(2) that by simp
  obtain d where d: "ob = V1ODisk d" using k by (cases ob) auto
  have fin: "wp (reconcileObject cl obj) (beaten V1KDisk n w) w2"
    if "view w2 V1KDisk n = Some old" "v1_rv obj = v1_rv old" "v1_annotations obj reconcileAnnotation = Some (RFC3339 s)"
      "clock w1 \<le> clock w2" "v1_kind_of obj = V1KDisk" "v1_key obj = n" for obj old w2
    by (rule wp_mono[OF wp_reconcile_beats[of w2 obj old s]])
      (use that s[of "clock w2"] 1(2) in \<open>auto simp: beaten_def intro: beat_after_mono\<close>)
  show ?case
  proof (cases "vdisk_StatusState (vdisk_Status d) = ''''")
    case False
    have "wp (reconcileObject cl ob) (beaten V1KDisk n w) w1"
      by (rule fin[where old = ob]) (use v k assms(2) in auto)
    then show ?thesis unfolding ob d using False by simp
  next
    case True
    let ?d = "V1ODisk (v1_default_status d)"
    have same: "v1_kind_of ?d = V1KDisk" "v1_key ?d = n" "v1_rv ?d = v1_rv ob"
      "v1_annotations ?d reconcileAnnotation = Some (RFC3339 s)"
      using k assms(2) unfolding d by (simp_all add: v1_key_def v1_rv_def v1_annotations_def v1_default_status_def)
    show ?thesis unfolding ob d v1_object.case if_P[OF True] wp
    proof (rule run_wp, goal_cases)
      case (1 r w2)
      note law = status_law[OF 1]
      show ?case
      proof (cases r)
        case (Inl e)
        show ?thesis unfolding Inl sum.case
          by (rule fin[where old = ob]) (use same law Inl v k in auto)
      next
        case (Inr new)
        then obtain rv where new: "new = v1_with_rv rv (v1_put_status ob ?d)" "view w2 = v1_set (view w1) ?d (Some new)"
          using law v same k by auto
        then show ?thesis unfolding Inr sum.case
          by (intro fin[where old = new]) (use same law k assms(2) in \<open>auto simp: v1_set_def\<close>)
      qed
    qed
  qed
qed (use assms(1) in \<open>auto simp: beaten_def\<close>)

end

section \<open>A server in memory\<close>

record v1_mem =
  vm_objs :: v1_store
  vm_clock :: time
  vm_next :: nat

definition vm_view :: "v1_mem \<Rightarrow> v1_store" where
  "vm_view m k n = (case vm_objs m k n of None \<Rightarrow> None
     | Some ob \<Rightarrow> if v1_kind_of ob = k \<and> v1_key ob = n then Some ob else None)"

definition vm_put :: "v1_object \<Rightarrow> v1_mem \<Rightarrow> (error + v1_object) \<times> v1_mem" where
  "vm_put new m = (let ob = v1_with_rv (show_nat (vm_next m)) new in
     (Inr ob, m\<lparr>vm_objs := v1_set (vm_objs m) ob (Some ob), vm_next := Suc (vm_next m), vm_clock := vm_clock m + 1\<rparr>))"

definition vm_error :: "reason \<Rightarrow> error" where
  "vm_error r = ApiError r ''''"

definition vm_write :: "(v1_object \<Rightarrow> v1_object \<Rightarrow> v1_object) \<Rightarrow> v1_object \<Rightarrow> v1_mem \<Rightarrow> (error + v1_object) \<times> v1_mem" where
  "vm_write merge ob m =
     (case vm_view m (v1_kind_of ob) (v1_key ob) of
        None \<Rightarrow> (Inl (vm_error ReasonNotFound), m)
      | Some old \<Rightarrow> if v1_rv ob \<noteq> '''' \<and> v1_rv ob \<noteq> v1_rv old then (Inl (vm_error ReasonConflict), m)
          else vm_put (merge old ob) m)"

definition vm_env :: "v1_mem v1_env" where
  "vm_env =
     \<lparr>v1_Get = (\<lambda>k n. State (\<lambda>m. (case vm_view m k n of None \<Rightarrow> Inl (vm_error ReasonNotFound) | Some ob \<Rightarrow> Inr ob, m))),
      v1_Update = (\<lambda>ob. State (vm_write v1_put_main ob)),
      v1_StatusUpdate = (\<lambda>ob. State (vm_write v1_put_status ob)),
      v1_now = State (\<lambda>m. (vm_clock m, m\<lparr>vm_clock := vm_clock m + 1\<rparr>))\<rparr>"

lemma vm_view_Some: "vm_view m k n = Some ob \<Longrightarrow> v1_kind_of ob = k \<and> v1_key ob = n"
  by (auto simp: vm_view_def split: option.splits if_splits)

lemma vm_view_clock [simp]: "vm_view (m\<lparr>vm_clock := t\<rparr>) = vm_view m"
  by (simp add: vm_view_def fun_eq_iff)

lemma vm_view_put:
  assumes "vm_put new m = (r, m')"
  shows "\<exists>rv. r = Inr (v1_with_rv rv new) \<and> vm_view m' = v1_set (vm_view m) new (Some (v1_with_rv rv new)) \<and> vm_clock m \<le> vm_clock m'"
proof -
  let ?ob = "v1_with_rv (show_nat (vm_next m)) new"
  have "r = Inr ?ob" "vm_objs m' = v1_set (vm_objs m) ?ob (Some ?ob)" "vm_clock m' = vm_clock m + 1"
    using assms by (auto simp: vm_put_def Let_def)
  moreover from this have "vm_view m' = v1_set (vm_view m) new (Some ?ob)"
    by (intro ext) (simp add: vm_view_def v1_set_def)
  ultimately show ?thesis by auto
qed

lemma vm_write_law:
  assumes "vm_write merge ob m = (r, m')" "\<And>old. v1_kind_of (merge old ob) = v1_kind_of ob \<or> v1_kind_of (merge old ob) = v1_kind_of old"
    and "\<And>old. v1_key (merge old ob) = v1_key ob \<or> v1_key (merge old ob) = v1_key old"
  shows "vm_clock m \<le> vm_clock m' \<and> (case r of Inl e \<Rightarrow> vm_view m' = vm_view m
     | Inr new \<Rightarrow> \<exists>old rv. vm_view m (v1_kind_of ob) (v1_key ob) = Some old \<and>
         new = v1_with_rv rv (merge old ob) \<and> vm_view m' = v1_set (vm_view m) ob (Some new))"
proof (cases "vm_view m (v1_kind_of ob) (v1_key ob)")
  case None
  then show ?thesis using assms(1) by (auto simp: vm_write_def)
next
  case (Some old)
  note k = vm_view_Some[OF Some]
  show ?thesis
  proof (cases "v1_rv ob \<noteq> '''' \<and> v1_rv ob \<noteq> v1_rv old")
    case True
    then show ?thesis using assms(1) Some by (auto simp: vm_write_def)
  next
    case False
    then have "vm_put (merge old ob) m = (r, m')" using assms(1) Some by (auto simp: vm_write_def)
    from vm_view_put[OF this] obtain rv where "r = Inr (v1_with_rv rv (merge old ob))"
      "vm_view m' = v1_set (vm_view m) (merge old ob) (Some (v1_with_rv rv (merge old ob)))" "vm_clock m \<le> vm_clock m'"
      by blast
    moreover have "v1_set (vm_view m) (merge old ob) x = v1_set (vm_view m) ob x" for x
      using k assms(2)[of old] assms(3)[of old] by (auto simp: v1_set_def)
    ultimately show ?thesis using Some by auto
  qed
qed

lemma vm_serving: "v1_serving vm_env vm_view vm_clock"
proof (unfold_locales, goal_cases)
  case (1 k n w r w')
  then show ?case by (cases "vm_view w k n") (auto simp: vm_env_def dest: vm_view_Some)
next
  case (2 ob w r w')
  then show ?case by (intro vm_write_law) (simp_all add: vm_env_def)
next
  case (3 ob w r w')
  then show ?case by (intro vm_write_law) (simp_all add: vm_env_def)
next
  case (4 w t w')
  then show ?case by (auto simp: vm_env_def vm_view_def)
next
  case (5 ob w r w' old)
  then show ?case by (auto simp: vm_env_def vm_write_def vm_put_def Let_def)
qed

interpretation vm_api: v1_api vm_env vm_view vm_clock
  by (rule v1_serving.axioms(1)[OF vm_serving])

interpretation vm_server: v1_serving vm_env vm_view vm_clock
  by (rule vm_serving)

section \<open>Properties\<close>

text \<open>A call of a \<^verbatim>\<open>storage.kubenas.io/v1\<close> controller writes no object but its own, and of this one only the
  \<^verbatim>\<open>last-reconciled\<close> annotation and, on a disk without a state, the first status \<^verbatim>\<open>Unassigned\<close>/\<^verbatim>\<open>Healthy\<close>:
  specs, claims, labels and every other field stay as they are.\<close>

lemma v1_only_heartbeat:
  assumes "v1_api cl view clock" and "v1_controller cl k = Some reconcile"
  shows "wp (reconcile n) (\<lambda>r w'. view w' = view w \<or>
     (\<exists>ob ob'. view w k n = Some ob \<and> v1_touched ob ob' \<and> view w' = v1_set (view w) ob (Some ob'))) w"
proof -
  have "wp (reconcile n) (\<lambda>r w'. v1_api.touched_at view k n w w') w"
    using assms(2)
    by (cases k) (auto simp: simple_controllers intro!: v1_api.wp_plain[OF assms(1)] v1_api.wp_disk[OF assms(1)])
  then show ?thesis unfolding v1_api.touched_at_def[OF assms(1)] by (rule wp_mono) blast
qed


section \<open>Witnesses\<close>

definition demo_v1_disk :: V1Disk where
  "demo_v1_disk =
     \<lparr>vdisk_Meta = ObjectMeta_zero\<lparr>meta_Name := ''disk-sdb'', meta_Annotations := Some [reconcileAnnotation \<mapsto> RFC3339 0]\<rparr>,
      vdisk_Spec = \<lparr>vdisk_Device = ''/dev/sdb'', vdisk_Size = ''4096'', vdisk_Rotational = True, vdisk_Filesystem = ''xfs'',
        vdisk_Labels = Map.empty, vdisk_Health = ''Healthy'', vdisk_State = DiskStateDetected\<rparr>,
      vdisk_Status = \<lparr>vdisk_StatusState = '''', vdisk_StatusHealth = ''''\<rparr>\<rparr>"

definition demo_v1_mem :: v1_mem where
  "demo_v1_mem = \<lparr>vm_objs = v1_set (\<lambda>_ _. None) (V1ODisk demo_v1_disk) (Some (V1ODisk demo_v1_disk)),
     vm_clock = 5000000000, vm_next = 1\<rparr>"

lemma demo_v1_stored: "vm_view demo_v1_mem V1KDisk ('''', ''disk-sdb'') = Some (V1ODisk demo_v1_disk)"
  by (simp add: vm_view_def demo_v1_mem_def v1_set_def v1_key_def demo_v1_disk_def ObjectMeta_zero_def)

lemma disk_controller: "v1_controller vm_env V1KDisk = Some (DiskController_Reconcile vm_env)"
  by simp

lemma v1_only_heartbeat_witness:
  "wp (DiskController_Reconcile vm_env ('''', ''disk-sdb'')) (\<lambda>r w'. vm_view w' V1KShare = vm_view demo_v1_mem V1KShare) demo_v1_mem"
proof (rule wp_mono[OF v1_only_heartbeat[OF v1_serving.axioms(1)[OF vm_serving] disk_controller]])
  fix r w'
  assume "vm_view w' = vm_view demo_v1_mem \<or> (\<exists>ob ob'. vm_view demo_v1_mem V1KDisk ('''', ''disk-sdb'') = Some ob \<and>
      v1_touched ob ob' \<and> vm_view w' = v1_set (vm_view demo_v1_mem) ob (Some ob'))"
  then show "vm_view w' V1KShare = vm_view demo_v1_mem V1KShare"
  proof (elim disjE exE conjE)
    fix ob ob' assume o: "vm_view demo_v1_mem V1KDisk ('''', ''disk-sdb'') = Some ob"
      and v: "vm_view w' = v1_set (vm_view demo_v1_mem) ob (Some ob')"
    have "v1_kind_of ob = V1KDisk" by (rule vm_view_Some[OF o, THEN conjunct1])
    then have "V1KShare \<noteq> v1_kind_of ob" by simp
    then show ?thesis unfolding v by (rule v1_set_other)
  qed simp
qed


end
