(* ===== verification/V1_Cache.thy ===== *)
theory V1_Cache
  imports V1_Memory V1_Controllers
begin

text \<open>
  The heartbeat of the \<^verbatim>\<open>storage.kubenas.io/v1\<close> controllers on the client the manager hands out: reads come
  from the informer cache and are copied with \<^verbatim>\<open>DeepCopyObject\<close>. The copies share the annotation map, and
  \<^verbatim>\<open>reconcileObject\<close> writes into it, so the cache changes although the server does not.
\<close>

section \<open>The handler on memory\<close>

record 'w cached_env =
  cc_Get :: "v1_kind \<Rightarrow> nskey \<Rightarrow> (unit heap \<times> 'w, error + mem_object) state"
  cc_Update :: "mem_object \<Rightarrow> (unit heap \<times> 'w, error option) state"
  cc_now :: "(unit heap \<times> 'w, time) state"

definition in_heap :: "(unit heap, 'a) state \<Rightarrow> (unit heap \<times> 'w, 'a) state" where
  "in_heap m = State (\<lambda>(h, w). case run_state m h of (x, h') \<Rightarrow> (x, (h', w)))"

definition annotation_map :: "mem_object \<Rightarrow> (unit heap, addr) state" where
  "annotation_map obj = (case mm_Annotations (mem_meta obj) of None \<Rightarrow> alloc_map Map.empty | Some a \<Rightarrow> State_Monad.return a)"

definition heap_reconcileObject :: "'w cached_env \<Rightarrow> mem_object \<Rightarrow> (unit heap \<times> 'w, ctrl_Result \<times> error option) state" where
  "heap_reconcileObject cl obj = do {
     ann \<leftarrow> in_heap (annotation_map obj);
     let obj = mem_map_meta (mm_Annotations_update (\<lambda>_. Some ann)) obj;
     t \<leftarrow> cc_now cl;
     let now = RFC3339 t;
     m \<leftarrow> in_heap (read_heap (\<lambda>h. map_at h ann));
     if (case m reconcileAnnotation of None \<Rightarrow> '''' | Some s \<Rightarrow> s) = now
     then State_Monad.return (Result_zero, None)
     else do {
       _ \<leftarrow> in_heap (write_heap (\<lambda>h. map_write ann ((map_at h ann)(reconcileAnnotation \<mapsto> now)) h));
       e \<leftarrow> cc_Update cl obj;
       State_Monad.return (case e of Some err \<Rightarrow> (Result_zero, Some err) | None \<Rightarrow> (requeue_after 300, None))
     }
   }"

definition heap_fetch :: "'w cached_env \<Rightarrow> v1_kind \<Rightarrow> nskey \<Rightarrow> (unit heap \<times> 'w, ctrl_Result \<times> error option) state" where
  "heap_fetch cl k n = do {
     r \<leftarrow> cc_Get cl k n;
     case r of
       Inl err \<Rightarrow> State_Monad.return (Result_zero, if IsNotFound err then None else Some err)
     | Inr obj \<Rightarrow> heap_reconcileObject cl obj
   }"

lemma wp_in_heap [wp]: "wp (in_heap m) Q (h, w) = wp m (\<lambda>x h'. Q x (h', w)) h"
  by (simp add: wp_def in_heap_def split: prod.split)

section \<open>The contract of the cached client\<close>

text \<open>
  \<open>cache\<close> is the informer's store, \<open>server\<close> what the API server holds. A read of a cached object is its
  \<^verbatim>\<open>DeepCopyObject\<close>; a rejected update changes neither the server nor memory, and the informer, which only
  hears of changes on the server, keeps its object.
\<close>

locale cached_client =
  fixes cl :: "'w cached_env" and cache :: "'w \<Rightarrow> v1_kind \<Rightarrow> nskey \<Rightarrow> mem_object option"
    and server :: "'w \<Rightarrow> v1_store" and clock :: "'w \<Rightarrow> time"
  assumes get_law: "cache w k n = Some c \<Longrightarrow> run_state (cc_Get cl k n) (h, w) = (r, (h', w')) \<Longrightarrow>
      \<exists>ob. r = Inr ob \<and> run_state (DeepCopyObject c) h = (ob, h') \<and> cache w' = cache w \<and> server w' = server w \<and> clock w \<le> clock w'"
    and update_law: "run_state (cc_Update cl ob) (h, w) = (e, (h', w')) \<Longrightarrow> clock w \<le> clock w' \<and>
      (e \<noteq> None \<longrightarrow> h' = h \<and> cache w' = cache w \<and> server w' = server w)"
    and now_law: "run_state (cc_now cl) (h, w) = (t, (h', w')) \<Longrightarrow> h' = h \<and> cache w' = cache w \<and> server w' = server w \<and>
      clock w \<le> t \<and> t \<le> clock w'"
begin

text \<open>The object in the cache, whose annotations live at \<open>a\<close>.\<close>

definition cached :: "v1_kind \<Rightarrow> nskey \<Rightarrow> mem_object \<Rightarrow> addr \<Rightarrow> unit heap \<Rightarrow> 'w \<Rightarrow> bool" where
  "cached k n c a h w \<longleftrightarrow> cache w k n = Some c \<and> mm_Annotations (mem_meta c) = Some a \<and> live h c"

lemma cached_at: "cached k n c a h w \<Longrightarrow> a < h_next h"
  by (auto simp: cached_def live_def meta_refs_def)

lemma run_wp2: "(\<And>x h' w'. run_state m (h, w) = (x, (h', w')) \<Longrightarrow> Q x (h', w')) \<Longrightarrow> wp m Q (h, w)"
  by (rule run_wp) auto

lemma wp_cached_get:
  assumes "cached k n c a h w"
    and "\<And>ob h' w'. cached k n c a h' w' \<Longrightarrow> kept h h' \<Longrightarrow> mm_Annotations (mem_meta ob) = Some a \<Longrightarrow> server w' = server w \<Longrightarrow> clock w \<le> clock w' \<Longrightarrow>
        wp (heap_reconcileObject cl ob) Q (h', w')"
  shows "wp (heap_fetch cl k n) Q (h, w)"
  unfolding heap_fetch_def wp
proof (rule run_wp2)
  fix r h' w' assume r: "run_state (cc_Get cl k n) (h, w) = (r, (h', w'))"
  have c: "cache w k n = Some c" "mm_Annotations (mem_meta c) = Some a" "live h c" using assms(1) by (simp_all add: cached_def)
  obtain ob where ob: "r = Inr ob" "run_state (DeepCopyObject c) h = (ob, h')" "cache w' = cache w" "server w' = server w" "clock w \<le> clock w'"
    using get_law[OF c(1) r] by blast
  have "copied h c ob h'" by (rule wp_run[OF wp_DeepCopyObject[OF c(3)] ob(2)])
  then have k: "kept h h'" "mem_meta ob = mem_meta c" by (simp_all add: copied_def)
  have "cached k n c a h' w'" using c ob(3) live_kept[OF c(3) k(1)] by (simp add: cached_def)
  then show "case r of Inl err \<Rightarrow> Q (Result_zero, if IsNotFound err then None else Some err) (h', w')
      | Inr obj \<Rightarrow> wp (heap_reconcileObject cl obj) Q (h', w')"
    using assms(2) k ob c(2) by simp
qed

text \<open>After a rejected update the cached map notes the time of the call; the server holds what it held.\<close>

lemma wp_heartbeat:
  assumes "cached k n c a h w"
  shows "wp (heap_fetch cl k n) (\<lambda>r (h', w'). snd r \<noteq> None \<longrightarrow> cached k n c a h' w' \<and> server w' = server w \<and>
     (\<exists>t. map_at h' a reconcileAnnotation = Some (RFC3339 t) \<and> clock w \<le> t \<and> t \<le> clock w')) (h, w)"
proof (rule wp_cached_get[OF assms])
  fix ob h1 w1
  assume c: "cached k n c a h1 w1" and ann: "mm_Annotations (mem_meta ob) = Some a" and s1: "server w1 = server w" and t1: "clock w \<le> clock w1"
  show "wp (heap_reconcileObject cl ob) (\<lambda>r (h', w'). snd r \<noteq> None \<longrightarrow> cached k n c a h' w' \<and> server w' = server w \<and>
     (\<exists>t. map_at h' a reconcileAnnotation = Some (RFC3339 t) \<and> clock w \<le> t \<and> t \<le> clock w')) (h1, w1)"
    unfolding heap_reconcileObject_def annotation_map_def ann option.case wp Let_def
  proof (rule run_wp2, goal_cases)
    case (1 t h2 w2)
    have n: "h2 = h1" "cache w2 = cache w1" "server w2 = server w1" "clock w1 \<le> t" "t \<le> clock w2" using now_law[OF 1] by auto
    let ?h = "map_write a ((map_at h2 a)(reconcileAnnotation \<mapsto> RFC3339 t)) h2"
    have c2: "cached k n c a ?h w2" using c n by (simp add: cached_def live_def map_write_def)
    have up: "wp (cc_Update cl x) (\<lambda>e (h', w'). e \<noteq> None \<longrightarrow> cached k n c a h' w' \<and> server w' = server w \<and>
       (\<exists>t. map_at h' a reconcileAnnotation = Some (RFC3339 t) \<and> clock w \<le> t \<and> t \<le> clock w')) (?h, w2)" for x
    proof (rule run_wp2)
      fix e h' w' assume "run_state (cc_Update cl x) (?h, w2) = (e, (h', w'))"
      note u = update_law[OF this]
      have "map_at ?h a reconcileAnnotation = Some (RFC3339 t)" by (simp add: map_at_def map_write_def)
      then show "case (h', w') of (h', w') \<Rightarrow> e \<noteq> None \<longrightarrow> cached k n c a h' w' \<and> server w' = server w \<and>
         (\<exists>t. map_at h' a reconcileAnnotation = Some (RFC3339 t) \<and> clock w \<le> t \<and> t \<le> clock w')"
        using u c2 n s1 t1 by (auto simp: cached_def intro!: exI[of _ t])
    qed
    show ?case by (auto simp: wp intro!: wp_mono[OF up] split: option.split)
  qed
qed

text \<open>A call in the second that is noted in the cached map does nothing and reports success.\<close>

lemma wp_same_second:
  assumes "cached k n c a h w" and "map_at h a reconcileAnnotation = Some (RFC3339 t)" and "t \<le> clock w"
  shows "wp (heap_fetch cl k n) (\<lambda>r (h', w'). clock w \<le> clock w' \<and> (clock w' div 1000000000 = t div 1000000000 \<longrightarrow>
     r = (Result_zero, None) \<and> server w' = server w)) (h, w)"
proof (rule wp_cached_get[OF assms(1)])
  fix ob h1 w1
  assume c: "cached k n c a h1 w1" and k: "kept h h1" and ann: "mm_Annotations (mem_meta ob) = Some a"
    and s1: "server w1 = server w" and t1: "clock w \<le> clock w1"
  have m: "map_at h1 a reconcileAnnotation = Some (RFC3339 t)"
    using assms(2) k cached_at[OF assms(1)] by (simp add: map_at_def kept_def)
  show "wp (heap_reconcileObject cl ob) (\<lambda>r (h', w'). clock w \<le> clock w' \<and> (clock w' div 1000000000 = t div 1000000000 \<longrightarrow>
     r = (Result_zero, None) \<and> server w' = server w)) (h1, w1)"
    unfolding heap_reconcileObject_def annotation_map_def ann option.case wp Let_def
  proof (rule run_wp2, goal_cases)
    case (1 u h2 w2)
    have n: "h2 = h1" "server w2 = server w1" "t \<le> u" "u \<le> clock w2" "clock w \<le> clock w2" using now_law[OF 1] assms(3) t1 by auto
    show ?case
    proof (cases "RFC3339 t = RFC3339 u")
      case True
      then show ?thesis using m n s1 by (simp add: wp)
    next
      case False
      have late: "clock w' div 1000000000 \<noteq> t div 1000000000" if "clock w2 \<le> clock w'" for w'
      proof
        assume "clock w' div 1000000000 = t div 1000000000"
        then have "u div 1000000000 = t div 1000000000"
          using zdiv_mono1[of t u 1000000000] zdiv_mono1[of u "clock w'" 1000000000] n that by simp
        then show False using False RFC3339_same_second[of t u] by simp
      qed
      have up: "wp (cc_Update cl x) (\<lambda>e (h', w'). clock w \<le> clock w' \<and> clock w' div 1000000000 \<noteq> t div 1000000000) (h', w2)" for x h'
      proof (rule run_wp2)
        fix e h'' w' assume "run_state (cc_Update cl x) (h', w2) = (e, (h'', w'))"
        then have "clock w2 \<le> clock w'" using update_law by blast
        then show "case (h'', w') of (h', w') \<Rightarrow> clock w \<le> clock w' \<and> clock w' div 1000000000 \<noteq> t div 1000000000"
          using late[of w'] n(5) by simp
      qed
      show ?thesis using m False by (auto simp: n(1) wp intro!: wp_mono[OF up])
    qed
  qed
qed

lemma wp_swallowed:
  assumes "cached k n c a h w"
  shows "wp (do { r \<leftarrow> heap_fetch cl k n; r' \<leftarrow> heap_fetch cl k n; State_Monad.return (r, r') })
    (\<lambda>(r, r') (h', w'). snd r \<noteq> None \<and> clock w' div 1000000000 = clock w div 1000000000 \<longrightarrow>
       r' = (Result_zero, None) \<and> server w' = server w) (h, w)"
  unfolding wp
proof (rule wp_mono[OF wp_heartbeat[OF assms]], goal_cases)
  case (1 r s)
  obtain h1 w1 where s: "s = (h1, w1)" by (cases s)
  show ?case
  proof (cases "snd r = None")
    case True
    then show ?thesis by (auto simp: wp intro!: run_wp)
  next
    case False
    then obtain t where c: "cached k n c a h1 w1" and sv: "server w1 = server w" and m: "map_at h1 a reconcileAnnotation = Some (RFC3339 t)"
      and t: "clock w \<le> t" "t \<le> clock w1"
      using 1 unfolding s by auto
    show ?thesis unfolding s
    proof (rule wp_mono[OF wp_same_second[OF c m t(2)]], goal_cases)
      case (1 r' s')
      have "clock w' div 1000000000 = t div 1000000000" if "clock w' div 1000000000 = clock w div 1000000000" "t \<le> clock w'" for w'
        using zdiv_mono1[OF t(1), of 1000000000] zdiv_mono1[OF that(2), of 1000000000] that(1) by simp
      note second = this
      obtain h2 w2 where s': "s' = (h2, w2)" by (cases s')
      have p: "t \<le> clock w2" "clock w2 div 1000000000 = t div 1000000000 \<Longrightarrow> r' = (Result_zero, None) \<and> server w2 = server w"
        using 1 t(2) sv unfolding s' by auto
      show ?case unfolding s' wp prod.case
        using second[OF _ p(1)] p(2) by blast
    qed
  qed
qed

end

section \<open>An informer in memory\<close>

text \<open>Its server rejects every update, as after a conflicting write.\<close>

record informer =
  inf_cache :: "v1_kind \<Rightarrow> nskey \<Rightarrow> mem_object option"
  inf_server :: v1_store
  inf_clock :: time

definition informer_env :: "informer cached_env" where
  "informer_env =
     \<lparr>cc_Get = (\<lambda>k n. State (\<lambda>(h, w). case inf_cache w k n of
          None \<Rightarrow> (Inl (vm_error ReasonNotFound), (h, w))
        | Some c \<Rightarrow> (case run_state (DeepCopyObject c) h of (ob, h') \<Rightarrow> (Inr ob, (h', w))))),
      cc_Update = (\<lambda>ob. State (\<lambda>(h, w). (Some (vm_error ReasonConflict), (h, w\<lparr>inf_clock := inf_clock w + 1000000\<rparr>)))),
      cc_now = State (\<lambda>(h, w). (inf_clock w, (h, w\<lparr>inf_clock := inf_clock w + 1\<rparr>)))\<rparr>"

lemma informer_cached_client: "cached_client informer_env inf_cache inf_server inf_clock"
  by unfold_locales (auto simp: informer_env_def split: prod.splits)

interpretation informer: cached_client informer_env inf_cache inf_server inf_clock
  by (rule informer_cached_client)

section \<open>Properties\<close>

text \<open>C37. A deep copy of a v1 object has the value of the original, which it leaves as it is, and its own spec: writing to
  a map the spec of the copy refers to never shows in the original. But the metadata is shared: a write to
  the annotations of the copy is a write to those of the original.\<close>

theorem DeepCopyObject_shares_annotations:
  assumes "live h ob"
  shows "wp (DeepCopyObject ob) (\<lambda>r h'. mem_kind r = mem_kind ob \<and> mem_value h' r = mem_value h ob \<and> mem_value h' ob = mem_value h ob \<and>
     (\<forall>a \<in> spec_refs r. \<forall>m. mem_value (map_write a m h') ob = mem_value h ob) \<and>
     (\<forall>a m. mm_Annotations (mem_meta r) = Some a \<longrightarrow> meta_Annotations (v1_meta (mem_value (map_write a m h') ob)) = Some m)) h"
proof (rule wp_mono[OF wp_DeepCopyObject[OF assms]], intro conjI ballI allI impI, goal_cases)
  case (3 r h')
  then show ?case unfolding copied_def by (intro mem_value_kept[OF _ assms]) (rule conjunct1)
next
  case (4 r h' a m)
  then have "kept h (map_write a m h')" unfolding copied_def kept_def map_write_def by auto
  then show ?case by (rule mem_value_kept[OF _ assms])
next
  case (5 r h' a m)
  then have "mm_Annotations (mem_meta ob) = Some a" by (simp add: copied_def)
  then show ?case by (rule annotations_after_write)
qed (simp_all add: copied_def)

text \<open>C36. A rejected heartbeat is lost when the retry comes in the same second: the first call has written its time
  into the cached object, so the second finds it there, writes nothing and ends with success and no requeue,
  while the server still holds the old object.\<close>

theorem heartbeat_error_swallowed:
  assumes "cached_client cl cache server clock"
    and "cache w k n = Some c" and "mm_Annotations (mem_meta c) = Some a" and "live h c"
  shows "wp (do { r \<leftarrow> heap_fetch cl k n; r' \<leftarrow> heap_fetch cl k n; State_Monad.return (r, r') })
    (\<lambda>(r, r') (h', w'). snd r \<noteq> None \<and> clock w' div 1000000000 = clock w div 1000000000 \<longrightarrow>
       r' = (Result_zero, None) \<and> server w' = server w) (h, w)"
  by (rule cached_client.wp_swallowed[OF assms(1), where c = c and a = a]) (simp add: cached_client.cached_def[OF assms(1)] assms)

text \<open>The copy methods of the lists with references in their items copy every item into an array of their own, in
  order and with its value, and leave all that was there unchanged.\<close>

lemma list_copies_agree:
  assumes "\<forall>x \<in> set (slice_value (h_items h) (ml_Items l)). live h (MODisk x)"
    and "\<forall>x \<in> set (slice_value (h_items h') (ml_Items l')). live h' (MOStoragePool x)"
  shows "wp (DiskList_DeepCopyInto l) (list_copied MODisk h l) h \<and>
     wp (StoragePoolList_DeepCopyInto l') (list_copied MOStoragePool h' l') h'"
  unfolding DiskList_DeepCopyInto_def StoragePoolList_DeepCopyInto_def
  by (intro conjI wp_copy_list wp_make_items[where c = MODisk] wp_make_items[where c = MOStoragePool]
      wp_Disk_DeepCopyInto wp_StoragePool_DeepCopyInto)
    (use assms in \<open>auto simp: slice_value_def\<close>)

section \<open>Witnesses\<close>

definition demo_claim :: mem_object where
  "demo_claim = MODiskClaim \<lparr>mo_Meta = mmeta_zero\<lparr>mm_Name := ''claim'', mm_Annotations := Some 0\<rparr>,
     mo_Spec = \<lparr>vclaim_Disk = ''disk-sdb'', vclaim_Pool = ''media''\<rparr>\<rparr>"

definition demo_heap :: "'i heap" where
  "demo_heap = \<lparr>h_maps = [0 \<mapsto> Map.empty], h_strs = Map.empty, h_owners = Map.empty, h_items = Map.empty, h_next = 1\<rparr>"

definition demo_informer :: informer where
  "demo_informer = \<lparr>inf_cache = (\<lambda>k n. if k = V1KDiskClaim \<and> n = ('''', ''claim'') then Some demo_claim else None),
     inf_server = (\<lambda>_ _. None), inf_clock = 5000000000\<rparr>"

lemma demo_claim_live: "live demo_heap demo_claim"
  by (simp add: live_def demo_claim_def demo_heap_def meta_refs_def mmeta_zero_def)

lemma demo_claim_annotations: "mm_Annotations (mem_meta demo_claim) = Some 0"
  by (simp add: demo_claim_def)

theorem DeepCopyObject_shares_annotations_witness:
  "wp (DeepCopyObject demo_claim) (\<lambda>r h'. mm_Annotations (mem_meta r) = Some 0 \<longrightarrow>
     meta_Annotations (v1_meta (mem_value (map_write 0 [''k'' \<mapsto> ''v''] h') demo_claim)) = Some [''k'' \<mapsto> ''v'']) demo_heap"
  by (rule wp_mono[OF DeepCopyObject_shares_annotations[OF demo_claim_live]]) blast

theorem heartbeat_error_swallowed_witness:
  "wp (do { r \<leftarrow> heap_fetch informer_env V1KDiskClaim ('''', ''claim''); r' \<leftarrow> heap_fetch informer_env V1KDiskClaim ('''', ''claim'');
        State_Monad.return (r, r') })
    (\<lambda>(r, r') (h', w'). snd r \<noteq> None \<and> inf_clock w' div 1000000000 = inf_clock demo_informer div 1000000000 \<longrightarrow>
       r' = (Result_zero, None) \<and> inf_server w' = inf_server demo_informer) (demo_heap, demo_informer)"
  by (rule heartbeat_error_swallowed[OF informer_cached_client _ demo_claim_annotations demo_claim_live])
    (simp add: demo_informer_def)

definition demo_mdisk :: mdisk where
  "demo_mdisk = mdisk_zero\<lparr>md_Spec := (md_Spec mdisk_zero)\<lparr>mds_Labels := Some 0\<rparr>\<rparr>"

definition demo_list_heap :: "mdisk heap" where
  "demo_list_heap = demo_heap\<lparr>h_items := [1 \<mapsto> [demo_mdisk, mdisk_zero]], h_next := 2\<rparr>"

definition demo_list :: mlist where
  "demo_list = \<lparr>ml_Meta = \<lparr>lm_ResourceVersion = '''', lm_Continue = '''', lm_RemainingItemCount = None\<rparr>,
     ml_Items = Some \<lparr>sl_arr = 1, sl_off = 0, sl_len = 2\<rparr>\<rparr>"

lemma list_copies_agree_witness:
  "wp (DiskList_DeepCopyInto demo_list) (list_copied MODisk demo_list_heap demo_list) demo_list_heap \<and>
   wp (StoragePoolList_DeepCopyInto (demo_list\<lparr>ml_Items := None\<rparr>)) (list_copied MOStoragePool demo_heap (demo_list\<lparr>ml_Items := None\<rparr>)) demo_heap"
  by (rule list_copies_agree)
    (simp_all add: slice_value_def window_def demo_list_def demo_list_heap_def demo_heap_def live_def meta_refs_def
      demo_mdisk_def mdisk_zero_def mmeta_zero_def)

end
