(* ===== verification/Operator_Main.thy ===== *)
theory Operator_Main
  imports Share_Controller Failure_Controller Rebalance_Controller Parity_Controller Policy_Controllers
begin

text \<open>
  The operator process (\<^verbatim>\<open>cmd/main.go\<close>): the order in which it registers webhooks, controllers and probes
  before it starts the manager, and the running operator as a transition system in which any registered
  controller handles any request and clients of the API create, edit and delete objects in between.
\<close>

section \<open>Registration\<close>

datatype ctrl = DiskReconciler | ArrayReconciler | PoolReconciler | ShareReconciler | ParityReconciler
  | RebalanceReconciler | CachePoolReconciler | PlacementPolicyReconciler | FailureReconciler

datatype setup_step = SetupWebhook kind | SetupController ctrl | AddHealthzCheck | AddReadyzCheck

definition operator_setup :: "setup_step list" where
  "operator_setup =
     [SetupWebhook KDisk, SetupWebhook KArray, SetupWebhook KShare,
      SetupController DiskReconciler, SetupController ArrayReconciler, SetupController PoolReconciler,
      SetupController ShareReconciler, SetupController ParityReconciler, SetupController RebalanceReconciler,
      SetupController CachePoolReconciler, SetupController PlacementPolicyReconciler, SetupController FailureReconciler,
      AddHealthzCheck, AddReadyzCheck]"

record 'w manager =
  mgr_new :: "('w, error option) state"
  mgr_setup :: "setup_step \<Rightarrow> ('w, error option) state"
  mgr_start :: "('w, error option) state"

text \<open>The first step that fails ends the process.\<close>

fun run_setup :: "'w manager \<Rightarrow> setup_step list \<Rightarrow> ('w, bool) state" where
  "run_setup mgr [] = State_Monad.return True"
| "run_setup mgr (s # ss) = do {
     err \<leftarrow> mgr_setup mgr s;
     if err \<noteq> None then State_Monad.return False else run_setup mgr ss
   }"

text \<open>The exit code; \<^verbatim>\<open>Start\<close> returns when the process is asked to stop.\<close>

definition operator_main :: "'w manager \<Rightarrow> ('w, int) state" where
  "operator_main mgr = do {
     err \<leftarrow> mgr_new mgr;
     if err \<noteq> None then State_Monad.return 1
     else do {
       ok \<leftarrow> run_setup mgr operator_setup;
       if \<not> ok then State_Monad.return 1
       else do {
         err \<leftarrow> mgr_start mgr;
         State_Monad.return (if err \<noteq> None then 1 else 0)
       }
     }
   }"

definition controllers :: "setup_step list \<Rightarrow> ctrl list" where
  "controllers ss = concat (map (\<lambda>s. case s of SetupController c \<Rightarrow> [c] | _ \<Rightarrow> []) ss)"

section \<open>One request\<close>

fun ctrl_Reconcile ::
  "'w env \<Rightarrow> 'w agent_client \<Rightarrow> owner_fn \<Rightarrow> ctrl \<Rightarrow> nskey \<Rightarrow> ('w, ctrl_Result \<times> error option) state" where
  "ctrl_Reconcile cl ac own DiskReconciler n = Disk_Reconcile cl ac n"
| "ctrl_Reconcile cl ac own ArrayReconciler n = Array_Reconcile cl ac n"
| "ctrl_Reconcile cl ac own PoolReconciler n = Pool_Reconcile cl ac n"
| "ctrl_Reconcile cl ac own ShareReconciler n = Share_Reconcile cl own n"
| "ctrl_Reconcile cl ac own ParityReconciler n = Parity_Reconcile cl n"
| "ctrl_Reconcile cl ac own RebalanceReconciler n = Rebalance_Reconcile cl n"
| "ctrl_Reconcile cl ac own CachePoolReconciler n = CachePool_Reconcile cl n"
| "ctrl_Reconcile cl ac own PlacementPolicyReconciler n = PlacementPolicy_Reconcile cl n"
| "ctrl_Reconcile cl ac own FailureReconciler n = Failure_Reconcile cl n"

section \<open>What the running operator maintains\<close>

definition cache_at :: "store \<Rightarrow> nskey \<Rightarrow> CachePool option" where
  "cache_at v n = (case v KCachePool n of Some (OCachePool c) \<Rightarrow> Some c | _ \<Rightarrow> None)"

definition array_ok :: "Array \<Rightarrow> bool" where
  "array_ok a \<longleftrightarrow> (array_Phase (array_Status a) = ArrayPhaseReady \<longrightarrow> array_DegradedDisks (array_Status a) = [])"

definition pool_ok :: "Pool \<Rightarrow> bool" where
  "pool_ok p \<longleftrightarrow> pool_Phase (pool_Status p) \<in> {'''', ''Pending'', ''Degraded'', ''Ready''} \<and>
     (pool_Phase (pool_Status p) = ''Ready'' \<longrightarrow> pool_Mounted (pool_Status p) \<and> pool_MemberDisks (pool_Status p) \<noteq> [])"

definition share_ok :: "Share \<Rightarrow> bool" where
  "share_ok s \<longleftrightarrow> share_Phase (share_Status s) \<in> {'''', ''Pending'', ''Degraded'', ''Ready''} \<and>
     (share_Published (share_Status s) \<longleftrightarrow> share_Phase (share_Status s) = ''Ready'')"

definition job_ok :: "RebalanceJob \<Rightarrow> bool" where
  "job_ok j \<longleftrightarrow> (terminal (job_Phase (job_Status j)) \<longrightarrow> job_CompletionTime (job_Status j) \<noteq> None) \<and>
     (job_Phase (job_Status j) = RebalanceJobPhaseRunning \<longrightarrow> job_StartTime (job_Status j) \<noteq> None)"

definition failure_ok :: "DiskFailure \<Rightarrow> bool" where
  "failure_ok f \<longleftrightarrow> (failure_Phase (failure_Status f) = DiskFailurePhaseResolved \<longleftrightarrow> failure_ResolvedAt (failure_Status f) \<noteq> None)"

definition cache_ok :: "CachePool \<Rightarrow> bool" where
  "cache_ok c \<longleftrightarrow> cache_Phase (cache_Status c) \<in> {'''', ''NotImplemented''}"

definition all_at :: "(store \<Rightarrow> nskey \<Rightarrow> 'a option) \<Rightarrow> ('a \<Rightarrow> bool) \<Rightarrow> store \<Rightarrow> bool" where
  "all_at f P v \<longleftrightarrow> (\<forall>n x. f v n = Some x \<longrightarrow> P x)"

definition consistent :: "store \<Rightarrow> bool" where
  "consistent v \<longleftrightarrow> all_at disk_at disk_ok v \<and> all_at array_at array_ok v \<and> all_at pool_at pool_ok v \<and>
     all_at share_at share_ok v \<and> all_at job_at job_ok v \<and> all_at failure_at failure_ok v \<and> all_at cache_at cache_ok v"

text \<open>What the users declare: no object appears, disappears or gets another spec, but a disk under deletion may go.\<close>

definition same_specs :: "(store \<Rightarrow> nskey \<Rightarrow> 'a option) \<Rightarrow> ('a \<Rightarrow> 'b) \<Rightarrow> store \<Rightarrow> store \<Rightarrow> bool" where
  "same_specs f s v v' \<longleftrightarrow> (\<forall>n. map_option s (f v' n) = map_option s (f v n))"

definition disks_kept :: "store \<Rightarrow> store \<Rightarrow> bool" where
  "disks_kept v v' \<longleftrightarrow> (\<forall>n. case disk_at v n of
       None \<Rightarrow> disk_at v' n = None
     | Some d \<Rightarrow> (case disk_at v' n of
           None \<Rightarrow> meta_DeletionTimestamp (disk_Meta d) \<noteq> None
         | Some d' \<Rightarrow> disk_Spec d' = disk_Spec d \<and> meta_DeletionTimestamp (disk_Meta d') = meta_DeletionTimestamp (disk_Meta d)))"

definition specs_kept :: "store \<Rightarrow> store \<Rightarrow> bool" where
  "specs_kept v v' \<longleftrightarrow> disks_kept v v' \<and> same_specs array_at array_Spec v v' \<and> same_specs pool_at pool_Spec v v' \<and>
     same_specs share_at share_Spec v v' \<and> same_specs parity_at parity_Spec v v' \<and> same_specs policy_at policy_Spec v v' \<and>
     same_specs job_at job_Spec v v' \<and> same_specs cache_at cache_Spec v v'"

section \<open>Frames\<close>

text \<open>Only objects of this kind and of the data plane changed.\<close>

definition crs_but :: "('w \<Rightarrow> store) \<Rightarrow> kind \<Rightarrow> 'w \<Rightarrow> 'w \<Rightarrow> bool" where
  "crs_but view k w w' \<longleftrightarrow> (\<forall>k'. k' \<notin> {k, KConfigMap, KPod, KService, KCronJob} \<longrightarrow> view w' k' = view w k')"

lemma crs_but_only:
  assumes "only_changed view k n w w'"
  shows "crs_but view k w w'"
  unfolding crs_but_def
proof (intro allI impI ext)
  fix k' m assume "k' \<notin> {k, KConfigMap, KPod, KService, KCronJob}"
  then have "k' \<noteq> KConfigMap" "(k', m) \<noteq> (k, n)" by simp_all
  then show "view w' k' m = view w k' m" by (rule only_changed_other[OF assms])
qed

lemma crs_but_at:
  assumes "only_at view k n w w'"
  shows "crs_but view k w w'"
  unfolding crs_but_def
proof (intro allI impI ext)
  fix k' m assume "k' \<notin> {k, KConfigMap, KPod, KService, KCronJob}"
  then have "(k', m) \<noteq> (k, n)" by simp
  then show "view w' k' m = view w k' m" by (rule assms[unfolded only_at_def, THEN spec, THEN spec, THEN mp])
qed

lemma crs_but_refl: "view w' = view w \<Longrightarrow> crs_but view k w w'"
  by (simp add: crs_but_def)

lemma at_cong:
  "v' KDisk = v KDisk \<Longrightarrow> disk_at v' n = disk_at v n" "v' KArray = v KArray \<Longrightarrow> array_at v' n = array_at v n"
  "v' KPool = v KPool \<Longrightarrow> pool_at v' n = pool_at v n" "v' KShare = v KShare \<Longrightarrow> share_at v' n = share_at v n"
  "v' KParitySchedule = v KParitySchedule \<Longrightarrow> parity_at v' n = parity_at v n"
  "v' KPlacementPolicy = v KPlacementPolicy \<Longrightarrow> policy_at v' n = policy_at v n"
  "v' KRebalanceJob = v KRebalanceJob \<Longrightarrow> job_at v' n = job_at v n"
  "v' KDiskFailure = v KDiskFailure \<Longrightarrow> failure_at v' n = failure_at v n"
  "v' KCachePool = v KCachePool \<Longrightarrow> cache_at v' n = cache_at v n"
  by (simp_all add: disk_at_def array_at_def pool_at_def share_at_def parity_at_def policy_at_def job_at_def
      failure_at_def cache_at_def)

lemma disks_kept_refl: "(\<And>n. disk_at v' n = disk_at v n) \<Longrightarrow> disks_kept v v'"
  by (simp add: disks_kept_def split: option.split)

lemma crs_but_ats:
  assumes "crs_but view k w w'"
  shows "k \<noteq> KDisk \<Longrightarrow> disk_at (view w') n = disk_at (view w) n" "k \<noteq> KArray \<Longrightarrow> array_at (view w') n = array_at (view w) n"
    "k \<noteq> KPool \<Longrightarrow> pool_at (view w') n = pool_at (view w) n" "k \<noteq> KShare \<Longrightarrow> share_at (view w') n = share_at (view w) n"
    "k \<noteq> KParitySchedule \<Longrightarrow> parity_at (view w') n = parity_at (view w) n"
    "k \<noteq> KPlacementPolicy \<Longrightarrow> policy_at (view w') n = policy_at (view w) n"
    "k \<noteq> KRebalanceJob \<Longrightarrow> job_at (view w') n = job_at (view w) n"
    "k \<noteq> KDiskFailure \<Longrightarrow> failure_at (view w') n = failure_at (view w) n"
    "k \<noteq> KCachePool \<Longrightarrow> cache_at (view w') n = cache_at (view w) n"
  by (rule at_cong; use assms in \<open>simp add: crs_but_def\<close>)+

text \<open>What holds after a step that changed objects of one kind, given what it did to these.\<close>

definition step_ok :: "('w \<Rightarrow> store) \<Rightarrow> 'w \<Rightarrow> 'w \<Rightarrow> bool" where
  "step_ok view w w' \<longleftrightarrow> specs_kept (view w) (view w') \<and> (consistent (view w) \<longrightarrow> consistent (view w'))"

lemma specs_kept_trans: "specs_kept u v \<Longrightarrow> specs_kept v w \<Longrightarrow> specs_kept u w"
proof -
  have "disks_kept u w" if "disks_kept u v" "disks_kept v w"
    unfolding disks_kept_def
  proof
    fix n
    show "case disk_at u n of None \<Rightarrow> disk_at w n = None | Some d \<Rightarrow> (case disk_at w n of
           None \<Rightarrow> meta_DeletionTimestamp (disk_Meta d) \<noteq> None
         | Some d' \<Rightarrow> disk_Spec d' = disk_Spec d \<and> meta_DeletionTimestamp (disk_Meta d') = meta_DeletionTimestamp (disk_Meta d))"
      using that[unfolded disks_kept_def, THEN spec[of _ n]] by (auto split: option.splits)
  qed
  moreover assume "specs_kept u v" "specs_kept v w"
  ultimately show ?thesis by (simp add: specs_kept_def same_specs_def)
qed

lemma all_at_step: "all_at f P v \<Longrightarrow> (\<And>m. m \<noteq> n \<Longrightarrow> f v' m = f v m) \<Longrightarrow> (\<And>x. f v' n = Some x \<Longrightarrow> P x) \<Longrightarrow> all_at f P v'"
  unfolding all_at_def by metis

lemma same_specs_step: "(\<And>m. m \<noteq> n \<Longrightarrow> f v' m = f v m) \<Longrightarrow> map_option s (f v' n) = map_option s (f v n) \<Longrightarrow> same_specs f s v v'"
  unfolding same_specs_def by metis

text \<open>One lemma per kind: how a change of the objects of this kind extends to the whole store.\<close>

lemma step_ok_none:
  assumes "crs_but view k w w'" and "k \<in> {KConfigMap, KPod, KService, KCronJob}"
  shows "step_ok view w w'"
proof -
  have "k \<noteq> KDisk \<and> k \<noteq> KArray \<and> k \<noteq> KPool \<and> k \<noteq> KShare \<and> k \<noteq> KParitySchedule \<and> k \<noteq> KPlacementPolicy \<and>
      k \<noteq> KRebalanceJob \<and> k \<noteq> KDiskFailure \<and> k \<noteq> KCachePool" using assms(2) by auto
  then show ?thesis
    by (simp add: step_ok_def specs_kept_def same_specs_def consistent_def all_at_def disks_kept_refl crs_but_ats[OF assms(1)])
qed

lemma step_ok_disk:
  assumes "crs_but view KDisk w w'" and "disks_kept (view w) (view w')"
    and "all_at disk_at disk_ok (view w) \<Longrightarrow> all_at disk_at disk_ok (view w')"
  shows "step_ok view w w'"
  using assms(2,3) by (simp add: step_ok_def specs_kept_def same_specs_def consistent_def all_at_def[of array_at] all_at_def[of pool_at]
      all_at_def[of share_at] all_at_def[of job_at] all_at_def[of failure_at] all_at_def[of cache_at] crs_but_ats[OF assms(1)])

lemma step_ok_array:
  assumes "crs_but view KArray w w'" and "same_specs array_at array_Spec (view w) (view w')"
    and "all_at array_at array_ok (view w) \<Longrightarrow> all_at array_at array_ok (view w')"
  shows "step_ok view w w'"
  using assms(2,3) by (simp add: step_ok_def specs_kept_def same_specs_def consistent_def all_at_def[of disk_at] all_at_def[of pool_at]
      all_at_def[of share_at] all_at_def[of job_at] all_at_def[of failure_at] all_at_def[of cache_at] disks_kept_refl crs_but_ats[OF assms(1)])

lemma step_ok_pool:
  assumes "crs_but view KPool w w'" and "same_specs pool_at pool_Spec (view w) (view w')"
    and "all_at pool_at pool_ok (view w) \<Longrightarrow> all_at pool_at pool_ok (view w')"
  shows "step_ok view w w'"
  using assms(2,3) by (simp add: step_ok_def specs_kept_def same_specs_def consistent_def all_at_def[of disk_at] all_at_def[of array_at]
      all_at_def[of share_at] all_at_def[of job_at] all_at_def[of failure_at] all_at_def[of cache_at] disks_kept_refl crs_but_ats[OF assms(1)])

lemma step_ok_share:
  assumes "crs_but view KShare w w'" and "same_specs share_at share_Spec (view w) (view w')"
    and "all_at share_at share_ok (view w) \<Longrightarrow> all_at share_at share_ok (view w')"
  shows "step_ok view w w'"
  using assms(2,3) by (simp add: step_ok_def specs_kept_def same_specs_def consistent_def all_at_def[of disk_at] all_at_def[of array_at]
      all_at_def[of pool_at] all_at_def[of job_at] all_at_def[of failure_at] all_at_def[of cache_at] disks_kept_refl crs_but_ats[OF assms(1)])

lemma step_ok_job:
  assumes "crs_but view KRebalanceJob w w'" and "same_specs job_at job_Spec (view w) (view w')"
    and "all_at job_at job_ok (view w) \<Longrightarrow> all_at job_at job_ok (view w')"
  shows "step_ok view w w'"
  using assms(2,3) by (simp add: step_ok_def specs_kept_def same_specs_def consistent_def all_at_def[of disk_at] all_at_def[of array_at]
      all_at_def[of pool_at] all_at_def[of share_at] all_at_def[of failure_at] all_at_def[of cache_at] disks_kept_refl crs_but_ats[OF assms(1)])

lemma step_ok_failure:
  assumes "crs_but view KDiskFailure w w'" and "all_at failure_at failure_ok (view w) \<Longrightarrow> all_at failure_at failure_ok (view w')"
  shows "step_ok view w w'"
  using assms(2) by (simp add: step_ok_def specs_kept_def same_specs_def consistent_def all_at_def[of disk_at] all_at_def[of array_at]
      all_at_def[of pool_at] all_at_def[of share_at] all_at_def[of job_at] all_at_def[of cache_at] disks_kept_refl crs_but_ats[OF assms(1)])

lemma step_ok_cache:
  assumes "crs_but view KCachePool w w'" and "same_specs cache_at cache_Spec (view w) (view w')"
    and "all_at cache_at cache_ok (view w) \<Longrightarrow> all_at cache_at cache_ok (view w')"
  shows "step_ok view w w'"
  using assms(2,3) by (simp add: step_ok_def specs_kept_def same_specs_def consistent_def all_at_def[of disk_at] all_at_def[of array_at]
      all_at_def[of pool_at] all_at_def[of share_at] all_at_def[of job_at] all_at_def[of failure_at] disks_kept_refl crs_but_ats[OF assms(1)])

lemma only_changed_ats:
  assumes "only_changed view k n w w'" and "m \<noteq> n"
  shows "k = KDisk \<Longrightarrow> disk_at (view w') m = disk_at (view w) m" "k = KArray \<Longrightarrow> array_at (view w') m = array_at (view w) m"
    "k = KPool \<Longrightarrow> pool_at (view w') m = pool_at (view w) m" "k = KRebalanceJob \<Longrightarrow> job_at (view w') m = job_at (view w) m"
proof -
  have "view w' k m = view w k m" if "k \<noteq> KConfigMap" using only_changed_other[OF assms(1) that] assms(2) by simp
  then show "k = KDisk \<Longrightarrow> disk_at (view w') m = disk_at (view w) m" "k = KArray \<Longrightarrow> array_at (view w') m = array_at (view w) m"
    "k = KPool \<Longrightarrow> pool_at (view w') m = pool_at (view w) m" "k = KRebalanceJob \<Longrightarrow> job_at (view w') m = job_at (view w) m"
    by (auto simp: disk_at_def array_at_def pool_at_def job_at_def)
qed

section \<open>Every controller\<close>

lemma disk_trans_decl:
  assumes "disk_trans ac x y"
  shows "case x of None \<Rightarrow> y = None
     | Some d \<Rightarrow> (case y of
           None \<Rightarrow> meta_DeletionTimestamp (disk_Meta d) \<noteq> None
         | Some d' \<Rightarrow> disk_Spec d' = disk_Spec d \<and> meta_DeletionTimestamp (disk_Meta d') = meta_DeletionTimestamp (disk_Meta d))"
  using assms by cases (auto split: option.split simp: disk_with_finalizer_def disk_without_finalizer_def set_disk_rv_def)

lemma disk_step_step_ok:
  assumes "disk_step ac view n w r w'"
  shows "step_ok view w w'"
proof (rule step_ok_disk)
  have oc: "only_changed view KDisk n w w'" and t: "disk_trans ac (disk_at (view w) n) (disk_at (view w') n)"
    using assms by (simp_all add: disk_step_def)
  show "crs_but view KDisk w w'" by (rule crs_but_only[OF oc])
  show "disks_kept (view w) (view w')" unfolding disks_kept_def
  proof
    fix m
    show "case disk_at (view w) m of None \<Rightarrow> disk_at (view w') m = None
     | Some d \<Rightarrow> (case disk_at (view w') m of
           None \<Rightarrow> meta_DeletionTimestamp (disk_Meta d) \<noteq> None
         | Some d' \<Rightarrow> disk_Spec d' = disk_Spec d \<and> meta_DeletionTimestamp (disk_Meta d') = meta_DeletionTimestamp (disk_Meta d))"
      using disk_trans_decl[OF t] only_changed_ats(1)[OF oc] by (cases "m = n") (auto split: option.split)
  qed
  show "all_at disk_at disk_ok (view w) \<Longrightarrow> all_at disk_at disk_ok (view w')"
    using disk_step_ok[of view w ac n r w'] assms unfolding disks_ok_def all_at_def by blast
qed

text \<open>The shape the steps of Array, Pool and Share have in common.\<close>

lemma outcome_step:
  assumes "case f v n of None \<Rightarrow> f v' n = None
     | Some a \<Rightarrow> if err then f v' n = Some a else (\<exists>rv a'. f v' n = Some (g rv a') \<and> out a a')"
    and out: "\<And>a a' rv. out a a' \<Longrightarrow> s (g rv a') = s a \<and> P (g rv a')" and "\<And>m. m \<noteq> n \<Longrightarrow> f v' m = f v m"
  shows "same_specs f s v v'" "all_at f P v \<Longrightarrow> all_at f P v'"
proof -
  have "map_option s (f v' n) = map_option s (f v n)"
    using assms(1) out by (auto split: option.splits if_splits)
  then show "same_specs f s v v'" by (intro same_specs_step[where n = n] assms(3))
  assume all: "all_at f P v"
  then have old: "P a" if "f v n = Some a" for a using that unfolding all_at_def by blast
  show "all_at f P v'"
  proof (rule all_at_step[OF all assms(3)])
    fix x assume "f v' n = Some x"
    then show "P x" using assms(1) out old by (auto split: option.splits if_splits)
  qed
qed

lemma array_step_step_ok:
  assumes "array_step view conf n w r w'"
  shows "step_ok view w w'"
proof -
  have oc: "only_changed view KArray n w w'" using assms by (simp add: array_step_def)
  have out: "array_Spec (set_array_rv rv a') = array_Spec a \<and> array_ok (set_array_rv rv a')" if "array_outcome v cf a a'" for v cf a a' rv
    using that by cases (auto simp: array_ok_def)
  note step = outcome_step[where f = array_at and s = array_Spec and P = array_ok and g = set_array_rv and n = n and v = "view w" and v' = "view w'",
      OF assms[unfolded array_step_def, THEN conjunct2] out only_changed_ats(2)[OF oc _ refl]]
  show ?thesis by (rule step_ok_array[OF crs_but_only[OF oc] step])
qed

lemma pool_step_step_ok:
  assumes "pool_step view n w r w'"
  shows "step_ok view w w'"
proof -
  have oc: "only_changed view KPool n w w'" using assms by (simp add: pool_step_def)
  have out: "pool_Spec (set_pool_rv rv p') = pool_Spec p \<and> pool_ok (set_pool_rv rv p')" if "pool_outcome v p p'" for v p p' rv
    using that by cases (auto simp: pool_ok_def pool_fill_def branches_of_def)
  note step = outcome_step[where f = pool_at and s = pool_Spec and P = pool_ok and g = set_pool_rv and n = n and v = "view w" and v' = "view w'",
      OF assms[unfolded pool_step_def, THEN conjunct2] out only_changed_ats(3)[OF oc _ refl]]
  show ?thesis by (rule step_ok_pool[OF crs_but_only[OF oc] step])
qed

lemma share_changed_other:
  assumes "share_changed view n w w'" and "k \<notin> {KConfigMap, KPod, KService}" and "(k, m) \<noteq> (KShare, n)"
  shows "view w' k m = view w k m"
  using assms(1)[unfolded share_changed_def, THEN spec, THEN spec, THEN mp, THEN mp, OF assms(2,3)] .

lemma share_step_step_ok:
  assumes "share_step own view n w r w'"
  shows "step_ok view w w'"
proof -
  have oc: "share_changed view n w w'" using assms by (simp add: share_step_def)
  have out: "share_Spec (set_share_rv rv s') = share_Spec s \<and> share_ok (set_share_rv rv s')" if "share_outcome own v v' s s'" for v v' s s' rv
    using that by cases (auto simp: share_ok_def)
  have other: "share_at (view w') m = share_at (view w) m" if "m \<noteq> n" for m
    using share_changed_other[OF oc, of KShare m] that by (simp add: share_at_def)
  have but: "crs_but view KShare w w'" unfolding crs_but_def
  proof (intro allI impI ext)
    fix k m assume "k \<notin> {KShare, KConfigMap, KPod, KService, KCronJob}"
    then have "k \<notin> {KConfigMap, KPod, KService}" "(k, m) \<noteq> (KShare, n)" by simp_all
    then show "view w' k m = view w k m" by (rule share_changed_other[OF oc])
  qed
  note step = outcome_step[where f = share_at and s = share_Spec and P = share_ok and g = set_share_rv and n = n and v = "view w" and v' = "view w'",
      OF assms[unfolded share_step_def, THEN conjunct2] out other]
  show ?thesis by (rule step_ok_share[OF but step])
qed

lemma job_step_step_ok:
  assumes "job_step view n w r w'"
  shows "step_ok view w w'"
proof (rule step_ok_job)
  have oc: "only_changed view KRebalanceJob n w w'" using assms by (simp add: job_step_def)
  have out: "job_ok (job_with_phase ph t1 t2 j)" if "job_trans v j ph" for v j ph t1 t2
    using that by cases (auto simp: job_ok_def job_with_phase_def terminal_def)
  show "crs_but view KRebalanceJob w w'" by (rule crs_but_only[OF oc])
  show "same_specs job_at job_Spec (view w) (view w')"
    using assms by (intro same_specs_step[of n] only_changed_ats(4)[OF oc]) (auto simp: job_step_def)
  show "all_at job_at job_ok (view w')" if all: "all_at job_at job_ok (view w)"
  proof (rule all_at_step[OF all], erule only_changed_ats(4)[OF oc], rule refl)
    fix x assume x: "job_at (view w') n = Some x"
    show "job_ok x"
    proof (cases "job_at (view w') n = job_at (view w) n")
      case True
      then show ?thesis using x all unfolding all_at_def by metis
    next
      case False
      then obtain j rv t1 t2 ph where "job_trans (view w) j ph" "x = set_job_rv rv (job_with_phase ph t1 t2 j)"
        using assms x unfolding job_step_def by auto
      then show ?thesis using out[of "view w" j ph t1 t2] by (simp add: job_ok_def)
    qed
  qed
qed

lemma policy_step_step_ok: "policy_step view n w r w' \<Longrightarrow> step_ok view w w'"
  by (rule step_ok_none[of view KConfigMap]) (auto simp: policy_step_def intro: crs_but_at)

lemma crons_changed_step_ok: "crons_changed view ps ns w w' \<Longrightarrow> step_ok view w w'"
  by (rule step_ok_none[of view KCronJob]) (auto simp: crons_changed_def crs_but_def)

lemma store_set_but: "view w' = store_set (view w) k m x \<Longrightarrow> crs_but view k w w'"
  by (simp add: crs_but_def fun_eq_iff)

lemma failure_set_ok:
  assumes "view w' = store_set (view w) KDiskFailure m x"
    and "\<And>f. x = Some (ODiskFailure f) \<Longrightarrow> all_at failure_at failure_ok (view w) \<Longrightarrow> failure_ok f"
  shows "step_ok view w w'"
proof (rule step_ok_failure[OF store_set_but[OF assms(1)]])
  assume all: "all_at failure_at failure_ok (view w)"
  show "all_at failure_at failure_ok (view w')"
  proof (rule all_at_step[OF all])
    show "failure_at (view w') p = failure_at (view w) p" if "p \<noteq> m" for p using that by (simp add: failure_at_def assms(1))
    show "failure_ok f" if "failure_at (view w') m = Some f" for f
      using assms(2)[OF _ all, of f] that by (simp add: failure_at_iff assms(1))
  qed
qed

lemma cache_set_ok:
  assumes "view w' = store_set (view w) KCachePool m (Some (OCachePool c'))" and "cache_at (view w) m = Some c"
    and "cache_Spec c' = cache_Spec c" "cache_ok c'"
  shows "step_ok view w w'"
proof (rule step_ok_cache[OF store_set_but[OF assms(1)]])
  have other: "cache_at (view w') p = cache_at (view w) p" if "p \<noteq> m" for p using that by (simp add: cache_at_def assms(1))
  have here: "cache_at (view w') m = Some c'" by (simp add: cache_at_def assms(1))
  show "same_specs cache_at cache_Spec (view w) (view w')" by (rule same_specs_step[where n = m, OF other]) (simp_all add: here assms(2,3))
  show "all_at cache_at cache_ok (view w')" if all: "all_at cache_at cache_ok (view w)"
    by (rule all_at_step[OF all other]) (use here assms(4) in auto)
qed

lemma step_ok_same: "view w' = view w \<Longrightarrow> step_ok view w w'"
  by (rule step_ok_none[OF crs_but_refl, of _ _ _ KConfigMap]) simp_all

lemma with_rv_OCachePool: "with_rv rv (OCachePool c) = OCachePool (cache_Meta_update (meta_ResourceVersion_update (\<lambda>_. rv)) c)"
  by (simp add: with_rv_def)

lemma put_failure:
  "with_rv rv (put_status old (ODiskFailure g)) = ODiskFailure x \<Longrightarrow> failure_Status x = failure_Status g"
  "with_rv rv (put_main old (ODiskFailure g)) = ODiskFailure x \<Longrightarrow>
     (\<exists>f. old = ODiskFailure f \<and> failure_Status x = failure_Status f) \<or> failure_Status x = failure_Status g"
  by (cases old; auto simp: with_rv_def put_status_def put_main_def)+

context kube_api begin

lemma wp_CachePool_Reconcile: "wp (CachePool_Reconcile cl n) (\<lambda>r w'. step_ok view w w') w"
  unfolding CachePool_Reconcile_def wp
proof (rule wp_get, goal_cases)
  case (1 ob w1)
  then obtain c where ob: "ob = OCachePool c" by (cases ob) auto
  have c: "cache_at (view w) n = Some c" "key_of (OCachePool c) = n" using 1 by (simp_all add: ob cache_at_def)
  then have k: "key_of (OCachePool (cache_not_implemented c)) = n" by (simp add: cache_not_implemented_def key_of_def)
  show ?case unfolding ob as_CachePool_def sum.case kobject.case wp
  proof (rule wp_status_update, goal_cases)
    case (1 old rv w2)
    then have "old = OCachePool c" using c k \<open>view w1 = view w\<close> by (simp add: cache_at_def split: option.splits kobject.splits)
    then have "with_rv rv (put_status old (OCachePool (cache_not_implemented c)))
        = OCachePool (cache_Meta_update (meta_ResourceVersion_update (\<lambda>_. rv)) (cache_not_implemented c))"
      by (simp add: with_rv_OCachePool put_status_def cache_not_implemented_def)
    then show ?case using 1(2) k \<open>view w1 = view w\<close>
      by (intro cache_set_ok[where view = view and w = w and w' = w2 and m = n and c = c and
          c' = "cache_Meta_update (meta_ResourceVersion_update (\<lambda>_. rv)) (cache_not_implemented c)"] c(1))
        (simp_all add: cache_not_implemented_def cache_ok_def)
  qed (use 1 in \<open>simp add: step_ok_same\<close>)
qed (simp add: as_CachePool_def wp step_ok_same)

lemma wp_resolve_ok:
  assumes "view w1 = view w"
  shows "wp (resolveOpenFailures cl d) (\<lambda>r w'. step_ok view w w') w1"
  unfolding resolveOpenFailures_def wp
proof (rule wp_get, goal_cases)
  case (1 ob w2)
  then obtain f where ob: "ob = ODiskFailure f" by (cases ob) auto
  have same: "view w2 = view w" using 1 assms by simp
  have upd: "wp (env_status_update cl (ODiskFailure (resolve_failure d now f))) (\<lambda>r w'. step_ok view w w') w3" if "view w3 = view w" for now w3
  proof (rule wp_status_update, goal_cases)
    case (1 old rv w4)
    show ?case
    proof (rule failure_set_ok)
      show "view w4 = store_set (view w) KDiskFailure (key_of (ODiskFailure (resolve_failure d now f)))
          (Some (with_rv rv (put_status old (ODiskFailure (resolve_failure d now f)))))"
        using 1(2) that by simp
    qed (auto dest!: put_failure(1) simp: failure_ok_def resolve_failure_def)
  qed (simp add: that step_ok_same)
  show ?case unfolding ob as_DiskFailure_def sum.case kobject.case wp
    using same by (auto simp: step_ok_same wp intro!: wp_now upd split: option.split)
qed (use assms in \<open>simp add: as_DiskFailure_def wp step_ok_same\<close>)

lemma wp_new_failure_ok:
  assumes "view w1 = view w"
  shows "wp (env_create cl (ODiskFailure (newFailure cl d))) (\<lambda>r w'. step_ok view w w') w1"
proof (rule wp_create, goal_cases)
  case (1 rv u w2)
  show ?case
  proof (rule failure_set_ok)
    show "view w2 = store_set (view w) KDiskFailure (key_of (ODiskFailure (newFailure cl d)))
        (Some (with_uid u (with_rv rv (ODiskFailure (newFailure cl d)))))"
      using 1(2) assms by simp
  qed (auto simp: newFailure_def failure_ok_def with_rv_ODiskFailure split: prod.splits)
qed (simp add: assms step_ok_same)

lemma wp_escalate_ok:
  assumes w1: "view w1 = view w" and f: "failure_at (view w) m = Some f"
  shows "wp (env_update cl (ODiskFailure (escalate d f))) (\<lambda>r w'. step_ok view w w') w1"
proof (rule wp_update, goal_cases)
  case (1 old rv w2)
  let ?new = "if deletion_done (ODiskFailure (escalate d f)) then None
    else Some (with_rv rv (put_main old (ODiskFailure (escalate d f))))"
  show ?case
  proof (rule failure_set_ok)
    show "view w2 = store_set (view w) KDiskFailure (key_of (ODiskFailure (escalate d f))) ?new" using 1(2) w1 by simp
    fix x assume x: "?new = Some (ODiskFailure x)" and all: "all_at failure_at failure_ok (view w)"
    have ok: "failure_ok g" if "failure_at (view w) p = Some g" for g p using all that unfolding all_at_def by blast
    have "(\<exists>g. old = ODiskFailure g \<and> failure_Status x = failure_Status g) \<or> failure_Status x = failure_Status f"
      using x by (auto dest!: put_failure(2) simp: escalate_def split: if_splits prod.splits)
    moreover have "failure_ok g" if "old = ODiskFailure g" for g
      using ok[of "key_of (ODiskFailure (escalate d f))" g] 1(1) w1 that by (simp add: failure_at_iff)
    ultimately show "failure_ok x" using ok[OF f] by (auto simp: failure_ok_def)
  qed
qed (simp add: w1 step_ok_same)

lemma wp_Failure_Reconcile_ok: "wp (Failure_Reconcile cl n) (\<lambda>r w'. step_ok view w w') w"
  unfolding Failure_Reconcile_def wp
proof (rule wp_get, goal_cases)
  case (1 ob w1)
  then obtain d where ob: "ob = ODisk d" by (cases ob) auto
  have w1: "view w1 = view w" using 1 by simp
  have failing: "wp (env_get cl KDiskFailure (operatorNamespace cl, failureName d)) (\<lambda>rf. wp (case as_DiskFailure rf of
       Inl err \<Rightarrow>
         if IsNotFound err
         then do {
           createErr \<leftarrow> env_create cl (ODiskFailure (newFailure cl d));
           State_Monad.return (case createErr of
             Some e \<Rightarrow> (Result_zero, Some (WrapError ''creating disk failure'' e)) | None \<Rightarrow> (requeue_after 120, None))
         }
         else State_Monad.return (requeue_after 120, None)
     | Inr existing \<Rightarrow>
         if failure_Severity (failure_Spec existing) \<noteq> fst (classify d)
         then do {
           updateErr \<leftarrow> env_update cl (ODiskFailure (escalate d existing));
           State_Monad.return (case updateErr of
             Some e \<Rightarrow> (Result_zero, Some (WrapError ''updating disk failure'' e)) | None \<Rightarrow> (requeue_after 120, None))
         }
         else State_Monad.return (requeue_after 120, None)) (\<lambda>r w'. step_ok view w w')) w1"
  proof (rule wp_get, goal_cases)
    case (1 obf w2)
    then obtain f where f: "obf = ODiskFailure f" by (cases obf) auto
    have "failure_at (view w) (operatorNamespace cl, failureName d) = Some f" using 1 w1 by (simp add: f failure_at_iff)
    note u = wp_escalate_ok[OF _ this, of w2]
    show ?case using 1(1) w1 u unfolding f by (simp add: as_DiskFailure_def wp wp_return_fun step_ok_same)
  next
    case (2 e w2)
    then show ?case using w1 wp_new_failure_ok[of w2] by (simp add: as_DiskFailure_def wp wp_return_fun step_ok_same)
  qed
  show ?case unfolding ob as_Disk_def sum.case kobject.case wp
    using failing[unfolded wp] wp_resolve_ok[OF w1] by simp
qed (simp add: as_Disk_def wp step_ok_same)

end

context operator begin

lemma wp_Parity_ok: "wp (Parity_Reconcile cl n) (\<lambda>r w'. step_ok view w w') w"
proof (cases "parity_at (view w) n")
  case None
  show ?thesis unfolding Parity_Reconcile_def wp
  proof (rule wp_get, goal_cases)
    case (1 ob w1)
    then have False using None by (cases ob) (simp_all add: parity_at_def)
    then show ?case ..
  qed (simp add: as_ParitySchedule_def wp step_ok_same)
next
  case (Some ps)
  show ?thesis by (rule wp_mono[OF wp_Parity_Reconcile[OF Some]]) (blast intro: crons_changed_step_ok)
qed

lemma wp_ctrl_Reconcile:
  assumes "own_ok own"
  shows "wp (ctrl_Reconcile cl ac own c n) (\<lambda>r w'. step_ok view w w') w"
proof (cases c)
  case DiskReconciler
  then show ?thesis by (simp add: wp_mono[OF wp_Disk_Reconcile disk_step_step_ok])
next
  case ArrayReconciler
  then show ?thesis by (simp add: wp_mono[OF wp_Array_Reconcile array_step_step_ok])
next
  case PoolReconciler
  then show ?thesis by (simp add: wp_mono[OF wp_Pool_Reconcile pool_step_step_ok])
next
  case ShareReconciler
  then show ?thesis by (simp add: wp_mono[OF wp_Share_Reconcile[OF assms] share_step_step_ok])
next
  case RebalanceReconciler
  then show ?thesis by (simp add: wp_mono[OF wp_Rebalance_Reconcile job_step_step_ok])
next
  case PlacementPolicyReconciler
  then show ?thesis by (simp add: wp_mono[OF wp_PlacementPolicy_Reconcile policy_step_step_ok])
qed (simp_all add: wp_Parity_ok wp_CachePool_Reconcile wp_Failure_Reconcile_ok)

end

section \<open>The running operator\<close>

text \<open>
  What clients of the API do to the store: the server drops the status of a new object and keeps the stored
  status when the main resource is edited.
\<close>

fun unreported :: "kobject \<Rightarrow> bool" where
  "unreported (ODisk d) \<longleftrightarrow> disk_Phase (disk_Status d) = DiskPhaseUnset \<and> disk_Conditions (disk_Status d) = []"
| "unreported (OArray a) \<longleftrightarrow> array_Phase (array_Status a) = ArrayPhaseUnset"
| "unreported (OPool p) \<longleftrightarrow> pool_Phase (pool_Status p) = '''' \<and> \<not> pool_Mounted (pool_Status p)"
| "unreported (OShare s) \<longleftrightarrow> share_Phase (share_Status s) = '''' \<and> \<not> share_Published (share_Status s)"
| "unreported (ORebalanceJob j) \<longleftrightarrow> job_Phase (job_Status j) = RebalanceJobPhaseUnset"
| "unreported (ODiskFailure f) \<longleftrightarrow> failure_Phase (failure_Status f) = DiskFailurePhaseUnset \<and> failure_ResolvedAt (failure_Status f) = None"
| "unreported (OCachePool c) \<longleftrightarrow> cache_Phase (cache_Status c) = ''''"
| "unreported _ \<longleftrightarrow> True"

inductive client_step :: "store \<Rightarrow> store \<Rightarrow> bool" for v where
  create: "v (kind_of ob) (key_of ob) = None \<Longrightarrow> unreported ob \<Longrightarrow>
    client_step v (store_set v (kind_of ob) (key_of ob) (Some ob))"
| edit: "v (kind_of ob) (key_of ob) = Some old \<Longrightarrow> kind_of old = kind_of ob \<Longrightarrow>
    client_step v (store_set v (kind_of ob) (key_of ob) (Some (put_main old ob)))"
| remove: "client_step v (store_set v k n None)"

text \<open>Any registered controller handles any request, or a client acts.\<close>

inductive operator_step ::
  "'w env \<Rightarrow> 'w agent_client \<Rightarrow> owner_fn \<Rightarrow> ('w \<Rightarrow> store) \<Rightarrow> 'w \<Rightarrow> 'w \<Rightarrow> bool" for cl ac own view where
  reconcile: "c \<in> set (controllers operator_setup) \<Longrightarrow> run_state (ctrl_Reconcile cl ac own c n) w = (r, w') \<Longrightarrow>
    operator_step cl ac own view w w'"
| client: "client_step (view w) (view w') \<Longrightarrow> operator_step cl ac own view w w'"

inductive_cases client_stepE: "client_step v v'"

fun obj_ok :: "kobject \<Rightarrow> bool" where
  "obj_ok (ODisk d) = disk_ok d"
| "obj_ok (OArray a) = array_ok a"
| "obj_ok (OPool p) = pool_ok p"
| "obj_ok (OShare s) = share_ok s"
| "obj_ok (ORebalanceJob j) = job_ok j"
| "obj_ok (ODiskFailure f) = failure_ok f"
| "obj_ok (OCachePool c) = cache_ok c"
| "obj_ok _ = True"

lemma unreported_ok: "unreported ob \<Longrightarrow> obj_ok ob"
  by (cases ob) (auto simp: disk_ok_def array_ok_def pool_ok_def share_ok_def job_ok_def failure_ok_def cache_ok_def
      types_distinct_def terminal_def)

lemma put_main_ok: "kind_of old = kind_of ob \<Longrightarrow> obj_ok old \<Longrightarrow> obj_ok (put_main old ob)"
  by (cases old; cases ob) (simp_all add: disk_ok_def array_ok_def pool_ok_def share_ok_def job_ok_def failure_ok_def cache_ok_def)

lemma share_cache_at_iff:
  "share_at v n = Some s \<longleftrightarrow> v KShare n = Some (OShare s)" "cache_at v n = Some c \<longleftrightarrow> v KCachePool n = Some (OCachePool c)"
  by (auto simp: share_at_def cache_at_def split: option.splits kobject.splits)

lemmas at_iffs = disk_at_iff array_at_iff pool_at_iff share_cache_at_iff job_at_iff failure_at_iff

lemma consistentD:
  assumes "consistent v" and "v k n = Some ob" and "kind_of ob = k"
  shows "obj_ok ob"
  using assms(2,3) assms(1)[unfolded consistent_def all_at_def at_iffs]
  by (cases ob) (simp_all only: kind_of.simps obj_ok.simps simp_thms, (blast+)?)

lemma consistentI:
  assumes "\<And>k n ob. v k n = Some ob \<Longrightarrow> kind_of ob = k \<Longrightarrow> obj_ok ob"
  shows "consistent v"
  unfolding consistent_def all_at_def at_iffs
  by (intro conjI allI impI; drule assms; simp)

lemma consistent_set:
  assumes "consistent v" and "\<And>ob. x = Some ob \<Longrightarrow> obj_ok ob"
  shows "consistent (store_set v k n x)"
proof (rule consistentI)
  fix k' m ob assume "store_set v k n x k' m = Some ob" and kind: "kind_of ob = k'"
  then have "v k' m = Some ob \<or> x = Some ob" by (simp split: if_splits)
  then show "obj_ok ob" using assms(2) consistentD[OF assms(1) _ kind] by blast
qed

lemma client_step_consistent:
  assumes "client_step v v'" and "consistent v"
  shows "consistent v'"
  using assms(1)
proof cases
  case (create ob)
  then show ?thesis using assms(2) by (auto intro!: consistent_set dest: unreported_ok)
next
  case (edit ob old)
  then have "obj_ok old" by (intro consistentD[OF assms(2)])
  then show ?thesis using edit assms(2) by (auto intro!: consistent_set put_main_ok)
next
  case (remove k n)
  then show ?thesis using assms(2) by (auto intro!: consistent_set)
qed

lemma operator_setup_controllers: "controllers operator_setup = [DiskReconciler, ArrayReconciler, PoolReconciler, ShareReconciler,
    ParityReconciler, RebalanceReconciler, CachePoolReconciler, PlacementPolicyReconciler, FailureReconciler]"
  by (simp add: controllers_def operator_setup_def)

section \<open>Properties\<close>

text \<open>Whatever clients do and in whatever order the registered controllers handle requests, with any failure of the
  API server and any answer of the agents: every object of the store stays consistent. A Ready Disk is mounted
  and its condition agrees with its phase, a Ready Array has no degraded disk on record, a Ready Pool is marked
  mounted and has members, a Share is published exactly when Ready, a finished RebalanceJob has a completion
  time and a running one a start time, a DiskFailure is Resolved exactly when it has a resolution time, and a
  CachePool never gets past \<^verbatim>\<open>NotImplemented\<close>.\<close>

lemma operator_consistent:
  assumes "operator cl view ac conf" and "own_ok own" and "(operator_step cl ac own view)^** w w'" and "consistent (view w)"
  shows "consistent (view w')"
  using assms(3,4)
proof (induction rule: rtranclp_induct)
  case (step w1 w2)
  then have "consistent (view w1)" by blast
  from step(2) show ?case
  proof cases
    case (reconcile c n r)
    have "step_ok view w1 w2" by (rule wp_run[OF operator.wp_ctrl_Reconcile[OF assms(1,2)] reconcile(2)])
    then show ?thesis using \<open>consistent (view w1)\<close> by (simp add: step_ok_def)
  next
    case client
    then show ?thesis using \<open>consistent (view w1)\<close> by (rule client_step_consistent)
  qed
qed

text \<open>The operator never edits what users declare: over any sequence of requests to any controllers no Disk, Array,
  Pool, Share, ParitySchedule, PlacementPolicy, RebalanceJob or CachePool gets another spec, none appears, and
  none disappears but a Disk that is being deleted.\<close>

lemma operator_keeps_specs:
  assumes "operator cl view ac conf" and "own_ok own"
  shows "wp (run_queue (\<lambda>(c, n). ctrl_Reconcile cl ac own c n) requests) (\<lambda>_ w'. specs_kept (view w) (view w')) w"
proof (rule wp_run_queue[where I = "\<lambda>w'. specs_kept (view w) (view w')"])
  fix request :: "ctrl \<times> nskey" and w1 assume kept: "specs_kept (view w) (view w1)"
  obtain c n where request: "request = (c, n)" by (cases request)
  show "wp ((\<lambda>(c, n). ctrl_Reconcile cl ac own c n) request) (\<lambda>_ w'. specs_kept (view w) (view w')) w1"
    unfolding request prod.case
    by (rule wp_mono[OF operator.wp_ctrl_Reconcile[OF assms]]) (use specs_kept_trans[OF kept] in \<open>simp add: step_ok_def\<close>)
qed (simp add: specs_kept_def same_specs_def disks_kept_refl)

text \<open>The manager starts only after every webhook, every controller and both probes were registered, in this order;
  a step that fails ends the process with exit code 1.\<close>

lemma operator_main_registers:
  assumes "\<And>w. wp (mgr_new mgr) (\<lambda>e w'. seen w' = [] \<and> \<not> started w') w"
    and "\<And>s w. wp (mgr_setup mgr s) (\<lambda>e w'. seen w' = (if e = None then seen w @ [s] else seen w) \<and> started w' = started w) w"
    and "\<And>w. wp (mgr_start mgr) (\<lambda>e w'. seen w' = seen w) w"
  shows "wp (operator_main mgr) (\<lambda>code w'. (started w' \<longrightarrow> seen w' = operator_setup) \<and> (code = 0 \<longrightarrow> seen w' = operator_setup)) w"
proof -
  have reg: "wp (run_setup mgr ss) (\<lambda>ok w'. started w' = started w1 \<and> (ok \<longrightarrow> seen w' = seen w1 @ ss)) w1" for ss w1
  proof (induction ss arbitrary: w1)
    case (Cons s ss)
    show ?case unfolding run_setup.simps wp
      by (rule wp_mono[OF assms(2)]) (auto simp: wp intro!: wp_mono[OF Cons.IH])
  qed (simp add: wp)
  have start: "wp (mgr_start mgr) (\<lambda>e w'. seen w' = operator_setup) w1" if "seen w1 = operator_setup" for w1
    by (rule wp_mono[OF assms(3)]) (simp add: that)
  show ?thesis unfolding operator_main_def wp
    by (rule wp_mono[OF assms(1)]) (auto simp: wp intro!: wp_mono[OF reg] wp_mono[OF start])
qed

section \<open>Witnesses\<close>

lemma operator_consistent_witness:
  "consistent (mem_view (snd (run_state (ctrl_Reconcile idle_env idle_agent demo_own ShareReconciler (''nas'', ''media'')) mem_empty)))"
proof -
  obtain r w' where run: "run_state (ctrl_Reconcile idle_env idle_agent demo_own ShareReconciler (''nas'', ''media'')) mem_empty = (r, w')"
    by (cases "run_state (ctrl_Reconcile idle_env idle_agent demo_own ShareReconciler (''nas'', ''media'')) mem_empty") auto
  have "operator_step idle_env idle_agent demo_own mem_view mem_empty w'"
    by (rule operator_step.reconcile[OF _ run]) (simp add: operator_setup_controllers)
  then have steps: "(operator_step idle_env idle_agent demo_own mem_view)^** mem_empty w'" by simp
  have "consistent (mem_view mem_empty)"
    by (rule consistentI) (simp add: mem_view_def mem_empty_def)
  then show ?thesis using operator_consistent[OF idle_operator demo_own_ok steps] by (simp only: run snd_conv)
qed

lemma operator_keeps_specs_witness:
  "wp (run_queue (\<lambda>(c, n). ctrl_Reconcile idle_env idle_agent demo_own c n)
      [(DiskReconciler, ('''', ''sdb'')), (FailureReconciler, ('''', ''sdb''))])
     (\<lambda>_ w'. specs_kept (mem_view (demo_world [diskFinalizer] None)) (mem_view w')) (demo_world [diskFinalizer] None)"
  by (rule operator_keeps_specs[OF idle_operator demo_own_ok])

text \<open>A manager that records what it does.\<close>

definition demo_manager :: "(setup_step list \<times> bool) manager" where
  "demo_manager = \<lparr>mgr_new = State (\<lambda>w. (None, ([], False))),
     mgr_setup = (\<lambda>s. State (\<lambda>(l, b). (None, (l @ [s], b)))),
     mgr_start = State (\<lambda>(l, b). (None, (l, True)))\<rparr>"

lemma operator_main_registers_witness:
  "wp (operator_main demo_manager) (\<lambda>code w'. (snd w' \<longrightarrow> fst w' = operator_setup) \<and> (code = 0 \<longrightarrow> fst w' = operator_setup)) ([], False) \<and>
   run_state (operator_main demo_manager) ([], False) = (0, (operator_setup, True))"
proof
  show "wp (operator_main demo_manager) (\<lambda>code w'. (snd w' \<longrightarrow> fst w' = operator_setup) \<and> (code = 0 \<longrightarrow> fst w' = operator_setup)) ([], False)"
    by (rule operator_main_registers) (auto simp: demo_manager_def wp_def)
  show "run_state (operator_main demo_manager) ([], False) = (0, (operator_setup, True))"
    by (simp add: operator_main_def demo_manager_def operator_setup_def run_simps)
qed

end
