(* ===== verification/Closed_Loop.thy ===== *)
theory Closed_Loop
  imports Cluster Operator_Main
begin

text \<open>
  The operator process on the cluster whose agent never confirms an operation. Because the mount of a pool
  never succeeds there, no Pool becomes Ready and no Share is published, whatever clients do and in whatever
  order the controllers run.
\<close>

section \<open>A client whose pool mounts fail\<close>

locale unmounting = operator cl view ac conf
  for cl :: "'w env" and view :: "'w \<Rightarrow> store" and ac :: "'w agent_client" and conf :: "store \<Rightarrow> string \<rightharpoonup> string" +
  assumes never_mounts: "wp (ac_EnsureMergerFSMount ac node q) (\<lambda>r w'. \<exists>e. r = Inl e) w"
begin

text \<open>The pool is as it was, or it has another phase than Ready and its old mount flag.\<close>

definition pool_stuck :: "nskey \<Rightarrow> 'w \<Rightarrow> 'w \<Rightarrow> bool" where
  "pool_stuck n w w' \<longleftrightarrow> (\<forall>p'. pool_at (view w') n = Some p' \<longrightarrow> (\<exists>p. pool_at (view w) n = Some p \<and>
     pool_Mounted (pool_Status p') = pool_Mounted (pool_Status p) \<and> (p' = p \<or> pool_Phase (pool_Status p') \<noteq> ''Ready'')))"

lemma pool_stuck_same: "crs_same view w w' \<Longrightarrow> pool_stuck n w w'"
  by (simp add: pool_stuck_def pool_at_def crs_same_def)

lemma wp_setPoolPhase_stuck:
  assumes v: "crs_same view w w1" and p: "pool_at (view w) n = Some p" "key_of (OPool p) = n" and ph: "phase \<noteq> ''Ready''"
  shows "wp (setPoolPhase cl p phase reason msg) (\<lambda>r w'. pool_stuck n w w') w1"
proof -
  have k: "key_of (OPool (pool_with_phase phase reason msg now p)) = n" for now using p(2) by (simp add: key_of_def)
  have v1: "view w1 KPool n = Some (OPool p)" using v p(1) by (simp add: crs_same_def pool_at_iff)
  show ?thesis unfolding setPoolPhase_def wp
  proof (rule wp_now, rule wp_status_update, goal_cases)
    case (1 t0 w2 old rv w3)
    then have "pool_at (view w3) n = Some (set_pool_rv rv (pool_with_phase phase reason msg t0 p))"
      using k v1 by (auto simp: put_pool_status pool_at_iff)
    then show ?case using p(1) ph by (simp add: pool_stuck_def)
  next
    case (2 t0 w2 e w3)
    then have "crs_same view w w3" using v by (simp add: crs_same_def)
    then show ?case by (rule pool_stuck_same)
  qed
qed

lemma wp_Pool_stuck: "wp (Pool_Reconcile cl ac n) (\<lambda>r w'. pool_stuck n w w') w"
  unfolding Pool_Reconcile_def wp
proof (rule wp_get, goal_cases)
  case (1 ob w1)
  then obtain p where ob: "ob = OPool p" by (cases ob) auto
  have p: "pool_at (view w) n = Some p" "key_of (OPool p) = n" using 1 ob by (simp_all add: pool_at_iff)
  have pend: "wp (setPoolPhase cl p ''Pending'' reason msg) (\<lambda>r w'. pool_stuck n w w') w2" if "view w2 = view w" for reason msg w2
    by (rule wp_setPoolPhase_stuck[OF _ p]) (simp_all add: that)
  show ?case
    unfolding ob as_Pool_def sum.case kobject.case wp Let_def
  proof (rule wp_get, goal_cases)
    case (1 ob w2)
    then obtain a where a: "ob = OArray a" by (cases ob) auto
    have w2: "view w2 = view w" using 1(1) \<open>view w1 = view w\<close> by simp
    show ?case
    proof (cases "array_Phase (array_Status a) = ArrayPhaseReady")
      case False
      then show ?thesis by (simp add: a as_Array_def pend[OF w2])
    next
      case True
      have fin: "wp (ac_EnsureMergerFSMount ac node q)
          (\<lambda>m w'. case m of
               Inl err \<Rightarrow> wp (setPoolPhase cl p ''Degraded'' ''MountError'' (Error err)) (\<lambda>r w'. pool_stuck n w w') w'
             | Inr mounted \<Rightarrow> wp (setPoolPhase cl (f mounted) ''Ready'' ''Reconciled'' msg) (\<lambda>r w'. pool_stuck n w w') w') w3"
        if "view w3 = view w" for node q f msg w3
      proof (rule wp_mono[OF wp_conj[OF never_mounts wp_mergerfs[where Q = "\<lambda>r w'. crs_same view w w'"]]], goal_cases)
        case (3 r w')
        then show ?case by (auto intro!: wp_setPoolPhase_stuck[OF _ p])
      qed (use that in \<open>simp_all add: crs_same_def\<close>)
      show ?thesis
        using True unfolding a as_Array_def sum.case kobject.case no_branches_of wp
      proof (simp, intro wp_collectBranches[OF w2], goal_cases)
        case (1 ds w3)
        then show ?case unfolding append_Nil
          by (cases ds) (auto simp: wp branches_of_def[of "[]"] pend intro!: wp_firstNode fin)
      qed
    qed
  next
    case (2 e w2)
    then show ?case using pend[of w2] \<open>view w1 = view w\<close> by (simp add: as_Array_def)
  qed
qed (simp add: as_Pool_def wp pool_stuck_same)

end

section \<open>Nothing is published\<close>

definition unpublished :: "store \<Rightarrow> bool" where
  "unpublished v \<longleftrightarrow> all_at pool_at (\<lambda>p. pool_Phase (pool_Status p) \<noteq> ''Ready'' \<and> \<not> pool_Mounted (pool_Status p)) v \<and>
     all_at share_at (\<lambda>s. share_Phase (share_Status s) \<noteq> ''Ready'' \<and> \<not> share_Published (share_Status s)) v"

context kube_api begin

lemma env_keeps [keeps]:
  "keeps (\<lambda>w. view w k) (env_get cl k' n)"
  "kind_of ob \<noteq> k \<Longrightarrow> keeps (\<lambda>w. view w k) (env_create cl ob)"
  "kind_of ob \<noteq> k \<Longrightarrow> keeps (\<lambda>w. view w k) (env_update cl ob)"
  "kind_of ob \<noteq> k \<Longrightarrow> keeps (\<lambda>w. view w k) (env_status_update cl ob)"
  "keeps (\<lambda>w. view w k) (env_now cl)"
proof -
  have wpI: "keeps (\<lambda>w. view w k) m" if "\<And>w. wp m (\<lambda>_ w'. view w' k = view w k) w" for m :: "('w, 'c) state"
    using that by (simp add: keeps_def wp_def split_beta)
  have set: "store_set v k' n x k = v k" if "k' \<noteq> k" for v k' n x using that by (simp add: fun_eq_iff)
  show "keeps (\<lambda>w. view w k) (env_get cl k' n)" by (rule wpI, rule wp_get) simp_all
  show "keeps (\<lambda>w. view w k) (env_now cl)" by (rule wpI, rule wp_now) simp
  show "keeps (\<lambda>w. view w k) (env_create cl ob)" if "kind_of ob \<noteq> k" by (rule wpI, rule wp_create) (simp_all add: set that)
  show "keeps (\<lambda>w. view w k) (env_update cl ob)" if "kind_of ob \<noteq> k" by (rule wpI, rule wp_update) (simp_all add: set that)
  show "keeps (\<lambda>w. view w k) (env_status_update cl ob)" if "kind_of ob \<noteq> k"
    by (rule wpI, rule wp_status_update) (simp_all add: set that)
qed

lemma CachePool_keeps: "k \<noteq> KCachePool \<Longrightarrow> keeps (\<lambda>w. view w k) (CachePool_Reconcile cl n)"
  unfolding CachePool_Reconcile_def by (intro keeps) simp

lemma Failure_keeps: "k \<noteq> KDiskFailure \<Longrightarrow> keeps (\<lambda>w. view w k) (Failure_Reconcile cl n)"
  unfolding Failure_Reconcile_def resolveOpenFailures_def by (intro keeps) simp_all

end

context unmounting begin

definition published_kept :: "'w \<Rightarrow> 'w \<Rightarrow> bool" where
  "published_kept w w' \<longleftrightarrow> (unpublished (view w) \<longrightarrow> unpublished (view w'))"

lemma published_kept_frame: "view w' KPool = view w KPool \<Longrightarrow> view w' KShare = view w KShare \<Longrightarrow> published_kept w w'"
proof -
  assume "view w' KPool = view w KPool" "view w' KShare = view w KShare"
  then have "pool_at (view w') n = pool_at (view w) n" "share_at (view w') n = share_at (view w) n" for n
    by (simp_all add: pool_at_def share_at_def)
  then show ?thesis by (simp add: published_kept_def unpublished_def all_at_def)
qed

lemma published_kept_but: "crs_but view k w w' \<Longrightarrow> k \<noteq> KPool \<Longrightarrow> k \<noteq> KShare \<Longrightarrow> published_kept w w'"
  by (rule published_kept_frame) (simp_all add: crs_but_def)

lemma wp_published_keeps:
  assumes "keeps (\<lambda>w. view w KPool) m" and "keeps (\<lambda>w. view w KShare) m"
  shows "wp m (\<lambda>r w'. published_kept w w') w"
proof (rule run_wp)
  fix r w' assume "run_state m w = (r, w')"
  then have "w' = snd (run_state m w)" by simp
  then show "published_kept w w'" using assms by (intro published_kept_frame) (simp_all add: keeps_def)
qed

lemma pool_step_published:
  assumes "pool_step view n w r w'" and "pool_stuck n w w'"
  shows "published_kept w w'"
proof -
  have oc: "only_changed view KPool n w w'" using assms(1) by (simp add: pool_step_def)
  have share: "share_at (view w') m = share_at (view w) m" for m
    by (rule crs_but_ats(4)[OF crs_but_only[OF oc]]) simp
  show ?thesis unfolding published_kept_def
  proof
    assume u: "unpublished (view w)"
    then have ps: "all_at pool_at (\<lambda>p. pool_Phase (pool_Status p) \<noteq> ''Ready'' \<and> \<not> pool_Mounted (pool_Status p)) (view w)"
      by (simp add: unpublished_def)
    have "all_at pool_at (\<lambda>p. pool_Phase (pool_Status p) \<noteq> ''Ready'' \<and> \<not> pool_Mounted (pool_Status p)) (view w')"
    proof (rule all_at_step[OF ps, of n])
      show "pool_at (view w') m = pool_at (view w) m" if "m \<noteq> n" for m using only_changed_ats(3)[OF oc that refl] .
      fix p' assume "pool_at (view w') n = Some p'"
      then obtain p where "pool_at (view w) n = Some p" "pool_Mounted (pool_Status p') = pool_Mounted (pool_Status p)"
        "p' = p \<or> pool_Phase (pool_Status p') \<noteq> ''Ready''"
        using assms(2) unfolding pool_stuck_def by blast
      then show "pool_Phase (pool_Status p') \<noteq> ''Ready'' \<and> \<not> pool_Mounted (pool_Status p')" using ps unfolding all_at_def by metis
    qed
    then show "unpublished (view w')" using u by (simp add: unpublished_def all_at_def[of share_at] share)
  qed
qed

lemma share_step_published:
  assumes "share_step own view n w r w'"
  shows "published_kept w w'"
  unfolding published_kept_def
proof
  assume u: "unpublished (view w)"
  have oc: "share_changed view n w w'" using assms by (simp add: share_step_def)
  have unmounted: "\<not> pool_Mounted (pool_Status p)" if "pool_at (view w) m = Some p" for p m
    using u that unfolding unpublished_def all_at_def by blast
  have pool: "pool_at (view w') m = pool_at (view w) m" for m
    using share_changed_other[OF oc, of KPool m] by (simp add: pool_at_def)
  have other: "share_at (view w') m = share_at (view w) m" if "m \<noteq> n" for m
    using share_changed_other[OF oc, of KShare m] that by (simp add: share_at_def)
  have out: "share_Phase (share_Status s') \<noteq> ''Ready'' \<and> \<not> share_Published (share_Status s')"
    if "share_outcome own (view w) (view w') s s'" for s s'
    using that by cases (auto dest: unmounted)
  have shares: "all_at share_at (\<lambda>s. share_Phase (share_Status s) \<noteq> ''Ready'' \<and> \<not> share_Published (share_Status s)) (view w')"
  proof (rule all_at_step[of _ _ "view w" n])
    show old: "all_at share_at (\<lambda>s. share_Phase (share_Status s) \<noteq> ''Ready'' \<and> \<not> share_Published (share_Status s)) (view w)"
      using u by (simp add: unpublished_def)
    fix x assume x: "share_at (view w') n = Some x"
    have still: "share_Phase (share_Status s) \<noteq> ''Ready'' \<and> \<not> share_Published (share_Status s)" if "share_at (view w) n = Some s" for s
      using old that unfolding all_at_def by blast
    show "share_Phase (share_Status x) \<noteq> ''Ready'' \<and> \<not> share_Published (share_Status x)"
      using assms x out still unfolding share_step_def by (cases "share_at (view w) n") (auto split: if_splits)
  qed (rule other)
  then show "unpublished (view w')" using u by (simp add: unpublished_def all_at_def[of pool_at] pool)
qed

lemma wp_ctrl_published:
  assumes "own_ok own"
  shows "wp (ctrl_Reconcile cl ac own c n) (\<lambda>r w'. published_kept w w') w"
proof (cases c)
  case DiskReconciler
  then show ?thesis by simp (rule wp_mono[OF wp_Disk_Reconcile], auto simp: disk_step_def intro: published_kept_but crs_but_only)
next
  case ArrayReconciler
  then show ?thesis by simp (rule wp_mono[OF wp_Array_Reconcile], auto simp: array_step_def intro: published_kept_but crs_but_only)
next
  case PoolReconciler
  then show ?thesis by simp (rule wp_mono[OF wp_conj[OF wp_Pool_Reconcile wp_Pool_stuck]], auto intro: pool_step_published)
next
  case ShareReconciler
  then show ?thesis by simp (rule wp_mono[OF wp_Share_Reconcile[OF assms] share_step_published])
next
  case ParityReconciler
  show ?thesis
  proof (cases "parity_at (view w) n")
    case None
    show ?thesis unfolding ParityReconciler ctrl_Reconcile.simps Parity_Reconcile_def wp
    proof (rule wp_get, goal_cases)
      case (1 ob w1)
      then have False using None by (cases ob) (simp_all add: parity_at_def)
      then show ?case ..
    qed (simp add: as_ParitySchedule_def wp published_kept_frame)
  next
    case (Some ps)
    show ?thesis unfolding ParityReconciler ctrl_Reconcile.simps
      by (rule wp_mono[OF wp_Parity_Reconcile[OF Some]]) (auto simp: crons_changed_def intro: published_kept_frame)
  qed
next
  case RebalanceReconciler
  then show ?thesis by simp (rule wp_mono[OF wp_Rebalance_Reconcile], auto simp: job_step_def intro: published_kept_but crs_but_only)
next
  case PlacementPolicyReconciler
  then show ?thesis by simp (rule wp_mono[OF wp_PlacementPolicy_Reconcile], auto simp: policy_step_def intro: published_kept_but crs_but_at)
next
  case CachePoolReconciler
  then show ?thesis by (simp add: wp_published_keeps CachePool_keeps)
next
  case FailureReconciler
  then show ?thesis by (simp add: wp_published_keeps Failure_keeps)
qed

end

lemma client_step_unpublished:
  assumes "client_step v v'" and "unpublished v"
  shows "unpublished v'"
proof -
  let ?ok = "\<lambda>ob. case ob of OPool p \<Rightarrow> pool_Phase (pool_Status p) \<noteq> ''Ready'' \<and> \<not> pool_Mounted (pool_Status p)
     | OShare s \<Rightarrow> share_Phase (share_Status s) \<noteq> ''Ready'' \<and> \<not> share_Published (share_Status s) | _ \<Rightarrow> True"
  note u = assms(2)[unfolded unpublished_def all_at_def pool_at_iff share_cache_at_iff]
  have P: "pool_Phase (pool_Status p) \<noteq> ''Ready'' \<and> \<not> pool_Mounted (pool_Status p)" if "v KPool n = Some (OPool p)" for n p
    using u that by blast
  have S: "share_Phase (share_Status s) \<noteq> ''Ready'' \<and> \<not> share_Published (share_Status s)" if "v KShare n = Some (OShare s)" for n s
    using u that by blast
  have D: "?ok ob" if "v k n = Some ob" "kind_of ob = k" for k n ob
    using that P[of n] S[of n] by (cases ob) auto
  have I: "unpublished (store_set v k n x)" if "\<And>ob. x = Some ob \<Longrightarrow> ?ok ob" for k n x
    using assms(2) that[of "OPool _"] that[of "OShare _"]
    unfolding unpublished_def all_at_def pool_at_iff share_cache_at_iff by (auto simp: store_set_apply split: if_splits)
  from assms(1) show ?thesis
  proof cases
    case (create ob)
    then have "?ok ob" by (cases ob) auto
    then show ?thesis unfolding create(1) by (intro I) simp
  next
    case (edit ob old)
    have "?ok old" using edit D by simp
    then have "?ok (put_main old ob)" using edit(3) by (cases old; cases ob) simp_all
    then show ?thesis unfolding edit(1) by (intro I) simp
  next
    case (remove k n)
    then show ?thesis by (simp only:) (rule I, simp)
  qed
qed

section \<open>The operator with its agent\<close>

lemma closed_loop_unmounting:
  assumes "operator_agent ag view cl agent"
  shows "unmounting cl view (KubernetesAgentClient cl) (snapraid_conf cl)"
proof -
  have "kube_serving cl view" using assms by (simp add: operator_agent_def)
  then have "kube_api cl view" by (simp add: kube_serving_def)
  moreover have "wp (ac_EnsureMergerFSMount (KubernetesAgentClient cl) node q) (\<lambda>r w'. \<exists>e. r = Inl e) w" for node q w
    using operator_agent.wp_mergerfs_posted[OF assms] by (simp add: KubernetesAgentClient_def)
  ultimately show ?thesis by (intro unmounting.intro unmounting_axioms.intro operator_KubernetesAgentClient)
qed

interpretation demo_loop: unmounting "operator_env ns out" cluster_view "KubernetesAgentClient (operator_env ns out)"
    "snapraid_conf (operator_env ns out)" for ns out
  by (rule closed_loop_unmounting[OF cluster_operator_agent])

section \<open>Properties\<close>

text \<open>C2. The system as a whole: with one API server, one agent that runs whenever the operator waits, and no restart of
  the agent, nothing is ever published. From a store without Ready pools and published shares - the empty
  one, for example - every state that any order of reconcile calls and client actions reaches has no Ready or
  mounted Pool and no Ready or published Share, because no mount of a pool is ever confirmed.\<close>

theorem nothing_is_published:
  assumes "operator_agent ag view cl agent" and "own_ok own"
    and "(operator_step cl (KubernetesAgentClient cl) own view)^** w w'" and "unpublished (view w)"
  shows "unpublished (view w')"
  using assms(3,4)
proof (induction rule: rtranclp_induct)
  case (step w1 w2)
  then have u: "unpublished (view w1)" by blast
  note unmounting = closed_loop_unmounting[OF assms(1)]
  from step(2) show ?case
  proof cases
    case (reconcile c n r)
    have "unmounting.published_kept view w1 w2"
      by (rule wp_run[OF unmounting.wp_ctrl_published[OF unmounting assms(2)] reconcile(2)])
    then show ?thesis using u unfolding unmounting.published_kept_def[OF unmounting] by blast
  next
    case client
    then show ?thesis using u by (rule client_step_unpublished)
  qed
qed

section \<open>Witnesses\<close>

theorem nothing_is_published_witness:
  "unpublished (cluster_view (snd (run_state (ctrl_Reconcile (operator_env ''kubenas-system'' demo_out)
     (KubernetesAgentClient (operator_env ''kubenas-system'' demo_out)) demo_own PoolReconciler (''nas'', ''main'')) demo_state)))"
proof -
  let ?cl = "operator_env ''kubenas-system'' demo_out"
  obtain r w' where run: "run_state (ctrl_Reconcile ?cl (KubernetesAgentClient ?cl) demo_own PoolReconciler (''nas'', ''main'')) demo_state = (r, w')"
    by (cases "run_state (ctrl_Reconcile ?cl (KubernetesAgentClient ?cl) demo_own PoolReconciler (''nas'', ''main'')) demo_state") auto
  have "operator_step ?cl (KubernetesAgentClient ?cl) demo_own cluster_view demo_state w'"
    by (rule operator_step.reconcile[OF _ run]) (simp add: operator_setup_controllers)
  then have steps: "(operator_step ?cl (KubernetesAgentClient ?cl) demo_own cluster_view)^** demo_state w'" by simp
  have "cluster_view demo_state k n = None" if "k \<noteq> KConfigMap" for k n
    using that by (simp add: cluster_view_def demo_state_def mem_view_def)
  then have "unpublished (cluster_view demo_state)"
    by (simp add: unpublished_def all_at_def pool_at_def share_at_def)
  then show ?thesis
    using nothing_is_published[OF cluster_operator_agent demo_own_ok steps] by (simp only: run snd_conv)
qed

end
