(* ===== verification/Watches.thy ===== *)
theory Watches
  imports Operator_Main
begin

text \<open>
  When a controller runs again: the watches it registers (the \<^verbatim>\<open>SetupWithManager\<close> methods) and the results
  of its calls. The translation of an event into requests is the client library's; what the operator
  relies on of it is the locale \<open>event_source\<close>. Shown: which calls always come back within five minutes
  without any event, that no change of a Pod, Service or ConfigMap is an event for any controller, and
  that the CronJobs of a schedule bring their schedule back when they change or go.
\<close>

section \<open>The watches\<close>

record watch =
  wt_For :: kind
  wt_Owns :: "kind list"

definition Disk_SetupWithManager :: watch where
  "Disk_SetupWithManager = \<lparr>wt_For = KDisk, wt_Owns = []\<rparr>"

definition Array_SetupWithManager :: watch where
  "Array_SetupWithManager = \<lparr>wt_For = KArray, wt_Owns = []\<rparr>"

definition Pool_SetupWithManager :: watch where
  "Pool_SetupWithManager = \<lparr>wt_For = KPool, wt_Owns = []\<rparr>"

definition Share_SetupWithManager :: watch where
  "Share_SetupWithManager = \<lparr>wt_For = KShare, wt_Owns = []\<rparr>"

definition Parity_SetupWithManager :: watch where
  "Parity_SetupWithManager = \<lparr>wt_For = KParitySchedule, wt_Owns = [KCronJob]\<rparr>"

definition Rebalance_SetupWithManager :: watch where
  "Rebalance_SetupWithManager = \<lparr>wt_For = KRebalanceJob, wt_Owns = []\<rparr>"

definition CachePool_SetupWithManager :: watch where
  "CachePool_SetupWithManager = \<lparr>wt_For = KCachePool, wt_Owns = []\<rparr>"

definition PlacementPolicy_SetupWithManager :: watch where
  "PlacementPolicy_SetupWithManager = \<lparr>wt_For = KPlacementPolicy, wt_Owns = []\<rparr>"

definition Failure_SetupWithManager :: watch where
  "Failure_SetupWithManager = \<lparr>wt_For = KDisk, wt_Owns = []\<rparr>"

fun watch_of :: "ctrl \<Rightarrow> watch" where
  "watch_of DiskReconciler = Disk_SetupWithManager"
| "watch_of ArrayReconciler = Array_SetupWithManager"
| "watch_of PoolReconciler = Pool_SetupWithManager"
| "watch_of ShareReconciler = Share_SetupWithManager"
| "watch_of ParityReconciler = Parity_SetupWithManager"
| "watch_of RebalanceReconciler = Rebalance_SetupWithManager"
| "watch_of CachePoolReconciler = CachePool_SetupWithManager"
| "watch_of PlacementPolicyReconciler = PlacementPolicy_SetupWithManager"
| "watch_of FailureReconciler = Failure_SetupWithManager"

lemmas watch_defs = Disk_SetupWithManager_def Array_SetupWithManager_def Pool_SetupWithManager_def
  Share_SetupWithManager_def Parity_SetupWithManager_def Rebalance_SetupWithManager_def
  CachePool_SetupWithManager_def PlacementPolicy_SetupWithManager_def Failure_SetupWithManager_def

section \<open>Events\<close>

text \<open>
  \<open>enqueue wt ob\<close>: the requests that a change of \<open>ob\<close> gives the controller with the watch \<open>wt\<close>. The
  library documents: a change of an object of the \<^verbatim>\<open>For\<close> kind asks for that object; a change of an object
  of an \<^verbatim>\<open>Owns\<close> kind asks for the owner that is noted on it as its controller, in the namespace of the
  object when the owner's kind has one; other kinds are not watched.
\<close>

locale event_source =
  fixes enqueue :: "watch \<Rightarrow> kobject \<Rightarrow> nskey set" and kind_name :: "kind \<Rightarrow> string"
  assumes for_law: "kind_of ob = wt_For wt \<Longrightarrow> key_of ob \<in> enqueue wt ob"
    and owns_law: "kind_of ob \<in> set (wt_Owns wt) \<Longrightarrow> r \<in> set (meta_OwnerReferences (meta_of ob)) \<Longrightarrow>
      owner_Controller r = Some True \<Longrightarrow> owner_APIVersion r = ''storage.kubenas.io/v1alpha1'' \<Longrightarrow>
      owner_Kind r = kind_name (wt_For wt) \<Longrightarrow>
      (if wt_For wt = KDisk then '''' else meta_Namespace (meta_of ob), owner_Name r) \<in> enqueue wt ob"
    and only_law: "n \<in> enqueue wt ob \<Longrightarrow> kind_of ob \<in> {wt_For wt} \<union> set (wt_Owns wt)"
    and kind_name_ParitySchedule: "kind_name KParitySchedule = ''ParitySchedule''"
begin

text \<open>A controlling owner reference to a schedule.\<close>

lemma owner_is_asked:
  assumes "r \<in> set (meta_OwnerReferences (cron_Meta cj))" "owner_Controller r = Some True"
    and "owner_APIVersion r = ''storage.kubenas.io/v1alpha1''" "owner_Kind r = ''ParitySchedule''"
  shows "(meta_Namespace (cron_Meta cj), owner_Name r) \<in> enqueue Parity_SetupWithManager (OCronJob cj)"
  using owns_law[of "OCronJob cj" Parity_SetupWithManager r] assms
  by (simp add: Parity_SetupWithManager_def kind_name_ParitySchedule)

lemma not_watched:
  assumes "kind_of ob \<in> {KPod, KService, KConfigMap}"
  shows "enqueue (watch_of c) ob = {}"
proof -
  have "kind_of ob \<notin> {wt_For (watch_of c)} \<union> set (wt_Owns (watch_of c))"
    using assms by (cases c) (auto simp: watch_defs)
  then show ?thesis using only_law by blast
qed

end

text \<open>The documented translation itself satisfies the laws.\<close>

fun kind_text :: "kind \<Rightarrow> string" where
  "kind_text KDisk = ''Disk''"
| "kind_text KArray = ''Array''"
| "kind_text KPool = ''Pool''"
| "kind_text KShare = ''Share''"
| "kind_text KParitySchedule = ''ParitySchedule''"
| "kind_text KPlacementPolicy = ''PlacementPolicy''"
| "kind_text KRebalanceJob = ''RebalanceJob''"
| "kind_text KDiskFailure = ''DiskFailure''"
| "kind_text KCachePool = ''CachePool''"
| "kind_text KConfigMap = ''ConfigMap''"
| "kind_text KPod = ''Pod''"
| "kind_text KService = ''Service''"
| "kind_text KCronJob = ''CronJob''"

definition documented_enqueue :: "watch \<Rightarrow> kobject \<Rightarrow> nskey set" where
  "documented_enqueue wt ob =
     (if kind_of ob = wt_For wt then {key_of ob} else {}) \<union>
     (if kind_of ob \<in> set (wt_Owns wt)
      then (\<lambda>r. (if wt_For wt = KDisk then '''' else meta_Namespace (meta_of ob), owner_Name r)) `
        set (filter (\<lambda>r. owner_Controller r = Some True \<and> owner_APIVersion r = ''storage.kubenas.io/v1alpha1'' \<and>
          owner_Kind r = kind_text (wt_For wt)) (meta_OwnerReferences (meta_of ob)))
      else {})"

interpretation documented: event_source documented_enqueue kind_text
  by unfold_locales (auto simp: documented_enqueue_def split: if_splits)

section \<open>The answer of a call\<close>

text \<open>\<open>always P m\<close>: whatever the world, the result of \<open>m\<close> satisfies \<open>P\<close>.\<close>

definition always :: "('a \<Rightarrow> bool) \<Rightarrow> ('w, 'a) state \<Rightarrow> bool" where
  "always P m \<longleftrightarrow> (\<forall>w. wp m (\<lambda>r _. P r) w)"

named_theorems always

lemma always_wp: "always P m \<Longrightarrow> wp m (\<lambda>r _. P r) w"
  by (simp add: always_def)

lemma always_return [always]: "P x \<Longrightarrow> always P (State_Monad.return x)"
  by (simp add: always_def wp)

lemma always_bind [always]: "(\<And>a. always P (f a)) \<Longrightarrow> always P (State_Monad.bind m f)"
  by (simp add: always_def wp) (blast intro: run_wp)

lemma always_if [always]: "(c \<Longrightarrow> always P m) \<Longrightarrow> (\<not> c \<Longrightarrow> always P m') \<Longrightarrow> always P (if c then m else m')"
  by simp

lemma always_Let [always]: "(\<And>x. always P (f x)) \<Longrightarrow> always P (Let t f)"
  by (simp add: Let_def)

lemma always_sum [always]:
  "(\<And>e. r = Inl e \<Longrightarrow> always P (f e)) \<Longrightarrow> (\<And>x. r = Inr x \<Longrightarrow> always P (g x)) \<Longrightarrow> always P (case r of Inl e \<Rightarrow> f e | Inr x \<Rightarrow> g x)"
  by (cases r) simp_all

lemma always_option [always]:
  "(r = None \<Longrightarrow> always P f) \<Longrightarrow> (\<And>x. r = Some x \<Longrightarrow> always P (g x)) \<Longrightarrow> always P (case r of None \<Rightarrow> f | Some x \<Rightarrow> g x)"
  by (cases r) simp_all

text \<open>The library calls the reconciler again: after an error, at once, or after the given time; here within
  five minutes.\<close>

definition comes_back :: "ctrl_Result \<times> error option \<Rightarrow> bool" where
  "comes_back r \<longleftrightarrow> snd r \<noteq> None \<or> Requeue (fst r) \<or> 0 < RequeueAfter (fst r) \<and> RequeueAfter (fst r) \<le> 300"

lemma comes_back_simps [simp]:
  "comes_back (r, Some e)" "comes_back (requeue_now, oe)"
  "comes_back (requeue_after t, None) \<longleftrightarrow> 0 < t \<and> t \<le> 300"
  by (simp_all add: comes_back_def requeue_now_def requeue_after_def)

lemma setPhases_come_back [always]:
  "always comes_back (Disk_setPhase cl d p a b)"
  "always comes_back (setArrayPhase cl ar q a b)"
  "always comes_back (setPoolPhase cl po c a b)"
  "always comes_back (setSharePhase cl sh c a b)"
  unfolding Disk_setPhase_def setArrayPhase_def setPoolPhase_def setSharePhase_def
  by (intro always; simp split: option.split)+

lemma Disk_reconcileNormal_comes_back [always]: "always comes_back (Disk_reconcileNormal cl ac d)"
  unfolding Disk_reconcileNormal_def by (intro always)

lemma ensureCronJobs_comes_back [always]: "always comes_back (ensureCronJobs cl ps cfg ops)"
proof (induction ops)
  case Nil
  then show ?case by (simp add: always)
next
  case (Cons op ops)
  then show ?case by (cases op) (simp, intro always; simp)
qed

section \<open>Calls that come back\<close>

text \<open>The calls that look at something: the object exists, a disk is not on its way out, and the failure
  reconciler has a failing disk before it.\<close>

fun looks_at :: "ctrl \<Rightarrow> store \<Rightarrow> nskey \<Rightarrow> bool" where
  "looks_at DiskReconciler v n \<longleftrightarrow> (\<exists>d. disk_at v n = Some d \<and> meta_DeletionTimestamp (disk_Meta d) = None)"
| "looks_at ArrayReconciler v n \<longleftrightarrow> array_at v n \<noteq> None"
| "looks_at PoolReconciler v n \<longleftrightarrow> pool_at v n \<noteq> None"
| "looks_at ShareReconciler v n \<longleftrightarrow> share_at v n \<noteq> None"
| "looks_at ParityReconciler v n \<longleftrightarrow> parity_at v n \<noteq> None"
| "looks_at CachePoolReconciler v n \<longleftrightarrow> cache_at v n \<noteq> None"
| "looks_at FailureReconciler v n \<longleftrightarrow> (\<exists>d. disk_at v n = Some d \<and> failing d)"
| "looks_at _ v n \<longleftrightarrow> False"

context kube_api begin

text \<open>The common start of the reconcilers.\<close>

lemma fetch_comes_back:
  assumes "view w k n = Some ob" "dec (Inr ob) = Inr x" "\<And>e. dec (Inl e) = Inl e" "always comes_back (f x)"
  shows "wp (State_Monad.bind (env_get cl k n) (\<lambda>r. case dec r of
      Inl err \<Rightarrow> State_Monad.return (Result_zero, if IsNotFound err then None else Some err)
    | Inr y \<Rightarrow> f y)) (\<lambda>r _. comes_back r) w"
  unfolding wp
proof (rule wp_get, goal_cases)
  case (1 ob' w')
  then show ?case using assms by (simp add: always_wp)
next
  case (2 e w')
  then show ?case using assms by (auto simp: wp)
qed

lemma ctrl_comes_back:
  assumes "looks_at c (view w) n"
  shows "wp (ctrl_Reconcile cl ac own c n) (\<lambda>r _. comes_back r) w"
proof (cases c)
  case DiskReconciler
  with assms obtain d where "view w KDisk n = Some (ODisk d)" "meta_DeletionTimestamp (disk_Meta d) = None"
    by (auto simp: disk_at_iff)
  then show ?thesis unfolding DiskReconciler ctrl_Reconcile.simps Disk_Reconcile_def
    by (intro fetch_comes_back[where dec = as_Disk]) (auto simp: as_defs intro!: always split: option.splits)
next
  case ArrayReconciler
  with assms obtain a where "view w KArray n = Some (OArray a)"
    by (auto simp: array_at_def split: option.splits kobject.splits)
  then show ?thesis unfolding ArrayReconciler ctrl_Reconcile.simps Array_Reconcile_def
    by (intro fetch_comes_back[where dec = as_Array]) (auto simp: as_defs intro!: always)
next
  case PoolReconciler
  with assms obtain a where "view w KPool n = Some (OPool a)"
    by (auto simp: pool_at_def split: option.splits kobject.splits)
  then show ?thesis unfolding PoolReconciler ctrl_Reconcile.simps Pool_Reconcile_def
    by (intro fetch_comes_back[where dec = as_Pool]) (auto simp: as_defs intro!: always)
next
  case ShareReconciler
  with assms obtain a where "view w KShare n = Some (OShare a)"
    by (auto simp: share_at_def split: option.splits kobject.splits)
  then show ?thesis unfolding ShareReconciler ctrl_Reconcile.simps Share_Reconcile_def
    by (intro fetch_comes_back[where dec = as_Share]) (auto simp: as_defs intro!: always)
next
  case ParityReconciler
  with assms obtain a where "view w KParitySchedule n = Some (OParitySchedule a)"
    by (auto simp: parity_at_def split: option.splits kobject.splits)
  then show ?thesis unfolding ParityReconciler ctrl_Reconcile.simps Parity_Reconcile_def
    by (intro fetch_comes_back[where dec = as_ParitySchedule]) (auto simp: as_defs intro!: always)
next
  case CachePoolReconciler
  with assms obtain a where "view w KCachePool n = Some (OCachePool a)"
    by (auto simp: cache_at_def split: option.splits kobject.splits)
  then show ?thesis unfolding CachePoolReconciler ctrl_Reconcile.simps CachePool_Reconcile_def
    by (intro fetch_comes_back[where dec = as_CachePool]) (auto simp: as_defs intro!: always split: option.splits)
next
  case FailureReconciler
  with assms obtain d where d: "view w KDisk n = Some (ODisk d)" "failing d"
    by (auto simp: disk_at_iff)
  then show ?thesis unfolding FailureReconciler ctrl_Reconcile.simps Failure_Reconcile_def
    by (intro fetch_comes_back[where dec = as_Disk]) (auto simp: as_defs failing_def intro!: always split: option.splits)
qed (use assms in simp_all)

end

section \<open>The CronJobs of a schedule\<close>

text \<open>The CronJob of an operation, if there is one, names the schedule as its controlling owner.\<close>

definition cron_owned :: "ParitySchedule \<Rightarrow> string \<Rightarrow> store \<Rightarrow> bool" where
  "cron_owned ps a v \<longleftrightarrow> (\<forall>cj. v KCronJob (cron_key ps a) = Some (OCronJob cj) \<longrightarrow>
     meta_Namespace (cron_Meta cj) = meta_Namespace (parity_Meta ps) \<and>
     (\<exists>r \<in> set (meta_OwnerReferences (cron_Meta cj)). owner_Controller r = Some True \<and>
        owner_APIVersion r = ''storage.kubenas.io/v1alpha1'' \<and> owner_Kind r = ''ParitySchedule'' \<and>
        owner_Name r = meta_Name (parity_Meta ps)))"

lemma cron_owned_set:
  "cron_owned ps a v \<Longrightarrow> x = Some (OCronJob cj) \<Longrightarrow> cron_Meta cj = cron_Meta cj0\<lparr>meta_ResourceVersion := rv, meta_UID := u\<rparr> \<Longrightarrow>
   (n = cron_key ps a \<Longrightarrow> v KCronJob n = Some (OCronJob cj0) \<or> (\<exists>nm s c cfg. cj0 = buildCronJob ps nm s c cfg)) \<Longrightarrow>
   cron_owned ps a (store_set v KCronJob n x)"
  by (auto simp: cron_owned_def buildCronJob_def)

context kube_api begin

lemma ensureCronJob_owned:
  assumes "cron_owned ps b (view w)"
  shows "wp (ensureCronJob cl ps cfg a s c) (\<lambda>_ w'. cron_owned ps b (view w')) w"
  unfolding ensureCronJob_def Let_def wp cron_key_def[symmetric]
proof (rule wp_get, goal_cases)
  case (1 ob w1)
  then obtain cj where cj: "ob = OCronJob cj" by (cases ob) auto
  let ?new = "cron_with s (cron_JobTemplate (cron_Spec (buildCronJob ps (cronJobName ps a) s c cfg))) cj"
  have nd: "\<not> deletion_done (OCronJob ?new)" using 1 cj by (simp add: deletion_done_def)
  have k: "key_of (OCronJob ?new) = cron_key ps a" using 1 cj by (simp add: key_of_def)
  show ?case unfolding cj as_CronJob_def sum.case kobject.case
  proof (rule wp_update, goal_cases)
    case (1 old rv w2)
    then have "old = OCronJob cj" using \<open>view w1 = view w\<close> \<open>view w KCronJob _ = _\<close> cj k by simp
    then have v2: "view w2 = store_set (view w) KCronJob (cron_key ps a) (Some (with_rv rv (OCronJob ?new)))"
      using 1(2) nd k \<open>view w1 = view w\<close> by simp
    show ?case unfolding v2
      by (rule cron_owned_set[OF assms, where cj = "?new\<lparr>cron_Meta := (cron_Meta cj)\<lparr>meta_ResourceVersion := rv\<rparr>\<rparr>" and ?cj0.0 = cj
            and u = "meta_UID (cron_Meta cj)" and rv = rv])
        (use \<open>view w KCronJob _ = _\<close> cj in \<open>simp_all add: with_rv_def\<close>)
  qed (use assms \<open>view w1 = view w\<close> in simp)
next
  case (2 e w1)
  show ?case unfolding as_CronJob_def sum.case wp
  proof (simp, intro conjI impI)
    show "wp (env_create cl (OCronJob (buildCronJob ps (cronJobName ps a) s c cfg))) (\<lambda>_ w'. cron_owned ps b (view w')) w1"
    proof (rule wp_create, goal_cases)
      case (1 rv u w2)
      let ?new = "buildCronJob ps (cronJobName ps a) s c cfg"
      have v2: "view w2 = store_set (view w) KCronJob (cron_key ps a) (Some (with_uid u (with_rv rv (OCronJob ?new))))"
        using 1 \<open>view w1 = view w\<close> by simp
      show ?case unfolding v2
        by (rule cron_owned_set[OF assms, where cj = "?new\<lparr>cron_Meta := (cron_Meta ?new)\<lparr>meta_ResourceVersion := rv, meta_UID := u\<rparr>\<rparr>" and ?cj0.0 = ?new])
          (auto simp: with_rv_def with_uid_def)
    qed (use assms \<open>view w1 = view w\<close> in simp)
  qed (use assms \<open>view w1 = view w\<close> in simp)
qed

lemma ensureCronJobs_owned:
  "cron_owned ps b (view w) \<Longrightarrow> wp (ensureCronJobs cl ps cfg ops) (\<lambda>_ w'. cron_owned ps b (view w')) w"
proof (induction ops arbitrary: w)
  case Nil
  then show ?case by (simp add: wp)
next
  case (Cons op ops)
  obtain a s c where op: "op = (a, s, c)" by (cases op)
  show ?case unfolding op ensureCronJobs.simps wp
    by (rule wp_mono[OF ensureCronJob_owned[OF Cons.prems]]) (auto simp: wp Cons.IH split: option.splits)
qed

lemma Parity_Reconcile_owned:
  assumes "parity_at (view w) n = Some ps" "cron_owned ps b (view w)"
  shows "wp (Parity_Reconcile cl n) (\<lambda>_ w'. cron_owned ps b (view w')) w"
  unfolding Parity_Reconcile_def wp
proof (rule wp_get, goal_cases)
  case (1 ob w1)
  then have ps: "ob = OParitySchedule ps" using assms(1) by (simp add: parity_at_def split: kobject.splits)
  show ?case unfolding ps as_ParitySchedule_def sum.case kobject.case wp
    by (rule wp_resolveSnapraidConfigName[OF 1(1)]) (use 1(1) assms(2) in \<open>auto simp: wp intro: ensureCronJobs_owned\<close>)
next
  case (2 e w1)
  then show ?case using assms by (auto simp: as_ParitySchedule_def wp)
qed

end

section \<open>Properties\<close>



section \<open>Witnesses\<close>



end
