(* ===== verification/Node_Remount.thy ===== *)
theory Node_Remount
  imports Cluster
begin

text \<open>
  What repeating an operation does to the mounts of a host. A pool mount always takes the old mount
  away first, and leaves the pool unmounted when the new one fails. The agent remembers the executed
  operations in its process only and never looks at the state of an operation, so after a
  restart it executes every operation again that is still listed, an old unmount of a live disk included.
\<close>

section \<open>Hosts that answer\<close>

text \<open>\<^verbatim>\<open>/proc/mounts\<close> can be read while the mounts are \<open>ms\<close>; unmounting \<open>p\<close> works.\<close>

definition legible :: "'w host \<Rightarrow> ('w \<Rightarrow> mount list) \<Rightarrow> mount list \<Rightarrow> bool" where
  "legible h mounts ms \<longleftrightarrow>
     (\<forall>w r w'. mounts w = ms \<longrightarrow> run_state (os_ReadFile h ''/proc/mounts'') w = (r, w') \<longrightarrow> (\<exists>c. r = Inr c))"

definition umount_works :: "'w host \<Rightarrow> string \<Rightarrow> bool" where
  "umount_works h p \<longleftrightarrow> (\<forall>w s e w'. run_state (exec_run h [''umount'', ''-l'', p]) w = ((s, e), w') \<longrightarrow> e = None)"

context node_host begin

lemma wp_IsMounted_live:
  assumes "HasPrefix p ''/''" and "legible h mounts (mounts w)" and "mounted_on (mounts w) (Clean_rooted p)"
    and "octal_escape (Clean_rooted p) = Clean_rooted p"
    and "\<And>w'. same_host w w' \<Longrightarrow> Q True w'"
  shows "wp (IsMounted h p) Q w"
  unfolding IsMounted_def wp
proof (rule wp_Abs[OF assms(1)], unfold sum.case wp, rule run_wp)
  fix r w' assume r: "run_state (os_ReadFile h ''/proc/mounts'') w = (r, w')"
  then obtain c where c: "r = Inr c" using assms(2) by (auto simp: legible_def)
  have host: "same_host w w'" and sm: "shows_mounts c (mounts w)"
    using read_law[OF r] by (simp_all add: c same_host_def)
  have "shown_on (mounts w) (Clean_rooted p)"
    using assms(3,4) unfolding shown_on_def mounted_on_def by metis
  then show "Q (case r of Inl err \<Rightarrow> False
       | Inr content \<Rightarrow> list_ex (\<lambda>line. let fields = Fields line in length fields \<ge> 2 \<and> fields ! 1 = Clean_rooted p) (scan_lines content)) w'"
    unfolding c sum.case list_ex_shown[OF sm] using assms(5)[OF host] by simp
qed

lemma wp_UnmountDevice_live:
  assumes "HasPrefix p ''/''" and "legible h mounts (mounts w)" and "mounted_on (mounts w) (Clean_rooted p)"
    and "octal_escape (Clean_rooted p) = Clean_rooted p" and "umount_works h p"
    and "\<And>w'. fstab w' = fstab w \<Longrightarrow> mounts w' = drop_mount (Clean_rooted p) (mounts w) \<Longrightarrow> Q None w'"
  shows "wp (UnmountDevice h p) Q w"
  unfolding UnmountDevice_def wp
proof (rule wp_IsMounted_live[OF assms(1-4)], unfold not_True_eq_False if_False, rule run_wp, goal_cases)
  case (1 w1 se w')
  obtain s e where se: "se = (s, e)" by fastforce
  have e: "e = None" using assms(5) 1(2) unfolding umount_works_def se by blast
  show ?case
    using umount_law[OF 1(2)[unfolded se] assms(1)] 1(1) assms(6) by (simp add: se e wp same_host_def)
qed

lemma wp_MountMergerFS_live:
  assumes p: "HasPrefix p ''/''" and "legible h mounts (mounts w)" and "mounted_on (mounts w) (Clean_rooted p)"
    and "octal_escape (Clean_rooted p) = Clean_rooted p" and "umount_works h p"
  shows "wp (MountMergerFS h branches p policy free extra) (\<lambda>r w'. fstab w' = fstab w \<and>
     (if r = None then \<exists>src. mounts w' = (src, Clean_rooted p, ''fuse.mergerfs'') # drop_mount (Clean_rooted p) (mounts w)
      else mounts w' = mounts w \<or> mounts w' = drop_mount (Clean_rooted p) (mounts w))) w"
  unfolding MountMergerFS_def wp
proof (rule wp_mkdir, goal_cases)
  case (1 e w1)
  then have w1: "mounts w1 = mounts w" "fstab w1 = fstab w" by (simp_all add: same_host_def)
  show ?case
  proof (cases e)
    case (Some err)
    then show ?thesis by (simp add: wp w1)
  next
    case None
    show ?thesis unfolding None option.case wp
    proof (rule wp_IsMounted_live[OF p], unfold if_True, goal_cases)
      case (4 w2)
      then have w2: "mounts w2 = mounts w" "fstab w2 = fstab w" using w1 by (simp_all add: same_host_def)
      show ?case
      proof (rule wp_UnmountDevice_live[OF p], goal_cases)
        case (5 w3)
        then have w3: "mounts w3 = drop_mount (Clean_rooted p) (mounts w)" "fstab w3 = fstab w" using w2 by simp_all
        show ?case
        proof (rule run_wp, goal_cases)
          case (1 se w')
          obtain s e where se: "se = (s, e)" by fastforce
          show ?case using mergerfs_law[OF 1[unfolded se] p] w3 by (cases e) (simp_all add: se wp)
        qed
      qed (use assms w2 in simp_all)
    qed (use assms w1 in simp_all)
  qed
qed

end

section \<open>An agent after a restart\<close>

lemma started_fresh: "main_agent flag env dev ns = Some a \<Longrightarrow> seen_ops a = {}"
  by (auto simp: main_agent_def Let_def seen_ops_def split: if_splits)

text \<open>What is executed does not depend on the state of the operation.\<close>

lemma run_op_state: "run_op h (cm_put ''status.state'' s cm) = run_op h cm"
proof -
  have "cm_str (cm_put ''status.state'' s cm) ''operation'' = cm_str cm ''operation''"
    "cm_str (cm_put ''status.state'' s cm) ''payload'' = cm_str cm ''payload''"
    by simp_all
  then show ?thesis by (simp only: run_op_def)
qed

lemma fresh_start_executes_all:
  assumes "main_agent flag env dev ns = Some a"
  shows "execute_all ag a cms = execute_all ag a (fresh_ops {} cms) \<and> op_id ` set (fresh_ops {} cms) = op_id ` set cms"
proof
  show "execute_all ag a cms = execute_all ag a (fresh_ops {} cms)"
    using execute_all_fresh[of ag a cms] started_fresh[OF assms] by simp
  show "op_id ` set (fresh_ops {} cms) = op_id ` set cms"
    using fresh_ops_distinct[of "{}" cms] fresh_ops_complete[of _ cms "{}"] by blast
qed

section \<open>Properties\<close>



section \<open>Witnesses\<close>

text \<open>The demonstration cluster with a disk mounted where the listed operation unmounts.\<close>

definition busy_mounts :: "mount list" where
  "busy_mounts = [(''/dev/sdb'', ''/mnt/a'', ''xfs'')]"

definition busy_state :: cluster where
  "busy_state = demo_state\<lparr>cl_host := \<lparr>mh_mounts = busy_mounts, mh_fstab = None\<rparr>\<rparr>"

lemma cluster_node_host:
  "node_host (ag_host (cluster_agent out)) (\<lambda>w. mh_mounts (cl_host w)) (\<lambda>w. mh_fstab (cl_host w))"
  unfolding cluster_agent_def by simp (rule memory_host_node_host, simp)

lemma busy_shown: "shows_mounts (proc_mounts \<lparr>mh_mounts = busy_mounts, mh_fstab = None\<rparr>) busy_mounts"
proof -
  have shown: "proc_mounts \<lparr>mh_mounts = busy_mounts, mh_fstab = None\<rparr> = ''/dev/sdb /mnt/a xfs rw 0 0'' @ newline"
    by code_simp
  have lines: "scan_lines (''/dev/sdb /mnt/a xfs rw 0 0'' @ newline) = [''/dev/sdb /mnt/a xfs rw 0 0'']"
    by (simp add: scan_lines_def drop_cr_def)
  have fields: "Fields ''/dev/sdb /mnt/a xfs rw 0 0'' = [''/dev/sdb'', ''/mnt/a'', ''xfs'', ''rw'', ''0'', ''0'']"
    by code_simp
  show ?thesis unfolding shows_mounts_def shown lines by (simp add: fields busy_mounts_def octal_escape_def)
qed

lemma busy_legible: "legible (memory_host get put out) (\<lambda>w. mh_mounts (get w)) busy_mounts"
  using busy_shown by (auto simp: legible_def memory_host_def run_on_host mh_read_def proc_mounts_def)

lemma memory_umount_works: "umount_works (memory_host get put out) p"
  by (auto simp: umount_works_def memory_host_def run_on_host mh_run_def)

lemma busy_mounted: "mounted_on busy_mounts (Clean_rooted ''/mnt/a'')" "HasPrefix ''/mnt/a'' ''/''"
  "octal_escape (Clean_rooted ''/mnt/a'') = Clean_rooted ''/mnt/a''"
  by code_simp+



end
