(* ===== verification/Requests.thy ===== *)
theory Requests
  imports Operator_Main
begin

text \<open>
  A reconcile call as a sequence of requests. The manager runs the controllers at the same time, so
  between two requests of one call the requests of others are served. A call is a function of the
  answers it gets: \<open>replay_env\<close> feeds a call a list of answers and stops at the first request that has no
  answer yet. \<open>guards\<close> is a syntax-directed judgement on what a call may ask, given the versions of objects it
  has read, whatever is stored meanwhile.
\<close>

section \<open>Requests and answers\<close>

datatype request = Get kind nskey | Create kobject | Update kobject | StatusUpdate kobject | Delete kobject
  | Now | Wait

datatype answer = Got "error + kobject" | Outcome "error option" | At time

definition no_answer :: error where
  "no_answer = ErrorString ''no answer''"

text \<open>The client decodes an answer into the type that was asked for.\<close>

definition got :: "kind \<Rightarrow> nskey \<Rightarrow> answer \<Rightarrow> error + kobject" where
  "got k n a = (case a of
       Got (Inr ob) \<Rightarrow> if kind_of ob = k \<and> key_of ob = n then Inr ob else Inl decode_error
     | Got (Inl e) \<Rightarrow> Inl e
     | _ \<Rightarrow> Inl no_answer)"

definition outcome :: "answer \<Rightarrow> error option" where
  "outcome a = (case a of Outcome e \<Rightarrow> e | _ \<Rightarrow> Some no_answer)"

definition at_time :: "answer \<Rightarrow> time" where
  "at_time a = (case a of At t \<Rightarrow> t | _ \<Rightarrow> 0)"

section \<open>Replaying a call\<close>

text \<open>The answers, how many of them are used up, and the first request without one.\<close>

record replay =
  rp_answers :: "answer list"
  rp_pos :: nat
  rp_next :: "request option"

definition ask :: "request \<Rightarrow> (replay, answer) state" where
  "ask q = State (\<lambda>w.
     if rp_next w \<noteq> None then (Got (Inl no_answer), w)
     else if rp_pos w < length (rp_answers w) then (rp_answers w ! rp_pos w, w\<lparr>rp_pos := Suc (rp_pos w)\<rparr>)
     else (Got (Inl no_answer), w\<lparr>rp_next := Some q\<rparr>))"

definition ask_for :: "(answer \<Rightarrow> 'a) \<Rightarrow> request \<Rightarrow> (replay, 'a) state" where
  "ask_for f q = do { a \<leftarrow> ask q; State_Monad.return (f a) }"

definition replay_env :: "string \<Rightarrow> replay env" where
  "replay_env ns =
     \<lparr>env_get = (\<lambda>k n. ask_for (got k n) (Get k n)),
      env_create = (\<lambda>ob. ask_for outcome (Create ob)),
      env_update = (\<lambda>ob. ask_for outcome (Update ob)),
      env_status_update = (\<lambda>ob. ask_for outcome (StatusUpdate ob)),
      env_delete = (\<lambda>ob. ask_for outcome (Delete ob)),
      env_now = ask_for at_time Now,
      env_wait = ask_for outcome Wait,
      env_namespace = ns\<rparr>"

definition replay_from :: "answer list \<Rightarrow> replay" where
  "replay_from as = \<lparr>rp_answers = as, rp_pos = 0, rp_next = None\<rparr>"

text \<open>The next request of a call that got these answers, or its result.\<close>

definition next_request :: "(replay, 'a) state \<Rightarrow> answer list \<Rightarrow> request + 'a" where
  "next_request m as = (case run_state m (replay_from as) of
     (r, w) \<Rightarrow> (case rp_next w of Some q \<Rightarrow> Inl q | None \<Rightarrow> Inr r))"

section \<open>What a call may ask\<close>

text \<open>The objects behind a claim in a status: \<open>S\<close> are the versions that were read.\<close>

fun justified :: "kobject set \<Rightarrow> kobject \<Rightarrow> bool" where
  "justified S (ODisk d) \<longleftrightarrow> (disk_Phase (disk_Status d) = DiskPhaseReady \<longrightarrow>
     (\<exists>cm. OConfigMap cm \<in> S \<and> (cm_str cm ''status.state'' = ''Success'' \<or>
        cm_lookup cm (sanitizeDevicePath (disk_DevicePath (disk_Spec d))) \<noteq> None)))"
| "justified S (OArray a) \<longleftrightarrow> (array_Phase (array_Status a) = ArrayPhaseReady \<longrightarrow>
     (\<forall>name \<in> set (array_DataDisks (array_Spec a) @ array_ParityDisks (array_Spec a)).
        \<exists>d. ODisk d \<in> S \<and> key_of (ODisk d) = ('''', name) \<and> \<not> is_degraded d))"
| "justified S (OPool p) \<longleftrightarrow> (pool_Phase (pool_Status p) = ''Ready'' \<longrightarrow>
     (\<exists>a. OArray a \<in> S \<and> key_of (OArray a) = (meta_Namespace (pool_Meta p), pool_ArrayRef (pool_Spec p)) \<and>
        array_Phase (array_Status a) = ArrayPhaseReady \<and>
        set (pool_MemberDisks (pool_Status p)) \<subseteq> set (array_DataDisks (array_Spec a))) \<and>
     (\<forall>name \<in> set (pool_MemberDisks (pool_Status p)).
        \<exists>d. ODisk d \<in> S \<and> key_of (ODisk d) = ('''', name) \<and> usable d) \<and>
     (\<exists>cm. OConfigMap cm \<in> S \<and> cm_str cm ''status.state'' = ''Success''))"
| "justified S (OShare s) \<longleftrightarrow> (share_Published (share_Status s) \<longrightarrow>
     (\<exists>p. OPool p \<in> S \<and> key_of (OPool p) = (meta_Namespace (share_Meta s), share_PoolRef (share_Spec s)) \<and>
        pool_Mounted (pool_Status p)))"
| "justified S _ \<longleftrightarrow> True"

text \<open>An update of the main resource leaves a Disk declared as it was, and concerns no other declared kind.\<close>

fun same_declaration :: "kobject \<Rightarrow> kobject \<Rightarrow> bool" where
  "same_declaration (ODisk d) (ODisk d') \<longleftrightarrow> disk_Spec d' = disk_Spec d \<and>
     meta_DeletionTimestamp (disk_Meta d') = meta_DeletionTimestamp (disk_Meta d)"
| "same_declaration _ ob \<longleftrightarrow> kind_of ob \<in> {KDiskFailure, KConfigMap, KPod, KService, KCronJob}"

fun allowed :: "kobject set \<Rightarrow> request \<Rightarrow> bool" where
  "allowed S (Create ob) \<longleftrightarrow> kind_of ob \<in> {KDiskFailure, KConfigMap, KPod, KService, KCronJob} \<and> unreported ob"
| "allowed S (Update ob) \<longleftrightarrow> (\<exists>old \<in> S. kind_of old = kind_of ob \<and> key_of old = key_of ob \<and> rv_of old = rv_of ob \<and>
     same_declaration old ob)"
| "allowed S (StatusUpdate ob) \<longleftrightarrow> (\<exists>old \<in> S. put_status old ob = ob \<and> (obj_ok old \<longrightarrow> obj_ok ob)) \<and> justified S ob"
| "allowed S (Delete ob) \<longleftrightarrow> kind_of ob = KPod"
| "allowed S _ \<longleftrightarrow> True"

lemma justified_mono: "justified S ob \<Longrightarrow> S \<subseteq> T \<Longrightarrow> justified T ob"
  by (cases ob) (auto, blast+)

lemma allowed_mono: "allowed S q \<Longrightarrow> S \<subseteq> T \<Longrightarrow> allowed T q"
  by (cases q) (auto intro: justified_mono)

section \<open>The judgement\<close>

text \<open>
  A client of which we know what it has read so far, and whether a request was made that is not allowed.
  Nothing is assumed about the objects it gets: others write in between.
\<close>

locale observed_client =
  fixes cl :: "'w env" and seen :: "'w \<Rightarrow> kobject set" and fine :: "'w \<Rightarrow> bool"
  assumes get_law: "run_state (env_get cl k n) w = (r, w') \<Longrightarrow> fine w \<Longrightarrow>
      fine w' \<and> seen w \<subseteq> seen w' \<and> (\<forall>ob. r = Inr ob \<longrightarrow> ob \<in> seen w' \<and> kind_of ob = k \<and> key_of ob = n)"
    and create_law: "run_state (env_create cl ob) w = (e, w') \<Longrightarrow> fine w \<Longrightarrow> allowed (seen w) (Create ob) \<Longrightarrow>
      fine w' \<and> seen w \<subseteq> seen w'"
    and update_law: "run_state (env_update cl ob) w = (e, w') \<Longrightarrow> fine w \<Longrightarrow> allowed (seen w) (Update ob) \<Longrightarrow>
      fine w' \<and> seen w \<subseteq> seen w'"
    and status_update_law: "run_state (env_status_update cl ob) w = (e, w') \<Longrightarrow> fine w \<Longrightarrow>
      allowed (seen w) (StatusUpdate ob) \<Longrightarrow> fine w' \<and> seen w \<subseteq> seen w'"
    and delete_law: "run_state (env_delete cl ob) w = (e, w') \<Longrightarrow> fine w \<Longrightarrow> allowed (seen w) (Delete ob) \<Longrightarrow>
      fine w' \<and> seen w \<subseteq> seen w'"
    and now_law: "run_state (env_now cl) w = (t, w') \<Longrightarrow> fine w \<Longrightarrow> fine w' \<and> seen w \<subseteq> seen w'"
    and wait_law: "run_state (env_wait cl) w = (e, w') \<Longrightarrow> fine w \<Longrightarrow> fine w' \<and> seen w \<subseteq> seen w'"
begin

text \<open>Having read \<open>S\<close>, \<open>m\<close> asks only what is allowed, and its result and what is then read satisfy \<open>P\<close>.\<close>

definition guards :: "kobject set \<Rightarrow> ('w, 'a) state \<Rightarrow> ('a \<Rightarrow> kobject set \<Rightarrow> bool) \<Rightarrow> bool" where
  "guards S m P \<longleftrightarrow> (\<forall>w. fine w \<longrightarrow> S \<subseteq> seen w \<longrightarrow> wp m (\<lambda>r w'. fine w' \<and> seen w \<subseteq> seen w' \<and> P r (seen w')) w)"

lemma guards_weaken: "guards S m P \<Longrightarrow> S \<subseteq> T \<Longrightarrow> (\<And>r U. T \<subseteq> U \<Longrightarrow> P r U \<Longrightarrow> Q r U) \<Longrightarrow> guards T m Q"
  unfolding guards_def by (intro allI impI, elim allE impE) (auto elim!: wp_mono)

lemma guards_any: "guards S m P \<Longrightarrow> guards S m (\<lambda>_ _. True)"
  by (erule guards_weaken) simp_all

lemma guards_return: "(\<And>T. S \<subseteq> T \<Longrightarrow> P x T) \<Longrightarrow> guards S (State_Monad.return x) P"
  by (simp add: guards_def wp)

lemma guards_bind:
  assumes "guards S m P" and "\<And>a T. S \<subseteq> T \<Longrightarrow> P a T \<Longrightarrow> guards T (f a) Q"
  shows "guards S (State_Monad.bind m f) Q"
  unfolding guards_def
proof (intro allI impI)
  fix w assume w: "fine w" "S \<subseteq> seen w"
  show "wp (State_Monad.bind m f) (\<lambda>r w'. fine w' \<and> seen w \<subseteq> seen w' \<and> Q r (seen w')) w"
    unfolding wp_bind
  proof (rule wp_mono[OF assms(1)[unfolded guards_def, rule_format, OF w]], elim conjE)
    fix a w1 assume 1: "fine w1" "seen w \<subseteq> seen w1" "P a (seen w1)"
    then have "guards (seen w1) (f a) Q" using w by (intro assms(2)) auto
    from this[unfolded guards_def, rule_format, OF 1(1) subset_refl]
    show "wp (f a) (\<lambda>r w'. fine w' \<and> seen w \<subseteq> seen w' \<and> Q r (seen w')) w1"
      by (rule wp_mono) (use 1 in auto)
  qed
qed

lemma guards_if: "(c \<Longrightarrow> guards S m P) \<Longrightarrow> (\<not> c \<Longrightarrow> guards S m' P) \<Longrightarrow> guards S (if c then m else m') P"
  by simp

lemma guards_Let: "(\<And>x. x = t \<Longrightarrow> guards S (f x) P) \<Longrightarrow> guards S (Let t f) P"
  by simp

lemma guards_sum:
  "(\<And>e. r = Inl e \<Longrightarrow> guards S (f e) P) \<Longrightarrow> (\<And>x. r = Inr x \<Longrightarrow> guards S (g x) P) \<Longrightarrow>
   guards S (case r of Inl e \<Rightarrow> f e | Inr x \<Rightarrow> g x) P"
  by (simp split: sum.split)

lemma guards_option:
  "(r = None \<Longrightarrow> guards S f P) \<Longrightarrow> (\<And>x. r = Some x \<Longrightarrow> guards S (g x) P) \<Longrightarrow>
   guards S (case r of None \<Rightarrow> f | Some x \<Rightarrow> g x) P"
  by (simp split: option.split)

lemma guards_prod: "(\<And>x y. r = (x, y) \<Longrightarrow> guards S (f x y) P) \<Longrightarrow> guards S (case r of (x, y) \<Rightarrow> f x y) P"
  by (simp split: prod.split)

lemma guards_list:
  "(xs = [] \<Longrightarrow> guards S f P) \<Longrightarrow> (\<And>y ys. xs = y # ys \<Longrightarrow> guards S (g y ys) P) \<Longrightarrow>
   guards S (case xs of [] \<Rightarrow> f | y # ys \<Rightarrow> g y ys) P"
  by (simp split: list.split)

lemmas guards_parts = guards_return guards_if guards_Let guards_sum guards_option guards_prod guards_list

lemma guards_run:
  assumes "\<And>w r w'. run_state m w = (r, w') \<Longrightarrow> fine w \<Longrightarrow> S \<subseteq> seen w \<Longrightarrow>
      fine w' \<and> seen w \<subseteq> seen w' \<and> P r (seen w')"
  shows "guards S m P"
  unfolding guards_def by (intro allI impI run_wp) (use assms in blast)

text \<open>A read adds what was read to what the rest may build on.\<close>

lemma guards_get:
  "guards S (env_get cl k n) (\<lambda>r T. \<forall>ob. r = Inr ob \<longrightarrow> ob \<in> T \<and> kind_of ob = k \<and> key_of ob = n)"
  by (rule guards_run) (drule get_law; blast)

lemma guards_writes:
  "allowed S (Create ob) \<Longrightarrow> guards S (env_create cl ob) (\<lambda>_ _. True)"
  "allowed S (Update ob) \<Longrightarrow> guards S (env_update cl ob) (\<lambda>_ _. True)"
  "allowed S (StatusUpdate ob) \<Longrightarrow> guards S (env_status_update cl ob) (\<lambda>_ _. True)"
  "allowed S (Delete ob) \<Longrightarrow> guards S (env_delete cl ob) (\<lambda>_ _. True)"
  by (rule guards_run; frule allowed_mono, assumption; blast dest: create_law update_law status_update_law delete_law)+

lemma guards_clock: "guards S (env_now cl) (\<lambda>_ _. True)" "guards S (env_wait cl) (\<lambda>_ _. True)"
  by (rule guards_run; blast dest: now_law wait_law)+

lemma guards_then: "guards S m (\<lambda>_ _. True) \<Longrightarrow> (\<And>a T. S \<subseteq> T \<Longrightarrow> guards T (f a) Q) \<Longrightarrow> guards S (State_Monad.bind m f) Q"
  by (rule guards_bind)

lemma guards_get_then:
  assumes "\<And>ob T. S \<subseteq> T \<Longrightarrow> ob \<in> T \<Longrightarrow> kind_of ob = k \<Longrightarrow> key_of ob = n \<Longrightarrow> guards T (f (Inr ob)) Q"
    and "\<And>e T. S \<subseteq> T \<Longrightarrow> guards T (f (Inl e)) Q"
  shows "guards S (State_Monad.bind (env_get cl k n) f) Q"
proof (rule guards_bind[OF guards_get])
  fix r :: "error + kobject" and T assume "S \<subseteq> T" "\<forall>ob. r = Inr ob \<longrightarrow> ob \<in> T \<and> kind_of ob = k \<and> key_of ob = n"
  then show "guards T (f r) Q" using assms by (cases r) auto
qed

end

section \<open>Replaying is observed\<close>

definition versions_in :: "answer list \<Rightarrow> kobject set" where
  "versions_in as = {ob. Got (Inr ob) \<in> set as}"

definition read_by :: "replay \<Rightarrow> kobject set" where
  "read_by w = versions_in (take (rp_pos w) (rp_answers w))"

definition careful :: "answer list \<Rightarrow> replay \<Rightarrow> bool" where
  "careful as w \<longleftrightarrow> rp_answers w = as \<and> (\<forall>q. rp_next w = Some q \<longrightarrow> allowed (read_by w) q)"

lemma run_ask:
  assumes "run_state (ask q) w = (a, w')"
  obtains "rp_next w \<noteq> None" "a = Got (Inl no_answer)" "w' = w"
  | "rp_next w = None" "rp_pos w < length (rp_answers w)" "a = rp_answers w ! rp_pos w" "w' = w\<lparr>rp_pos := Suc (rp_pos w)\<rparr>"
  | "rp_next w = None" "\<not> rp_pos w < length (rp_answers w)" "a = Got (Inl no_answer)" "w' = w\<lparr>rp_next := Some q\<rparr>"
proof -
  have run: "run_state (ask q) w = (if rp_next w \<noteq> None then (Got (Inl no_answer), w)
     else if rp_pos w < length (rp_answers w) then (rp_answers w ! rp_pos w, w\<lparr>rp_pos := Suc (rp_pos w)\<rparr>)
     else (Got (Inl no_answer), w\<lparr>rp_next := Some q\<rparr>))" by (simp add: ask_def)
  consider "rp_next w \<noteq> None" | "rp_next w = None" "rp_pos w < length (rp_answers w)"
    | "rp_next w = None" "\<not> rp_pos w < length (rp_answers w)" by blast
  then show thesis
  proof cases
    case 1
    then show ?thesis using assms run by (intro that(1)) auto
  next
    case 2
    then show ?thesis using assms run by (intro that(2)) simp_all
  next
    case 3
    then show ?thesis using assms run by (intro that(3)) simp_all
  qed
qed

lemma read_by_Suc: "rp_pos w < length (rp_answers w) \<Longrightarrow>
    read_by (w\<lparr>rp_pos := Suc (rp_pos w)\<rparr>) = read_by w \<union> versions_in [rp_answers w ! rp_pos w]"
  by (auto simp: read_by_def versions_in_def take_Suc_conv_app_nth)

lemma careful_ask:
  assumes "run_state (ask q) w = (a, w')" and "careful as w" and "allowed (read_by w) q"
  shows "careful as w' \<and> read_by w \<subseteq> read_by w' \<and> (\<forall>ob. a = Got (Inr ob) \<longrightarrow> ob \<in> read_by w')"
  using assms(1)
proof (cases rule: run_ask)
  case 2
  then show ?thesis using assms(2) by (auto simp: careful_def read_by_Suc versions_in_def)
qed (use assms(2,3) in \<open>auto simp: careful_def read_by_def\<close>)

lemma run_ask_for:
  assumes "run_state (ask_for f q) w = (r, w')"
  obtains a where "run_state (ask q) w = (a, w')" "r = f a"
  using assms by (auto simp: ask_for_def State_Monad.bind_def State_Monad.return_def split: prod.splits)

lemma got_Inr: "got k n a = Inr ob \<Longrightarrow> a = Got (Inr ob) \<and> kind_of ob = k \<and> key_of ob = n"
  by (auto simp: got_def split: answer.splits sum.splits if_splits)

lemma careful_ask_for:
  assumes "run_state (ask_for f q) w = (r, w')" and "careful as w" and "allowed (read_by w) q"
  shows "careful as w'" "read_by w \<subseteq> read_by w'" "\<exists>a. r = f a \<and> (\<forall>ob. a = Got (Inr ob) \<longrightarrow> ob \<in> read_by w')"
proof -
  obtain a where a: "run_state (ask q) w = (a, w')" "r = f a" using assms(1) by (rule run_ask_for)
  show "careful as w'" "read_by w \<subseteq> read_by w'" "\<exists>a. r = f a \<and> (\<forall>ob. a = Got (Inr ob) \<longrightarrow> ob \<in> read_by w')"
    using careful_ask[OF a(1) assms(2,3)] a(2) by blast+
qed

lemma replay_env_sel [simp]:
  "env_get (replay_env ns) k n = ask_for (got k n) (Get k n)"
  "env_create (replay_env ns) ob = ask_for outcome (Create ob)"
  "env_update (replay_env ns) ob = ask_for outcome (Update ob)"
  "env_status_update (replay_env ns) ob = ask_for outcome (StatusUpdate ob)"
  "env_delete (replay_env ns) ob = ask_for outcome (Delete ob)"
  "env_now (replay_env ns) = ask_for at_time Now"
  "env_wait (replay_env ns) = ask_for outcome Wait"
  "env_namespace (replay_env ns) = ns"
  by (simp_all add: replay_env_def)

interpretation replay: observed_client "replay_env ns" read_by "careful as" for ns as
proof (unfold_locales, unfold replay_env_sel, goal_cases)
  case (1 k n w r w')
  note ask = careful_ask_for[OF 1, simplified]
  then obtain a where a: "r = got k n a" "\<And>ob. a = Got (Inr ob) \<Longrightarrow> ob \<in> read_by w'" by blast
  have "ob \<in> read_by w' \<and> kind_of ob = k \<and> key_of ob = n" if "r = Inr ob" for ob
    using got_Inr[of k n a ob] a that by simp
  then show ?case using ask(1,2) by blast
qed (simp_all add: careful_ask_for)

text \<open>Every request of a guarded call is allowed by what the answers so far contain.\<close>

lemma next_request_allowed:
  assumes "replay.guards as {} m P" and "next_request m as = Inl q"
  shows "allowed (versions_in as) q"
proof -
  obtain r w where run: "run_state m (replay_from as) = (r, w)" by fastforce
  have "careful as (replay_from as)" by (simp add: careful_def replay_from_def)
  with assms(1) have "wp m (\<lambda>r w'. careful as w' \<and> read_by (replay_from as) \<subseteq> read_by w' \<and> P r (read_by w')) (replay_from as)"
    unfolding replay.guards_def by simp
  from wp_run[OF this run] have w: "careful as w" by simp
  moreover have "rp_next w = Some q" using assms(2) run by (auto simp: next_request_def split: option.splits)
  ultimately have "allowed (read_by w) q" by (simp add: careful_def)
  then show ?thesis
    by (rule allowed_mono) (use w in \<open>auto simp: careful_def read_by_def versions_in_def dest: in_set_takeD\<close>)
qed

end
