(* ===== verification/Call_Guards.thy ===== *)
theory Call_Guards
  imports Requests
begin

text \<open>
  What each controller asks of the API server, whatever is stored between its requests: a status is written
  only over a version that the call has read, keeps the invariant of its kind, and claims no more than the versions
  read in this call show; a main resource is updated only from a version that was read; nothing else of the
  operator's own types is created, updated or deleted.
\<close>

section \<open>Reads\<close>

definition confirmed :: "kobject set \<Rightarrow> bool" where
  "confirmed S \<longleftrightarrow> (\<exists>cm. OConfigMap cm \<in> S \<and> cm_str cm ''status.state'' = ''Success'')"

lemma confirmed_mono: "confirmed S \<Longrightarrow> S \<subseteq> T \<Longrightarrow> confirmed T"
  by (auto simp: confirmed_def)

lemma confirmedI: "OConfigMap cm \<in> S \<Longrightarrow> S \<subseteq> T \<Longrightarrow> cm_str cm ''status.state'' = ''Success'' \<Longrightarrow> confirmed T"
  by (auto simp: confirmed_def)

lemma allowed_Update: "old \<in> S \<Longrightarrow> kind_of old = kind_of ob \<Longrightarrow> key_of old = key_of ob \<Longrightarrow> rv_of old = rv_of ob \<Longrightarrow>
    same_declaration old ob \<Longrightarrow> allowed S (Update ob)"
  by auto

lemma allowed_StatusUpdate: "old \<in> S \<Longrightarrow> put_status old ob = ob \<Longrightarrow> (obj_ok old \<Longrightarrow> obj_ok ob) \<Longrightarrow> justified S ob \<Longrightarrow>
    allowed S (StatusUpdate ob)"
  by auto

lemma allowed_Create: "kind_of ob \<in> {KConfigMap, KPod, KService, KCronJob} \<Longrightarrow> allowed S (Create ob)"
  by (cases ob) simp_all

declare allowed.simps [simp del]

text \<open>An answer of kind \<open>k\<close> decodes to the value it was made of.\<close>

definition decodes :: "kind \<Rightarrow> ('a \<Rightarrow> kobject) \<Rightarrow> (error + kobject \<Rightarrow> error + 'a) \<Rightarrow> bool" where
  "decodes k con dec \<longleftrightarrow> (\<forall>ob. kind_of ob = k \<longrightarrow> (\<exists>x. ob = con x \<and> dec (Inr ob) = Inr x)) \<and> (\<forall>e. dec (Inl e) = Inl e)"

lemma decodesI: "(\<And>ob. kind_of ob = k \<Longrightarrow> \<exists>x. ob = con x \<and> dec (Inr ob) = Inr x) \<Longrightarrow> (\<And>e. dec (Inl e) = Inl e) \<Longrightarrow>
    decodes k con dec"
  by (simp add: decodes_def)

lemma decodes_kinds:
  "decodes KDisk ODisk as_Disk" "decodes KArray OArray as_Array" "decodes KPool OPool as_Pool"
  "decodes KShare OShare as_Share" "decodes KParitySchedule OParitySchedule as_ParitySchedule"
  "decodes KPlacementPolicy OPlacementPolicy as_PlacementPolicy" "decodes KRebalanceJob ORebalanceJob as_RebalanceJob"
  "decodes KDiskFailure ODiskFailure as_DiskFailure" "decodes KCachePool OCachePool as_CachePool"
  "decodes KConfigMap OConfigMap as_ConfigMap" "decodes KCronJob OCronJob as_CronJob"
  by (rule decodesI, case_tac ob, simp_all add: as_defs)+

context observed_client begin

lemma guards_fetch:
  assumes dec: "decodes k con dec"
    and found: "\<And>x T. S \<subseteq> T \<Longrightarrow> con x \<in> T \<Longrightarrow> key_of (con x) = n \<Longrightarrow> guards T (g x) Q"
    and failed: "\<And>e T. S \<subseteq> T \<Longrightarrow> guards T (f e) Q"
  shows "guards S (State_Monad.bind (env_get cl k n) (\<lambda>r. case dec r of Inl e \<Rightarrow> f e | Inr x \<Rightarrow> g x)) Q"
proof (rule guards_get_then)
  fix ob T assume ob: "S \<subseteq> T" "ob \<in> T" "kind_of ob = k" "key_of ob = n"
  then obtain x where "ob = con x" "dec (Inr ob) = Inr x" using dec by (auto simp: decodes_def)
  then show "guards T (case dec (Inr ob) of Inl e \<Rightarrow> f e | Inr x \<Rightarrow> g x) Q" using found ob by simp
qed (use dec failed in \<open>simp add: decodes_def\<close>)

lemmas guards_fetches = decodes_kinds[THEN guards_fetch]

section \<open>The node-agent client\<close>

lemma guards_get_cm: "guards S (get_cm cl name) (\<lambda>r T. \<forall>cm. r = Inr cm \<longrightarrow> OConfigMap cm \<in> T)"
  unfolding get_cm_def
  by (rule guards_get_then; rule guards_return)
    (auto simp: as_ConfigMap_def split: kobject.splits)

lemma guards_wait_polls:
  "guards S (wait_polls i cl op) (\<lambda>r T. snd r = None \<longrightarrow> confirmed T \<and> (\<exists>st. fst r = Some st \<and> aos_State st = ''Success''))"
proof (induction i arbitrary: S)
  case (Suc i)
  have again: "guards T (State_Monad.bind (env_wait cl) (\<lambda>e. case e of Some ctxErr \<Rightarrow> State_Monad.return (None, Some ctxErr)
      | None \<Rightarrow> wait_polls i cl op)) (\<lambda>r T. snd r = None \<longrightarrow> confirmed T \<and> (\<exists>st. fst r = Some st \<and> aos_State st = ''Success''))" for T
    by (rule guards_then[OF guards_clock(2)], rule guards_option) (auto intro: Suc.IH guards_return)
  show ?case unfolding wait_polls.simps Let_def
    by (rule guards_bind[OF guards_get_cm])
      (auto intro!: guards_parts again intro: confirmedI)
qed (auto intro: guards_return)

lemma guards_postAgentOp: "guards S (postAgentOp cl node ty pl) (\<lambda>_ _. True)"
  unfolding postAgentOp_def Let_def
  by (intro guards_then[OF guards_clock(1)] guards_then[OF guards_writes(1)] guards_return allowed_Create) simp_all

lemma guards_post_and_wait: "guards S (post_and_wait cl node ty pl) (\<lambda>r T. r = None \<longrightarrow> confirmed T)"
  unfolding post_and_wait_def
  by (rule guards_then[OF guards_postAgentOp])
    (auto simp: waitForOperationState_def intro!: guards_parts guards_bind[OF guards_wait_polls] intro: confirmed_mono)

lemma guards_EnsureMergerFSMount: "guards S (EnsureMergerFSMount cl node q) (\<lambda>r T. \<forall>b. r = Inr b \<longrightarrow> b \<and> confirmed T)"
  unfolding EnsureMergerFSMount_def
  by (rule guards_then[OF guards_postAgentOp])
    (auto simp: waitForOperationState_def intro!: guards_parts guards_bind[OF guards_wait_polls] intro: confirmed_mono split: option.splits)

lemma guards_GetDiskStatus:
  "guards S (GetDiskStatus cl node dev) (\<lambda>r T. \<forall>s. r = Inr s \<longrightarrow> das_Mounted s \<longrightarrow>
     (\<exists>cm. OConfigMap cm \<in> T \<and> cm_lookup cm (sanitizeDevicePath dev) \<noteq> None))"
  unfolding GetDiskStatus_def Let_def
  by (rule guards_bind[OF guards_get_cm], rule guards_return)
    (auto simp: DiskAgentStatus_zero_def split: sum.splits option.splits if_splits)

lemma guards_ApplySnapraidConfig: "guards S (ApplySnapraidConfig cl node cfg) (\<lambda>_ _. True)"
  unfolding ApplySnapraidConfig_def Let_def
  by (rule guards_bind[OF guards_get_cm])
    (auto intro!: guards_parts guards_writes(1,2) allowed_Create allowed_Update[where old = "OConfigMap x" for x]
      simp: key_of_def rv_of_def)

lemma guards_MountDisk: "guards S (MountDisk cl node q) (\<lambda>r T. r = None \<longrightarrow> confirmed T)"
  unfolding MountDisk_def by (rule guards_post_and_wait)

section \<open>Disk\<close>

lemma guards_Disk_setPhase:
  assumes "ODisk d0 \<in> S" "disk_Meta d = disk_Meta d0" "disk_Spec d = disk_Spec d0"
    and "ph = DiskPhaseReady \<Longrightarrow> disk_Mounted (disk_Status d) \<and> (confirmed S \<or>
        (\<exists>cm. OConfigMap cm \<in> S \<and> cm_lookup cm (sanitizeDevicePath (disk_DevicePath (disk_Spec d))) \<noteq> None))"
    and "disk_Conditions (disk_Status d) = disk_Conditions (disk_Status d0)"
  shows "guards S (Disk_setPhase cl d ph reason msg) (\<lambda>_ _. True)"
  unfolding Disk_setPhase_def
proof (intro guards_then[OF guards_clock(1)] guards_then[OF guards_writes(3)] guards_return TrueI allowed_StatusUpdate)
  fix now T assume T: "S \<subseteq> T"
  show "ODisk d0 \<in> T" using assms(1) T by blast
  show "put_status (ODisk d0) (ODisk (disk_with_phase ph reason msg now d)) = ODisk (disk_with_phase ph reason msg now d)"
    using assms(2,3) by (simp add: disk_with_phase_def)
  show "obj_ok (ODisk (disk_with_phase ph reason msg now d))" if "obj_ok (ODisk d0)"
    using that assms(4,5) by (auto intro!: disk_ok_with_phase simp: disk_ok_types)
  show "justified T (ODisk (disk_with_phase ph reason msg now d))"
    using assms(4) T by (auto simp: disk_with_phase_def confirmed_def)
qed

lemma disk_report_meta [simp]:
  "disk_Meta (disk_report s t d) = disk_Meta d" "disk_Spec (disk_report s t d) = disk_Spec d"
  "disk_Meta (disk_set_mounted d) = disk_Meta d" "disk_Spec (disk_set_mounted d) = disk_Spec d"
  by (simp_all add: disk_report_def disk_set_mounted_def)

lemma guards_Disk_reconcileNormal:
  assumes "ODisk d \<in> S"
  shows "guards S (Disk_reconcileNormal cl (KubernetesAgentClient cl) d) (\<lambda>_ _. True)"
  unfolding Disk_reconcileNormal_def KubernetesAgentClient_def agent_client.simps
proof (rule guards_bind[OF guards_GetDiskStatus], rule guards_sum, goal_cases)
  case (1 r T e)
  then show ?case using assms by (intro guards_Disk_setPhase[where d0 = d]) auto
next
  case (2 r T s)
  show ?case
  proof (rule guards_then[OF guards_clock(1)], unfold Let_def, rule guards_if, goal_cases)
    case (1 now U)
    show ?case
    proof (rule guards_bind[OF guards_MountDisk], rule guards_option, goal_cases)
      case (1 e V)
      then have "confirmed V" "ODisk d \<in> V" using assms \<open>S \<subseteq> T\<close> \<open>T \<subseteq> U\<close> by auto
      then show ?case by (intro guards_Disk_setPhase[of d V "disk_set_mounted (disk_report s now d)"]) simp_all
    next
      case (2 e V x)
      then show ?case using assms \<open>S \<subseteq> T\<close> \<open>T \<subseteq> U\<close> by (intro guards_Disk_setPhase[of d _ "disk_report s now d"]) auto
    qed
  next
    case (2 now U)
    moreover have "das_Mounted s" if "computePhase s = DiskPhaseReady" using 2 that by simp
    ultimately show ?case using assms \<open>S \<subseteq> T\<close> \<open>r = Inr s\<close>
        \<open>\<forall>s. r = Inr s \<longrightarrow> das_Mounted s \<longrightarrow> (\<exists>cm. OConfigMap cm \<in> T \<and> cm_lookup cm (sanitizeDevicePath (disk_DevicePath (disk_Spec d))) \<noteq> None)\<close>
      by (intro guards_Disk_setPhase[of d _ "disk_report s now d"]) auto
  qed
qed

lemma guards_finalizer:
  assumes "ODisk d \<in> S"
  shows "guards S (env_update cl (ODisk (disk_without_finalizer d))) (\<lambda>_ _. True)"
    "guards S (env_update cl (ODisk (disk_with_finalizer d))) (\<lambda>_ _. True)"
  by (intro guards_writes(2) allowed_Update[OF assms];
      simp add: disk_without_finalizer_def disk_with_finalizer_def key_of_def rv_of_def)+

lemma guards_Disk_reconcileDelete:
  assumes "ODisk d \<in> S"
  shows "guards S (Disk_reconcileDelete cl (KubernetesAgentClient cl) d) (\<lambda>_ _. True)"
proof -
  have unmount: "guards S (if disk_Mounted (disk_Status d)
      then UnmountDisk cl (disk_NodeName (disk_Spec d)) (disk_MountPoint (disk_Spec d)) else State_Monad.return None) (\<lambda>_ _. True)"
    unfolding UnmountDisk_def by (intro guards_if guards_any[OF guards_post_and_wait] guards_return TrueI)
  show ?thesis unfolding Disk_reconcileDelete_def KubernetesAgentClient_def agent_client.simps
    by (intro guards_then[OF unmount] guards_then[OF guards_finalizer(1)] guards_return TrueI) (use assms in blast)
qed

lemma guards_Disk_Reconcile: "guards S (Disk_Reconcile cl (KubernetesAgentClient cl) n) (\<lambda>_ _. True)"
  unfolding Disk_Reconcile_def
  by (intro guards_fetches guards_if guards_Disk_reconcileDelete guards_Disk_reconcileNormal
      guards_then[OF guards_finalizer(2)] guards_return TrueI)

end

section \<open>Array\<close>

text \<open>Each name was read, with its disk in the list.\<close>

definition read_disks :: "kobject set \<Rightarrow> string list \<Rightarrow> Disk list \<Rightarrow> bool" where
  "read_disks S names ds \<longleftrightarrow> (\<forall>name \<in> set names. \<exists>d \<in> set ds. ODisk d \<in> S \<and> key_of (ODisk d) = ('''', name))"

lemma read_disks_mono: "read_disks S names ds \<Longrightarrow> S \<subseteq> T \<Longrightarrow> read_disks T names ds"
  by (auto simp: read_disks_def)

context observed_client begin

lemma guards_resolveDiskRefs: "guards S (resolveDiskRefs cl names) (\<lambda>r T. \<forall>ds. r = Inr ds \<longrightarrow> read_disks T names ds)"
proof (induction names arbitrary: S)
  case (Cons name names)
  show ?case unfolding resolveDiskRefs.simps
  proof (rule guards_fetches, goal_cases)
    case (1 d T)
    show ?case
    proof (rule guards_bind[OF Cons.IH], rule guards_return, intro allI impI)
      fix r U V ds
      assume "T \<subseteq> U" "\<forall>ds. r = Inr ds \<longrightarrow> read_disks U names ds" "U \<subseteq> V"
        and "(case r of Inl e \<Rightarrow> Inl e | Inr disks \<Rightarrow> Inr (d # disks)) = Inr ds"
      moreover from this obtain es where "r = Inr es" "ds = d # es" by (cases r) auto
      ultimately show "read_disks V (name # names) ds"
        using 1 by (auto simp: read_disks_def) blast+
    qed
  qed (auto intro: guards_return)
qed (auto simp: read_disks_def intro: guards_return)

lemma guards_setArrayPhase:
  assumes "OArray a0 \<in> S" "array_Meta a = array_Meta a0" "array_Spec a = array_Spec a0"
    and "ph = ArrayPhaseReady \<Longrightarrow> array_DegradedDisks (array_Status a) = [] \<and>
       (\<forall>name \<in> set (array_DataDisks (array_Spec a0) @ array_ParityDisks (array_Spec a0)).
          \<exists>d. ODisk d \<in> S \<and> key_of (ODisk d) = ('''', name) \<and> \<not> is_degraded d)"
  shows "guards S (setArrayPhase cl a ph reason msg) (\<lambda>_ _. True)"
  unfolding setArrayPhase_def
proof (intro guards_then[OF guards_clock(1)] guards_then[OF guards_writes(3)] guards_return TrueI allowed_StatusUpdate)
  fix now T assume T: "S \<subseteq> T"
  show "OArray a0 \<in> T" using assms(1) T by blast
  show "put_status (OArray a0) (OArray (array_with_phase ph reason msg now a)) = OArray (array_with_phase ph reason msg now a)"
    using assms(2,3) by (simp add: array_with_phase_def Let_def)
  show "obj_ok (OArray (array_with_phase ph reason msg now a))"
    using assms(4) by (simp add: array_ok_def array_with_phase_def Let_def)
  show "justified T (OArray (array_with_phase ph reason msg now a))"
    using assms(3,4) T by (auto simp: array_with_phase_def Let_def)
qed

lemma guards_Array_Reconcile: "guards S (Array_Reconcile cl (KubernetesAgentClient cl) n) (\<lambda>_ _. True)"
  unfolding Array_Reconcile_def KubernetesAgentClient_def agent_client.simps
proof (intro guards_fetches, goal_cases)
  case (1 a T)
  show ?case
  proof (rule guards_bind[OF guards_resolveDiskRefs], rule guards_sum, goal_cases)
    case (1 data U e)
    then show ?case using \<open>OArray a \<in> T\<close> by (intro guards_setArrayPhase[of a]) auto
  next
    case (2 data U ds)
    have data: "read_disks U (array_DataDisks (array_Spec a)) ds" using 2 by simp
    have a: "OArray a \<in> U" using \<open>OArray a \<in> T\<close> \<open>T \<subseteq> U\<close> by blast
    show ?case
    proof (rule guards_bind[OF guards_resolveDiskRefs], rule guards_sum, goal_cases)
      case (1 parity V e)
      then show ?case using a by (intro guards_setArrayPhase[of a]) auto
    next
      case (2 parity V ps)
      have parity: "read_disks V (array_ParityDisks (array_Spec a)) ps" using 2 by simp
      let ?a = "array_set_degraded (degradedNames (ds @ ps)) a"
      have phase: "guards W (setArrayPhase cl ?a ph reason msg) (\<lambda>_ _. True)"
        if "V \<subseteq> W" "ph = ArrayPhaseReady \<Longrightarrow> degradedNames (ds @ ps) = []" for W ph reason msg
      proof (rule guards_setArrayPhase[of a])
        have "read_disks W (array_DataDisks (array_Spec a) @ array_ParityDisks (array_Spec a)) (ds @ ps)"
          using read_disks_mono[OF data, of W] read_disks_mono[OF parity, of W] \<open>U \<subseteq> V\<close> that(1)
          by (fastforce simp: read_disks_def)
        moreover have "degradedNames (ds @ ps) = [] \<Longrightarrow> d \<in> set (ds @ ps) \<Longrightarrow> \<not> is_degraded d" for d
          by (simp add: degradedNames_def filter_empty_conv) blast
        ultimately show "array_DegradedDisks (array_Status ?a) = [] \<and>
            (\<forall>name \<in> set (array_DataDisks (array_Spec a) @ array_ParityDisks (array_Spec a)).
               \<exists>d. ODisk d \<in> W \<and> key_of (ODisk d) = ('''', name) \<and> \<not> is_degraded d)" if "ph = ArrayPhaseReady"
          using \<open>ph = ArrayPhaseReady \<Longrightarrow> degradedNames (ds @ ps) = []\<close> that
          unfolding read_disks_def by (auto simp: array_set_degraded_def)
      qed (use a \<open>U \<subseteq> V\<close> that in \<open>auto simp: array_set_degraded_def\<close>)
      have apply_conf: "guards V (case ds of [] \<Rightarrow> State_Monad.return None
          | d # _ \<Rightarrow> ApplySnapraidConfig cl (disk_NodeName (disk_Spec d)) (buildSnapraidConfig ?a ds ps)) (\<lambda>_ _. True)"
        by (intro guards_list guards_return TrueI guards_ApplySnapraidConfig)
      show ?case unfolding Let_def
        by (rule guards_then[OF apply_conf]; rule guards_option; rule phase) (auto split: if_splits)
    qed
  qed
qed (intro guards_return TrueI)

end

section \<open>Pool\<close>

text \<open>The members collected so far are names of the list, and each was read as a disk that is Ready and mounted.\<close>

definition read_members :: "kobject set \<Rightarrow> string list \<Rightarrow> string list \<Rightarrow> bool" where
  "read_members S names ms \<longleftrightarrow> set ms \<subseteq> set names \<and>
     (\<forall>name \<in> set ms. \<exists>d. ODisk d \<in> S \<and> key_of (ODisk d) = ('''', name) \<and> usable d)"

lemma read_members_mono: "read_members S names ms \<Longrightarrow> S \<subseteq> T \<Longrightarrow> read_members T names ms"
  unfolding read_members_def by blast

context observed_client begin

lemma guards_collectBranches:
  "set names \<subseteq> set all \<Longrightarrow> read_members S all (br_diskNames b) \<Longrightarrow> length (br_diskNames b) = length (br_branches b) \<Longrightarrow>
   guards S (collectBranches cl names b) (\<lambda>b T. read_members T all (br_diskNames b) \<and> length (br_diskNames b) = length (br_branches b))"
proof (induction names arbitrary: S b)
  case Nil
  then show ?case unfolding collectBranches.simps by (intro guards_return conjI) (auto elim: read_members_mono)
next
  case (Cons name names)
  show ?case unfolding collectBranches.simps
  proof (rule guards_fetches, goal_cases)
    case (1 d T)
    have "read_members T all (br_diskNames (add_branch name d b))"
      using read_members_mono[OF Cons.prems(2) 1(1)] 1 Cons.prems(1)
      by (auto simp: read_members_def add_branch_def usable_def)
    moreover have "length (br_diskNames (add_branch name d b)) = length (br_branches (add_branch name d b))"
      using Cons.prems(3) by (simp add: add_branch_def)
    ultimately show ?case using Cons.prems(1) by (intro Cons.IH) auto
  next
    case (2 e T)
    then show ?case using Cons.prems by (intro Cons.IH) (auto intro: read_members_mono)
  qed
qed

lemma guards_firstNode: "guards S (firstNode cl names) (\<lambda>_ _. True)"
  by (induction names arbitrary: S) (auto intro!: guards_return guards_fetches)

lemma guards_setPoolPhase:
  assumes "OPool p0 \<in> S" "pool_Meta p = pool_Meta p0" "pool_Spec p = pool_Spec p0" "ph \<in> {''Pending'', ''Degraded'', ''Ready''}"
    and "ph = ''Ready'' \<Longrightarrow> pool_Mounted (pool_Status p) \<and> pool_MemberDisks (pool_Status p) \<noteq> [] \<and> confirmed S \<and>
       (\<exists>a. OArray a \<in> S \<and> key_of (OArray a) = (meta_Namespace (pool_Meta p0), pool_ArrayRef (pool_Spec p0)) \<and>
          array_Phase (array_Status a) = ArrayPhaseReady \<and>
          read_members S (array_DataDisks (array_Spec a)) (pool_MemberDisks (pool_Status p)))"
  shows "guards S (setPoolPhase cl p ph reason msg) (\<lambda>_ _. True)"
  unfolding setPoolPhase_def
proof (intro guards_then[OF guards_clock(1)] guards_then[OF guards_writes(3)] guards_return TrueI allowed_StatusUpdate)
  fix now T assume T: "S \<subseteq> T"
  show "OPool p0 \<in> T" using assms(1) T by blast
  show "put_status (OPool p0) (OPool (pool_with_phase ph reason msg now p)) = OPool (pool_with_phase ph reason msg now p)"
    using assms(2,3) by (simp add: pool_with_phase_def Let_def)
  show "obj_ok (OPool (pool_with_phase ph reason msg now p))"
    using assms(4,5) by (auto simp: pool_ok_def pool_with_phase_def Let_def)
  show "justified T (OPool (pool_with_phase ph reason msg now p))"
    using assms(2,3,5) T by (simp add: pool_with_phase_def Let_def confirmed_def read_members_def) blast
qed

lemma guards_Pool_Reconcile: "guards S (Pool_Reconcile cl (KubernetesAgentClient cl) n) (\<lambda>_ _. True)"
  unfolding Pool_Reconcile_def KubernetesAgentClient_def agent_client.simps Let_def
proof (rule guards_fetches, goal_cases)
  case (1 p T)
  show ?case
  proof (rule guards_fetches, goal_cases)
    case (1 a U)
    have p: "OPool p \<in> U" using \<open>OPool p \<in> T\<close> 1 by blast
    show ?case
    proof (rule guards_if, goal_cases)
      case 1
      then show ?case using p by (intro guards_setPoolPhase[of p]) auto
    next
      case 2
      show ?case
      proof (rule guards_bind[OF guards_collectBranches[where all = "array_DataDisks (array_Spec a)"]], goal_cases)
        case (4 b V)
        then have V: "OPool p \<in> V" "OArray a \<in> V" using p \<open>OArray a \<in> U\<close> by auto
        show ?case
        proof (rule guards_if, goal_cases)
          case 1
          then show ?case using V by (intro guards_setPoolPhase[of p]) auto
        next
          case 2
          show ?case
          proof (intro guards_then[OF guards_firstNode] guards_bind[OF guards_EnsureMergerFSMount] guards_sum, goal_cases)
            case (1 node X r Y e)
            then show ?case using V by (intro guards_setPoolPhase[of p]) auto
          next
            case (2 node X r Y mounted)
            have Y: "V \<subseteq> Y" using 2 by blast
            have "read_members Y (array_DataDisks (array_Spec a)) (br_diskNames b)"
              using 4 Y by (blast intro: read_members_mono)
            then show ?case using 2 4 V Y \<open>length (br_branches b) \<noteq> 0\<close> \<open>\<not> array_Phase (array_Status a) \<noteq> ArrayPhaseReady\<close>
                \<open>key_of (OArray a) = _\<close>
              by (intro guards_setPoolPhase[of p]) (auto simp: pool_fill_def)
          qed
        qed
      qed (simp_all add: no_branches_def read_members_def)
    qed
  next
    case (2 e U)
    then show ?case using \<open>OPool p \<in> T\<close> by (intro guards_setPoolPhase[of p]) auto
  qed
qed (intro guards_return TrueI)

end

section \<open>Share\<close>

lemma same_declaration_plain: "kind_of old = kind_of ob \<Longrightarrow> kind_of ob \<in> {KDiskFailure, KConfigMap, KPod, KService, KCronJob} \<Longrightarrow>
    same_declaration old ob"
  by (cases old; cases ob) simp_all

context observed_client begin

lemma guards_update_read:
  assumes "kind_of ob \<in> {KConfigMap, KPod, KService}" "old \<in> S" "kind_of old = kind_of ob" "key_of old = key_of ob"
  shows "guards S (env_update cl (with_rv (rv_of old) ob)) (\<lambda>_ _. True)"
  by (intro guards_writes(2) allowed_Update[OF assms(2)] same_declaration_plain) (use assms in auto)

lemma guards_upsertObject:
  assumes "kind_of ob \<in> {KConfigMap, KPod, KService}"
  shows "guards S (upsertObject cl ob) (\<lambda>_ _. True)"
  unfolding upsertObject_def
  by (rule guards_get_then; simp only: sum.case)
    (use assms in \<open>auto intro!: guards_update_read guards_parts guards_writes(1) allowed_Create\<close>)

lemma guards_upsertPodObject:
  assumes "kind_of ob = KPod"
  shows "guards S (upsertPodObject cl ob) (\<lambda>_ _. True)"
  unfolding upsertPodObject_def
proof (rule guards_get_then; simp only: sum.case)
  fix old T assume old: "S \<subseteq> T" "old \<in> T" "kind_of old = kind_of ob" "key_of old = key_of ob"
  have upd: "guards T (env_update cl (with_rv (rv_of old) ob)) (\<lambda>_ _. True)"
    using old assms by (intro guards_update_read) simp_all
  have del: "guards U (env_delete cl old) (\<lambda>_ _. True)" for U
    using old assms by (intro guards_writes(4)) (simp add: allowed.simps)
  show "guards T (State_Monad.bind (env_update cl (with_rv (rv_of old) ob)) (\<lambda>u. case u of
           None \<Rightarrow> State_Monad.return None
         | Some err \<Rightarrow> if isImmutablePodUpdateError err then State_Monad.bind (env_delete cl old) (\<lambda>d.
               if (case d of None \<Rightarrow> False | Some delErr \<Rightarrow> \<not> IsNotFound delErr) then State_Monad.return d
               else env_create cl (with_rv '''' ob))
             else State_Monad.return (Some err))) (\<lambda>_ _. True)"
    by (intro guards_then[OF upd] guards_option guards_if guards_then[OF del] guards_return TrueI guards_writes(1) allowed_Create)
      (simp add: assms)
qed (auto intro!: guards_parts guards_writes(1) allowed_Create simp: assms)

lemma guards_publish:
  "guards S (publish cl own s cm pod svc) (\<lambda>r _. \<forall>s'. r = Inr s' \<longrightarrow> (\<exists>a b. s' = share_set_names a b s))"
  unfolding publish_def
  by (intro guards_then[OF guards_upsertObject] guards_then[OF guards_upsertPodObject] guards_option guards_return) auto

lemma guards_setSharePhase:
  assumes "OShare s0 \<in> S" "share_Meta s = share_Meta s0" "share_Spec s = share_Spec s0" "ph \<in> {''Pending'', ''Degraded'', ''Ready''}"
    and "ph = ''Ready'' \<Longrightarrow> share_Published (share_Status s) \<and>
      (\<exists>p. OPool p \<in> S \<and> key_of (OPool p) = (meta_Namespace (share_Meta s0), share_PoolRef (share_Spec s0)) \<and> pool_Mounted (pool_Status p))"
  shows "guards S (setSharePhase cl s ph reason msg) (\<lambda>_ _. True)"
  unfolding setSharePhase_def
proof (intro guards_then[OF guards_clock(1)] guards_then[OF guards_writes(3)] guards_return TrueI allowed_StatusUpdate)
  fix now T assume T: "S \<subseteq> T"
  show "OShare s0 \<in> T" using assms(1) T by blast
  show "put_status (OShare s0) (OShare (share_with_phase ph reason msg now s)) = OShare (share_with_phase ph reason msg now s)"
    using assms(2,3) by (simp add: share_with_phase_def Let_def)
  show "obj_ok (OShare (share_with_phase ph reason msg now s))"
    using assms(4,5) by (auto simp: share_ok_def share_with_phase_def Let_def)
  show "justified T (OShare (share_with_phase ph reason msg now s))"
    using assms(2,3,5) T by (auto simp: share_with_phase_def Let_def)
qed

lemma guards_Share_Reconcile: "guards S (Share_Reconcile cl own n) (\<lambda>_ _. True)"
  unfolding Share_Reconcile_def
proof (rule guards_fetches, goal_cases)
  case (1 s T)
  show ?case
  proof (rule guards_fetches, goal_cases)
    case (1 p U)
    have s: "OShare s \<in> U" using \<open>OShare s \<in> T\<close> 1 by blast
    show ?case
    proof (rule guards_if, goal_cases)
      case 1
      then show ?case using s by (intro guards_setSharePhase[of s]) auto
    next
      case 2
      let ?s = "share_set_subjects (resolveEffectiveSubjects s) s"
      have data: "guards U (case share_Protocol (share_Spec ?s) of ShareProtocolSMB \<Rightarrow> reconcileSMBShare cl own ?s p
          | ShareProtocolNFS \<Rightarrow> reconcileNFSShare cl own ?s p | ShareProtocolUnset \<Rightarrow> State_Monad.return (Inr ?s))
          (\<lambda>r _. \<forall>s'. r = Inr s' \<longrightarrow> share_Meta s' = share_Meta s \<and> share_Spec s' = share_Spec s)"
        unfolding reconcileSMBShare_def reconcileNFSShare_def
        by (cases "share_Protocol (share_Spec ?s)")
          (auto intro!: guards_return guards_weaken[OF guards_publish] simp: share_set_names_def share_set_subjects_def)
      show ?case unfolding Let_def
      proof (rule guards_bind[OF data], rule guards_sum, goal_cases)
        case (1 r V e)
        then show ?case using s by (intro guards_setSharePhase[of s]) (auto simp: share_set_subjects_def)
      next
        case (2 r V s')
        then show ?case using s \<open>OPool p \<in> U\<close> \<open>key_of (OPool p) = _\<close> \<open>\<not> \<not> pool_Mounted (pool_Status p)\<close>
          by (intro guards_setSharePhase[of s]) (auto simp: share_set_published_def)
      qed
    qed
  next
    case (2 e U)
    then show ?case using \<open>OShare s \<in> T\<close> by (intro guards_setSharePhase[of s]) auto
  qed
qed (intro guards_return TrueI)

end

section \<open>The other controllers\<close>

lemma allowed_with_status: "put_status old ob = ob \<Longrightarrow> old \<in> S \<Longrightarrow> S \<subseteq> T \<Longrightarrow> (obj_ok old \<Longrightarrow> obj_ok ob) \<Longrightarrow> justified T ob \<Longrightarrow>
    allowed T (StatusUpdate ob)"
  by (rule allowed_StatusUpdate[where old = old]) auto

context observed_client begin

lemma guards_resolveSnapraidConfigName: "guards S (resolveSnapraidConfigName cl ps) (\<lambda>_ _. True)"
  unfolding resolveSnapraidConfigName_def
  by (intro guards_fetches guards_list guards_if guards_return TrueI)

lemma guards_ensureCronJob: "guards S (ensureCronJob cl ps cfg name schedule command) (\<lambda>_ _. True)"
  unfolding ensureCronJob_def Let_def
proof (rule guards_fetches, goal_cases)
  case (1 cj T)
  then show ?case
    by (intro guards_writes(2) allowed_Update[where old = "OCronJob cj"]) (simp_all add: cron_with_def key_of_def rv_of_def)
qed (auto intro!: guards_parts guards_writes(1) allowed_Create)

lemma guards_ensureCronJobs: "guards S (ensureCronJobs cl ps cfg ops) (\<lambda>_ _. True)"
proof (induction ops arbitrary: S)
  case (Cons op ops)
  show ?case
    by (cases op) (auto intro!: guards_then[OF guards_ensureCronJob] guards_option guards_return Cons.IH)
qed (simp add: guards_return)

lemma guards_Parity_Reconcile: "guards S (Parity_Reconcile cl n) (\<lambda>_ _. True)"
  unfolding Parity_Reconcile_def
  by (intro guards_fetches guards_then[OF guards_resolveSnapraidConfigName] guards_sum guards_ensureCronJobs guards_return TrueI)

lemma guards_setJobPhase:
  assumes "ORebalanceJob j \<in> S"
  shows "guards S (setJobPhase cl j ph) (\<lambda>_ _. True)"
proof -
  have clock: "guards S (if ph = RebalanceJobPhaseRunning \<and> job_StartTime (job_Status j) = None \<or> terminal ph
      then env_now cl else State_Monad.return 0) (\<lambda>_ _. True)"
    by (intro guards_if guards_clock guards_return TrueI)
  show ?thesis unfolding setJobPhase_def
  proof (intro guards_then[OF clock] guards_then[OF guards_writes(3)] guards_return TrueI, goal_cases)
    case (1 now T)
    then show ?case
      by (intro allowed_with_status[OF _ assms]) (auto simp: job_with_phase_def job_ok_def)
  qed
qed

lemma guards_memberDisks: "guards S (memberDisks cl names) (\<lambda>_ _. True)"
proof (induction names arbitrary: S)
  case (Cons name names)
  show ?case unfolding memberDisks.simps
    by (intro guards_then[OF guards_any[OF guards_get]] guards_then[OF Cons.IH] guards_return TrueI)
qed (simp add: guards_return)

lemma guards_Rebalance_Reconcile: "guards S (Rebalance_Reconcile cl n) (\<lambda>_ _. True)"
  unfolding Rebalance_Reconcile_def
  by (intro guards_fetches guards_if guards_then[OF guards_memberDisks] guards_setJobPhase guards_return TrueI) auto

lemma guards_resolveOpenFailures: "guards S (resolveOpenFailures cl d) (\<lambda>_ _. True)"
  unfolding resolveOpenFailures_def
proof (intro guards_fetches guards_if guards_then[OF guards_clock(1)] guards_then[OF guards_writes(3)] guards_return TrueI, goal_cases)
  case (1 f T now U)
  then show ?case
    by (intro allowed_with_status[where old = "ODiskFailure f" and S = T]) (auto simp: resolve_failure_def failure_ok_def)
qed

lemma guards_Failure_Reconcile: "guards S (Failure_Reconcile cl n) (\<lambda>_ _. True)"
  unfolding Failure_Reconcile_def
proof (intro guards_fetches guards_if guards_resolveOpenFailures guards_then[OF guards_writes(1)] guards_then[OF guards_writes(2)]
    guards_return TrueI, goal_cases)
  case (1 d T f U)
  then show ?case
    by (intro allowed_Update[where old = "ODiskFailure f"]) (auto simp: escalate_def key_of_def rv_of_def split: prod.split)
next
  case (2 d T e U)
  then show ?case by (simp add: newFailure_def allowed.simps split: prod.split)
qed

lemma guards_PlacementPolicy_Reconcile: "guards S (PlacementPolicy_Reconcile cl n) (\<lambda>_ _. True)"
  unfolding PlacementPolicy_Reconcile_def Let_def
proof (intro guards_fetches guards_option guards_then[OF guards_writes(1)] guards_then[OF guards_writes(2)]
    guards_return TrueI allowed_Create, goal_cases)
  case (1 q T cm U data)
  then show ?case
    by (intro allowed_Update[where old = "OConfigMap cm"]) (simp_all add: key_of_def rv_of_def)
qed simp

lemma guards_CachePool_Reconcile: "guards S (CachePool_Reconcile cl n) (\<lambda>_ _. True)"
  unfolding CachePool_Reconcile_def
proof (intro guards_fetches guards_then[OF guards_writes(3)] guards_return TrueI, goal_cases)
  case (1 c T)
  then show ?case
    by (intro allowed_with_status[where old = "OCachePool c" and S = T]) (auto simp: cache_not_implemented_def cache_ok_def)
qed

theorem guards_ctrl_Reconcile: "guards S (ctrl_Reconcile cl (KubernetesAgentClient cl) own c n) (\<lambda>_ _. True)"
  by (cases c) (simp_all add: guards_Disk_Reconcile guards_Array_Reconcile guards_Pool_Reconcile guards_Share_Reconcile
      guards_Parity_Reconcile guards_Rebalance_Reconcile guards_CachePool_Reconcile guards_PlacementPolicy_Reconcile
      guards_Failure_Reconcile)

end

end
