(* ===== verification/Interleaving.thy ===== *)
theory Interleaving
  imports Call_Guards
begin

text \<open>
  The operator with any number of reconcile calls at the same time, interleaved request by request with each other and
  with the clients of the API. A read may return any version that was ever stored, as a cache does; any
  request may fail. Shown for every reachable state: the store is consistent, no write overwrites a version that
  the call has not read, every claim of a status rests on versions that were stored, and nothing declared changes.
\<close>

section \<open>The machine\<close>

record call =
  call_ctrl :: ctrl
  call_key :: nskey
  call_answers :: "answer list"

text \<open>The server, every version it ever stored, and the calls with the answers they got so far.\<close>

record sys =
  sys_mem :: mem
  sys_versions :: "kobject set"
  sys_calls :: "call list"

definition stored_in :: "mem \<Rightarrow> kobject set" where
  "stored_in m = {ob. mem_view m (kind_of ob) (key_of ob) = Some ob}"

definition asks :: "string \<Rightarrow> owner_fn \<Rightarrow> call \<Rightarrow> request + ctrl_Result \<times> error option" where
  "asks ns own c = next_request
     (ctrl_Reconcile (replay_env ns) (KubernetesAgentClient (replay_env ns)) own (call_ctrl c) (call_key c)) (call_answers c)"

definition answered :: "answer \<Rightarrow> call \<Rightarrow> call" where
  "answered a c = c\<lparr>call_answers := call_answers c @ [a]\<rparr>"

type_synonym admission = "kobject \<Rightarrow> kobject \<Rightarrow> error option"

inductive served :: "admission \<Rightarrow> kobject set \<Rightarrow> request \<Rightarrow> mem \<Rightarrow> answer \<Rightarrow> mem \<Rightarrow> bool" for admit vs where
  read: "ob \<in> vs \<Longrightarrow> served admit vs (Get (kind_of ob) (key_of ob)) m (Got (Inr ob)) m"
| unread: "served admit vs (Get k n) m (Got (Inl e)) m"
| create: "mem_create ob m = (None, m') \<Longrightarrow> served admit vs (Create ob) m (Outcome None) m'"
| update: "mem_update admit ob m = (None, m') \<Longrightarrow> served admit vs (Update ob) m (Outcome None) m'"
| status_update: "mem_status_update ob m = (None, m') \<Longrightarrow> served admit vs (StatusUpdate ob) m (Outcome None) m'"
| delete: "mem_delete ob m = (None, m') \<Longrightarrow> served admit vs (Delete ob) m (Outcome None) m'"
| refused: "q \<notin> {Now} \<Longrightarrow> (\<And>k n. q \<noteq> Get k n) \<Longrightarrow> served admit vs q m (Outcome (Some e)) m"
| now: "served admit vs Now m (At (mem_now m)) m"
| wait: "served admit vs Wait m (Outcome None) (m\<lparr>mem_now := mem_now m + 2000000000\<rparr>)"

text \<open>A client creates, edits or removes an object, or time passes.\<close>

inductive client_acts :: "mem \<Rightarrow> mem \<Rightarrow> bool" for m where
  create: "mem_view m (kind_of ob) (key_of ob) = None \<Longrightarrow> unreported ob \<Longrightarrow> \<not> deletion_done ob \<Longrightarrow>
    client_acts m (mem_put m ob (Some (with_rv (show_nat (mem_next m)) ob)))"
| edit: "mem_view m (kind_of ob) (key_of ob) = Some old \<Longrightarrow> \<not> deletion_done ob \<Longrightarrow>
    client_acts m (mem_put m ob (Some (with_rv (show_nat (mem_next m)) (put_main old ob))))"
| remove: "client_acts m (mem_put m ob None)"
| tick: "client_acts m (m\<lparr>mem_now := mem_now m + d\<rparr>)"

inductive sys_step :: "string \<Rightarrow> owner_fn \<Rightarrow> admission \<Rightarrow> sys \<Rightarrow> sys \<Rightarrow> bool" for ns own admit s where
  start: "c \<in> set (controllers operator_setup) \<Longrightarrow>
    sys_step ns own admit s (s\<lparr>sys_calls := sys_calls s @ [\<lparr>call_ctrl = c, call_key = n, call_answers = []\<rparr>]\<rparr>)"
| request: "i < length (sys_calls s) \<Longrightarrow> asks ns own (sys_calls s ! i) = Inl q \<Longrightarrow>
    served admit (sys_versions s) q (sys_mem s) a m \<Longrightarrow>
    sys_step ns own admit s \<lparr>sys_mem = m, sys_versions = sys_versions s \<union> stored_in m,
      sys_calls = (sys_calls s)[i := answered a (sys_calls s ! i)]\<rparr>"
| client: "client_acts (sys_mem s) m \<Longrightarrow>
    sys_step ns own admit s (s\<lparr>sys_mem := m, sys_versions := sys_versions s \<union> stored_in m\<rparr>)"

section \<open>The invariant\<close>

text \<open>Resource versions come from the counter of the server, so that none is used twice.\<close>

definition numbered :: "mem \<Rightarrow> kobject \<Rightarrow> bool" where
  "numbered m ob \<longleftrightarrow> (\<exists>i < mem_next m. rv_of ob = show_nat i)"

definition initial :: "sys \<Rightarrow> bool" where
  "initial s \<longleftrightarrow> consistent (mem_view (sys_mem s)) \<and> sys_versions s = stored_in (sys_mem s) \<and> sys_calls s = [] \<and>
     (\<forall>ob \<in> stored_in (sys_mem s). numbered (sys_mem s) ob)"

definition same_version :: "kobject \<Rightarrow> kobject \<Rightarrow> bool" where
  "same_version x y \<longleftrightarrow> kind_of x = kind_of y \<and> key_of x = key_of y \<and> rv_of x = rv_of y"

definition sys_ok :: "sys \<Rightarrow> bool" where
  "sys_ok s \<longleftrightarrow> stored_in (sys_mem s) \<subseteq> sys_versions s \<and>
     (\<forall>ob \<in> sys_versions s. obj_ok ob \<and> numbered (sys_mem s) ob) \<and>
     (\<forall>x \<in> sys_versions s. \<forall>y \<in> stored_in (sys_mem s). same_version x y \<longrightarrow> y = x) \<and>
     (\<forall>c \<in> set (sys_calls s). versions_in (call_answers c) \<subseteq> sys_versions s)"

lemma stored_in_iff: "ob \<in> stored_in m \<longleftrightarrow> (\<exists>k n. mem_view m k n = Some ob)"
proof
  assume "ob \<in> stored_in m"
  then show "\<exists>k n. mem_view m k n = Some ob" unfolding stored_in_def by blast
next
  assume "\<exists>k n. mem_view m k n = Some ob"
  then obtain k n where v: "mem_view m k n = Some ob" by blast
  then show "ob \<in> stored_in m" using mem_view_Some[OF v] by (simp add: stored_in_def)
qed

lemma consistent_stored: "consistent (mem_view m) \<longleftrightarrow> (\<forall>ob \<in> stored_in m. obj_ok ob)"
proof
  assume c: "consistent (mem_view m)"
  show "\<forall>ob \<in> stored_in m. obj_ok ob"
  proof
    fix ob assume "ob \<in> stored_in m"
    then have "mem_view m (kind_of ob) (key_of ob) = Some ob" by (simp add: stored_in_def)
    then show "obj_ok ob" by (rule consistentD[OF c]) simp
  qed
next
  assume ok: "\<forall>ob \<in> stored_in m. obj_ok ob"
  show "consistent (mem_view m)"
  proof (rule consistentI)
    fix k n ob assume "mem_view m k n = Some ob"
    then have "ob \<in> stored_in m" unfolding stored_in_iff by blast
    then show "obj_ok ob" using ok by blast
  qed
qed

lemma initial_ok:
  assumes "initial s" shows "sys_ok s"
proof -
  have c: "consistent (mem_view (sys_mem s))" and vs: "sys_versions s = stored_in (sys_mem s)" and "sys_calls s = []"
    and n: "\<And>ob. ob \<in> stored_in (sys_mem s) \<Longrightarrow> numbered (sys_mem s) ob"
    using assms by (auto simp: initial_def)
  have same: "y = x" if "x \<in> stored_in (sys_mem s)" "y \<in> stored_in (sys_mem s)" "same_version x y" for x y
    using that unfolding stored_in_def same_version_def mem_Collect_eq by (metis option.inject)
  show ?thesis unfolding sys_ok_def vs \<open>sys_calls s = []\<close>
    by (intro conjI ballI impI subset_refl) (use c[unfolded consistent_stored] n same in \<open>simp_all only: empty_iff list.set(1)\<close>)
qed

text \<open>A write of the server: one object is removed, or stored under a new number.\<close>

definition puts :: "mem \<Rightarrow> kobject \<Rightarrow> kobject option \<Rightarrow> bool" where
  "puts m ob x \<longleftrightarrow> (\<forall>ob'. x = Some ob' \<longrightarrow> kind_of ob' = kind_of ob \<and> key_of ob' = key_of ob \<and> \<not> deletion_done ob' \<and>
     rv_of ob' = show_nat (mem_next m) \<and> obj_ok ob')"

lemma view_puts: "puts m ob x \<Longrightarrow> mem_view (mem_put m ob x) = store_set (mem_view m) (kind_of ob) (key_of ob) x"
  by (cases x) (simp_all add: puts_def mem_view_puts)

lemma sys_ok_puts:
  assumes "sys_ok s" and "puts (sys_mem s) ob x" and "sys_mem s' = mem_put (sys_mem s) ob x"
    and "sys_versions s' = sys_versions s \<union> stored_in (sys_mem s')"
    and "\<And>c. c \<in> set (sys_calls s') \<Longrightarrow> versions_in (call_answers c) \<subseteq> sys_versions s"
  shows "sys_ok s'"
proof -
  have stored: "y \<in> stored_in (sys_mem s) \<or> x = Some y" if "y \<in> stored_in (sys_mem s')" for y
    using that by (auto simp: stored_in_def assms(3) view_puts[OF assms(2)] split: if_splits)
  have next_: "mem_next (sys_mem s') = Suc (mem_next (sys_mem s))" by (simp add: assms(3) mem_put_def)
  have old: "obj_ok y \<and> numbered (sys_mem s') y" if "y \<in> sys_versions s" for y
    using assms(1) that by (auto simp: sys_ok_def numbered_def next_ less_Suc_eq)
  have new: "obj_ok y \<and> numbered (sys_mem s') y \<and> rv_of y = show_nat (mem_next (sys_mem s))" if "x = Some y" for y
    using assms(2) that by (auto simp: puts_def numbered_def next_)
  have fresh: "rv_of z \<noteq> show_nat (mem_next (sys_mem s))" if "z \<in> sys_versions s" for z
    using assms(1) that by (auto simp: sys_ok_def numbered_def)
  have cover: "z \<in> sys_versions s \<or> x = Some z" if "z \<in> sys_versions s'" for z
    using that stored assms(4) assms(1) by (auto simp: sys_ok_def)
  show ?thesis unfolding sys_ok_def
  proof (intro conjI ballI impI)
    fix z y assume "z \<in> sys_versions s'" and y: "y \<in> stored_in (sys_mem s')" and same: "same_version z y"
    then show "y = z"
      using cover stored[OF y] same new fresh assms(1) unfolding sys_ok_def same_version_def by (metis option.inject subsetD)
  next
    fix c assume "c \<in> set (sys_calls s')"
    then show "versions_in (call_answers c) \<subseteq> sys_versions s'" using assms(4,5) by blast
  qed (use cover old new assms(4) in blast)+
qed

section \<open>Every step keeps it\<close>

lemma obj_ok_with [simp]: "obj_ok (with_rv rv ob) = obj_ok ob" "obj_ok (with_uid u ob) = obj_ok ob"
  by (cases ob; simp add: with_rv_def with_uid_def disk_ok_def array_ok_def pool_ok_def share_ok_def job_ok_def
      failure_ok_def cache_ok_def)+

lemma obj_ok_marked [simp]: "obj_ok (map_meta f ob) = obj_ok ob"
  by (cases ob; simp add: disk_ok_def array_ok_def pool_ok_def share_ok_def job_ok_def failure_ok_def cache_ok_def)

lemma put_status_of: "put_status cur ob = ob \<Longrightarrow> kind_of ob = kind_of cur \<and> meta_of ob = meta_of cur"
  by (metis kind_put_status meta_put_status)

text \<open>The version a call has read and the stored one are the same, if the server takes the update.\<close>

lemma sys_ok_current:
  assumes "sys_ok s" and "old \<in> sys_versions s" "kind_of old = kind_of ob" "key_of old = key_of ob" "rv_of old = rv_of ob"
    and "mem_view (sys_mem s) (kind_of ob) (key_of ob) = Some cur" "\<not> stale cur ob"
  shows "cur = old"
proof -
  have "cur \<in> stored_in (sys_mem s)" using assms(6) unfolding stored_in_iff by blast
  have "rv_of ob \<noteq> ''''" using assms(1,2,5) by (auto simp: sys_ok_def numbered_def)
  then have "rv_of cur = rv_of ob" using assms(7) by (auto simp: stale_def)
  then have "same_version old cur" using mem_view_Some[OF assms(6)] assms(3-5) by (simp add: same_version_def)
  then show ?thesis using assms(1,2) \<open>cur \<in> stored_in (sys_mem s)\<close> unfolding sys_ok_def by blast
qed

lemma new_rv_numbered: "numbered m old \<Longrightarrow> new_rv m old = show_nat (mem_next m)"
  by (auto simp: numbered_def new_rv_def)

lemma current_ok:
  assumes "sys_ok s" and "mem_view (sys_mem s) k n = Some cur"
  shows "obj_ok cur" "numbered (sys_mem s) cur" "kind_of cur = k" "key_of cur = n" "\<not> deletion_done cur"
proof -
  have "cur \<in> stored_in (sys_mem s)" using assms(2) unfolding stored_in_iff by blast
  then show "obj_ok cur" "numbered (sys_mem s) cur" using assms(1) by (auto simp: sys_ok_def)
  show "kind_of cur = k" "key_of cur = n" "\<not> deletion_done cur" using mem_view_Some[OF assms(2)] by simp_all
qed

text \<open>What the server stores for an allowed request, and over which version.\<close>

lemma served_create:
  assumes "mem_create ob m = (None, m')" and "unreported ob"
  shows "\<exists>x. m' = mem_put m ob (Some x) \<and> puts m ob (Some x) \<and> mem_view m (kind_of ob) (key_of ob) = None \<and>
     x = with_uid (show_nat (mem_next m)) (with_rv (show_nat (mem_next m)) ob)"
  using assms by (auto simp: mem_create_def puts_def unreported_ok split: option.splits if_splits)

lemma served_update:
  assumes ok: "sys_ok s" and "mem_update admit ob (sys_mem s) = (None, m')" and "allowed (sys_versions s) (Update ob)"
  obtains old x where "old \<in> sys_versions s" "mem_view (sys_mem s) (kind_of ob) (key_of ob) = Some old"
    "same_declaration old ob" "m' = mem_put (sys_mem s) ob x" "puts (sys_mem s) ob x"
    "x = (if deletion_done ob then None else Some (with_rv (show_nat (mem_next (sys_mem s))) (put_main old ob)))"
    "kind_of old = kind_of ob" "rv_of old = rv_of ob"
proof -
  obtain old where old: "old \<in> sys_versions s" "kind_of old = kind_of ob" "key_of old = key_of ob" "rv_of old = rv_of ob"
    "same_declaration old ob" using assms(3) by (auto simp: allowed.simps)
  obtain cur where cur: "mem_view (sys_mem s) (kind_of ob) (key_of ob) = Some cur" "\<not> stale cur ob"
    and m': "m' = mem_put (sys_mem s) ob (if deletion_done ob then None else Some (with_rv (new_rv (sys_mem s) cur) (put_main cur ob)))"
    using assms(2) by (auto simp: mem_update_def split: option.splits if_splits)
  have "cur = old" using sys_ok_current[OF ok old(1-4) cur] .
  with cur m' current_ok[OF ok cur(1)] old show thesis
    by (intro that[of old]) (auto simp: puts_def new_rv_numbered put_main_ok)
qed

lemma served_status_update:
  assumes ok: "sys_ok s" and "mem_status_update ob (sys_mem s) = (None, m')" and "allowed (sys_versions s) (StatusUpdate ob)"
  obtains old where "old \<in> sys_versions s" "mem_view (sys_mem s) (kind_of ob) (key_of ob) = Some old" "put_status old ob = ob"
    "m' = mem_put (sys_mem s) ob (Some (with_rv (show_nat (mem_next (sys_mem s))) ob))"
    "puts (sys_mem s) ob (Some (with_rv (show_nat (mem_next (sys_mem s))) ob))"
proof -
  obtain old where old: "old \<in> sys_versions s" "put_status old ob = ob" "obj_ok old \<longrightarrow> obj_ok ob"
    using assms(3) by (auto simp: allowed.simps)
  have same: "kind_of old = kind_of ob" "key_of old = key_of ob" "rv_of old = rv_of ob"
    using put_status_of[OF old(2)] by (simp_all add: key_of_def rv_of_def)
  obtain cur where cur: "mem_view (sys_mem s) (kind_of ob) (key_of ob) = Some cur" "\<not> stale cur ob"
    and m': "m' = mem_put (sys_mem s) ob (Some (with_rv (show_nat (mem_next (sys_mem s))) (put_status cur ob)))"
    using assms(2) by (auto simp: mem_status_update_def split: option.splits if_splits)
  have "cur = old" using sys_ok_current[OF ok old(1) same cur] .
  moreover have "deletion_done ob = deletion_done old" using put_status_of[OF old(2)] by (simp add: deletion_done_def)
  ultimately show thesis using cur m' current_ok[OF ok cur(1)] old
    by (intro that[of old]) (simp_all add: puts_def)
qed

lemma served_delete:
  assumes "sys_ok s" and "mem_delete ob (sys_mem s) = (None, m')"
  obtains x where "m' = mem_put (sys_mem s) ob x" "puts (sys_mem s) ob x"
proof -
  obtain old where old: "mem_view (sys_mem s) (kind_of ob) (key_of ob) = Some old"
    and m': "m' = mem_put (sys_mem s) ob (if meta_Finalizers (meta_of old) = [] then None
      else Some (with_rv (show_nat (mem_next (sys_mem s))) (map_meta (meta_DeletionTimestamp_update (\<lambda>_. Some (mem_now (sys_mem s)))) old)))"
    using assms(2) by (auto simp: mem_delete_def split: option.splits)
  show thesis using current_ok[OF assms(1) old]
    by (intro that[OF m']) (auto simp: puts_def key_of_def deletion_done_def with_rv_def rv_of_def)
qed

lemma asks_allowed: "asks ns own c = Inl q \<Longrightarrow> allowed (versions_in (call_answers c)) q"
  unfolding asks_def by (rule next_request_allowed[OF replay.guards_ctrl_Reconcile])

lemma asks_allowed_sys:
  assumes "sys_ok s" "i < length (sys_calls s)" "asks ns own (sys_calls s ! i) = Inl q"
  shows "allowed (sys_versions s) q"
proof (rule allowed_mono[OF asks_allowed[OF assms(3)]])
  show "versions_in (call_answers (sys_calls s ! i)) \<subseteq> sys_versions s"
    using assms(1,2) unfolding sys_ok_def by auto
qed

text \<open>What the server does with an allowed request: nothing but reading, or one write.\<close>

lemma served_cases:
  assumes "sys_ok s" and "allowed (sys_versions s) q" and "served admit (sys_versions s) q (sys_mem s) a m"
  obtains "m = sys_mem s" "versions_in [a] \<subseteq> sys_versions s"
  | d where "m = sys_mem s\<lparr>mem_now := d\<rparr>" "versions_in [a] = {}"
  | ob x where "m = mem_put (sys_mem s) ob x" "puts (sys_mem s) ob x" "versions_in [a] = {}"
  using assms(3)
proof cases
  case (create ob)
  then show ?thesis using served_create[of ob "sys_mem s" m] assms(2) that(3)
    by (auto simp: allowed.simps versions_in_def)
next
  case (update ob)
  then show ?thesis using assms(2) served_update[OF assms(1), of admit ob m] that(3) by (auto simp: versions_in_def)
next
  case (status_update ob)
  then show ?thesis using assms(2) served_status_update[OF assms(1), of ob m] that(3) by (auto simp: versions_in_def)
next
  case (delete ob)
  then show ?thesis using served_delete[OF assms(1), of ob m] that(3) by (auto simp: versions_in_def)
qed (use that in \<open>auto simp: versions_in_def\<close>)

lemma sys_ok_reads:
  assumes "sys_ok s" and "mem_view m = mem_view (sys_mem s)" "mem_next m = mem_next (sys_mem s)" "sys_mem s' = m"
    and "sys_versions s' = sys_versions s \<union> stored_in m"
    and "\<And>c. c \<in> set (sys_calls s') \<Longrightarrow> versions_in (call_answers c) \<subseteq> sys_versions s"
  shows "sys_ok s'"
proof -
  have "stored_in m = stored_in (sys_mem s)" using assms(2) by (simp add: stored_in_def)
  moreover from this have "sys_versions s' = sys_versions s" using assms(1,5) by (auto simp: sys_ok_def)
  moreover have "numbered m = numbered (sys_mem s)" by (rule ext) (simp add: numbered_def assms(3))
  moreover have "\<forall>c \<in> set (sys_calls s'). versions_in (call_answers c) \<subseteq> sys_versions s" using assms(6) by blast
  ultimately show ?thesis using assms(1,4) unfolding sys_ok_def by (elim conjE) (intro conjI; simp only:)
qed

lemma call_versions_answered:
  assumes "sys_ok s" "versions_in [a] \<subseteq> sys_versions s" "c \<in> set ((sys_calls s)[i := answered a (sys_calls s ! i)])" "i < length (sys_calls s)"
  shows "versions_in (call_answers c) \<subseteq> sys_versions s"
proof -
  have old: "versions_in (call_answers c) \<subseteq> sys_versions s" if "c \<in> set (sys_calls s)" for c
    using assms(1) that by (auto simp: sys_ok_def)
  have "c \<in> set (sys_calls s) \<or> c = answered a (sys_calls s ! i)"
    using assms(3) set_update_subset_insert[of "sys_calls s" i] by blast
  then show ?thesis
  proof
    assume "c = answered a (sys_calls s ! i)"
    then have "versions_in (call_answers c) = versions_in (call_answers (sys_calls s ! i)) \<union> versions_in [a]"
      by (auto simp: answered_def versions_in_def)
    then show ?thesis using old[of "sys_calls s ! i"] assms(2,4) by simp
  qed (rule old)
qed

lemma sys_step_ok:
  assumes "sys_step ns own admit s s'" and "sys_ok s"
  shows "sys_ok s'"
  using assms(1)
proof cases
  case (start c n)
  then show ?thesis using assms(2) by (auto simp: sys_ok_def versions_in_def)
next
  case (request i q a m)
  have calls: "versions_in (call_answers c) \<subseteq> sys_versions s" if "versions_in [a] \<subseteq> sys_versions s" "c \<in> set (sys_calls s')" for c
    using call_versions_answered[OF assms(2) that(1), of c i] that(2) request(1,2) by simp
  from assms(2) asks_allowed_sys[OF assms(2) request(2,3)] request(4) show ?thesis
  proof (cases rule: served_cases)
    case 1
    then show ?thesis using calls by (intro sys_ok_reads[OF assms(2), of m]) (simp_all add: request(1))
  next
    case (2 d)
    then show ?thesis using calls by (intro sys_ok_reads[OF assms(2), of m]) (simp_all add: request(1) mem_view_def fun_eq_iff)
  next
    case (3 ob x)
    then show ?thesis using calls by (intro sys_ok_puts[OF assms(2), of ob x]) (simp_all add: request(1))
  qed
next
  case (client m)
  have calls: "versions_in (call_answers c) \<subseteq> sys_versions s" if "c \<in> set (sys_calls s')" for c
    using assms(2) that client(1) by (auto simp: sys_ok_def)
  from client(2) show ?thesis
  proof cases
    case (create ob)
    then show ?thesis using calls
      by (intro sys_ok_puts[OF assms(2), of ob]) (simp_all add: client(1) puts_def unreported_ok)
  next
    case (edit ob old)
    then show ?thesis using calls current_ok[OF assms(2) edit(2)]
      by (intro sys_ok_puts[OF assms(2), of ob]) (simp_all add: client(1) puts_def put_main_ok)
  next
    case (remove ob)
    then show ?thesis using calls
      by (intro sys_ok_puts[OF assms(2), of ob None]) (simp_all add: client(1) puts_def)
  next
    case (tick d)
    then show ?thesis using calls
      by (intro sys_ok_reads[OF assms(2), of m]) (simp_all add: client(1) mem_view_def fun_eq_iff)
  qed
qed

lemma reachable_ok: "(sys_step ns own admit)^** s s' \<Longrightarrow> sys_ok s \<Longrightarrow> sys_ok s'"
  by (induction rule: rtranclp_induct) (auto intro: sys_step_ok)

section \<open>What was read was stored\<close>

lemma versions_were_stored:
  assumes "(sys_step ns own admit)^** s s'" and "initial s" and "ob \<in> sys_versions s'"
  shows "\<exists>t. (sys_step ns own admit)^** s t \<and> (sys_step ns own admit)^** t s' \<and> ob \<in> stored_in (sys_mem t)"
  using assms(1,3)
proof (induction rule: rtranclp_induct)
  case base
  then show ?case using assms(2) by (auto simp: initial_def)
next
  case (step t u)
  have "ob \<in> sys_versions t \<or> ob \<in> stored_in (sys_mem u)"
    using step(2,4) by cases auto
  then show ?case using step(1-3) by (meson rtranclp.rtrancl_into_rtrancl rtranclp.rtrancl_refl)
qed

section \<open>Declarations\<close>

text \<open>A write that keeps what is declared of one object keeps it for the store.\<close>

lemma specs_kept_same: "specs_kept v v"
  by (simp add: specs_kept_def same_specs_def disks_kept_refl)

definition declares_same :: "kobject option \<Rightarrow> kobject option \<Rightarrow> bool" where
  "declares_same x y \<longleftrightarrow> (case x of
       Some (ODisk d) \<Rightarrow> (case y of None \<Rightarrow> meta_DeletionTimestamp (disk_Meta d) \<noteq> None
         | Some (ODisk d') \<Rightarrow> disk_Spec d' = disk_Spec d \<and> meta_DeletionTimestamp (disk_Meta d') = meta_DeletionTimestamp (disk_Meta d)
         | _ \<Rightarrow> False)
     | Some (OArray a) \<Rightarrow> (\<exists>b. y = Some (OArray b) \<and> array_Spec b = array_Spec a)
     | Some (OPool a) \<Rightarrow> (\<exists>b. y = Some (OPool b) \<and> pool_Spec b = pool_Spec a)
     | Some (OShare a) \<Rightarrow> (\<exists>b. y = Some (OShare b) \<and> share_Spec b = share_Spec a)
     | Some (OParitySchedule a) \<Rightarrow> (\<exists>b. y = Some (OParitySchedule b) \<and> parity_Spec b = parity_Spec a)
     | Some (OPlacementPolicy a) \<Rightarrow> (\<exists>b. y = Some (OPlacementPolicy b) \<and> policy_Spec b = policy_Spec a)
     | Some (ORebalanceJob a) \<Rightarrow> (\<exists>b. y = Some (ORebalanceJob b) \<and> job_Spec b = job_Spec a)
     | Some (OCachePool a) \<Rightarrow> (\<exists>b. y = Some (OCachePool b) \<and> cache_Spec b = cache_Spec a)
     | _ \<Rightarrow> (\<forall>ob. y = Some ob \<longrightarrow> kind_of ob \<in> {KDiskFailure, KConfigMap, KPod, KService, KCronJob}))"

lemma specs_kept_set:
  assumes "declares_same (v k n) x"
  shows "specs_kept v (store_set v k n x)"
proof -
  have "disks_kept v (store_set v k n x)" unfolding disks_kept_def
    using assms by (auto simp: disk_at_def declares_same_def split: option.split kobject.splits)
  moreover have "same_specs array_at array_Spec v (store_set v k n x)" "same_specs pool_at pool_Spec v (store_set v k n x)"
    "same_specs share_at share_Spec v (store_set v k n x)" "same_specs parity_at parity_Spec v (store_set v k n x)"
    "same_specs policy_at policy_Spec v (store_set v k n x)" "same_specs job_at job_Spec v (store_set v k n x)"
    "same_specs cache_at cache_Spec v (store_set v k n x)"
    using assms by (auto simp: same_specs_def array_at_def pool_at_def share_at_def parity_at_def policy_at_def job_at_def
        cache_at_def declares_same_def split: option.split kobject.splits)
  ultimately show ?thesis by (simp add: specs_kept_def)
qed

lemma declares_same_update:
  "kind_of old = kind_of ob \<Longrightarrow> same_declaration old ob \<Longrightarrow>
   declares_same (Some old) (if deletion_done ob then None else Some (with_rv rv (put_main old ob)))"
  by (cases old; cases ob) (auto simp: declares_same_def with_rv_def deletion_done_def)

lemma declares_same_status:
  assumes "put_status old ob = ob" shows "declares_same (Some old) (Some (with_rv rv ob))"
proof -
  have "kind_of ob = kind_of old" using put_status_of[OF assms] by simp
  then have "declares_same (Some old) (Some (with_rv rv (put_status old ob)))"
    by (cases old; cases ob; simp add: declares_same_def with_rv_def put_status_def)
  then show ?thesis unfolding assms .
qed

lemma served_keeps_specs:
  assumes ok: "sys_ok s" and "allowed (sys_versions s) q" and "served admit (sys_versions s) q (sys_mem s) a m"
  shows "specs_kept (mem_view (sys_mem s)) (mem_view m)"
  using assms(3)
proof cases
  case (create ob)
  then obtain x where "m = mem_put (sys_mem s) ob (Some x)" "puts (sys_mem s) ob (Some x)"
    "mem_view (sys_mem s) (kind_of ob) (key_of ob) = None" "kind_of x = kind_of ob"
    using served_create[of ob "sys_mem s" m] assms(2) by (auto simp: allowed.simps)
  then show ?thesis using assms(2) create(1)
    by (auto simp: view_puts declares_same_def allowed.simps intro!: specs_kept_set)
next
  case (update ob)
  then obtain old x where "mem_view (sys_mem s) (kind_of ob) (key_of ob) = Some old" "same_declaration old ob"
    "m = mem_put (sys_mem s) ob x" "puts (sys_mem s) ob x" "kind_of old = kind_of ob"
    "x = (if deletion_done ob then None else Some (with_rv (show_nat (mem_next (sys_mem s))) (put_main old ob)))"
    using served_update[OF ok update(3) assms(2)[unfolded update(1)]] by metis
  then show ?thesis unfolding view_puts[OF \<open>puts (sys_mem s) ob x\<close>] \<open>m = _\<close>
    by (intro specs_kept_set) (simp only: declares_same_update)
next
  case (status_update ob)
  then obtain old where "mem_view (sys_mem s) (kind_of ob) (key_of ob) = Some old" "put_status old ob = ob"
    "m = mem_put (sys_mem s) ob (Some (with_rv (show_nat (mem_next (sys_mem s))) ob))"
    and p: "puts (sys_mem s) ob (Some (with_rv (show_nat (mem_next (sys_mem s))) ob))"
    using served_status_update[OF ok status_update(3) assms(2)[unfolded status_update(1)]] by metis
  then show ?thesis unfolding \<open>m = _\<close> view_puts[OF p] by (intro specs_kept_set) (simp only: declares_same_status)
next
  case (delete ob)
  then obtain x where x: "m = mem_put (sys_mem s) ob x" "puts (sys_mem s) ob x" using served_delete[OF ok] by blast
  have pod: "kind_of ob = KPod" using assms(2) delete(1) by (simp add: allowed.simps)
  have "declares_same (mem_view (sys_mem s) (kind_of ob) (key_of ob)) x"
  proof (cases "mem_view (sys_mem s) (kind_of ob) (key_of ob)")
    case None
    then show ?thesis using x(2) pod by (auto simp: declares_same_def puts_def)
  next
    case (Some cur)
    then have "kind_of cur = KPod" using mem_view_Some[OF Some] pod by simp
    then show ?thesis using Some x(2) pod by (cases cur) (auto simp: declares_same_def puts_def)
  qed
  then show ?thesis unfolding x(1) view_puts[OF x(2)] by (rule specs_kept_set)
next
  case wait
  then have "mem_view m = mem_view (sys_mem s)" by (simp add: mem_view_def fun_eq_iff)
  then show ?thesis by (simp add: specs_kept_same)
qed (simp_all add: specs_kept_same)

section \<open>Properties\<close>

text \<open>C1. With any number of reconcile calls of all registered controllers at the same time, interleaved request by
  request with each other and with clients, reading any version that was ever stored and with any request failing:
  every object of the store stays consistent.\<close>

theorem interleaved_consistent:
  assumes "initial s" and "(sys_step ns own admit)^** s s'"
  shows "consistent (mem_view (sys_mem s'))"
  using reachable_ok[OF assms(2) initial_ok[OF assms(1)]] unfolding consistent_stored sys_ok_def by blast

text \<open>C5. No update is lost: when an update of an object or of its status succeeds, then the stored object is the very version
  that this call has read, and after a status update the object is exactly what the call wrote.\<close>

theorem no_lost_update:
  assumes "initial s" and "(sys_step ns own admit)^** s t" and "i < length (sys_calls t)"
    and "asks ns own (sys_calls t ! i) = Inl q" and "q = Update ob \<or> q = StatusUpdate ob"
    and "served admit (sys_versions t) q (sys_mem t) (Outcome None) m"
  shows "\<exists>old \<in> versions_in (call_answers (sys_calls t ! i)). mem_view (sys_mem t) (kind_of ob) (key_of ob) = Some old \<and>
     (q = StatusUpdate ob \<longrightarrow> put_status old ob = ob \<and>
        (\<exists>rv. mem_view m = store_set (mem_view (sys_mem t)) (kind_of ob) (key_of ob) (Some (with_rv rv ob))))"
proof -
  let ?vs = "versions_in (call_answers (sys_calls t ! i))"
  have ok: "sys_ok t" by (rule reachable_ok[OF assms(2) initial_ok[OF assms(1)]])
  have vs: "?vs \<subseteq> sys_versions t" using ok assms(3) unfolding sys_ok_def by auto
  note allowed = asks_allowed[OF assms(4)]
  from assms(5) show ?thesis
  proof
    assume q: "q = Update ob"
    obtain old where old: "old \<in> ?vs" "kind_of old = kind_of ob" "key_of old = key_of ob" "rv_of old = rv_of ob"
      using allowed by (auto simp: q allowed.simps)
    obtain cur where "mem_view (sys_mem t) (kind_of ob) (key_of ob) = Some cur" "\<not> stale cur ob"
      using assms(6) unfolding q by cases (auto simp: mem_update_def split: option.splits if_splits)
    moreover from this have "cur = old" using sys_ok_current[OF ok _ old(2-4)] old(1) vs by blast
    ultimately show ?thesis using old(1) q by auto
  next
    assume q: "q = StatusUpdate ob"
    obtain old where old: "old \<in> ?vs" "put_status old ob = ob" using allowed by (auto simp: q allowed.simps)
    have same: "kind_of old = kind_of ob" "key_of old = key_of ob" "rv_of old = rv_of ob"
      using put_status_of[OF old(2)] by (simp_all add: key_of_def rv_of_def)
    have status: "mem_status_update ob (sys_mem t) = (None, m)" using assms(6) unfolding q by cases
    then obtain cur where cur: "mem_view (sys_mem t) (kind_of ob) (key_of ob) = Some cur" "\<not> stale cur ob"
      by (auto simp: mem_status_update_def split: option.splits if_splits)
    have "cur = old" using sys_ok_current[OF ok _ same cur] old(1) vs by blast
    moreover have "\<exists>rv. mem_view m = store_set (mem_view (sys_mem t)) (kind_of ob) (key_of ob) (Some (with_rv rv (put_status cur ob)))"
      using status cur(1) by (elim mem_status_update_ok) auto
    ultimately show ?thesis using old cur(1) by auto
  qed
qed

text \<open>C4. Every claim rests on objects that were stored: a call that writes the status of an Array as Ready has read each of
  its disks, none degraded; of a Pool, its Array Ready, each member Ready and mounted and a Success of the agent; of a
  Share as published, its Pool mounted; of a Disk as Ready, a Success of the agent or its report. And each version
  that it read was stored in an earlier state.\<close>

theorem claims_are_justified:
  assumes "initial s" and "(sys_step ns own admit)^** s t" and "i < length (sys_calls t)"
    and "asks ns own (sys_calls t ! i) = Inl (StatusUpdate ob)"
  shows "justified {v. Got (Inr v) \<in> set (call_answers (sys_calls t ! i)) \<and>
     (\<exists>u. (sys_step ns own admit)^** s u \<and> (sys_step ns own admit)^** u t \<and> v \<in> stored_in (sys_mem u))} ob"
proof -
  let ?vs = "versions_in (call_answers (sys_calls t ! i))"
  have "?vs \<subseteq> sys_versions t"
    using reachable_ok[OF assms(2) initial_ok[OF assms(1)]] assms(3) unfolding sys_ok_def by auto
  then have "?vs \<subseteq> {v. Got (Inr v) \<in> set (call_answers (sys_calls t ! i)) \<and>
     (\<exists>u. (sys_step ns own admit)^** s u \<and> (sys_step ns own admit)^** u t \<and> v \<in> stored_in (sys_mem u))}"
    using versions_were_stored[OF assms(2,1)] by (auto simp: versions_in_def)
  moreover have "justified ?vs ob" using asks_allowed[OF assms(4)] by (simp add: allowed.simps)
  ultimately show ?thesis by (rule justified_mono[rotated])
qed


section \<open>Witnesses\<close>

text \<open>A share over a mounted pool, and one call for it that has read both.\<close>

definition busy_share :: Share where
  "busy_share = demo_share\<lparr>share_Meta := (share_Meta demo_share)\<lparr>meta_ResourceVersion := ''0''\<rparr>,
     share_Spec := (share_Spec demo_share)\<lparr>share_Protocol := ShareProtocolUnset\<rparr>\<rparr>"

definition busy_pool :: Pool where
  "busy_pool = demo_pool\<lparr>pool_Meta := (pool_Meta demo_pool)\<lparr>meta_ResourceVersion := ''1''\<rparr>\<rparr>"

definition busy_mem :: mem where
  "busy_mem = \<lparr>mem_objs = (\<lambda>k n. if k = KShare \<and> n = (''nas'', ''media'') then Some (OShare busy_share)
     else if k = KPool \<and> n = (''nas'', ''tank'') then Some (OPool busy_pool) else None), mem_now = 5, mem_next = 2\<rparr>"

definition busy_call :: "answer list \<Rightarrow> call" where
  "busy_call as = \<lparr>call_ctrl = ShareReconciler, call_key = (''nas'', ''media''), call_answers = as\<rparr>"

definition busy_sys :: "call list \<Rightarrow> sys" where
  "busy_sys cs = \<lparr>sys_mem = busy_mem, sys_versions = stored_in busy_mem, sys_calls = cs\<rparr>"

definition published_share :: Share where
  "published_share = share_with_phase ''Ready'' ''Published'' ''Share published via '' 5
     (share_set_published (share_set_subjects [] busy_share))"

lemma busy_asks:
  "asks ns own (busy_call []) = Inl (Get KShare (''nas'', ''media''))"
  "asks ns own (busy_call [Got (Inr (OShare busy_share))]) = Inl (Get KPool (''nas'', ''tank''))"
  "asks ns own (busy_call [Got (Inr (OShare busy_share)), Got (Inr (OPool busy_pool))]) = Inl Now"
  "asks ns own (busy_call [Got (Inr (OShare busy_share)), Got (Inr (OPool busy_pool)), At 5]) = Inl (StatusUpdate (OShare published_share))"
  by (simp_all add: asks_def busy_call_def next_request_def replay_from_def Share_Reconcile_def ask_for_def ask_def
      State_Monad.bind_def State_Monad.return_def as_defs got_def busy_share_def demo_share_def key_of_def ObjectMeta_zero_def
      setSharePhase_def IsNotFound_def no_answer_def busy_pool_def demo_pool_def published_share_def Let_def
      share_set_subjects_def share_set_published_def resolveEffectiveSubjects_def at_time_def)

lemma busy_views:
  "mem_view busy_mem KShare (''nas'', ''media'') = Some (OShare busy_share)"
  "mem_view busy_mem KPool (''nas'', ''tank'') = Some (OPool busy_pool)"
  by (simp_all add: mem_view_def busy_mem_def busy_share_def busy_pool_def demo_share_def demo_pool_def key_of_def
      ObjectMeta_zero_def deletion_done_def)

lemma busy_stored: "stored_in busy_mem = {OShare busy_share, OPool busy_pool}"
proof
  show "stored_in busy_mem \<subseteq> {OShare busy_share, OPool busy_pool}"
    by (auto simp: stored_in_def mem_view_def busy_mem_def split: if_splits)
  show "{OShare busy_share, OPool busy_pool} \<subseteq> stored_in busy_mem"
    using stored_in_iff[THEN iffD2, OF exI, OF exI, OF busy_views(1)] stored_in_iff[THEN iffD2, OF exI, OF exI, OF busy_views(2)] by simp
qed

lemma busy_initial: "initial (busy_sys [])"
proof -
  have "obj_ok (OShare busy_share)" "obj_ok (OPool busy_pool)"
    by (simp_all add: share_ok_def pool_ok_def busy_share_def busy_pool_def demo_share_def demo_pool_def)
  moreover have "numbered busy_mem (OShare busy_share)" "numbered busy_mem (OPool busy_pool)"
    unfolding numbered_def busy_mem_def
    by (rule exI[of _ 0], simp add: rv_of_def busy_share_def, code_simp, rule exI[of _ 1], simp add: rv_of_def busy_pool_def, code_simp)
  ultimately show ?thesis by (simp add: initial_def busy_sys_def consistent_stored busy_stored)
qed

lemma busy_request:
  assumes "asks ns own (busy_call as) = Inl q" and "served admit (stored_in busy_mem) q busy_mem a busy_mem"
  shows "sys_step ns own admit (busy_sys [busy_call as]) (busy_sys [busy_call (as @ [a])])"
  using sys_step.request[of 0 "busy_sys [busy_call as]" ns own q admit a busy_mem] assms
  by (simp add: busy_sys_def answered_def busy_call_def)

lemma busy_run: "(sys_step ns own admit)^** (busy_sys [])
    (busy_sys [busy_call [Got (Inr (OShare busy_share)), Got (Inr (OPool busy_pool)), At 5]])"
proof -
  let ?s = "Got (Inr (OShare busy_share))" and ?p = "Got (Inr (OPool busy_pool))"
  have keys: "key_of (OShare busy_share) = (''nas'', ''media'')" "key_of (OPool busy_pool) = (''nas'', ''tank'')"
    by (simp_all add: key_of_def busy_share_def demo_share_def busy_pool_def demo_pool_def)
  have "sys_step ns own admit (busy_sys []) (busy_sys [busy_call []])"
    using sys_step.start[of ShareReconciler ns own admit "busy_sys []" "(''nas'', ''media'')"]
    by (simp add: operator_setup_controllers busy_sys_def busy_call_def)
  moreover have "sys_step ns own admit (busy_sys [busy_call []]) (busy_sys [busy_call [?s]])"
    using busy_request[OF busy_asks(1)] served.read[of "OShare busy_share" "stored_in busy_mem" admit busy_mem] keys
    by (simp add: busy_stored)
  moreover have "sys_step ns own admit (busy_sys [busy_call [?s]]) (busy_sys [busy_call [?s, ?p]])"
    using busy_request[OF busy_asks(2)] served.read[of "OPool busy_pool" "stored_in busy_mem" admit busy_mem] keys
    by (simp add: busy_stored)
  moreover have "sys_step ns own admit (busy_sys [busy_call [?s, ?p]]) (busy_sys [busy_call [?s, ?p, At 5]])"
    using busy_request[OF busy_asks(3)] served.now[of admit "stored_in busy_mem" busy_mem] by (simp add: busy_mem_def)
  ultimately show ?thesis by (meson r_into_rtranclp rtranclp_trans)
qed

text \<open>The status update of that call succeeds.\<close>

definition busy_after :: mem where
  "busy_after = mem_put busy_mem (OShare published_share) (Some (with_rv ''2'' (OShare published_share)))"

lemma busy_update: "mem_status_update (OShare published_share) busy_mem = (None, busy_after)"
proof -
  have k: "key_of (OShare published_share) = (''nas'', ''media'')" "rv_of (OShare published_share) = ''0''"
    by (simp_all add: key_of_def rv_of_def published_share_def share_with_phase_def share_set_published_def
        share_set_subjects_def busy_share_def demo_share_def Let_def)
  have "put_status (OShare busy_share) (OShare published_share) = OShare published_share"
    by (simp add: published_share_def share_with_phase_def share_set_published_def share_set_subjects_def Let_def)
  moreover have "rv_of (OShare busy_share) = ''0''" by (simp add: rv_of_def busy_share_def)
  moreover have "show_nat (mem_next busy_mem) = ''2''" unfolding busy_mem_def by code_simp
  ultimately show ?thesis by (simp add: mem_status_update_def k busy_views stale_def busy_after_def)
qed

lemma busy_served: "served admit (sys_versions (busy_sys cs)) (StatusUpdate (OShare published_share)) (sys_mem (busy_sys cs))
    (Outcome None) busy_after"
  unfolding busy_sys_def sys.simps by (rule served.status_update[OF busy_update])

abbreviation busy_last :: call where
  "busy_last \<equiv> busy_call [Got (Inr (OShare busy_share)), Got (Inr (OPool busy_pool)), At 5]"

lemma busy_last_versions: "versions_in (call_answers busy_last) = {OShare busy_share, OPool busy_pool}"
  by (auto simp: versions_in_def busy_call_def)

lemma busy_sys_last: "sys_calls (busy_sys [busy_last]) ! 0 = busy_last" "0 < length (sys_calls (busy_sys [busy_last]))"
  by (simp_all add: busy_sys_def)

theorem interleaved_consistent_witness: "consistent (mem_view (sys_mem (busy_sys [busy_last])))"
  by (rule interleaved_consistent[OF busy_initial busy_run[of "''''" demo_own "\<lambda>_ _. None"]])

theorem no_lost_update_witness:
  "\<exists>old \<in> {OShare busy_share, OPool busy_pool}.
     mem_view (sys_mem (busy_sys [busy_last])) (kind_of (OShare published_share)) (key_of (OShare published_share)) = Some old \<and>
     put_status old (OShare published_share) = OShare published_share"
  using no_lost_update[OF busy_initial busy_run[of "''''" demo_own "\<lambda>_ _. None"] busy_sys_last(2), unfolded busy_sys_last(1),
      OF busy_asks(4) disjI2[OF refl] busy_served]
  unfolding busy_last_versions by blast

theorem claims_are_justified_witness:
  "justified {v. Got (Inr v) \<in> set (call_answers busy_last) \<and>
     (\<exists>u. (sys_step '''' demo_own (\<lambda>_ _. None))^** (busy_sys []) u \<and>
        (sys_step '''' demo_own (\<lambda>_ _. None))^** u (busy_sys [busy_last]) \<and> v \<in> stored_in (sys_mem u))} (OShare published_share)"
  using claims_are_justified[OF busy_initial busy_run[of "''''" demo_own "\<lambda>_ _. None"] busy_sys_last(2),
      unfolded busy_sys_last(1), OF busy_asks(4)] .


end
