(* ===== verification/Call_Alone.thy ===== *)
theory Call_Alone
  imports Interleaving
begin

text \<open>
  A call that nobody disturbs: asked request by request, it asks for exactly what the sequential run of the same call
  does, and ends with the same result in the same state of the server. So every sequential run is one of the
  interleavings. \<open>follows\<close> relates a replayed program with a sequential one, one rule per construct.
\<close>

section \<open>The relation\<close>

text \<open>The answer of the in-memory server to a request.\<close>

fun reply :: "admission \<Rightarrow> request \<Rightarrow> mem \<Rightarrow> answer \<times> mem" where
  "reply admit (Get k n) m = map_prod Got id (mem_get k n m)"
| "reply admit (Create ob) m = map_prod Outcome id (mem_create ob m)"
| "reply admit (Update ob) m = map_prod Outcome id (mem_update admit ob m)"
| "reply admit (StatusUpdate ob) m = map_prod Outcome id (mem_status_update ob m)"
| "reply admit (Delete ob) m = map_prod Outcome id (mem_delete ob m)"
| "reply admit Now m = (At (mem_now m), m)"
| "reply admit Wait m = (Outcome None, m\<lparr>mem_now := mem_now m + 2000000000\<rparr>)"

fun exchange :: "admission \<Rightarrow> (request \<times> answer) list \<Rightarrow> mem \<Rightarrow> mem \<Rightarrow> bool" where
  "exchange admit [] m m' \<longleftrightarrow> m' = m"
| "exchange admit ((q, a) # t) m m' \<longleftrightarrow> fst (reply admit q m) = a \<and> exchange admit t (snd (reply admit q m)) m'"

lemma exchange_append: "exchange admit s m m1 \<Longrightarrow> exchange admit t m1 m' \<Longrightarrow> exchange admit (s @ t) m m'"
  by (induction s arbitrary: m) auto

definition at_pos :: "answer list \<Rightarrow> nat \<Rightarrow> replay" where
  "at_pos as i = \<lparr>rp_answers = as, rp_pos = i, rp_next = None\<rparr>"

text \<open>With the answers of the whole exchange the replay has the result; with fewer it asks the next request.\<close>

definition replays_exchange :: "(replay, 'a) state \<Rightarrow> (request \<times> answer) list \<Rightarrow> 'a \<Rightarrow> bool" where
  "replays_exchange p t r \<longleftrightarrow>
     (\<forall>pre post. run_state p (at_pos (pre @ map snd t @ post) (length pre))
        = (r, at_pos (pre @ map snd t @ post) (length pre + length t))) \<and>
     (\<forall>k < length t. \<forall>pre. rp_next (snd (run_state p (at_pos (pre @ map snd (take k t)) (length pre)))) = Some (fst (t ! k)))"

definition follows :: "admission \<Rightarrow> (replay, 'a) state \<Rightarrow> (mem, 'a) state \<Rightarrow> bool" where
  "follows admit p s \<longleftrightarrow>
     (\<forall>w. rp_next w \<noteq> None \<longrightarrow> snd (run_state p w) = w) \<and>
     (\<forall>m r m'. run_state s m = (r, m') \<longrightarrow> (\<exists>t. exchange admit t m m' \<and> replays_exchange p t r))"

named_theorems follows

lemma replays_bind:
  assumes p: "replays_exchange p t a" and f: "replays_exchange (f a) u b"
    and stuck: "\<And>a w. rp_next w \<noteq> None \<Longrightarrow> snd (run_state (f a) w) = w"
  shows "replays_exchange (State_Monad.bind p f) (t @ u) b"
  unfolding replays_exchange_def
proof (intro conjI allI impI)
  fix pre post
  show "run_state (State_Monad.bind p f) (at_pos (pre @ map snd (t @ u) @ post) (length pre))
      = (b, at_pos (pre @ map snd (t @ u) @ post) (length pre + length (t @ u)))"
    using p[unfolded replays_exchange_def, THEN conjunct1, rule_format, of pre "map snd u @ post"]
      f[unfolded replays_exchange_def, THEN conjunct1, rule_format, of "pre @ map snd t" post]
    by (simp add: State_Monad.bind_def add.assoc)
next
  fix k pre assume k: "k < length (t @ u)"
  show "rp_next (snd (run_state (State_Monad.bind p f) (at_pos (pre @ map snd (take k (t @ u))) (length pre)))) = Some (fst ((t @ u) ! k))"
  proof (cases "k < length t")
    case True
    obtain a' w where w: "run_state p (at_pos (pre @ map snd (take k t)) (length pre)) = (a', w)" by fastforce
    then have n: "rp_next w = Some (fst (t ! k))"
      using p True unfolding replays_exchange_def by (metis snd_conv)
    then have "snd (run_state (f a') w) = w" by (intro stuck) simp
    then show ?thesis using True w n by (simp add: State_Monad.bind_def nth_append)
  next
    case False
    then have "run_state p (at_pos (pre @ map snd (take k (t @ u))) (length pre))
        = (a, at_pos ((pre @ map snd t) @ map snd (take (k - length t) u)) (length (pre @ map snd t)))"
      using p[unfolded replays_exchange_def, THEN conjunct1, rule_format, of pre "map snd (take (k - length t) u)"] by simp
    moreover have "k - length t < length u" using k False by simp
    ultimately show ?thesis
      using f[unfolded replays_exchange_def, THEN conjunct2, rule_format, of "k - length t" "pre @ map snd t"] False
      by (simp add: State_Monad.bind_def nth_append)
  qed
qed

lemma follows_bind [follows]:
  assumes "follows admit p s" and "\<And>a. follows admit (f a) (g a)"
  shows "follows admit (State_Monad.bind p f) (State_Monad.bind s g)"
  unfolding follows_def
proof (intro conjI allI impI)
  fix w :: replay assume w: "rp_next w \<noteq> None"
  obtain a w1 where run: "run_state p w = (a, w1)" by fastforce
  then have "w1 = w" using assms(1) w unfolding follows_def by (metis snd_conv)
  then show "snd (run_state (State_Monad.bind p f) w) = w"
    using assms(2)[of a] w run by (simp add: State_Monad.bind_def follows_def)
next
  fix m b m' assume "run_state (State_Monad.bind s g) m = (b, m')"
  then obtain a m1 where s: "run_state s m = (a, m1)" and g: "run_state (g a) m1 = (b, m')"
    by (auto simp: State_Monad.bind_def split: prod.splits)
  obtain t where t: "exchange admit t m m1" "replays_exchange p t a" using assms(1) s unfolding follows_def by metis
  obtain u where u: "exchange admit u m1 m'" "replays_exchange (f a) u b" using assms(2)[of a] g unfolding follows_def by metis
  have "replays_exchange (State_Monad.bind p f) (t @ u) b"
    by (rule replays_bind[where f = f, OF t(2) u(2)]) (use assms(2) in \<open>simp add: follows_def\<close>)
  then show "\<exists>t. exchange admit t m m' \<and> replays_exchange (State_Monad.bind p f) t b"
    using exchange_append[OF t(1) u(1)] by blast
qed

lemma follows_return [follows]: "follows admit (State_Monad.return x) (State_Monad.return x)"
  unfolding follows_def replays_exchange_def
  by (auto simp: State_Monad.return_def intro!: exI[of _ "[]"])

lemma follows_if [follows]: "(c \<Longrightarrow> follows admit p s) \<Longrightarrow> (\<not> c \<Longrightarrow> follows admit p' s') \<Longrightarrow>
    follows admit (if c then p else p') (if c then s else s')"
  by simp

lemma follows_Let [follows]: "(\<And>x. follows admit (f x) (g x)) \<Longrightarrow> follows admit (Let t f) (Let t g)"
  by simp

lemma follows_sum [follows]: "(\<And>e. follows admit (f e) (f' e)) \<Longrightarrow> (\<And>x. follows admit (g x) (g' x)) \<Longrightarrow>
    follows admit (case r of Inl e \<Rightarrow> f e | Inr x \<Rightarrow> g x) (case r of Inl e \<Rightarrow> f' e | Inr x \<Rightarrow> g' x)"
  by (simp split: sum.split)

lemma follows_option [follows]: "follows admit f f' \<Longrightarrow> (\<And>x. follows admit (g x) (g' x)) \<Longrightarrow>
    follows admit (case r of None \<Rightarrow> f | Some x \<Rightarrow> g x) (case r of None \<Rightarrow> f' | Some x \<Rightarrow> g' x)"
  by (simp split: option.split)

lemma follows_prod [follows]: "(\<And>x y. follows admit (f x y) (f' x y)) \<Longrightarrow>
    follows admit (case r of (x, y) \<Rightarrow> f x y) (case r of (x, y) \<Rightarrow> f' x y)"
  by (simp split: prod.split)

lemma follows_list [follows]: "follows admit f f' \<Longrightarrow> (\<And>y ys. follows admit (g y ys) (g' y ys)) \<Longrightarrow>
    follows admit (case xs of [] \<Rightarrow> f | y # ys \<Rightarrow> g y ys) (case xs of [] \<Rightarrow> f' | y # ys \<Rightarrow> g' y ys)"
  by (simp split: list.split)

lemma follows_ask:
  assumes "\<And>m r m'. run_state s m = (r, m') \<Longrightarrow> r = f (fst (reply admit q m)) \<and> m' = snd (reply admit q m)"
  shows "follows admit (ask_for f q) s"
  unfolding follows_def
proof (intro conjI allI impI)
  fix w :: replay assume "rp_next w \<noteq> None"
  then show "snd (run_state (ask_for f q) w) = w"
    by (simp add: ask_for_def ask_def State_Monad.bind_def State_Monad.return_def)
next
  fix m r m' assume run: "run_state s m = (r, m')"
  let ?t = "[(q, fst (reply admit q m))]"
  have "replays_exchange (ask_for f q) ?t r" unfolding replays_exchange_def
    using assms[OF run] by (simp add: ask_for_def ask_def State_Monad.bind_def State_Monad.return_def at_pos_def nth_append)
  moreover have "exchange admit ?t m m'" using assms[OF run] by simp
  ultimately show "\<exists>t. exchange admit t m m' \<and> replays_exchange (ask_for f q) t r" by blast
qed

section \<open>The requests\<close>

abbreviation alone_env :: "string \<Rightarrow> admission \<Rightarrow> mem env" where
  "alone_env ns admit \<equiv> mem_env ns admit (\<lambda>m. m)"

lemma got_mem_get: "got k n (Got (fst (mem_get k n m))) = fst (mem_get k n m)" "snd (mem_get k n m) = m"
  by (auto simp: mem_get_def got_def dest: mem_view_Some split: option.split)

lemma follows_get [follows]: "follows admit (env_get (replay_env ns) k n) (env_get (alone_env ns admit) k n)"
  unfolding replay_env_sel by (rule follows_ask) (auto simp: got_mem_get dest!: arg_cong[where f = fst])

lemma follows_writes [follows]:
  "follows admit (env_create (replay_env ns) ob) (env_create (alone_env ns admit) ob)"
  "follows admit (env_update (replay_env ns) ob) (env_update (alone_env ns admit) ob)"
  "follows admit (env_status_update (replay_env ns) ob) (env_status_update (alone_env ns admit) ob)"
  "follows admit (env_delete (replay_env ns) ob) (env_delete (alone_env ns admit) ob)"
  "follows admit (env_now (replay_env ns)) (env_now (alone_env ns admit))"
  "follows admit (env_wait (replay_env ns)) (env_wait (alone_env ns admit))"
  unfolding replay_env_sel by (rule follows_ask; simp add: outcome_def at_time_def)+

lemma operatorNamespace_alone: "operatorNamespace (replay_env ns) = operatorNamespace (alone_env ns admit)"
  by (simp add: operatorNamespace_def)

section \<open>The node-agent client\<close>

lemma follows_get_cm [follows]: "follows admit (get_cm (replay_env ns) name) (get_cm (alone_env ns admit) name)"
  unfolding get_cm_def operatorNamespace_alone[of ns admit] by (intro follows)

lemma follows_GetDiskStatus [follows]: "follows admit (GetDiskStatus (replay_env ns) node dev) (GetDiskStatus (alone_env ns admit) node dev)"
  unfolding GetDiskStatus_def by (intro follows)

lemma follows_postAgentOp [follows]:
  "follows admit (postAgentOp (replay_env ns) node ty pl) (postAgentOp (alone_env ns admit) node ty pl)"
  unfolding postAgentOp_def operatorNamespace_alone[of ns admit] by (intro follows)

lemma follows_wait_polls [follows]: "follows admit (wait_polls i (replay_env ns) op) (wait_polls i (alone_env ns admit) op)"
proof (induction i)
  case (Suc i)
  show ?case unfolding wait_polls.simps by (intro follows Suc.IH)
qed (simp add: follows)

lemma follows_mounts [follows]:
  "follows admit (MountDisk (replay_env ns) node q) (MountDisk (alone_env ns admit) node q)"
  "follows admit (UnmountDisk (replay_env ns) node mp) (UnmountDisk (alone_env ns admit) node mp)"
  "follows admit (EnsureMergerFSMount (replay_env ns) node p) (EnsureMergerFSMount (alone_env ns admit) node p)"
  unfolding MountDisk_def UnmountDisk_def post_and_wait_def EnsureMergerFSMount_def waitForOperationState_def
  by (intro follows)+

lemma follows_ApplySnapraidConfig [follows]:
  "follows admit (ApplySnapraidConfig (replay_env ns) node cfg) (ApplySnapraidConfig (alone_env ns admit) node cfg)"
  unfolding ApplySnapraidConfig_def operatorNamespace_alone[of ns admit] by (intro follows)

section \<open>The controllers\<close>

lemma follows_setPhases [follows]:
  "follows admit (Disk_setPhase (replay_env ns) d dp a b) (Disk_setPhase (alone_env ns admit) d dp a b)"
  "follows admit (setArrayPhase (replay_env ns) ar ap a b) (setArrayPhase (alone_env ns admit) ar ap a b)"
  "follows admit (setPoolPhase (replay_env ns) po c a b) (setPoolPhase (alone_env ns admit) po c a b)"
  "follows admit (setSharePhase (replay_env ns) sh c a b) (setSharePhase (alone_env ns admit) sh c a b)"
  "follows admit (setJobPhase (replay_env ns) j jp) (setJobPhase (alone_env ns admit) j jp)"
  unfolding Disk_setPhase_def setArrayPhase_def setPoolPhase_def setSharePhase_def setJobPhase_def by (intro follows)+

lemma follows_disk_lists [follows]:
  "follows admit (resolveDiskRefs (replay_env ns) names) (resolveDiskRefs (alone_env ns admit) names)"
  "follows admit (collectBranches (replay_env ns) names b) (collectBranches (alone_env ns admit) names b)"
  "follows admit (firstNode (replay_env ns) names) (firstNode (alone_env ns admit) names)"
  "follows admit (memberDisks (replay_env ns) names) (memberDisks (alone_env ns admit) names)"
  by (induction names arbitrary: b)
    (simp_all only: resolveDiskRefs.simps collectBranches.simps firstNode.simps memberDisks.simps, (intro follows; simp)+)

lemma follows_Disk_Reconcile [follows]:
  "follows admit (Disk_Reconcile (replay_env ns) (KubernetesAgentClient (replay_env ns)) n)
     (Disk_Reconcile (alone_env ns admit) (KubernetesAgentClient (alone_env ns admit)) n)"
  unfolding Disk_Reconcile_def Disk_reconcileDelete_def Disk_reconcileNormal_def KubernetesAgentClient_def agent_client.simps
  by (intro follows)

lemma follows_Array_Reconcile [follows]:
  "follows admit (Array_Reconcile (replay_env ns) (KubernetesAgentClient (replay_env ns)) n)
     (Array_Reconcile (alone_env ns admit) (KubernetesAgentClient (alone_env ns admit)) n)"
  unfolding Array_Reconcile_def KubernetesAgentClient_def agent_client.simps by (intro follows)

lemma follows_Pool_Reconcile [follows]:
  "follows admit (Pool_Reconcile (replay_env ns) (KubernetesAgentClient (replay_env ns)) n)
     (Pool_Reconcile (alone_env ns admit) (KubernetesAgentClient (alone_env ns admit)) n)"
  unfolding Pool_Reconcile_def KubernetesAgentClient_def agent_client.simps by (intro follows)

lemma follows_upserts [follows]:
  "follows admit (upsertObject (replay_env ns) ob) (upsertObject (alone_env ns admit) ob)"
  "follows admit (upsertPodObject (replay_env ns) ob) (upsertPodObject (alone_env ns admit) ob)"
  unfolding upsertObject_def upsertPodObject_def by (intro follows)+

lemma follows_publish [follows]:
  "follows admit (publish (replay_env ns) own s cm pod svc) (publish (alone_env ns admit) own s cm pod svc)"
  unfolding publish_def by (intro follows)

lemma follows_protocol [follows]: "follows admit f f' \<Longrightarrow> follows admit g g' \<Longrightarrow> follows admit h h' \<Longrightarrow>
    follows admit (case x of ShareProtocolSMB \<Rightarrow> f | ShareProtocolNFS \<Rightarrow> g | ShareProtocolUnset \<Rightarrow> h)
      (case x of ShareProtocolSMB \<Rightarrow> f' | ShareProtocolNFS \<Rightarrow> g' | ShareProtocolUnset \<Rightarrow> h')"
  by (simp split: ShareProtocol.split)

lemma follows_Share_Reconcile [follows]:
  "follows admit (Share_Reconcile (replay_env ns) own n) (Share_Reconcile (alone_env ns admit) own n)"
  unfolding Share_Reconcile_def reconcileSMBShare_def reconcileNFSShare_def by (intro follows)

lemma follows_ensureCronJobs [follows]:
  "follows admit (ensureCronJobs (replay_env ns) ps cfg ops) (ensureCronJobs (alone_env ns admit) ps cfg ops)"
proof (induction ops)
  case (Cons op ops)
  show ?case by (cases op) (simp, unfold ensureCronJob_def, intro follows Cons.IH)
qed (simp add: follows)

lemma follows_others [follows]:
  "follows admit (Parity_Reconcile (replay_env ns) n) (Parity_Reconcile (alone_env ns admit) n)"
  "follows admit (Rebalance_Reconcile (replay_env ns) n) (Rebalance_Reconcile (alone_env ns admit) n)"
  "follows admit (Failure_Reconcile (replay_env ns) n) (Failure_Reconcile (alone_env ns admit) n)"
  "follows admit (PlacementPolicy_Reconcile (replay_env ns) n) (PlacementPolicy_Reconcile (alone_env ns admit) n)"
  "follows admit (CachePool_Reconcile (replay_env ns) n) (CachePool_Reconcile (alone_env ns admit) n)"
  unfolding Parity_Reconcile_def resolveSnapraidConfigName_def Rebalance_Reconcile_def Failure_Reconcile_def
    resolveOpenFailures_def newFailure_def PlacementPolicy_Reconcile_def CachePool_Reconcile_def operatorNamespace_alone[of ns admit]
  by (intro follows)+

lemma follows_ctrl_Reconcile:
  "follows admit (ctrl_Reconcile (replay_env ns) (KubernetesAgentClient (replay_env ns)) own c n)
     (ctrl_Reconcile (alone_env ns admit) (KubernetesAgentClient (alone_env ns admit)) own c n)"
  by (cases c) (simp_all only: ctrl_Reconcile.simps, (intro follows)+)

section \<open>An undisturbed call\<close>

lemma reply_served:
  assumes "stored_in m \<subseteq> vs"
  shows "served admit vs q m (fst (reply admit q m)) (snd (reply admit q m))"
proof (cases q)
  case (Get k n)
  show ?thesis
  proof (cases "mem_view m k n")
    case None
    then show ?thesis by (simp add: Get mem_get_def served.unread)
  next
    case (Some ob)
    then have "ob \<in> vs" "kind_of ob = k" "key_of ob = n" using assms mem_view_Some[OF Some] unfolding stored_in_def by auto
    then show ?thesis using served.read[of ob vs admit m] Some by (simp add: Get mem_get_def)
  qed
next
  case (Create ob)
  then show ?thesis using served.create[of ob m _ admit vs] served.refused[of q admit vs m]
    by (cases "mem_create ob m"; cases "fst (mem_create ob m)") (auto simp: mem_create_def split: option.splits if_splits)
next
  case (Update ob)
  then show ?thesis using served.update[of admit ob m _ vs] served.refused[of q admit vs m] mem_update_err[of admit ob m]
    by (cases "mem_update admit ob m"; cases "fst (mem_update admit ob m)") auto
next
  case (StatusUpdate ob)
  then show ?thesis using served.status_update[of ob m _ admit vs] served.refused[of q admit vs m] mem_status_update_err[of ob m]
    by (cases "mem_status_update ob m"; cases "fst (mem_status_update ob m)") auto
next
  case (Delete ob)
  then show ?thesis using served.delete[of ob m _ admit vs] served.refused[of q admit vs m] mem_delete_err[of ob m]
    by (cases "mem_delete ob m"; cases "fst (mem_delete ob m)") auto
qed (simp_all add: served.now served.wait)

definition call_with :: "ctrl \<Rightarrow> nskey \<Rightarrow> answer list \<Rightarrow> call" where
  "call_with c n as = \<lparr>call_ctrl = c, call_key = n, call_answers = as\<rparr>"

lemma next_request_Inl: "rp_next (snd (run_state p (replay_from as))) = Some q \<Longrightarrow> next_request p as = Inl q"
  by (cases "run_state p (replay_from as)") (simp add: next_request_def)

lemma exchange_steps:
  assumes "exchange admit u m m'" and "stored_in m \<subseteq> vs"
    and "\<And>k. k < length u \<Longrightarrow> asks ns own (call_with c n (as @ map snd (take k u))) = Inl (fst (u ! k))"
  shows "\<exists>vs'. (sys_step ns own admit)^** \<lparr>sys_mem = m, sys_versions = vs, sys_calls = cs @ [call_with c n as]\<rparr>
     \<lparr>sys_mem = m', sys_versions = vs', sys_calls = cs @ [call_with c n (as @ map snd u)]\<rparr>"
  using assms
proof (induction u arbitrary: m vs as)
  case Nil
  then show ?case by auto
next
  case (Cons e u)
  obtain q a where e: "e = (q, a)" by fastforce
  let ?m = "snd (reply admit q m)" and ?vs = "vs \<union> stored_in (snd (reply admit q m))"
  let ?s = "\<lparr>sys_mem = m, sys_versions = vs, sys_calls = cs @ [call_with c n as]\<rparr>"
  have a: "fst (reply admit q m) = a" and rest: "exchange admit u ?m m'" using Cons.prems(1) by (simp_all add: e)
  have asks: "asks ns own (call_with c n as) = Inl q" using Cons.prems(3)[of 0] by (simp add: e)
  have "sys_step ns own admit ?s \<lparr>sys_mem = ?m, sys_versions = ?vs, sys_calls = cs @ [call_with c n (as @ [a])]\<rparr>"
    using sys_step.request[of "length cs" ?s ns own q admit a ?m] asks reply_served[OF Cons.prems(2), of admit q] a
    by (simp add: nth_append answered_def call_with_def)
  moreover obtain vs' where "(sys_step ns own admit)^** \<lparr>sys_mem = ?m, sys_versions = ?vs, sys_calls = cs @ [call_with c n (as @ [a])]\<rparr>
     \<lparr>sys_mem = m', sys_versions = vs', sys_calls = cs @ [call_with c n ((as @ [a]) @ map snd u)]\<rparr>"
    using Cons.IH[OF rest, of ?vs "as @ [a]"] Cons.prems(3)[of "Suc k" for k] by (auto simp: e)
  ultimately show ?case by (auto simp: e intro: converse_rtranclp_into_rtranclp)
qed


definition busy_outcome :: "(ctrl_Result \<times> error option) \<times> mem" where
  "busy_outcome = run_state (Share_Reconcile (alone_env '''' (\<lambda>_ _. None)) demo_own (''nas'', ''media'')) busy_mem"


end
