(* ===== verification/Pod_Updates.thy ===== *)
theory Pod_Updates
  imports Share_Controller
begin

text \<open>
  Changing the Pod of a published Share. The API server documents that the volumes of a Pod are immutable. It
  refuses such an update with a text of its own (\<open>pod_update_text\<close>), in which the word that
  \<open>isImmutablePodUpdateError\<close> looks for does not occur. So the Pod is never replaced: once the path of a
  Share or the mount point of its Pool is edited, the Share stays unpublished and the old Pod keeps serving the old path.
\<close>

section \<open>The rule of the server\<close>

text \<open>
  An update that changes the volumes of a Pod is refused. \<open>refusals\<close> are the texts of the Invalid and Forbidden
  errors for a Pod of this name; other errors, of the connection for instance, have any text.
\<close>

locale pod_rules = kube_api +
  fixes refusals :: "string \<Rightarrow> string set"
  assumes pod_volumes_law: "run_state (env_update cl (OPod pod)) w = (r, w') \<Longrightarrow>
      view w KPod (key_of (OPod pod)) = Some (OPod old) \<Longrightarrow>
      podspec_Volumes (pod_Spec pod) \<noteq> podspec_Volumes (pod_Spec old) \<Longrightarrow>
      \<exists>e. r = Some e \<and> (IsInvalid e \<or> IsForbidden e \<longrightarrow> Error e \<in> refusals (meta_Name (pod_Meta pod)))"
begin

text \<open>The word does not occur in the refusals for a Pod of this name.\<close>

definition unnamed :: "string \<Rightarrow> bool" where
  "unnamed name \<longleftrightarrow> (\<forall>t \<in> refusals name. \<not> Contains (ToLower t) ''immutable'')"

lemma wp_upsertPod_refused:
  assumes "view w KPod (key_of (OPod pod)) = Some (OPod old)"
    and "podspec_Volumes (pod_Spec pod) \<noteq> podspec_Volumes (pod_Spec old)" and "unnamed (meta_Name (pod_Meta pod))"
  shows "wp (upsertPodObject cl (OPod pod)) (\<lambda>r w'. r \<noteq> None \<and> view w' = view w) w"
  unfolding upsertPodObject_def wp
proof (rule wp_get, goal_cases)
  case (1 ob w1)
  then have ob: "ob = OPod old" and w1: "view w1 = view w" using assms(1) by simp_all
  have pod: "with_rv rv (OPod pod) = OPod (pod_Meta_update (meta_ResourceVersion_update (\<lambda>_. rv)) pod)" for rv
    by (simp add: with_rv_def)
  show ?case unfolding sum.case wp pod
  proof (rule run_wp)
    fix r w2 assume run: "run_state (env_update cl (OPod (pod_Meta_update (meta_ResourceVersion_update (\<lambda>_. rv_of ob)) pod))) w1 = (r, w2)"
    have "view w1 KPod (key_of (OPod (pod_Meta_update (meta_ResourceVersion_update (\<lambda>_. rv_of ob)) pod))) = Some (OPod old)"
      using assms(1) w1 by (simp add: key_of_def)
    from pod_volumes_law[OF run this] assms(2,3) obtain e where e: "r = Some e" "\<not> isImmutablePodUpdateError e"
      by (auto simp: isImmutablePodUpdateError_def unnamed_def)
    then show "case r of None \<Rightarrow> None \<noteq> None \<and> view w2 = view w
        | Some err \<Rightarrow> if isImmutablePodUpdateError err
            then wp (env_delete cl ob) (\<lambda>a w'. if (case a of None \<Rightarrow> False | Some delErr \<Rightarrow> \<not> IsNotFound delErr)
               then a \<noteq> None \<and> view w' = view w
               else wp (env_create cl (OPod (pod_Meta_update (meta_ResourceVersion_update (\<lambda>_. '''')) pod)))
                 (\<lambda>r w'. r \<noteq> None \<and> view w' = view w) w') w2
            else Some err \<noteq> None \<and> view w2 = view w"
      using update_law[OF run] w1 by simp
  qed
next
  case (2 e w1)
  then show ?case using assms(1) by (auto simp: wp)
qed

lemma wp_publish_refused:
  assumes pod: "view w KPod (key_of (map_meta (own (share_Meta s)) (OPod pod))) = Some (OPod old)"
      "podspec_Volumes (pod_Spec pod) \<noteq> podspec_Volumes (pod_Spec old)"
      "unnamed (meta_Name (own (share_Meta s) (pod_Meta pod)))"
    and cm: "plain (map_meta (own (share_Meta s)) (OConfigMap cm))"
  shows "wp (publish cl own s cm pod svc) (\<lambda>r w'. (\<exists>e. r = Inl e) \<and> view w' KPod = view w KPod) w"
  unfolding publish_def wp
proof (rule wp_upsertObject[OF cm], goal_cases)
  case (1 w1)
  then have w1: "view w1 KPod = view w KPod" by (simp add: only_at_def fun_eq_iff)
  have "wp (upsertPodObject cl (OPod (pod_Meta_update (own (share_Meta s)) pod))) (\<lambda>r w'. r \<noteq> None \<and> view w' = view w1) w1"
    by (rule wp_upsertPod_refused[of _ _ old]) (use pod w1 in simp_all)
  then show ?case unfolding option.case wp map_meta.simps
    by (rule wp_mono) (auto simp: w1)
next
  case (2 e w1)
  then show ?case by (simp add: only_at_def fun_eq_iff)
qed

lemma wp_setSharePhase_pods: "wp (setSharePhase cl s ph a b) (\<lambda>r w'. view w' KPod = view w KPod) w"
  unfolding setSharePhase_def wp by (rule wp_now, rule wp_status_update) (auto simp: wp fun_eq_iff)

text \<open>The Pod that a Share of this Pool needs, with other volumes than the stored one.\<close>

definition pod_outdated :: "owner_fn \<Rightarrow> store \<Rightarrow> Share \<Rightarrow> Pool \<Rightarrow> bool" where
  "pod_outdated own v s p \<longleftrightarrow> (\<exists>pod old. OPod pod \<in> set (data_plane own s p) \<and>
     v KPod (key_of (OPod pod)) = Some (OPod old) \<and>
     podspec_Volumes (pod_Spec pod) \<noteq> podspec_Volumes (pod_Spec old) \<and> unnamed (meta_Name (pod_Meta pod)))"

lemma wp_protocol_refused:
  assumes own: "own_ok own" and out: "pod_outdated own (view w) s p" and w1: "view w1 = view w"
  shows "wp (case share_Protocol (share_Spec s) of
       ShareProtocolSMB \<Rightarrow> reconcileSMBShare cl own (share_set_subjects xs s) p
     | ShareProtocolNFS \<Rightarrow> reconcileNFSShare cl own (share_set_subjects xs s) p
     | ShareProtocolUnset \<Rightarrow> State_Monad.return (Inr (share_set_subjects xs s)))
     (\<lambda>r w2. (\<exists>e. r = Inl e) \<and> view w2 KPod = view w KPod) w1"
proof (cases "share_Protocol (share_Spec s)")
  case ShareProtocolSMB
  then show ?thesis using out unfolding reconcileSMBShare_def pod_outdated_def w1[symmetric]
    by (auto simp: data_plane_def intro!: wp_publish_refused plain_own[OF own] plain_objects)
next
  case ShareProtocolNFS
  then show ?thesis using out unfolding reconcileNFSShare_def pod_outdated_def w1[symmetric]
    by (auto simp: data_plane_def intro!: wp_publish_refused plain_own[OF own] plain_objects)
next
  case ShareProtocolUnset
  then show ?thesis using out by (simp add: pod_outdated_def data_plane_def)
qed

lemma wp_Share_pods_kept:
  assumes own: "own_ok own" and s: "share_at (view w) n = Some s"
    and p: "pool_at (view w) (meta_Namespace (share_Meta s), share_PoolRef (share_Spec s)) = Some p"
    and out: "pod_outdated own (view w) s p"
  shows "wp (Share_Reconcile cl own n) (\<lambda>r w'. view w' KPod = view w KPod) w"
  unfolding Share_Reconcile_def wp
proof (rule wp_get, goal_cases)
  case (1 ob w1)
  then have ob: "ob = OShare s" and w1: "view w1 = view w" using s by (auto simp: share_at_def split: kobject.splits)
  note phase = wp_mono[OF wp_setSharePhase_pods]
  show ?case unfolding ob as_Share_def sum.case kobject.case wp
  proof (rule wp_get, goal_cases)
    case (1 ob w2)
    then have ob: "ob = OPool p" and w2: "view w2 = view w" using p w1 by (auto simp: pool_at_def split: kobject.splits)
    show ?case unfolding ob as_Pool_def sum.case kobject.case Let_def share_builders wp
      by (auto simp: w2 intro!: phase wp_mono[OF wp_protocol_refused[OF own out w2]])
  next
    case (2 e w2)
    then show ?case unfolding as_Pool_def sum.case by (auto simp: w1 intro!: phase)
  qed
next
  case (2 e w1)
  then show ?case by (auto simp: as_Share_def wp split: option.split)
qed

text \<open>The specification of the reconciler leaves no way to be published then.\<close>

lemma outdated_not_ready:
  assumes "share_outcome own v v' s s'" and "pod_outdated own v s p" and "v' KPod = v KPod"
    and "pool_at v (meta_Namespace (share_Meta s), share_PoolRef (share_Spec s)) = Some p"
  shows "share_Phase (share_Status s') \<in> {''Pending'', ''Degraded''}" "\<not> share_Published (share_Status s')"
proof -
  have "\<not> (\<forall>ob \<in> set (data_plane own s p). stored v' ob)"
    using assms(2,3) by (force simp: pod_outdated_def stored_def)
  with assms(1,4) show "share_Phase (share_Status s') \<in> {''Pending'', ''Degraded''}" "\<not> share_Published (share_Status s')"
    by (auto elim!: share_outcome.cases)
qed

lemma wp_outdated_pod:
  assumes own: "own_ok own" and s: "share_at (view w) n = Some s"
    and p: "pool_at (view w) (meta_Namespace (share_Meta s), share_PoolRef (share_Spec s)) = Some p"
    and out: "pod_outdated own (view w) s p"
  shows "wp (Share_Reconcile cl own n) (\<lambda>r w'. view w' KPod = view w KPod \<and>
     (snd r = None \<longrightarrow> (\<exists>s'. share_at (view w') n = Some s' \<and>
        share_Phase (share_Status s') \<in> {''Pending'', ''Degraded''} \<and> \<not> share_Published (share_Status s')))) w"
proof (rule wp_mono[OF wp_conj[OF wp_Share_pods_kept[OF own s p out] wp_Share_Reconcile[OF own]]], goal_cases)
  case (1 r w')
  then show ?case using s outdated_not_ready[OF _ out _ p] by (fastforce simp: share_step_def)
qed

end

text \<open>The text of the API server, and the in-memory server with this rule.\<close>

definition pod_update_text :: "string \<Rightarrow> string" where
  "pod_update_text name = ''Pod '' @ name @ '' is invalid: spec: Forbidden: pod updates may not change fields other than '' @
     ''spec.containers[*].image, spec.initContainers[*].image, spec.activeDeadlineSeconds, spec.tolerations''"

definition admit_pods :: "kobject \<Rightarrow> kobject \<Rightarrow> error option" where
  "admit_pods old ob = (case (old, ob) of
       (OPod x, OPod y) \<Rightarrow> if podspec_Volumes (pod_Spec x) \<noteq> podspec_Volumes (pod_Spec y)
         then Some (ApiError ReasonInvalid (pod_update_text (meta_Name (pod_Meta y)))) else None
     | _ \<Rightarrow> None)"

definition pod_env :: "mem env" where
  "pod_env = mem_env '''' admit_pods (\<lambda>m. m)"

interpretation pod_server: pod_rules pod_env mem_view "\<lambda>name. {pod_update_text name}"
  unfolding pod_env_def
proof (intro pod_rules.intro pod_rules_axioms.intro mem_kube_api)
  fix pod w r w' old
  assume "run_state (env_update (mem_env '''' admit_pods (\<lambda>m. m)) (OPod pod)) w = (r, w')"
    and "mem_view w KPod (key_of (OPod pod)) = Some (OPod old)"
    and "podspec_Volumes (pod_Spec pod) \<noteq> podspec_Volumes (pod_Spec old)"
  then have "r = Some conflict \<or> r = Some (ApiError ReasonInvalid (pod_update_text (meta_Name (pod_Meta pod))))"
    by (auto simp: mem_update_def admit_pods_def split: if_splits)
  then show "\<exists>e. r = Some e \<and> (IsInvalid e \<or> IsForbidden e \<longrightarrow> Error e \<in> {pod_update_text (meta_Name (pod_Meta pod))})"
    by (auto simp: conflict_def IsInvalid_def IsForbidden_def)
qed simp

section \<open>The property\<close>

text \<open>C12. While the Pod that serves a Share is stored with other volumes than the Share and its Pool now ask for
  (the path or the mount point was edited), and the server refuses to change them in its own words, a reconcile
  call leaves this Pod as it is, and the Share becomes Degraded or Pending and is not published: the branch that
  deletes and creates the Pod again is never taken.\<close>

theorem outdated_pod_never_replaced:
  assumes "pod_rules cl view refusals" and "own_ok own"
    and "share_at (view w) n = Some s"
    and "pool_at (view w) (meta_Namespace (share_Meta s), share_PoolRef (share_Spec s)) = Some p"
    and "OPod pod \<in> set (data_plane own s p)" and "view w KPod (key_of (OPod pod)) = Some (OPod old)"
    and "podspec_Volumes (pod_Spec pod) \<noteq> podspec_Volumes (pod_Spec old)"
    and "\<forall>t \<in> refusals (meta_Name (pod_Meta pod)). \<not> Contains (ToLower t) ''immutable''"
  shows "wp (Share_Reconcile cl own n) (\<lambda>r w'. view w' KPod = view w KPod \<and>
     (snd r = None \<longrightarrow> (\<exists>s'. share_at (view w') n = Some s' \<and>
        share_Phase (share_Status s') \<in> {''Pending'', ''Degraded''} \<and> \<not> share_Published (share_Status s')))) w"
proof (rule pod_rules.wp_outdated_pod[OF assms(1-4)])
  show "pod_rules.pod_outdated refusals own (view w) s p"
    using assms(5-8) by (auto simp: pod_rules.pod_outdated_def[OF assms(1)] pod_rules.unnamed_def[OF assms(1)])
qed

section \<open>Witness\<close>

text \<open>The Share of \<open>share_world\<close> after its path was edited: the stored Pod still serves the old path.\<close>

definition moved_share :: Share where
  "moved_share = demo_share\<lparr>share_Spec := (share_Spec demo_share)\<lparr>share_Path := ''/films''\<rparr>\<rparr>"

definition moved_world :: mem where
  "moved_world = pool_world
     \<lparr>mem_objs := (\<lambda>k n. if k = KShare \<and> n = (''nas'', ''media'') then Some (OShare moved_share)
        else if k = KPod \<and> n = (''nas'', ''kubenas-smb-media'')
        then Some (map_meta (demo_own (share_Meta demo_share)) (OPod (smb_pod demo_share demo_pool)))
        else mem_objs pool_world k n)\<rparr>"

lemma moved_at:
  "share_at (mem_view moved_world) (''nas'', ''media'') = Some moved_share"
  "pool_at (mem_view moved_world) (''nas'', ''tank'') = Some demo_pool"
  "mem_view moved_world KPod (''nas'', ''kubenas-smb-media'') =
     Some (OPod (pod_Meta_update (demo_own (share_Meta demo_share)) (smb_pod demo_share demo_pool)))"
  using demo_pool_at
  by (simp_all add: share_at_def pool_at_def mem_view_def moved_world_def moved_share_def demo_share_def deletion_done_def
      key_of_def ObjectMeta_zero_def smb_pod_def share_object_meta_def smb_name_def demo_own_def)

theorem outdated_pod_never_replaced_witness:
  "wp (Share_Reconcile pod_env demo_own (''nas'', ''media'')) (\<lambda>r w'. mem_view w' KPod = mem_view moved_world KPod \<and>
     (snd r = None \<longrightarrow> (\<exists>s'. share_at (mem_view w') (''nas'', ''media'') = Some s' \<and>
        share_Phase (share_Status s') \<in> {''Pending'', ''Degraded''} \<and> \<not> share_Published (share_Status s')))) moved_world"
proof (rule outdated_pod_never_replaced[OF pod_server.pod_rules_axioms demo_own_ok moved_at(1)])
  let ?pod = "pod_Meta_update (demo_own (share_Meta moved_share)) (smb_pod moved_share demo_pool)"
  show "pool_at (mem_view moved_world) (meta_Namespace (share_Meta moved_share), share_PoolRef (share_Spec moved_share)) =
      Some demo_pool"
    by (simp add: moved_at moved_share_def demo_share_def ObjectMeta_zero_def)
  show "OPod ?pod \<in> set (data_plane demo_own moved_share demo_pool)"
    by (simp add: data_plane_def moved_share_def demo_share_def)
  show "mem_view moved_world KPod (key_of (OPod ?pod)) =
      Some (OPod (pod_Meta_update (demo_own (share_Meta demo_share)) (smb_pod demo_share demo_pool)))"
    by (simp add: key_of_def moved_at smb_pod_def share_object_meta_def smb_name_def demo_own_def moved_share_def
        demo_share_def ObjectMeta_zero_def)
  show "podspec_Volumes (pod_Spec ?pod) \<noteq>
      podspec_Volumes (pod_Spec (pod_Meta_update (demo_own (share_Meta demo_share)) (smb_pod demo_share demo_pool)))"
    by (simp add: smb_pod_def sharePath_def moved_share_def demo_share_def)
  have "meta_Name (pod_Meta ?pod) = ''kubenas-smb-media''"
    by (simp add: smb_pod_def share_object_meta_def smb_name_def demo_own_def moved_share_def demo_share_def ObjectMeta_zero_def)
  moreover have "\<not> Contains (ToLower (pod_update_text ''kubenas-smb-media'')) ''immutable''"
    unfolding pod_update_text_def by code_simp
  ultimately show "\<forall>t \<in> {pod_update_text (meta_Name (pod_Meta ?pod))}. \<not> Contains (ToLower t) ''immutable''" by simp
qed

end
