(* ===== verification/Repo_Tests.thy ===== *)
theory Repo_Tests
  imports Placement Share_Controller Parity_Controller Storage Node_Smart
begin

text \<open>
  The unit tests of the repository, evaluated on the model: \<^verbatim>\<open>controllers/parity_controller_test.go\<close>,
  \<^verbatim>\<open>controllers/share_controller_test.go\<close>, \<^verbatim>\<open>storage/mergerfs/options_test.go\<close>,
  \<^verbatim>\<open>storage/scheduler/scheduler_test.go\<close> and \<^verbatim>\<open>storage/snapraid/config_test.go\<close>. They hold of the model as they
  hold of the code.
\<close>

section \<open>controllers\<close>

definition test_schedule :: ParitySchedule where
  "test_schedule =
     \<lparr>parity_Meta = ObjectMeta_zero\<lparr>meta_Name := ''ps'', meta_Namespace := ''ns''\<rparr>,
      parity_Spec = \<lparr>parity_ArrayRef = ''array-a'', parity_SyncCron = '''', parity_CheckCron = '''', parity_ScrubCron = '''',
        parity_ScrubPercentage = 0\<rparr>,
      parity_Status = \<lparr>parity_LastSyncTime = None, parity_LastCheckTime = None, parity_LastScrubTime = None,
        parity_LastSyncResult = ''''\<rparr>\<rparr>"

lemma TestBuildCronJobUsesResolvedSnapraidConfigName:
  "vol_Source (podspec_Volumes (job_Template (cron_JobTemplate (cron_Spec
     (buildCronJob test_schedule ''job'' ''0 1 * * *'' ''snapraid sync'' ''kubenas-snapraid-node-a'')))) ! 1) =
   ConfigMapVolume ''kubenas-snapraid-node-a''"
  by (simp add: buildCronJob_def)

text \<open>The test builds this error with \<^verbatim>\<open>apierrors.NewInvalid\<close>.\<close>

lemma TestIsImmutablePodUpdateError:
  "isImmutablePodUpdateError (ApiError ReasonInvalid ''Pod x is invalid: spec: Forbidden: field is immutable'')"
  unfolding isImmutablePodUpdateError_def by code_simp

section \<open>storage\<close>

lemma TestBuildMountOptions:
  "BuildMountOptions ''mfs'' ''10G'' ''cache.files=off'' =
   ''defaults,allow_other,category.create=mfs,minfreespace=10G,cache.files=off''"
  by code_simp

definition test_disk :: "string \<Rightarrow> i64 \<Rightarrow> rat \<Rightarrow> rat \<Rightarrow> bool \<Rightarrow> SchedDisk" where
  "test_disk name available health io rot =
     \<lparr>sd_Name = name, sd_CapacityBytes = 100, sd_AvailableBytes = available, sd_HealthScore = lit health,
      sd_IOLoadScore = lit io, sd_Rotational = rot, sd_Eligible = True\<rparr>"

text \<open>The roundings of the balanced test.\<close>

lemma test_rnd:
  "rnd (1 / 2) = 1 / 2"
  "rnd (7 / 10) = 3152519739159347 / 4503599627370496"
  "rnd (1 / 5) = 3602879701896397 / 18014398509481984"
  "rnd (1 / 10) = 3602879701896397 / 36028797018963968"
  "rnd (11358149378044935347338468172759 / 81129638414606681695789005144064) = 5044031582654955 / 36028797018963968"
  "rnd (3602879701896397 / 18014398509481984) = 3602879701896397 / 18014398509481984"
  "rnd (12249790986447749 / 36028797018963968) = 3062447746611937 / 9007199254740992"
  "rnd (12980742146337070512478121581609 / 649037107316853453566312041152512) = 1441151880758559 / 72057594037927936"
  "rnd (25940733853654055 / 72057594037927936) = 3242591731706757 / 9007199254740992"
  "rnd (3152519739159347 / 9007199254740992) = 3152519739159347 / 9007199254740992"
  "rnd (17654110539292343 / 36028797018963968) = 2206763817411543 / 4503599627370496"
  "rnd (11358149378044935347338468172759 / 162259276829213363391578010288128) = 5044031582654955 / 72057594037927936"
  "rnd (40352252661239643 / 72057594037927936) = 5044031582654955 / 9007199254740992"
  by code_simp+

lemma test_fround: "\<bar>x\<bar> \<le> 100 \<Longrightarrow> fround x = Fin (rnd x)"
  using sized_fround[of x 7] by simp

lemma TestSelectBalanced:
  "map_sum id sd_Name (Engine_Select insertionSort NewEngine StrategyBalanced
     [test_disk ''a'' 20 1 (2 / 10) False, test_disk ''b'' 50 (7 / 10) (7 / 10) False]) = Inr ''b''"
proof -
  have "eng_score NewEngine (test_disk ''a'' 20 1 (2 / 10) False) = Fin (3242591731706757 / 9007199254740992)"
    "eng_score NewEngine (test_disk ''b'' 50 (7 / 10) (7 / 10) False) = Fin (5044031582654955 / 9007199254740992)"
    using rnd_of_int[of 20] rnd_of_int[of 50] rnd_of_int[of 100]
    by (simp_all add: eng_score_def test_disk_def NewEngine_def of_i64_def lit_def test_fround test_rnd)
  then show ?thesis
    by (simp add: Engine_Select_def eng_filterEligible_def eng_eligible_def eng_selectBalanced_def insertionSort_def
        test_disk_def higher_def)
qed

lemma TestSelectTieredPrefersSSD:
  "map_sum id sd_Name (Engine_Select sorter NewEngine StrategyTiered
     [test_disk ''hdd'' 80 1 (5 / 10) True, test_disk ''ssd'' 30 1 (9 / 10) False]) = Inr ''ssd''"
  by (simp add: Engine_Select_def eng_filterEligible_def eng_eligible_def eng_selectTiered_def test_disk_def)

definition test_config :: SnapConfig where
  "test_config = \<lparr>sc_Parity = [''/mnt/parity/snapraid.parity''], sc_Data = [''d1'' \<mapsto> ''/mnt/d1''],
     sc_Content = [''/mnt/d1/.snapraid.content''], sc_Exclude = []\<rparr>"

lemma TestRender:
  "enumerates [(''d1'', ''/mnt/d1'')] (sc_Data test_config)"
  "list_all (Contains (Render [(''d1'', ''/mnt/d1'')] test_config))
     [''parity /mnt/parity/snapraid.parity'', ''data d1 /mnt/d1'', ''content /mnt/d1/.snapraid.content'']"
  by (simp add: enumerates_def test_config_def, code_simp)

end
