(* ===== verification/Spec2Isabelle.thy ===== *)
theory Spec2Isabelle
  imports Placement Share_Controller Failure_Controller Rebalance_Controller Parity_Controller
    Policy_Controllers Cluster Storage Node_Snapraid V1_Cache
    Closed_Loop Watches Node_Remount Call_Alone Pod_Updates Repo_Tests
begin

text \<open>
  A model of KubeNAS, a storage operator for Kubernetes, and what is proved about it.

  \<^bold>\<open>The program.\<close> The operator process (\<^verbatim>\<open>cmd/main.go\<close>) registers nine controllers
  (\<^verbatim>\<open>controllers/*.go\<close>) for the types of \<^verbatim>\<open>api/v1alpha1\<close>. Each controller is called with the name of an object,
  reads objects from the API server, asks the node agent for what happens on a host, and writes the status.
  Operator and agent share no connection: the operator posts an operation as a ConfigMap and polls it, and
  reads the disk status from another ConfigMap (\<^verbatim>\<open>controllers/kubernetes_agent_client.go\<close>); the agent
  (\<^verbatim>\<open>node-agent/cmd/kubenas-node-agent/main.go\<close>) lists the posted ConfigMaps, runs the operations on its host
  with \<^verbatim>\<open>node-agent/pkg\<close>, and publishes what \<^verbatim>\<open>lsblk\<close> and \<^verbatim>\<open>smartctl\<close> say. Beside them stand the types and
  controllers of \<^verbatim>\<open>api/v1\<close>, which \<^verbatim>\<open>main\<close> never starts, the CSI driver and some storage helpers.

  \<^bold>\<open>How it is modelled.\<close> A stateful function is a value of the state monad over an unspecified world; the
  client library, the command-line tools and the files are records of operations over this world
  (\<open>env\<close>, \<open>agent_client\<close>, \<open>host\<close>), and what the program relies on of them is a locale (\<open>kube_api\<close>,
  \<open>kube_serving\<close>, \<open>pod_rules\<close>, \<open>observed_client\<close>, \<open>node_agent_client\<close>, \<open>node_host\<close>, \<open>snap_files\<close>, \<open>event_source\<close>,
  \<open>cached_client\<close>), each interpreted on a concrete world. Any operation may fail at any time unless a locale says otherwise. Errors are values of
  \<open>error\<close>; a function that returns a value and an error is a sum. A property of a stateful function is
  a weakest precondition \<open>wp m Q w\<close>, and \<open>wp\<close> is a collection of rewrite rules. 64-bit integers are words,
  \<^verbatim>\<open>float64\<close> is exact rational arithmetic with rounding to the nearest double.

  \<^bold>\<open>Theories.\<close>
  \<^item> \<open>Prelude\<close>: the calculus, work queues, numbers as text. \<open>Float64\<close>: doubles, with monotone rounding.
    \<open>Json\<close>, \<open>Json_Float\<close>: the printer and the parser of \<^verbatim>\<open>encoding/json\<close> as far as the program uses them, with the
    round trip, also for numbers. \<open>Go_Time\<close>: RFC 3339 times.
  \<^item> \<open>Api_Types\<close>, \<open>Conditions\<close>: the types of \<^verbatim>\<open>api/v1alpha1\<close>, its webhooks, condition and finalizer lists.
    \<open>Kube\<close>, \<open>Kube_Api\<close>: objects, resource versions, status subresources, and the contract of the API server.
  \<^item> \<open>Agent_Client\<close>: \<^verbatim>\<open>kubernetes_agent_client.go\<close>; a polling loop of 24 polls two seconds apart.
  \<^item> \<open>Disk_Controller\<close>, \<open>Array_Controller\<close>, \<open>Pool_Controller\<close>, \<open>Share_Controller\<close>, \<open>Parity_Controller\<close>,
    \<open>Rebalance_Controller\<close>, \<open>Failure_Controller\<close>, \<open>Policy_Controllers\<close>: one Go file each. For each controller an abstract
    machine of one object, and the refinement: one call is at most one step of the machine, changes nothing
    else, and leaves the object alone when it returns an error; then what a Ready phase means.
  \<^item> \<open>Placement\<close>: the scheduler of the operator and the engine of \<^verbatim>\<open>storage/scheduler\<close>, and where they agree.
  \<^item> \<open>Node_Host\<close>, \<open>Node_Disk\<close>, \<open>Node_Smart\<close>, \<open>Node_Snapraid\<close>: \<^verbatim>\<open>node-agent/pkg\<close>. \<open>Storage\<close>: the helpers of \<^verbatim>\<open>storage\<close> and
    the CSI driver. \<open>Node_Agent\<close>, \<open>Agent_Contract\<close>: the agent's loops and what they keep.
  \<^item> \<open>Operator_Agent\<close>, \<open>Cluster\<close>: operator and agent on one API server; the agent passes over the operations whenever
    the operator waits. \<open>Closed_Loop\<close>: every reachable state of the two together.
    \<open>Node_Remount\<close>: what repeated operations do to the mounts of a host.
  \<^item> \<open>Operator_Main\<close>: the order of registration and the running operator as a step relation, in which any controller
    handles any request and clients create, edit and delete objects in between. \<open>Watches\<close>: the watches, and when a
    controller runs again.
  \<^item> \<open>Requests\<close>: the next request of a call, as a function of the answers it got so far, by running the controller on a
    client that replays them. \<open>Call_Guards\<close>: what every controller may ask, given what it has read.
    \<open>Interleaving\<close>: any number of calls whose requests are interleaved with each other and with clients, where a
    read may return any version that was ever stored. \<open>Call_Alone\<close>: the run of a call as a whole is one of these.
  \<^item> \<open>Pod_Updates\<close>: a Share whose Pod has to change, on a server that keeps the volumes of Pods fixed.
    \<open>Repo_Tests\<close>: the unit tests of the repository, evaluated on the model.
  \<^item> \<open>Api_V1\<close>, \<open>V1_Controllers\<close>: the types and controllers of \<^verbatim>\<open>api/v1\<close>. \<open>V1_Memory\<close>, \<open>V1_Cache\<close>: the copy methods on an
    explicit memory of maps and arrays, and the heartbeat on an object that shares its maps with the cache.

  \<^bold>\<open>What is shown.\<close> The objects of the store stay consistent, and no spec is ever changed, under every
  interleaving of the requests of the controllers, on stale reads, and with any request failing (\<open>Interleaving\<close>; call by
  call in \<open>Operator_Main\<close>); no update overwrites a version that its call has not read, and what a call claims was
  shown by what it read; a Ready Array, Pool or Share has what it claims; the placement picks an eligible and
  optimal disk; the health score lies in \<open>[0, 1]\<close> and is monotone in spite of rounding; published texts and posted
  operations decode to what was meant; the loops end. And where the code does not do what it means to:
  the final state of an operation is never stored, so no Pool gets Ready; a Pod that has to change is never replaced;
  the v1 controllers never settle
  and lose errors to a shared map; paths of volumes escape their root.

  \<^bold>\<open>Bounds.\<close> The polling loop has its own bound of 24. The shortest text of a double is searched with 1 to 17
  digits, as Go does, and falls back to the exact decimal, so that totality needs no argument about 17
  digits. The JSON parser has fuel of twice the length of its text, and every call
  uses up a character. Functions on strings treat bytes; lower case and trimming are those of ASCII, and the names of Kubernetes
  objects and devices are ASCII. Go may fuse a product and a sum into one rounding on some machines; the
  model rounds each operation, as on amd64.

  \<^bold>\<open>Not modelled.\<close> \<^verbatim>\<open>operator/\<close> holds a second copy of \<^verbatim>\<open>controllers\<close>, \<^verbatim>\<open>api\<close> and \<^verbatim>\<open>cmd\<close>, equal but for import paths. Flags,
  logging, metrics, leader election and the construction of clients; the registration of types with
  the scheme; list types without logic of their own; \<^verbatim>\<open>controllers/types.go\<close> and \<^verbatim>\<open>controllers/share_rbac.go\<close>,
  which declare types that nothing uses. \<open>Operator_Main\<close>, \<open>Closed_Loop\<close> and \<open>Watches\<close> take a call of a controller as one
  step; that its requests are interleaved and its reads come from a cache is the subject of \<open>Interleaving\<close>, where the
  node agent is any client that writes ConfigMaps. The agent is not restarted in \<open>Operator_Agent\<close>. Defaults that the
  API server fills in, and the admission plugins other than the webhooks of the program.
\<close>

end
